(* ===== verification/Prelude.thy ===== *)
theory Prelude
  imports Main "HOL-Library.Word"
begin

text \<open>
  Shared vocabulary of the development: the machine integers of the C++ test bench and of
  the SystemVerilog sources, the splitting of a 64-bit word into little-endian bytes and
  back, and the generic lemmas on lists and words that the component theories use.
  The collection \<open>bytes\<close> gathers the facts that turn byte-level reads and writes into
  equations on whole words.
\<close>

unbundle bit_operations_syntax

named_theorems bytes \<open>facts on little-endian byte splitting\<close>

type_synonym u8 = "8 word"
type_synonym u32 = "32 word"
type_synonym u64 = "64 word"

section \<open>Words and naturals\<close>

lemma unat_of_nat_id: "n < 2 ^ LENGTH('a) \<Longrightarrow> unat (of_nat n :: 'a::len word) = n"
  by (simp add: unat_of_nat take_bit_nat_eq_self)

lemma unat_bound: "unat (w :: 'a::len word) < 2 ^ LENGTH('a)"
  by (rule unsigned_less)

lemma unat_offset: "n < 2 ^ LENGTH('a) \<Longrightarrow> unat (a + of_nat n - a :: 'a::len word) = n"
  by (simp add: unat_of_nat_id)

lemma unat_diff_eqD: "unat (b - a) = n \<Longrightarrow> b = a + (of_nat n :: 'a::len word)"
  by auto

lemma and_255: "w AND 255 = take_bit 8 (w :: 'a::len word)"
  by (simp add: take_bit_eq_mask mask_numeral)

text \<open>Words whose bits do not overlap.\<close>

lemma and_low_zero:
  assumes "take_bit n a = 0" "b = take_bit n b"
  shows "a AND (b :: 'a::len word) = 0"
  by (metis assms take_bit_and and_zero_eq and.commute and.assoc take_bit_eq_mask)

lemma take_bit_0_iff: "take_bit n w = 0 \<longleftrightarrow> (\<forall>k<n. \<not> bit w k)" for w :: "'a::len word"
  by (auto simp: bit_eq_iff bit_take_bit_iff dest: bit_imp_le_length)

section \<open>A word given bit by bit\<close>

definition of_bits :: "(nat \<Rightarrow> bool) \<Rightarrow> 'a::len word" where
  "of_bits f = horner_sum of_bool 2 (map f [0..<LENGTH('a)])"

lemma bit_of_bits [bit_simps]: "bit (of_bits f :: 'a::len word) n \<longleftrightarrow> n < LENGTH('a) \<and> f n"
  by (auto simp: of_bits_def bit_horner_sum_bit_word_iff)

section \<open>Bytes of a word\<close>

definition byte_of :: "u64 \<Rightarrow> nat \<Rightarrow> u8" where
  "byte_of w i = ucast (drop_bit (8 * i) w)"

lemma bit_byte_of [bytes]:
  "bit (byte_of w i) n \<longleftrightarrow> n < 8 \<and> bit w (8 * i + n)"
  by (auto simp: byte_of_def bit_simps)

text \<open>A loop that ORs byte \<open>i\<close> of a list into position \<open>8 * i\<close> of an accumulator.\<close>

definition or_bytes :: "(nat \<Rightarrow> u8) \<Rightarrow> nat \<Rightarrow> 'a::len word" where
  "or_bytes f n = foldl (\<lambda>tr i. tr OR push_bit (8 * i) (ucast (f i))) 0 [0..<n]"

lemma or_bytes_0 [simp]: "or_bytes f 0 = 0"
  by (simp add: or_bytes_def)

lemma or_bytes_Suc:
  "or_bytes f (Suc n) = or_bytes f n OR push_bit (8 * n) (ucast (f n))"
  by (simp add: or_bytes_def)

lemma bit_or_bytes [bytes]:
  fixes n :: nat
  shows "bit (or_bytes f n :: 'a::len word) k \<longleftrightarrow>
    k < LENGTH('a) \<and> k < 8 * n \<and> bit (f (k div 8)) (k mod 8)"
proof (induction n)
  case 0
  show ?case by simp
next
  case (Suc n)
  have split: "(8 * n \<le> k \<and> bit (f n) (k - 8 * n)) \<longleftrightarrow>
      (8 * n \<le> k \<and> k < 8 * Suc n \<and> bit (f (k div 8)) (k mod 8))"
  proof (cases "8 * n \<le> k \<and> k < 8 * Suc n")
    case True
    then have "k div 8 = n" by auto
    then have "k - 8 * n = k mod 8" by (metis minus_mult_div_eq_mod)
    with True \<open>k div 8 = n\<close> show ?thesis by simp
  next
    case False
    moreover have "\<not> bit (f n) (k - 8 * n)" if "8 * Suc n \<le> k"
    proof -
      have "8 \<le> k - 8 * n" using that by simp
      then show ?thesis using bit_imp_le_length [of "f n" "k - 8 * n"] by fastforce
    qed
    ultimately show ?thesis by auto
  qed
  have "bit (or_bytes f (Suc n) :: 'a word) k \<longleftrightarrow>
      bit (or_bytes f n :: 'a word) k \<or> (k < LENGTH('a) \<and> 8 * n \<le> k \<and> bit (f n) (k - 8 * n))"
    by (auto simp: or_bytes_Suc bit_simps dest: bit_imp_le_length)
  then show ?case using Suc.IH split by auto
qed

lemma byte_of_or_bytes:
  assumes "i < n" "n \<le> 8"
  shows "byte_of (or_bytes f n) i = f i"
proof (rule bit_word_eqI)
  fix k assume "k < LENGTH(8)"
  then have k: "k < 8" by simp
  then have d: "(8 * i + k) div 8 = i" "(8 * i + k) mod 8 = k" by auto
  have "8 * i + k < 8 * n" using assms(1) k by linarith
  moreover have "8 * i + k < 64" using assms k by linarith
  ultimately show "bit (byte_of (or_bytes f n) i) k = bit (f i) k"
    using k d by (simp add: bytes)
qed

lemma or_bytes_byte_of: "or_bytes (byte_of w) 8 = w"
  by (rule bit_word_eqI) (simp add: bytes)

lemma or_bytes_cong [cong]:
  "n = m \<Longrightarrow> (\<And>i. i < m \<Longrightarrow> f i = g i) \<Longrightarrow> or_bytes f n = or_bytes g m"
  by (induction m arbitrary: n) (simp_all add: or_bytes_Suc)

lemma u64_eq_bytes: "(\<And>i. i < 8 \<Longrightarrow> byte_of v i = byte_of w i) \<Longrightarrow> v = w"
  by (metis or_bytes_byte_of or_bytes_cong)

end
