(* ===== verification/Txns.thy ===== *)
theory Txns
  imports Prelude
begin

text \<open>
  Memory transactions of the C++ test bench (\<open>verif/share/verilator/memory_txns.hpp\<close>):
  the base class \<open>memory_txn\<close>, its request and response subclasses, and the two
  little-endian readers. The static identifier counter is passed in and returned
  incremented, as each constructor call reads and bumps it.
\<close>

type_synonym memory_address = u64

record memory_txn =
  txn_id :: u64
  txn_addr :: memory_address
  txn_size :: u64
  txn_write :: bool
  txn_data :: "u8 list"
  txn_strb :: "bool list"

record memory_rsp_txn = memory_txn +
  rsp_error :: bool
  rsp_req :: memory_txn

definition new_memory_txn ::
  "u64 \<Rightarrow> memory_address \<Rightarrow> u64 \<Rightarrow> bool \<Rightarrow> memory_txn \<times> u64" where
  "new_memory_txn ctr addr sz write =
     (\<lparr>txn_id = ctr, txn_addr = addr, txn_size = sz, txn_write = write,
       txn_data = replicate (unat sz) 0, txn_strb = replicate (unat sz) True\<rparr>, ctr + 1)"

definition is_write :: "('a) memory_txn_scheme \<Rightarrow> bool" where
  "is_write t = txn_write t"

definition is_read :: "('a) memory_txn_scheme \<Rightarrow> bool" where
  "is_read t = (\<not> txn_write t)"

definition new_memory_req_txn ::
  "u64 \<Rightarrow> memory_address \<Rightarrow> u64 \<Rightarrow> bool \<Rightarrow> memory_txn \<times> u64" where
  "new_memory_req_txn ctr addr sz write = new_memory_txn ctr addr sz write"

definition new_memory_rsp_txn :: "u64 \<Rightarrow> memory_txn \<Rightarrow> bool \<Rightarrow> memory_rsp_txn \<times> u64" where
  "new_memory_rsp_txn ctr req error =
     (case new_memory_txn ctr (txn_addr req) (txn_size req) (is_write req) of
        (b, ctr') \<Rightarrow>
          (\<lparr>txn_id = txn_id b, txn_addr = txn_addr b, txn_size = txn_size b,
            txn_write = txn_write b, txn_data = txn_data b, txn_strb = txn_strb b,
            rsp_error = error, rsp_req = req\<rparr>, ctr'))"

definition set_error :: "memory_rsp_txn \<Rightarrow> memory_rsp_txn" where
  "set_error r = r\<lparr>rsp_error := True\<rparr>"

text \<open>The first four (eight) bytes of the data buffer, fewer when the transaction is shorter.\<close>

definition data_word :: "('a) memory_txn_scheme \<Rightarrow> u32" where
  "data_word t = or_bytes (\<lambda>i. txn_data t ! i) (min (unat (txn_size t)) 4)"

definition data_dword :: "('a) memory_txn_scheme \<Rightarrow> u64" where
  "data_dword t = or_bytes (\<lambda>i. txn_data t ! i) (min (unat (txn_size t)) 8)"

text \<open>A transaction is well formed when both its buffers have the length it declares.\<close>

definition wf_txn :: "('a) memory_txn_scheme \<Rightarrow> bool" where
  "wf_txn t \<longleftrightarrow> length (txn_data t) = unat (txn_size t) \<and> length (txn_strb t) = unat (txn_size t)"

lemma new_memory_txn_fields [simp]:
  "txn_id (fst (new_memory_txn c a n w)) = c"
  "txn_addr (fst (new_memory_txn c a n w)) = a"
  "txn_size (fst (new_memory_txn c a n w)) = n"
  "txn_write (fst (new_memory_txn c a n w)) = w"
  "txn_data (fst (new_memory_txn c a n w)) = replicate (unat n) 0"
  "txn_strb (fst (new_memory_txn c a n w)) = replicate (unat n) True"
  "snd (new_memory_txn c a n w) = c + 1"
  by (simp_all add: new_memory_txn_def)

lemma new_memory_rsp_txn_fields [simp]:
  "txn_addr (fst (new_memory_rsp_txn c q e)) = txn_addr q"
  "txn_size (fst (new_memory_rsp_txn c q e)) = txn_size q"
  "txn_write (fst (new_memory_rsp_txn c q e)) = txn_write q"
  "txn_data (fst (new_memory_rsp_txn c q e)) = replicate (unat (txn_size q)) 0"
  "rsp_error (fst (new_memory_rsp_txn c q e)) = e"
  "rsp_req (fst (new_memory_rsp_txn c q e)) = q"
  "snd (new_memory_rsp_txn c q e) = c + 1"
  by (simp_all add: new_memory_rsp_txn_def new_memory_txn_def is_write_def)

lemma wf_new_txn: "wf_txn (fst (new_memory_txn c a n w))"
  by (simp add: wf_txn_def)

lemma data_dword_bytes:
  "txn_size t = 8 \<Longrightarrow> i < 8 \<Longrightarrow> byte_of (data_dword t) i = txn_data t ! i"
  by (simp add: data_dword_def byte_of_or_bytes)

lemma data_dword_zero:
  "txn_size t = 8 \<Longrightarrow> txn_data t = replicate 8 0 \<Longrightarrow> data_dword t = 0"
  by (rule bit_word_eqI) (auto simp: data_dword_def bytes nth_replicate)

end
