(* ===== verification/Devices.thy ===== *)
theory Devices
  imports Txns
begin

text \<open>
  The memory-mapped devices of the test bench: the abstract class \<open>memory_device\<close>
  (\<open>memory_device.hpp\<close>, \<open>memory_device.cpp\<close>), the RAM (\<open>memory_device_ram\<close>) and the
  UART (\<open>memory_device_uart\<close>). Virtual dispatch is a case distinction on the datatype
  \<open>device\<close>. Two interfaces are stated as locales: \<open>byte_device\<close>, what every device keeps
  (its address range), and \<open>byte_store\<close>, a device that also behaves as memory.
\<close>

section \<open>The base class\<close>

record memory_device =
  addr_base :: memory_address
  addr_top :: memory_address
  addr_range :: u64

definition new_memory_device :: "u64 \<Rightarrow> u64 \<Rightarrow> memory_device" where
  "new_memory_device base rng = \<lparr>addr_base = base, addr_top = base + rng, addr_range = rng\<rparr>"

definition in_range_addr :: "memory_device \<Rightarrow> memory_address \<Rightarrow> bool" where
  "in_range_addr d addr \<longleftrightarrow> addr \<ge> addr_base d \<and> addr < addr_top d"

definition in_range_span :: "memory_device \<Rightarrow> memory_address \<Rightarrow> u64 \<Rightarrow> bool" where
  "in_range_span d addr sz \<longleftrightarrow> addr \<ge> addr_base d \<and> addr + sz \<le> addr_top d"

definition in_range_req :: "memory_device \<Rightarrow> memory_txn \<Rightarrow> bool" where
  "in_range_req d req \<longleftrightarrow> in_range_span d (txn_addr req) (txn_size req)"

text \<open>
  \<open>read_range\<close> and \<open>write_range\<close> are template methods: they walk the addresses and call
  the virtual \<open>in_range\<close>, \<open>read_byte\<close> and \<open>write_byte\<close>, which are arguments here. The
  buffer \<open>rdata\<close> is the caller's; bytes stored before an out-of-range address stay in it.
\<close>

fun read_range_from ::
  "('s \<Rightarrow> memory_address \<Rightarrow> bool) \<Rightarrow> ('s \<Rightarrow> memory_address \<Rightarrow> u8 \<times> 's) \<Rightarrow>
   nat \<Rightarrow> nat \<Rightarrow> memory_address \<Rightarrow> u8 list \<Rightarrow> 's \<Rightarrow> bool \<times> u8 list \<times> 's" where
  "read_range_from inr rd 0 i addr rdata s = (True, rdata, s)"
| "read_range_from inr rd (Suc n) i addr rdata s =
     (let a = addr + of_nat i in
      if inr s a then
        (case rd s a of (b, s') \<Rightarrow> read_range_from inr rd n (Suc i) addr (rdata[i := b]) s')
      else (False, rdata, s))"

definition read_range ::
  "('s \<Rightarrow> memory_address \<Rightarrow> bool) \<Rightarrow> ('s \<Rightarrow> memory_address \<Rightarrow> u8 \<times> 's) \<Rightarrow>
   's \<Rightarrow> memory_address \<Rightarrow> u64 \<Rightarrow> u8 list \<Rightarrow> bool \<times> u8 list \<times> 's" where
  "read_range inr rd s addr sz rdata = read_range_from inr rd (unat sz) 0 addr rdata s"

fun write_range_from ::
  "('s \<Rightarrow> memory_address \<Rightarrow> bool) \<Rightarrow> ('s \<Rightarrow> memory_address \<Rightarrow> u8 \<Rightarrow> bool \<times> 's) \<Rightarrow>
   nat \<Rightarrow> nat \<Rightarrow> memory_address \<Rightarrow> u8 list \<Rightarrow> bool list \<Rightarrow> 's \<Rightarrow> bool \<times> 's" where
  "write_range_from inr wr 0 i addr wdata strb s = (True, s)"
| "write_range_from inr wr (Suc n) i addr wdata strb s =
     (let a = addr + of_nat i in
      if inr s a then
        (let s' = (if strb ! i then snd (wr s a (wdata ! i)) else s)
         in write_range_from inr wr n (Suc i) addr wdata strb s')
      else (False, s))"

definition write_range ::
  "('s \<Rightarrow> memory_address \<Rightarrow> bool) \<Rightarrow> ('s \<Rightarrow> memory_address \<Rightarrow> u8 \<Rightarrow> bool \<times> 's) \<Rightarrow>
   's \<Rightarrow> memory_address \<Rightarrow> u64 \<Rightarrow> u8 list \<Rightarrow> bool list \<Rightarrow> bool \<times> 's" where
  "write_range inr wr s addr sz wdata strb =
     write_range_from inr wr (unat sz) 0 addr wdata strb s"

section \<open>The RAM\<close>

record ram =
  ram_dev :: memory_device
  ram_memory :: "memory_address \<rightharpoonup> u8"

definition new_ram :: "memory_address \<Rightarrow> u64 \<Rightarrow> ram" where
  "new_ram base rng = \<lparr>ram_dev = new_memory_device base rng, ram_memory = Map.empty\<rparr>"

text \<open>\<open>std::map::operator[]\<close> inserts a zero for a key that is not there yet.\<close>

definition ram_index :: "ram \<Rightarrow> memory_address \<Rightarrow> u8 \<times> ram" where
  "ram_index r addr =
     (case ram_memory r addr of
        Some v \<Rightarrow> (v, r)
      | None \<Rightarrow> (0, r\<lparr>ram_memory := (ram_memory r)(addr \<mapsto> 0)\<rparr>))"

definition ram_read_word :: "ram \<Rightarrow> memory_address \<Rightarrow> u32 option \<times> ram" where
  "ram_read_word r addr =
     (if in_range_span (ram_dev r) addr 3 then
        (case ram_index r (addr + 3) of (b3, r3) \<Rightarrow>
         case ram_index r3 (addr + 2) of (b2, r2) \<Rightarrow>
         case ram_index r2 (addr + 1) of (b1, r1) \<Rightarrow>
         case ram_index r1 (addr + 0) of (b0, r0) \<Rightarrow>
           (Some (push_bit 24 (ucast b3) OR push_bit 16 (ucast b2) OR
                  push_bit 8 (ucast b1) OR push_bit 0 (ucast b0)), r0))
      else (None, r))"

definition ram_read_byte :: "ram \<Rightarrow> memory_address \<Rightarrow> u8 \<times> ram" where
  "ram_read_byte r addr = ram_index r addr"

definition ram_write_byte :: "ram \<Rightarrow> memory_address \<Rightarrow> u8 \<Rightarrow> bool \<times> ram" where
  "ram_write_byte r addr data =
     (if in_range_span (ram_dev r) addr 0
      then (True, r\<lparr>ram_memory := (ram_memory r)(addr \<mapsto> data)\<rparr>)
      else (False, r))"

section \<open>The UART\<close>

text \<open>
  The four registers are never initialised by the constructor; their initial contents are
  an argument. \<open>uart_cout\<close> collects what the device prints on standard output, byte by
  byte, \<open>uart_cerr\<close> counts the messages on standard error.
\<close>

record uart =
  uart_dev :: memory_device
  addr_tx :: memory_address
  addr_rx :: memory_address
  addr_ctrl :: memory_address
  addr_status :: memory_address
  reg_tx :: u32
  reg_rx :: u32
  reg_ctrl :: u32
  reg_status :: u32
  rx_buffer :: "u8 list"
  tx_buffer :: "u8 list"
  uart_cout :: "u8 list"
  uart_cerr :: nat

definition MEMORY_DEVICE_UART_RANGE :: u64 where
  "MEMORY_DEVICE_UART_RANGE = 8"

definition new_uart :: "memory_address \<Rightarrow> u32 \<Rightarrow> u32 \<Rightarrow> u32 \<Rightarrow> u32 \<Rightarrow> uart" where
  "new_uart base tx rx ctrl status =
     (let d = new_memory_device base MEMORY_DEVICE_UART_RANGE in
      \<lparr>uart_dev = d, addr_tx = addr_base d + 0, addr_rx = addr_base d + 4,
       addr_ctrl = addr_base d + 8, addr_status = addr_base d + 12,
       reg_tx = tx, reg_rx = rx, reg_ctrl = ctrl, reg_status = status,
       rx_buffer = [], tx_buffer = [], uart_cout = [], uart_cerr = 0\<rparr>)"

text \<open>
  \<open>read_word\<close> assigns the address of a register to its own copy of the pointer
  \<open>dout\<close>: the caller's word \<open>dout\<close> is returned as it was passed in.
\<close>

definition uart_read_word :: "uart \<Rightarrow> memory_address \<Rightarrow> u32 \<Rightarrow> bool \<times> u32" where
  "uart_read_word u addr dout =
     (if addr = addr_tx u then (True, dout)
      else if addr = addr_rx u then (True, dout)
      else if addr = addr_ctrl u then (True, dout)
      else if addr = addr_status u then (True, dout)
      else (False, dout))"

definition get_from_rx_buffer :: "uart \<Rightarrow> u8 \<times> uart" where
  "get_from_rx_buffer u =
     (case rx_buffer u of
        tr # rest \<Rightarrow> (tr, u\<lparr>rx_buffer := rest\<rparr>)
      | [] \<Rightarrow> (0, u))"

text \<open>The inner loop of \<open>write_to_tx_buffer\<close>: print and pop until the queue is empty.\<close>

fun print_tx :: "u8 list \<Rightarrow> u8 list \<Rightarrow> u8 list" where
  "print_tx [] out = out"
| "print_tx (c # q) out = print_tx q (out @ [c])"

definition newline :: u8 where "newline = 10"

definition write_to_tx_buffer :: "uart \<Rightarrow> u8 \<Rightarrow> uart" where
  "write_to_tx_buffer u data =
     (let u' = u\<lparr>tx_buffer := tx_buffer u @ [data]\<rparr> in
      if data = newline then
        u'\<lparr>uart_cout := print_tx (tx_buffer u') (uart_cout u' @ [36, 32]), tx_buffer := []\<rparr>
      else u')"

definition uart_write_byte :: "uart \<Rightarrow> memory_address \<Rightarrow> u8 \<Rightarrow> bool \<times> uart" where
  "uart_write_byte u addr data =
     (if addr = addr_tx u then
        (True, if addr AND 3 = 0 then write_to_tx_buffer u data else u)
      else if addr = addr_rx u then (True, u)
      else if addr = addr_ctrl u then (False, u\<lparr>uart_cerr := Suc (uart_cerr u)\<rparr>)
      else if addr = addr_status u then (False, u\<lparr>uart_cerr := Suc (uart_cerr u)\<rparr>)
      else (False, u))"

text \<open>
  The condition \<open>addr & 0b11 == 0\<close> of the source groups as \<open>addr & (0b11 == 0)\<close>, and the
  comparison is the integer 0.
\<close>

definition uart_read_byte :: "uart \<Rightarrow> memory_address \<Rightarrow> u8 \<times> uart" where
  "uart_read_byte u addr =
     (if addr = addr_tx u then
        (if addr AND of_bool ((3 :: nat) = 0) \<noteq> 0
         then (ucast (reg_tx u AND 255), u) else (0, u))
      else if addr = addr_rx u then get_from_rx_buffer u
      else if addr = addr_ctrl u then (0, u\<lparr>uart_cerr := Suc (uart_cerr u)\<rparr>)
      else if addr = addr_status u then (0, u\<lparr>uart_cerr := Suc (uart_cerr u)\<rparr>)
      else (0, u))"

section \<open>Dynamic dispatch\<close>

datatype device = Ram ram | Uart uart

fun device_base :: "device \<Rightarrow> memory_device" where
  "device_base (Ram r) = ram_dev r"
| "device_base (Uart u) = uart_dev u"

definition device_in_range :: "device \<Rightarrow> memory_address \<Rightarrow> bool" where
  "device_in_range d addr = in_range_addr (device_base d) addr"

fun device_read_byte :: "device \<Rightarrow> memory_address \<Rightarrow> u8 \<times> device" where
  "device_read_byte (Ram r) addr = (case ram_read_byte r addr of (b, r') \<Rightarrow> (b, Ram r'))"
| "device_read_byte (Uart u) addr = (case uart_read_byte u addr of (b, u') \<Rightarrow> (b, Uart u'))"

fun device_write_byte :: "device \<Rightarrow> memory_address \<Rightarrow> u8 \<Rightarrow> bool \<times> device" where
  "device_write_byte (Ram r) addr data = (case ram_write_byte r addr data of (b, r') \<Rightarrow> (b, Ram r'))"
| "device_write_byte (Uart u) addr data = (case uart_write_byte u addr data of (b, u') \<Rightarrow> (b, Uart u'))"

definition device_read_range ::
  "device \<Rightarrow> memory_address \<Rightarrow> u64 \<Rightarrow> u8 list \<Rightarrow> bool \<times> u8 list \<times> device" where
  "device_read_range d = read_range device_in_range device_read_byte d"

definition device_write_range ::
  "device \<Rightarrow> memory_address \<Rightarrow> u64 \<Rightarrow> u8 list \<Rightarrow> bool list \<Rightarrow> bool \<times> device" where
  "device_write_range d = write_range device_in_range device_write_byte d"

section \<open>What every device keeps: its address range\<close>

locale byte_device =
  fixes inr :: "'s \<Rightarrow> memory_address \<Rightarrow> bool"
    and rd :: "'s \<Rightarrow> memory_address \<Rightarrow> u8 \<times> 's"
    and wr :: "'s \<Rightarrow> memory_address \<Rightarrow> u8 \<Rightarrow> bool \<times> 's"
  assumes inr_rd: "inr (snd (rd s a)) = inr s"
    and inr_wr: "inr (snd (wr s a v)) = inr s"
begin

lemma read_from_inr:
  "inr (snd (snd (read_range_from inr rd n i addr buf s))) = inr s"
proof (induction n arbitrary: i buf s)
  case (Suc n)
  then show ?case
    using inr_rd [of s "addr + of_nat i"] by (auto simp: Let_def split: prod.splits)
qed simp

lemma read_from_length:
  "length (fst (snd (read_range_from inr rd n i addr buf s))) = length buf"
  by (induction n arbitrary: i buf s) (auto simp: Let_def split: prod.splits)

lemma read_from_ok:
  "fst (read_range_from inr rd n i addr buf s) \<longleftrightarrow> (\<forall>k<n. inr s (addr + of_nat (i + k)))"
proof (induction n arbitrary: i buf s)
  case (Suc n)
  obtain b s' where b: "rd s (addr + of_nat i) = (b, s')" by fastforce
  then have "inr s' = inr s" by (metis inr_rd snd_conv)
  with b Suc.IH [of "Suc i" "buf[i := b]" s'] show ?case
    by (auto simp: Let_def less_Suc_eq_0_disj simp del: of_nat_add of_nat_Suc)
qed simp

lemma write_from_inr:
  "inr (snd (write_range_from inr wr n i addr wdata strb s)) = inr s"
  by (induction n arbitrary: i s) (auto simp: Let_def inr_wr)

lemma write_from_ok:
  "fst (write_range_from inr wr n i addr wdata strb s) \<longleftrightarrow>
     (\<forall>k<n. inr s (addr + of_nat (i + k)))"
proof (induction n arbitrary: i s)
  case (Suc n)
  show ?case
    using Suc.IH [of "Suc i"]
    by (auto simp: Let_def less_Suc_eq_0_disj inr_wr simp del: of_nat_add of_nat_Suc)
qed simp

lemma read_range_ok:
  "fst (read_range inr rd s addr sz buf) \<longleftrightarrow> (\<forall>k<unat sz. inr s (addr + of_nat k))"
  by (simp add: read_range_def read_from_ok)

lemma write_range_ok:
  "fst (write_range inr wr s addr sz wdata strb) \<longleftrightarrow> (\<forall>k<unat sz. inr s (addr + of_nat k))"
  by (simp add: write_range_def write_from_ok)

lemmas range_frame = read_from_inr write_from_inr read_from_length

end

section \<open>A device that is memory\<close>

locale byte_store = byte_device inr rd wr
  for inr :: "'s \<Rightarrow> memory_address \<Rightarrow> bool"
    and rd :: "'s \<Rightarrow> memory_address \<Rightarrow> u8 \<times> 's"
    and wr :: "'s \<Rightarrow> memory_address \<Rightarrow> u8 \<Rightarrow> bool \<times> 's" +
  fixes cont :: "'s \<Rightarrow> memory_address \<Rightarrow> u8"
  assumes rd_val: "inr s a \<Longrightarrow> fst (rd s a) = cont s a"
    and cont_rd: "inr s a \<Longrightarrow> cont (snd (rd s a)) = cont s"
    and wr_ok: "inr s a \<Longrightarrow> fst (wr s a v)"
    and cont_wr: "inr s a \<Longrightarrow> cont (snd (wr s a v)) = (cont s)(a := v)"
begin

lemma read_from_cont:
  "cont (snd (snd (read_range_from inr rd n i addr buf s))) = cont s"
proof (induction n arbitrary: i buf s)
  case (Suc n)
  then show ?case
    using cont_rd [of s "addr + of_nat i"] by (auto simp: Let_def split: prod.splits)
qed simp

lemma read_from_nth:
  assumes "fst (read_range_from inr rd n i addr buf s)" "k < length buf"
  shows "fst (snd (read_range_from inr rd n i addr buf s)) ! k =
    (if i \<le> k \<and> k < i + n then cont s (addr + of_nat k) else buf ! k)"
  using assms
proof (induction n arbitrary: i buf s)
  case (Suc n)
  obtain b s' where b: "rd s (addr + of_nat i) = (b, s')" by fastforce
  from Suc.prems(1) have r: "inr s (addr + of_nat i)" by (simp add: Let_def split: if_splits)
  then have "b = cont s (addr + of_nat i)" "cont s' = cont s"
    using b rd_val cont_rd by (metis fst_conv, metis snd_conv)
  with b r Suc show ?case
    by (cases "k = i") (auto simp: Let_def nth_list_update)
qed auto

lemma write_from_cont:
  assumes "fst (write_range_from inr wr n i addr wdata strb s)" "i + n \<le> 2 ^ 64"
  shows "cont (snd (write_range_from inr wr n i addr wdata strb s)) =
    (\<lambda>b. let k = unat (b - addr) in
         if i \<le> k \<and> k < i + n \<and> strb ! k then wdata ! k else cont s b)"
  using assms
proof (induction n arbitrary: i s)
  case 0
  then show ?case by (auto simp: fun_eq_iff Let_def)
next
  case (Suc n)
  let ?a = "addr + of_nat i :: u64"
  define s2 where "s2 = (if strb ! i then snd (wr s ?a (wdata ! i)) else s)"
  from Suc.prems(1) have r: "inr s ?a" by (simp add: Let_def split: if_splits)
  have step: "write_range_from inr wr (Suc n) i addr wdata strb s =
      write_range_from inr wr n (Suc i) addr wdata strb s2"
    using r by (simp add: Let_def s2_def)
  have i: "unat (?a - addr) = i" using Suc.prems(2) by (intro unat_offset) simp
  have c: "cont s2 b = (if strb ! i \<and> unat (b - addr) = i then wdata ! i else cont s b)" for b
  proof (cases "b = ?a")
    case True
    then show ?thesis using r i by (simp add: s2_def cont_wr)
  next
    case False
    then have "unat (b - addr) \<noteq> i"
      using unat_diff_eqD [of b addr i] by blast
    with False r show ?thesis by (simp add: s2_def cont_wr)
  qed
  have IH: "cont (snd (write_range_from inr wr n (Suc i) addr wdata strb s2)) b =
      (let k = unat (b - addr) in
         if Suc i \<le> k \<and> k < Suc i + n \<and> strb ! k then wdata ! k else cont s2 b)" for b
    using Suc.IH [of "Suc i" s2] Suc.prems step by simp
  show ?case
  proof
    fix b
    show "cont (snd (write_range_from inr wr (Suc n) i addr wdata strb s)) b =
        (let k = unat (b - addr) in
           if i \<le> k \<and> k < i + Suc n \<and> strb ! k then wdata ! k else cont s b)"
      unfolding step IH c by (cases "unat (b - addr) = i") (auto simp: Let_def)
  qed
qed

lemma read_range_cont: "cont (snd (snd (read_range inr rd s addr sz buf))) = cont s"
  by (simp add: read_range_def read_from_cont)

lemma read_range_data:
  assumes "\<forall>k<unat sz. inr s (addr + of_nat k)" "length buf = unat sz"
  shows "fst (snd (read_range inr rd s addr sz buf)) =
    map (\<lambda>k. cont s (addr + of_nat k)) [0..<unat sz]"
proof (rule nth_equalityI)
  have ok: "fst (read_range_from inr rd (unat sz) 0 addr buf s)"
    using assms(1) by (simp add: read_from_ok)
  show "length (fst (snd (read_range inr rd s addr sz buf))) =
      length (map (\<lambda>k. cont s (addr + of_nat k)) [0..<unat sz])"
    using assms(2) by (simp add: read_range_def read_from_length)
  fix k assume "k < length (fst (snd (read_range inr rd s addr sz buf)))"
  then have "k < unat sz" using assms(2) by (simp add: read_range_def read_from_length)
  with ok assms(2) show "fst (snd (read_range inr rd s addr sz buf)) ! k =
      map (\<lambda>k. cont s (addr + of_nat k)) [0..<unat sz] ! k"
    by (simp add: read_range_def read_from_nth)
qed

lemma write_range_cont:
  assumes "\<forall>k<unat sz. inr s (addr + of_nat k)"
  shows "cont (snd (write_range inr wr s addr sz wdata strb)) =
    (\<lambda>b. let k = unat (b - addr) in
         if k < unat sz \<and> strb ! k then wdata ! k else cont s b)"
proof -
  have "fst (write_range_from inr wr (unat sz) 0 addr wdata strb s)"
    using assms by (simp add: write_from_ok)
  moreover have "unat sz \<le> 2 ^ 64" using unat_bound [of sz] by simp
  ultimately show ?thesis
    using write_from_cont [of "unat sz" 0] by (simp add: write_range_def)
qed

text \<open>A write followed by a read of the same span: strobed bytes are new, the others old.\<close>

lemma write_read_range:
  fixes wdata :: "u8 list" and strb :: "bool list"
  assumes "\<forall>k<unat sz. inr s (addr + of_nat k)" "length buf = unat sz"
  defines "s' \<equiv> snd (write_range inr wr s addr sz wdata strb)"
  shows "read_range inr rd s' addr sz buf =
    (True, map (\<lambda>k. if strb ! k then wdata ! k else cont s (addr + of_nat k)) [0..<unat sz],
     snd (snd (read_range inr rd s' addr sz buf)))"
proof -
  have inr': "inr s' = inr s" by (simp add: s'_def write_range_def write_from_inr)
  have k: "unat (addr + of_nat k - addr) = k" if "k < unat sz" for k
  proof -
    have "k < 2 ^ LENGTH(64)" using that unat_bound [of sz] by (rule order.strict_trans)
    then show ?thesis by (rule unat_offset)
  qed
  have c: "cont s' (addr + of_nat k) =
      (if strb ! k then wdata ! k else cont s (addr + of_nat k))" if "k < unat sz" for k
    using that k [OF that] assms(1) by (simp add: s'_def write_range_cont Let_def)
  have "fst (snd (read_range inr rd s' addr sz buf)) =
      map (\<lambda>k. cont s' (addr + of_nat k)) [0..<unat sz]"
    by (rule read_range_data) (use assms inr' in auto)
  then have "fst (snd (read_range inr rd s' addr sz buf)) =
      map (\<lambda>k. if strb ! k then wdata ! k else cont s (addr + of_nat k)) [0..<unat sz]"
    using c by simp
  moreover have "fst (read_range inr rd s' addr sz buf)"
    using assms(1) inr' by (simp add: read_range_ok)
  ultimately show ?thesis by (simp add: prod_eq_iff)
qed

end

section \<open>The RAM as a byte store\<close>

definition ram_in_range :: "ram \<Rightarrow> memory_address \<Rightarrow> bool" where
  "ram_in_range r addr = in_range_addr (ram_dev r) addr"

text \<open>The contents the RAM shows: absent keys read as zero.\<close>

definition ram_cont :: "ram \<Rightarrow> memory_address \<Rightarrow> u8" where
  "ram_cont r addr = (case ram_memory r addr of Some v \<Rightarrow> v | None \<Rightarrow> 0)"

lemma ram_index_val: "fst (ram_index r a) = ram_cont r a"
  by (simp add: ram_index_def ram_cont_def split: option.split)

lemma ram_index_cont [simp]: "ram_cont (snd (ram_index r a)) = ram_cont r"
  by (auto simp: ram_index_def ram_cont_def fun_eq_iff split: option.split)

lemma ram_index_dev [simp]: "ram_dev (snd (ram_index r a)) = ram_dev r"
  by (simp add: ram_index_def split: option.split)

lemma in_range_addr_span0: "in_range_addr d a \<Longrightarrow> in_range_span d a 0"
  by (auto simp: in_range_addr_def in_range_span_def)

interpretation ram: byte_store ram_in_range ram_read_byte ram_write_byte ram_cont
  by unfold_locales
    (auto simp: ram_in_range_def ram_read_byte_def ram_write_byte_def ram_index_val
      in_range_addr_span0 ram_cont_def fun_eq_iff)

section \<open>Every device keeps its address range\<close>

lemma uart_dev_get [simp]: "uart_dev (snd (get_from_rx_buffer u)) = uart_dev u"
  by (simp add: get_from_rx_buffer_def split: list.split)

lemma uart_dev_tx [simp]: "uart_dev (write_to_tx_buffer u v) = uart_dev u"
  by (simp add: write_to_tx_buffer_def Let_def)

lemma device_base_rd [simp]: "device_base (snd (device_read_byte d a)) = device_base d"
  by (cases d) (simp_all add: ram_read_byte_def uart_read_byte_def case_prod_unfold)

lemma device_base_wr [simp]: "device_base (snd (device_write_byte d a v)) = device_base d"
  by (cases d) (simp_all add: ram_write_byte_def uart_write_byte_def)

interpretation dev: byte_device device_in_range device_read_byte device_write_byte
  by unfold_locales (simp_all add: device_in_range_def fun_eq_iff)

end
