(* ===== verification/Bus.thy ===== *)
theory Bus
  imports Devices
begin

text \<open>
  The memory bus of the test bench (\<open>verif/share/verilator/memory_bus.hpp\<close> and
  \<open>memory_bus.cpp\<close>): an ordered list of devices, the address decoder, the transaction
  interface \<open>request\<close> and the byte interface used to load programs and read signatures.
  The abstract view of a bus is \<open>bus_cont\<close>, the bytes its RAMs show; the bus itself is
  interpreted as a \<open>byte_store\<close> over that view.
\<close>

record memory_bus =
  bus_devices :: "device list"
  bus_txn_ids :: u64

definition new_memory_bus :: memory_bus where
  "new_memory_bus = \<lparr>bus_devices = [], bus_txn_ids = 0\<rparr>"

definition ranges_clash :: "memory_device \<Rightarrow> memory_device \<Rightarrow> bool" where
  "ranges_clash new it \<longleftrightarrow>
     addr_base new \<ge> addr_base it \<and> addr_base new \<le> addr_top it \<or>
     addr_top new \<ge> addr_base it \<and> addr_top new \<le> addr_top it"

fun any_clash :: "memory_device \<Rightarrow> device list \<Rightarrow> bool" where
  "any_clash new [] = False"
| "any_clash new (it # rest) = (if ranges_clash new (device_base it) then True else any_clash new rest)"

definition add_device :: "memory_bus \<Rightarrow> device \<Rightarrow> bool \<times> memory_bus" where
  "add_device bus d =
     (if any_clash (device_base d) (bus_devices bus) then (False, bus)
      else (True, bus\<lparr>bus_devices := bus_devices bus @ [d]\<rparr>))"

text \<open>The device pointer returned by \<open>get_device_at\<close> is an index into the list.\<close>

fun find_device :: "device list \<Rightarrow> nat \<Rightarrow> memory_address \<Rightarrow> nat option" where
  "find_device [] i addr = None"
| "find_device (it # rest) i addr =
     (if device_in_range it addr then Some i else find_device rest (Suc i) addr)"

definition get_device_at :: "memory_bus \<Rightarrow> memory_address \<Rightarrow> nat option" where
  "get_device_at bus addr = find_device (bus_devices bus) 0 addr"

definition put_device :: "memory_bus \<Rightarrow> nat \<Rightarrow> device \<Rightarrow> memory_bus" where
  "put_device bus i d = bus\<lparr>bus_devices := (bus_devices bus)[i := d]\<rparr>"

definition alloc_rsp :: "memory_bus \<Rightarrow> memory_txn \<Rightarrow> bool \<Rightarrow> memory_rsp_txn \<times> memory_bus" where
  "alloc_rsp bus req error =
     (case new_memory_rsp_txn (bus_txn_ids bus) req error of
        (rsp, ids) \<Rightarrow> (rsp, bus\<lparr>bus_txn_ids := ids\<rparr>))"

definition request :: "memory_bus \<Rightarrow> memory_txn \<Rightarrow> memory_rsp_txn \<times> memory_bus" where
  "request bus req =
     (case get_device_at bus (txn_addr req) of
        None \<Rightarrow> alloc_rsp bus req True
      | Some i \<Rightarrow>
          (let device = bus_devices bus ! i in
           if \<not> in_range_req (device_base device) req then alloc_rsp bus req True
           else
             (case alloc_rsp bus req False of (rsp, bus1) \<Rightarrow>
                if is_write req then
                  (case device_write_range device (txn_addr req) (txn_size req)
                          (txn_data req) (txn_strb req) of
                     (result, device') \<Rightarrow>
                       (if \<not> result then set_error rsp else rsp, put_device bus1 i device'))
                else
                  (case device_read_range device (txn_addr req) (txn_size req) (txn_data rsp) of
                     (result, rdata, device') \<Rightarrow>
                       (let rsp' = rsp\<lparr>txn_data := rdata\<rparr> in
                        (if \<not> result then set_error rsp' else rsp', put_device bus1 i device'))))))"

text \<open>The byte interface; the constant \<open>-1\<close> is converted to \<open>uint8_t\<close> and to \<open>bool\<close>.\<close>

definition bus_read_byte :: "memory_bus \<Rightarrow> memory_address \<Rightarrow> u8 \<times> memory_bus" where
  "bus_read_byte bus addr =
     (case get_device_at bus addr of
        None \<Rightarrow> (- 1, bus)
      | Some i \<Rightarrow> (case device_read_byte (bus_devices bus ! i) addr of
                    (b, d') \<Rightarrow> (b, put_device bus i d')))"

definition bus_write_byte :: "memory_bus \<Rightarrow> memory_address \<Rightarrow> u8 \<Rightarrow> bool \<times> memory_bus" where
  "bus_write_byte bus addr data =
     (case get_device_at bus addr of
        None \<Rightarrow> (True, bus)
      | Some i \<Rightarrow> (case device_write_byte (bus_devices bus ! i) addr data of
                    (ok, d') \<Rightarrow> (ok, put_device bus i d')))"

section \<open>The address decoder\<close>

lemma find_device_Some:
  "find_device ds i addr = Some j \<Longrightarrow>
     i \<le> j \<and> j < i + length ds \<and> device_in_range (ds ! (j - i)) addr \<and>
     (\<forall>k < j - i. \<not> device_in_range (ds ! k) addr)"
proof (induction ds arbitrary: i)
  case (Cons d ds)
  show ?case
  proof (cases "device_in_range d addr")
    case True
    with Cons.prems show ?thesis by simp
  next
    case False
    with Cons.prems Cons.IH [of "Suc i"] have IH: "Suc i \<le> j \<and> j < Suc i + length ds \<and>
        device_in_range (ds ! (j - Suc i)) addr \<and> (\<forall>k < j - Suc i. \<not> device_in_range (ds ! k) addr)"
      by simp
    then have "j - i = Suc (j - Suc i)" using Suc_diff_Suc [of i j] by simp
    with IH False show ?thesis by (auto simp: less_Suc_eq_0_disj)
  qed
qed simp

lemma get_device_at_Some:
  "get_device_at bus addr = Some i \<Longrightarrow>
     i < length (bus_devices bus) \<and> device_in_range (bus_devices bus ! i) addr"
  using find_device_Some [of "bus_devices bus" 0 addr i] by (simp add: get_device_at_def)

lemma find_device_bases:
  "map device_base ds = map device_base es \<Longrightarrow> find_device ds i addr = find_device es i addr"
proof (induction ds arbitrary: es i)
  case (Cons d ds)
  then show ?case by (cases es) (auto simp: device_in_range_def)
qed simp

lemma get_device_at_put [simp]:
  assumes "device_base d = device_base (bus_devices bus ! i)"
  shows "get_device_at (put_device bus i d) addr = get_device_at bus addr"
proof -
  have "map device_base ((bus_devices bus)[i := d]) = map device_base (bus_devices bus)"
  proof (cases "i < length (bus_devices bus)")
    case True
    then have "(map device_base (bus_devices bus))[i := device_base d] = map device_base (bus_devices bus)"
      using assms by (metis list_update_id nth_map)
    then show ?thesis by (simp only: map_update)
  next
    case False
    then show ?thesis by (simp add: list_update_beyond)
  qed
  from find_device_bases [OF this] show ?thesis
    by (simp add: get_device_at_def put_device_def)
qed

lemma bus_devices_put [simp]: "bus_devices (put_device bus i d) = (bus_devices bus)[i := d]"
  by (simp add: put_device_def)

lemma get_device_at_ids [simp]: "get_device_at (bus\<lparr>bus_txn_ids := n\<rparr>) = get_device_at bus"
  by (simp add: get_device_at_def fun_eq_iff)

lemma alloc_rsp_fields [simp]:
  "txn_addr (fst (alloc_rsp bus q e)) = txn_addr q"
  "txn_size (fst (alloc_rsp bus q e)) = txn_size q"
  "txn_write (fst (alloc_rsp bus q e)) = txn_write q"
  "txn_data (fst (alloc_rsp bus q e)) = replicate (unat (txn_size q)) 0"
  "rsp_error (fst (alloc_rsp bus q e)) = e"
  "bus_devices (snd (alloc_rsp bus q e)) = bus_devices bus"
  "get_device_at (snd (alloc_rsp bus q e)) = get_device_at bus"
  by (simp_all add: alloc_rsp_def case_prod_unfold)

section \<open>The bytes a bus shows\<close>

fun device_cont :: "device \<Rightarrow> memory_address \<Rightarrow> u8 option" where
  "device_cont (Ram r) addr = Some (ram_cont r addr)"
| "device_cont (Uart u) addr = None"

definition bus_cont :: "memory_bus \<Rightarrow> memory_address \<Rightarrow> u8 option" where
  "bus_cont bus addr =
     (case get_device_at bus addr of None \<Rightarrow> None | Some i \<Rightarrow> device_cont (bus_devices bus ! i) addr)"

definition bus_byte :: "memory_bus \<Rightarrow> memory_address \<Rightarrow> u8" where
  "bus_byte bus addr = (case bus_cont bus addr of Some v \<Rightarrow> v | None \<Rightarrow> 0)"

definition bus_ram :: "memory_bus \<Rightarrow> memory_address \<Rightarrow> bool" where
  "bus_ram bus addr \<longleftrightarrow> bus_cont bus addr \<noteq> None"

lemma bus_cont_put:
  assumes "device_base d = device_base (bus_devices bus ! i)"
  shows "bus_cont (put_device bus i d) a =
    (if get_device_at bus a = Some i then device_cont d a else bus_cont bus a)"
proof (cases "get_device_at bus a")
  case None
  then show ?thesis using assms by (simp add: bus_cont_def)
next
  case (Some j)
  then have "j < length (bus_devices bus)" by (simp add: get_device_at_Some)
  with Some assms show ?thesis by (simp add: bus_cont_def nth_list_update)
qed

lemma bus_cont_ids [simp]: "bus_cont (bus\<lparr>bus_txn_ids := n\<rparr>) = bus_cont bus"
  by (simp add: bus_cont_def fun_eq_iff split: option.split)

lemma bus_cont_alloc [simp]: "bus_cont (snd (alloc_rsp bus q e)) = bus_cont bus"
  by (simp add: bus_cont_def fun_eq_iff split: option.split)

text \<open>Which addresses are RAM never changes: a device keeps its class and its range.\<close>

lemma device_cont_rd_None:
  "device_cont (snd (device_read_byte d a)) b = None \<longleftrightarrow> device_cont d b = None"
  by (cases d) (simp_all add: case_prod_unfold)

lemma device_cont_wr_None:
  "device_cont (snd (device_write_byte d a v)) b = None \<longleftrightarrow> device_cont d b = None"
  by (cases d) (simp_all add: case_prod_unfold)

lemma bus_ram_rd: "bus_ram (snd (bus_read_byte bus a)) b = bus_ram bus b"
  by (auto simp: bus_ram_def bus_read_byte_def case_prod_unfold bus_cont_put device_cont_rd_None
    simp del: not_None_eq split: option.split) (auto simp: bus_cont_def device_cont_rd_None
    simp del: not_None_eq)

lemma bus_ram_wr: "bus_ram (snd (bus_write_byte bus a v)) b = bus_ram bus b"
  by (auto simp: bus_ram_def bus_write_byte_def case_prod_unfold bus_cont_put device_cont_wr_None
    simp del: not_None_eq split: option.split) (auto simp: bus_cont_def device_cont_wr_None
    simp del: not_None_eq)

lemma bus_ramE:
  assumes "bus_ram bus a"
  obtains i r where "get_device_at bus a = Some i" "bus_devices bus ! i = Ram r"
    "ram_in_range r a" "i < length (bus_devices bus)" "bus_cont bus a = Some (ram_cont r a)"
proof -
  from assms obtain i where i: "get_device_at bus a = Some i"
    "device_cont (bus_devices bus ! i) a \<noteq> None"
    by (auto simp: bus_ram_def bus_cont_def split: option.splits)
  then obtain r where r: "bus_devices bus ! i = Ram r" by (cases "bus_devices bus ! i") auto
  have "ram_in_range r a" "i < length (bus_devices bus)"
    using get_device_at_Some [OF i(1)] r by (simp_all add: device_in_range_def ram_in_range_def)
  with i r show thesis by (intro that) (simp_all add: bus_cont_def)
qed

lemma ram_wr_cont: "ram_in_range r a \<Longrightarrow> ram_cont (snd (ram_write_byte r a v)) = (ram_cont r)(a := v)"
  by (rule ram.cont_wr)

interpretation bus: byte_store bus_ram bus_read_byte bus_write_byte bus_byte
proof unfold_locales
  fix s a v
  show "bus_ram (snd (bus_read_byte s a)) = bus_ram s" by (simp add: fun_eq_iff bus_ram_rd)
  show "bus_ram (snd (bus_write_byte s a v)) = bus_ram s" by (simp add: fun_eq_iff bus_ram_wr)
  assume "bus_ram s a"
  then obtain i r where i: "get_device_at s a = Some i" "bus_devices s ! i = Ram r"
    "ram_in_range r a" "bus_cont s a = Some (ram_cont r a)"
    by (rule bus_ramE)
  have rng: "ram_dev (snd (ram_read_byte r a)) = ram_dev r"
    "ram_dev (snd (ram_write_byte r a v)) = ram_dev r"
    by (simp_all add: ram_read_byte_def ram_write_byte_def)
  show "fst (bus_read_byte s a) = bus_byte s a"
    using i by (simp add: bus_read_byte_def bus_byte_def case_prod_unfold ram.rd_val)
  show "bus_byte (snd (bus_read_byte s a)) = bus_byte s"
    using i rng by (simp add: bus_read_byte_def bus_byte_def case_prod_unfold fun_eq_iff
      bus_cont_put ram.cont_rd) (auto simp: bus_cont_def)
  show "fst (bus_write_byte s a v)"
    using i by (simp add: bus_write_byte_def case_prod_unfold ram.wr_ok)
  show "bus_byte (snd (bus_write_byte s a v)) = (bus_byte s)(a := v)"
    using i rng by (simp add: bus_write_byte_def bus_byte_def case_prod_unfold fun_eq_iff
      bus_cont_put ram.cont_wr) (auto simp: bus_cont_def)
qed

section \<open>Disjoint address ranges\<close>

definition bus_wf :: "memory_bus \<Rightarrow> bool" where
  "bus_wf bus \<longleftrightarrow>
     (\<forall>i < length (bus_devices bus). \<forall>j < length (bus_devices bus). \<forall>a.
        device_in_range (bus_devices bus ! i) a \<and> device_in_range (bus_devices bus ! j) a \<longrightarrow> i = j)"

lemma bus_wf_new [simp]: "bus_wf new_memory_bus"
  by (simp add: bus_wf_def new_memory_bus_def)

lemma find_device_None:
  "find_device ds i addr = None \<longleftrightarrow> (\<forall>d \<in> set ds. \<not> device_in_range d addr)"
  by (induction ds arbitrary: i) auto

lemma bus_wf_get:
  assumes "bus_wf bus" "i < length (bus_devices bus)" "device_in_range (bus_devices bus ! i) a"
  shows "get_device_at bus a = Some i"
proof (cases "get_device_at bus a")
  case None
  then show ?thesis using assms by (auto simp: get_device_at_def find_device_None)
next
  case (Some j)
  from get_device_at_Some [OF Some] assms have "j = i" by (auto simp: bus_wf_def)
  with Some show ?thesis by simp
qed

lemma bus_wf_put [simp]:
  assumes "device_base d = device_base (bus_devices bus ! i)"
  shows "bus_wf (put_device bus i d) = bus_wf bus"
proof -
  have "device_in_range ((bus_devices bus)[i := d] ! j) = device_in_range (bus_devices bus ! j)"
    if "j < length (bus_devices bus)" for j
    using that assms by (cases "i = j") (simp_all add: fun_eq_iff device_in_range_def)
  then show ?thesis by (simp add: bus_wf_def)
qed

lemma bus_wf_alloc [simp]: "bus_wf (snd (alloc_rsp bus q e)) = bus_wf bus"
  by (simp add: bus_wf_def)

lemma any_clash_iff: "any_clash m ds \<longleftrightarrow> (\<exists>d \<in> set ds. ranges_clash m (device_base d))"
  by (induction ds) auto

text \<open>The check of \<open>add_device\<close> separates two ranges unless the new one encloses the old.\<close>

lemma no_clash_disjoint:
  assumes "\<not> ranges_clash m it" "in_range_addr m a" "in_range_addr it a"
  shows "addr_base m < addr_base it \<and> addr_top it < addr_top m"
  using assms unfolding ranges_clash_def in_range_addr_def
  by (meson linorder_not_le order.strict_implies_order order.trans order_less_le_trans)

lemma add_device_wf_lemma:
  assumes "bus_wf bus" "add_device bus d = (True, bus')"
    and "\<And>it. it \<in> set (bus_devices bus) \<Longrightarrow>
      \<not> (addr_base (device_base d) < addr_base (device_base it) \<and>
         addr_top (device_base it) < addr_top (device_base d))"
  shows "bus_wf bus'"
proof -
  let ?n = "length (bus_devices bus)"
  from assms(2) have ok: "\<not> any_clash (device_base d) (bus_devices bus)"
    and bus': "bus' = bus\<lparr>bus_devices := bus_devices bus @ [d]\<rparr>"
    by (auto simp: add_device_def split: if_splits)
  have sep: "\<not> (device_in_range d a \<and> device_in_range (bus_devices bus ! i) a)" if "i < ?n" for i a
  proof
    assume "device_in_range d a \<and> device_in_range (bus_devices bus ! i) a"
    moreover have "\<not> ranges_clash (device_base d) (device_base (bus_devices bus ! i))"
      using ok that by (auto simp: any_clash_iff)
    ultimately show False
      using no_clash_disjoint assms(3) that by (meson device_in_range_def nth_mem)
  qed
  show ?thesis
    unfolding bus_wf_def bus'
  proof (intro allI impI)
    fix i j a
    let ?ds = "bus_devices (bus\<lparr>bus_devices := bus_devices bus @ [d]\<rparr>)"
    assume "i < length ?ds" "j < length ?ds" and r: "device_in_range (?ds ! i) a \<and> device_in_range (?ds ! j) a"
    then consider "i < ?n" "j < ?n" | "i < ?n" "j = ?n" | "i = ?n" "j < ?n" | "i = ?n" "j = ?n"
      by (auto simp: less_Suc_eq)
    then show "i = j"
    proof cases
      case 1
      with r assms(1) show ?thesis by (simp add: nth_append bus_wf_def) blast
    next
      case 2
      with r sep show ?thesis by (auto simp: nth_append)
    next
      case 3
      with r sep show ?thesis by (auto simp: nth_append)
    qed simp
  qed
qed

section \<open>Transactions\<close>

text \<open>A span of bytes inside a device never wraps around the address space.\<close>

lemma span_in_range:
  assumes "in_range_addr d addr" "\<forall>k<unat sz. in_range_addr d (addr + of_nat k)"
  shows "in_range_span d addr sz"
proof (cases "unat sz = 0")
  case True
  then have "sz = 0" by (simp add: unat_eq_0)
  with assms(1) show ?thesis by (simp add: in_range_addr_span0)
next
  case False
  define k where "k = unat sz - 1"
  have nowrap: "unat addr + unat sz \<le> 2 ^ 64"
  proof (rule ccontr)
    assume "\<not> unat addr + unat sz \<le> 2 ^ 64"
    then have lt: "2 ^ 64 - 1 - unat addr < unat sz" using unat_bound [of addr] by simp
    have "addr + of_nat (2 ^ 64 - 1 - unat addr) = - 1"
    proof -
      have "addr + of_nat (2 ^ 64 - 1 - unat addr) = of_nat (unat addr + (2 ^ 64 - 1 - unat addr))"
        by (simp only: of_nat_add of_nat_unat ucast_id)
      also have "unat addr + (2 ^ 64 - 1 - unat addr) = (2 ^ 64 - 1 :: nat)"
        using unat_bound [of addr] by simp
      finally show ?thesis by simp
    qed
    with assms(2) lt have "in_range_addr d (- 1)" by metis
    then show False by (simp add: in_range_addr_def)
  qed
  have "k < unat sz" using False by (simp add: k_def)
  with assms(2) have last: "in_range_addr d (addr + of_nat k)" by blast
  then have "unat (addr + of_nat k) < unat (addr_top d)"
    by (simp add: in_range_addr_def word_less_nat_alt)
  moreover have "unat (addr + of_nat k) = unat addr + k"
  proof -
    have "unat (of_nat k :: u64) = k"
      using \<open>k < unat sz\<close> unat_bound [of sz] by (intro unat_of_nat_id) simp
    then show ?thesis using nowrap \<open>k < unat sz\<close> by (simp only: unat_word_ariths) simp
  qed
  ultimately have le: "unat addr + unat sz \<le> unat (addr_top d)" using False by (simp add: k_def)
  then have "unat (addr + sz) = unat addr + unat sz"
    using unat_bound [of "addr_top d"] by (simp add: unat_word_ariths)
  with le assms(1) show ?thesis
    by (simp add: in_range_span_def in_range_addr_def word_le_nat_alt)
qed

definition span_in_device :: "device \<Rightarrow> memory_address \<Rightarrow> u64 \<Rightarrow> bool" where
  "span_in_device d addr sz \<longleftrightarrow> (\<forall>k<unat sz. device_in_range d (addr + of_nat k))"

lemma device_write_range_ok [simp]:
  "fst (device_write_range d addr sz wdata strb) = span_in_device d addr sz"
  by (simp add: device_write_range_def dev.write_range_ok span_in_device_def)

lemma device_read_range_ok [simp]:
  "fst (device_read_range d addr sz buf) = span_in_device d addr sz"
  by (simp add: device_read_range_def dev.read_range_ok span_in_device_def)

lemma span_in_range_req:
  "device_in_range d (txn_addr req) \<Longrightarrow> span_in_device d (txn_addr req) (txn_size req) \<Longrightarrow>
     in_range_req (device_base d) req"
  by (simp add: in_range_req_def span_in_device_def device_in_range_def span_in_range)

lemma set_error_fields [simp]:
  "rsp_error (set_error r)" "txn_data (set_error r) = txn_data r" "txn_size (set_error r) = txn_size r"
  by (simp_all add: set_error_def)

lemma request_error_lemma:
  "rsp_error (fst (request bus req)) \<longleftrightarrow>
     \<not> (\<exists>i. get_device_at bus (txn_addr req) = Some i \<and>
            span_in_device (bus_devices bus ! i) (txn_addr req) (txn_size req))"
proof (cases "get_device_at bus (txn_addr req)")
  case None
  then show ?thesis by (simp add: request_def)
next
  case (Some i)
  let ?d = "bus_devices bus ! i"
  have inr: "device_in_range ?d (txn_addr req)" using get_device_at_Some [OF Some] by simp
  show ?thesis
  proof (cases "in_range_req (device_base ?d) req")
    case True
    with Some show ?thesis by (simp add: request_def Let_def case_prod_unfold)
  next
    case False
    then have "\<not> span_in_device ?d (txn_addr req) (txn_size req)"
      using inr span_in_range_req by blast
    with Some False show ?thesis by (simp add: request_def)
  qed
qed

text \<open>Spans of a RAM reached through dynamic dispatch behave as on the RAM itself.\<close>

lemma device_in_range_Ram [simp]: "device_in_range (Ram r) = ram_in_range r"
  by (simp add: fun_eq_iff device_in_range_def ram_in_range_def)

lemma read_from_Ram:
  "read_range_from device_in_range device_read_byte n i addr buf (Ram r) =
     (case read_range_from ram_in_range ram_read_byte n i addr buf r of
        (ok, buf', r') \<Rightarrow> (ok, buf', Ram r'))"
  by (induction n arbitrary: i buf r) (auto simp: Let_def split: prod.split)

lemma write_from_Ram:
  "write_range_from device_in_range device_write_byte n i addr wdata strb (Ram r) =
     (case write_range_from ram_in_range ram_write_byte n i addr wdata strb r of
        (ok, r') \<Rightarrow> (ok, Ram r'))"
  by (induction n arbitrary: i r) (auto simp: Let_def case_prod_unfold)

lemma device_read_range_Ram:
  "device_read_range (Ram r) addr sz buf =
     (case read_range ram_in_range ram_read_byte r addr sz buf of (ok, buf', r') \<Rightarrow> (ok, buf', Ram r'))"
  by (simp add: device_read_range_def read_range_def read_from_Ram)

lemma device_write_range_Ram:
  "device_write_range (Ram r) addr sz wdata strb =
     (case write_range ram_in_range ram_write_byte r addr sz wdata strb of (ok, r') \<Rightarrow> (ok, Ram r'))"
  by (simp add: device_write_range_def write_range_def write_from_Ram)

lemma ram_range_dev:
  "ram_in_range (snd (write_range ram_in_range ram_write_byte r addr sz wdata strb)) = ram_in_range r"
  "ram_in_range (snd (snd (read_range ram_in_range ram_read_byte r addr sz buf))) = ram_in_range r"
  by (simp_all add: write_range_def read_range_def ram.range_frame)

lemma read_from_base:
  "device_base (snd (snd (read_range_from device_in_range device_read_byte n i addr buf d))) =
     device_base d"
  by (induction n arbitrary: i buf d) (auto simp: Let_def case_prod_unfold)

lemma write_from_base:
  "device_base (snd (write_range_from device_in_range device_write_byte n i addr wdata strb d)) =
     device_base d"
  by (induction n arbitrary: i d) (auto simp: Let_def)

lemma device_range_base [simp]:
  "device_base (snd (snd (device_read_range d addr sz buf))) = device_base d"
  "device_base (snd (device_write_range d addr sz wdata strb)) = device_base d"
  by (simp_all add: device_read_range_def read_range_def read_from_base
    device_write_range_def write_range_def write_from_base)

lemma request_wf: "bus_wf (snd (request bus req)) = bus_wf bus"
  by (auto simp: request_def Let_def case_prod_unfold split: option.split)

text \<open>A span whose bytes all lie in one RAM, the one that decodes the first address.\<close>

definition ram_span :: "memory_bus \<Rightarrow> memory_address \<Rightarrow> u64 \<Rightarrow> bool" where
  "ram_span bus addr sz \<longleftrightarrow>
     (case get_device_at bus addr of
        Some i \<Rightarrow> (case bus_devices bus ! i of
                    Ram r \<Rightarrow> (\<forall>k<unat sz. ram_in_range r (addr + of_nat k))
                  | Uart u \<Rightarrow> False)
      | None \<Rightarrow> False)"

lemma ram_spanE:
  assumes "ram_span bus addr sz"
  obtains i r where "get_device_at bus addr = Some i" "i < length (bus_devices bus)"
    "bus_devices bus ! i = Ram r" "ram_in_range r addr"
    "\<forall>k<unat sz. ram_in_range r (addr + of_nat k)"
proof -
  from assms obtain i r where *: "get_device_at bus addr = Some i" "bus_devices bus ! i = Ram r"
    "\<forall>k<unat sz. ram_in_range r (addr + of_nat k)"
    by (auto simp: ram_span_def split: option.splits device.splits)
  with get_device_at_Some [OF *(1)] show thesis by (intro that) simp_all
qed

lemma ram_span_bytes:
  assumes "bus_wf bus" "ram_span bus addr sz" "k < unat sz"
  shows "bus_ram bus (addr + of_nat k)"
  using assms by (elim ram_spanE) (auto simp: bus_ram_def bus_cont_def bus_wf_get)

lemma request_ram_ok:
  assumes "ram_span bus (txn_addr req) (txn_size req)"
  shows "\<not> rsp_error (fst (request bus req))"
  using assms by (elim ram_spanE) (simp add: request_error_lemma span_in_device_def)

lemma ram_span_in_range_req:
  assumes "ram_in_range r (txn_addr req)"
    "\<forall>k<unat (txn_size req). ram_in_range r (txn_addr req + of_nat k)"
  shows "in_range_req (ram_dev r) req"
  using span_in_range_req [of "Ram r" req] assms by (simp add: span_in_device_def)

lemma request_read_lemma:
  assumes "bus_wf bus" "ram_span bus (txn_addr req) (txn_size req)" "is_read req"
  shows "txn_data (fst (request bus req)) =
      map (\<lambda>k. bus_byte bus (txn_addr req + of_nat k)) [0..<unat (txn_size req)]"
    and "bus_cont (snd (request bus req)) = bus_cont bus"
proof -
  let ?a = "txn_addr req" and ?n = "txn_size req"
  from assms(2) obtain i r where i: "get_device_at bus ?a = Some i" "i < length (bus_devices bus)"
    "bus_devices bus ! i = Ram r" "ram_in_range r ?a"
    and r: "\<forall>k<unat ?n. ram_in_range r (?a + of_nat k)"
    by (rule ram_spanE)
  define res where "res = read_range ram_in_range ram_read_byte r ?a ?n (replicate (unat ?n) 0)"
  have ok: "fst res" using r by (simp add: res_def ram.read_range_ok)
  have req: "request bus req =
      ((fst (alloc_rsp bus req False))\<lparr>txn_data := fst (snd res)\<rparr>,
       put_device (snd (alloc_rsp bus req False)) i (Ram (snd (snd res))))"
    using i ok ram_span_in_range_req [OF i(4) r] assms(3)
    by (simp add: request_def Let_def case_prod_unfold device_read_range_Ram res_def
      is_read_def is_write_def)
  have byte: "bus_byte bus (?a + of_nat k) = ram_cont r (?a + of_nat k)" if "k < unat ?n" for k
    using that r i bus_wf_get [OF assms(1) i(2)] by (simp add: bus_byte_def bus_cont_def)
  have "fst (snd res) = map (\<lambda>k. ram_cont r (?a + of_nat k)) [0..<unat ?n]"
    unfolding res_def by (rule ram.read_range_data) (use r in simp_all)
  then show "txn_data (fst (request bus req)) =
      map (\<lambda>k. bus_byte bus (?a + of_nat k)) [0..<unat ?n]"
    using byte by (simp add: req)
  have base: "device_base (Ram (snd (snd res))) = device_base (Ram r)"
    using device_range_base(1) [of "Ram r" ?a ?n "replicate (unat ?n) 0"]
    by (simp add: device_read_range_Ram res_def case_prod_unfold)
  have cont: "ram_cont (snd (snd res)) = ram_cont r" by (simp add: res_def ram.read_range_cont)
  have own: "bus_cont bus b = Some (ram_cont r b)" if "get_device_at bus b = Some i" for b
    using that i by (simp add: bus_cont_def)
  show "bus_cont (snd (request bus req)) = bus_cont bus"
    using i base cont by (auto simp: req fun_eq_iff bus_cont_put own)
qed

lemma request_write_lemma:
  assumes "bus_wf bus" "ram_span bus (txn_addr req) (txn_size req)" "is_write req"
  shows "bus_cont (snd (request bus req)) =
    (\<lambda>b. let k = unat (b - txn_addr req) in
         if k < unat (txn_size req) \<and> txn_strb req ! k then Some (txn_data req ! k)
         else bus_cont bus b)"
proof -
  let ?a = "txn_addr req" and ?n = "txn_size req"
  from assms(2) obtain i r where i: "get_device_at bus ?a = Some i" "i < length (bus_devices bus)"
    "bus_devices bus ! i = Ram r" "ram_in_range r ?a"
    and r: "\<forall>k<unat ?n. ram_in_range r (?a + of_nat k)"
    by (rule ram_spanE)
  define res where
    "res = write_range ram_in_range ram_write_byte r ?a ?n (txn_data req) (txn_strb req)"
  have ok: "fst res" using r by (simp add: res_def ram.write_range_ok)
  have req: "request bus req =
      (fst (alloc_rsp bus req False), put_device (snd (alloc_rsp bus req False)) i (Ram (snd res)))"
    using i ok ram_span_in_range_req [OF i(4) r] assms(3)
    by (simp add: request_def Let_def case_prod_unfold device_write_range_Ram res_def)
  have base: "device_base (Ram (snd res)) = device_base (Ram r)"
    using device_range_base(2) [of "Ram r" ?a ?n "txn_data req" "txn_strb req"]
    by (simp add: device_write_range_Ram res_def case_prod_unfold)
  have cont: "ram_cont (snd res) = (\<lambda>b. let k = unat (b - ?a) in
      if k < unat ?n \<and> txn_strb req ! k then txn_data req ! k else ram_cont r b)"
    unfolding res_def by (rule ram.write_range_cont) (use r in simp)
  have dec: "get_device_at bus b = Some i" if "unat (b - ?a) < unat ?n" for b
  proof -
    have "b = ?a + of_nat (unat (b - ?a))" by simp
    with r that have "ram_in_range r b" by metis
    with i show ?thesis using bus_wf_get [OF assms(1) i(2)] by simp
  qed
  have own: "bus_cont bus b = Some (ram_cont r b)" if "get_device_at bus b = Some i" for b
    using that i by (simp add: bus_cont_def)
  show ?thesis
  proof
    fix b
    show "bus_cont (snd (request bus req)) b = (let k = unat (b - ?a) in
         if k < unat ?n \<and> txn_strb req ! k then Some (txn_data req ! k) else bus_cont bus b)"
      using i base dec [of b] own [of b] by (auto simp: req bus_cont_put cont Let_def)
  qed
qed

text \<open>Which spans are RAM never changes either.\<close>

fun same_kind :: "device \<Rightarrow> device \<Rightarrow> bool" where
  "same_kind (Ram r) (Ram r') = (ram_in_range r' = ram_in_range r)"
| "same_kind (Uart u) (Uart u') = True"
| "same_kind (Ram r) (Uart u) = False"
| "same_kind (Uart u) (Ram r) = False"

lemma read_from_Uart: "\<exists>u'. snd (snd (read_range_from device_in_range device_read_byte n i addr buf (Uart u))) = Uart u'"
  by (induction n arbitrary: i buf u) (auto simp: Let_def split: prod.split)

lemma write_from_Uart: "\<exists>u'. snd (write_range_from device_in_range device_write_byte n i addr wdata strb (Uart u)) = Uart u'"
  by (induction n arbitrary: i u) (auto simp: Let_def case_prod_unfold)

lemma same_kind_range:
  "same_kind d (snd (snd (device_read_range d addr sz buf)))"
  "same_kind d (snd (device_write_range d addr sz wdata strb))"
proof -
  show "same_kind d (snd (snd (device_read_range d addr sz buf)))"
  proof (cases d)
    case (Ram r)
    then show ?thesis by (simp add: device_read_range_Ram case_prod_unfold ram_range_dev)
  next
    case (Uart u)
    then show ?thesis
      using read_from_Uart [of "unat sz" 0 addr buf u] by (auto simp: device_read_range_def read_range_def)
  qed
  show "same_kind d (snd (device_write_range d addr sz wdata strb))"
  proof (cases d)
    case (Ram r)
    then show ?thesis by (simp add: device_write_range_Ram case_prod_unfold ram_range_dev)
  next
    case (Uart u)
    then show ?thesis
      using write_from_Uart [of "unat sz" 0 addr wdata strb u]
      by (auto simp: device_write_range_def write_range_def)
  qed
qed

lemma ram_span_put:
  assumes "same_kind (bus_devices bus ! i) d" "device_base d = device_base (bus_devices bus ! i)"
  shows "ram_span (put_device bus i d) addr sz = ram_span bus addr sz"
proof (cases "get_device_at bus addr")
  case None
  then show ?thesis using assms by (simp add: ram_span_def)
next
  case (Some j)
  then have "j < length (bus_devices bus)" by (simp add: get_device_at_Some)
  with Some assms show ?thesis
    by (cases "j = i"; cases "bus_devices bus ! i"; cases d) (simp_all add: ram_span_def)
qed

lemma ram_span_alloc [simp]: "ram_span (snd (alloc_rsp bus q e)) addr sz = ram_span bus addr sz"
  by (simp add: ram_span_def split: option.split)

lemma request_ram_span: "ram_span (snd (request bus req)) addr sz = ram_span bus addr sz"
  by (auto simp: request_def Let_def case_prod_unfold ram_span_put same_kind_range split: option.split)

end
