(* ===== verification/Agent.thy ===== *)
theory Agent
  imports Bus
begin

text \<open>
  The memory agent of the test bench (\<open>verif/share/verilator/core_mem_agent.hpp\<close> and
  \<open>core_mem_agent.cpp\<close>): it turns the request signals of a simulated memory port into bus
  transactions and computes the response signals of the next cycle. The pointers into the
  simulated design are the record \<open>mem_if\<close>; the C library's \<open>rand\<close> is an argument, a
  state transformer returning a non-negative number. Where the source leaves the order of two
  \<open>rand\<close> calls open, the left one is taken first.
\<close>

record mem_if =
  mem_req :: u8
  mem_addr :: u64
  mem_wen :: u8
  mem_strb :: u8
  mem_wdata :: u64
  mem_gnt :: u8
  mem_err :: u8
  mem_rdata :: u64

record core_mem_agent =
  max_req_stall :: u32
  req_stall_len :: u32
  n_mem_err :: u8
  n_mem_gnt :: u8
  n_mem_rdata :: u64
  agent_txn_ids :: u64
  agent_errors :: "u64 list"

text \<open>The three next-value fields are not initialised by the constructor.\<close>

definition new_core_mem_agent :: "u8 \<Rightarrow> u8 \<Rightarrow> u64 \<Rightarrow> core_mem_agent" where
  "new_core_mem_agent err gnt rdata =
     \<lparr>max_req_stall = 2, req_stall_len = 0, n_mem_err = err, n_mem_gnt = gnt,
      n_mem_rdata = rdata, agent_txn_ids = 0, agent_errors = []\<rparr>"

definition rand_chance :: "('r \<Rightarrow> nat \<times> 'r) \<Rightarrow> nat \<Rightarrow> nat \<Rightarrow> 'r \<Rightarrow> u8 \<times> 'r" where
  "rand_chance rand a b r = (case rand r of (n, r') \<Rightarrow> (if n mod b < a then 1 else 0, r'))"

definition set_reset :: "mem_if \<Rightarrow> mem_if" where
  "set_reset m = m\<lparr>mem_gnt := 0\<rparr>"

definition clear_reset :: "mem_if \<Rightarrow> mem_if" where
  "clear_reset m = m"

definition drive_signals :: "core_mem_agent \<Rightarrow> mem_if \<Rightarrow> mem_if" where
  "drive_signals ag m =
     m\<lparr>mem_err := n_mem_err ag, mem_rdata := n_mem_rdata ag, mem_gnt := n_mem_gnt ag\<rparr>"

definition txn_length :: u64 where "txn_length = 8"

text \<open>The request built from the signals; writes also fill the data and strobe buffers.\<close>

definition agent_req :: "core_mem_agent \<Rightarrow> mem_if \<Rightarrow> memory_txn \<times> u64" where
  "agent_req ag m =
     (case new_memory_req_txn (agent_txn_ids ag) (mem_addr m) txn_length (mem_wen m \<noteq> 0) of
        (req, ids) \<Rightarrow>
          (if mem_wen m \<noteq> 0 then
             req\<lparr>txn_data := map (\<lambda>i. ucast (drop_bit (8 * i) (mem_wdata m) AND 255))
                              [0..<unat txn_length],
                 txn_strb := map (\<lambda>i. drop_bit i (mem_strb m) AND 1 \<noteq> 0) [0..<unat txn_length]\<rparr>
           else req, ids))"

definition posedge_clk ::
  "('r \<Rightarrow> nat \<times> 'r) \<Rightarrow> core_mem_agent \<Rightarrow> mem_if \<Rightarrow> memory_bus \<Rightarrow> 'r \<Rightarrow>
   core_mem_agent \<times> memory_bus \<times> 'r" where
  "posedge_clk rand ag m bus r =
     (case
        (if mem_req m \<noteq> 0 \<and> mem_gnt m \<noteq> 0 then
           (case agent_req ag m of (req, ids) \<Rightarrow>
            case request bus req of (rsp, bus') \<Rightarrow>
              (ag\<lparr>req_stall_len := 0, agent_txn_ids := ids,
                  n_mem_err := of_bool (rsp_error rsp),
                  n_mem_rdata := (if is_read req then data_dword rsp else n_mem_rdata ag),
                  agent_errors := (if rsp_error rsp then agent_errors ag @ [txn_addr rsp]
                                   else agent_errors ag)\<rparr>, bus', r))
         else
           (case rand_chance rand 5 10 r of (e, r1) \<Rightarrow>
            case rand r1 of (hi, r2) \<Rightarrow>
            case rand r2 of (lo, r3) \<Rightarrow>
              (ag\<lparr>n_mem_err := e, n_mem_rdata := push_bit 32 (of_nat hi) OR of_nat lo\<rparr>, bus, r3)))
      of (ag', bus', r') \<Rightarrow>
        (case rand_chance rand 9 10 r' of (g, r'') \<Rightarrow> (ag'\<lparr>n_mem_gnt := g\<rparr>, bus', r'')))"

section \<open>Requests\<close>

lemma agent_req_fields [simp]:
  "txn_addr (fst (agent_req ag m)) = mem_addr m"
  "txn_size (fst (agent_req ag m)) = 8"
  "txn_write (fst (agent_req ag m)) = (mem_wen m \<noteq> 0)"
  by (simp_all add: agent_req_def case_prod_unfold new_memory_req_txn_def txn_length_def)

lemma byte_mask: "ucast (drop_bit (8 * i) w AND 255) = byte_of w i"
  by (rule bit_word_eqI) (auto simp: and_255 bytes bit_simps)

lemma and_one_bit: "drop_bit i (w :: 'a::len word) AND 1 \<noteq> 0 \<longleftrightarrow> bit w i"
  by (simp add: bit_iff_odd_drop_bit and_one_eq odd_iff_mod_2_eq_one)

lemma agent_req_write [simp]:
  assumes "mem_wen m \<noteq> 0"
  shows "txn_data (fst (agent_req ag m)) = map (byte_of (mem_wdata m)) [0..<8]"
    and "txn_strb (fst (agent_req ag m)) = map (bit (mem_strb m)) [0..<8]"
  using assms
  by (simp_all add: agent_req_def case_prod_unfold new_memory_req_txn_def txn_length_def
      byte_mask and_one_bit)

abbreviation "granted m \<equiv> mem_req m \<noteq> 0 \<and> mem_gnt m \<noteq> 0"

lemma posedge_granted:
  assumes "granted m"
  shows "n_mem_err (fst (posedge_clk rand ag m bus r)) =
      of_bool (rsp_error (fst (request bus (fst (agent_req ag m)))))"
    and "n_mem_rdata (fst (posedge_clk rand ag m bus r)) =
      (if mem_wen m = 0 then data_dword (fst (request bus (fst (agent_req ag m))))
       else n_mem_rdata ag)"
    and "fst (snd (posedge_clk rand ag m bus r)) = snd (request bus (fst (agent_req ag m)))"
  using assms by (simp_all add: posedge_clk_def case_prod_unfold is_read_def)

lemma posedge_idle:
  assumes "\<not> granted m"
  shows "fst (snd (posedge_clk rand ag m bus r)) = bus"
  using assms by (auto simp: posedge_clk_def case_prod_unfold)

lemma rand_chance_range: "fst (rand_chance rand a b r) \<in> {0, 1}"
  by (simp add: rand_chance_def case_prod_unfold)

lemma posedge_gnt_range: "n_mem_gnt (fst (posedge_clk rand ag m bus r)) \<in> {0, 1}"
  by (simp add: posedge_clk_def case_prod_unfold rand_chance_range del: insert_iff)

lemma request_size [simp]: "txn_size (fst (request bus req)) = txn_size req"
  by (auto simp: request_def Let_def case_prod_unfold split: option.split)

lemma posedge_read_bytes:
  assumes "bus_wf bus" "ram_span bus (mem_addr m) 8" "granted m" "mem_wen m = 0"
  shows "i < 8 \<Longrightarrow> byte_of (n_mem_rdata (fst (posedge_clk rand ag m bus r))) i =
      bus_byte bus (mem_addr m + of_nat i)"
    and "n_mem_err (fst (posedge_clk rand ag m bus r)) = 0"
proof -
  let ?q = "fst (agent_req ag m)"
  have "txn_data (fst (request bus ?q)) = map (\<lambda>k. bus_byte bus (mem_addr m + of_nat k)) [0..<8]"
    using request_read_lemma(1) [of bus ?q] assms by (simp add: is_read_def)
  then show "byte_of (n_mem_rdata (fst (posedge_clk rand ag m bus r))) i =
      bus_byte bus (mem_addr m + of_nat i)" if "i < 8"
    using that assms by (simp add: posedge_granted data_dword_bytes)
  show "n_mem_err (fst (posedge_clk rand ag m bus r)) = 0"
    using assms request_ram_ok [of bus ?q] by (simp add: posedge_granted)
qed

lemma posedge_write_byte:
  assumes "bus_wf bus" "ram_span bus (mem_addr m) 8" "granted m" "mem_wen m \<noteq> 0"
  shows "bus_cont (fst (snd (posedge_clk rand ag m bus r))) b =
    (let k = unat (b - mem_addr m) in
     if k < 8 \<and> bit (mem_strb m) k then Some (byte_of (mem_wdata m) k) else bus_cont bus b)"
  using request_write_lemma [of bus "fst (agent_req ag m)"] assms
  by (auto simp: posedge_granted is_write_def Let_def fun_eq_iff)

lemma posedge_bus_wf: "bus_wf (fst (snd (posedge_clk rand ag m bus r))) = bus_wf bus"
  by (auto simp: posedge_clk_def case_prod_unfold request_wf)

end
