(* ===== verification/Testbench.thy ===== *)
theory Testbench
  imports Agent
begin

text \<open>
  The wrappers around the two simulated designs (\<open>dut_wrapper\<close> of
  \<open>verif/core/verilator\<close> and \<open>verif/ccx/verilator\<close>) and the simulation loop of
  \<open>testbench.cpp\<close>, whose text is the same in both directories up to the devices that
  \<open>build\<close> puts on the bus. The Verilated models are generated code: their \<open>eval\<close> is an
  argument on the record of their ports. Waveform files are not modelled.
\<close>

section \<open>What the two wrappers share\<close>

record dut_trace_pkt =
  program_counter :: u64
  instr_word :: u32

record 'r dut_base =
  sim_time :: u64
  dut_trace :: "dut_trace_pkt list"
  wr_mem :: memory_bus
  wr_rand :: 'r

definition evals_per_clock :: nat where "evals_per_clock = 10"

definition push_trace :: "u64 \<Rightarrow> u32 \<Rightarrow> ('r, 'z) dut_base_scheme \<Rightarrow> ('r, 'z) dut_base_scheme" where
  "push_trace pc instr w =
     w\<lparr>dut_trace := dut_trace w @ [\<lparr>program_counter = pc, instr_word = instr\<rparr>]\<rparr>"

definition tick :: "('r, 'z) dut_base_scheme \<Rightarrow> ('r, 'z) dut_base_scheme" where
  "tick w = w\<lparr>sim_time := sim_time w + 1\<rparr>"

section \<open>The core: an instruction and a data memory port\<close>

record 'd core_top =
  core_g_resetn :: u8
  core_f_clk :: u8
  core_imem :: mem_if
  core_dmem :: mem_if
  core_trs_valid :: u8
  core_trs_pc :: u64
  core_trs_instr :: u32
  core_state :: 'd

record ('r, 'd) core_wrapper = "'r dut_base" +
  imem_agent :: core_mem_agent
  dmem_agent :: core_mem_agent
  core_dut :: "'d core_top"

definition new_core_wrapper ::
  "memory_bus \<Rightarrow> 'r \<Rightarrow> 'd core_top \<Rightarrow> core_mem_agent \<Rightarrow> core_mem_agent \<Rightarrow> ('r, 'd) core_wrapper" where
  "new_core_wrapper bus r d ia da =
     \<lparr>sim_time = 0, dut_trace = [], wr_mem = bus, wr_rand = r,
      imem_agent = ia, dmem_agent = da, core_dut = d\<rparr>"

definition core_set_reset :: "('r, 'd) core_wrapper \<Rightarrow> ('r, 'd) core_wrapper" where
  "core_set_reset w =
     w\<lparr>core_dut := (core_dut w)\<lparr>core_g_resetn := 0, core_f_clk := 0,
        core_imem := set_reset (core_imem (core_dut w)),
        core_dmem := set_reset (core_dmem (core_dut w))\<rparr>\<rparr>"

definition core_clear_reset :: "('r, 'd) core_wrapper \<Rightarrow> ('r, 'd) core_wrapper" where
  "core_clear_reset w =
     w\<lparr>core_dut := (core_dut w)\<lparr>core_g_resetn := 1,
        core_imem := clear_reset (core_imem (core_dut w)),
        core_dmem := clear_reset (core_dmem (core_dut w))\<rparr>\<rparr>"

text \<open>The agents share the transaction counter of their source file.\<close>

definition core_posedge_gclk ::
  "('r \<Rightarrow> nat \<times> 'r) \<Rightarrow> ('r, 'd) core_wrapper \<Rightarrow> ('r, 'd) core_wrapper" where
  "core_posedge_gclk rand w =
     (case posedge_clk rand (imem_agent w) (core_imem (core_dut w)) (wr_mem w) (wr_rand w) of
        (ia, bus1, r1) \<Rightarrow>
      case posedge_clk rand ((dmem_agent w)\<lparr>agent_txn_ids := agent_txn_ids ia\<rparr>)
             (core_dmem (core_dut w)) bus1 r1 of
        (da, bus2, r2) \<Rightarrow>
          (let w' = w\<lparr>imem_agent := ia\<lparr>agent_txn_ids := agent_txn_ids da\<rparr>, dmem_agent := da,
                      wr_mem := bus2, wr_rand := r2\<rparr>
           in if core_trs_valid (core_dut w) \<noteq> 0
              then push_trace (core_trs_pc (core_dut w)) (core_trs_instr (core_dut w)) w'
              else w'))"

definition core_drive :: "('r, 'd) core_wrapper \<Rightarrow> ('r, 'd) core_wrapper" where
  "core_drive w =
     w\<lparr>core_dut := (core_dut w)\<lparr>
        core_imem := drive_signals (imem_agent w) (core_imem (core_dut w)),
        core_dmem := drive_signals (dmem_agent w) (core_dmem (core_dut w))\<rparr>\<rparr>"

definition core_toggle ::
  "('r \<Rightarrow> nat \<times> 'r) \<Rightarrow> ('r, 'd) core_wrapper \<Rightarrow> ('r, 'd) core_wrapper" where
  "core_toggle rand w =
     (let w' = w\<lparr>core_dut := (core_dut w)\<lparr>core_f_clk := of_bool (core_f_clk (core_dut w) = 0)\<rparr>\<rparr>
      in if core_f_clk (core_dut w') = 1 then core_posedge_gclk rand w' else w')"

definition core_eval_dut ::
  "('d core_top \<Rightarrow> 'd core_top) \<Rightarrow> ('r, 'd) core_wrapper \<Rightarrow> ('r, 'd) core_wrapper" where
  "core_eval_dut ev w = w\<lparr>core_dut := ev (core_dut w)\<rparr>"

definition core_eval_once ::
  "('r \<Rightarrow> nat \<times> 'r) \<Rightarrow> ('d core_top \<Rightarrow> 'd core_top) \<Rightarrow> nat \<Rightarrow>
   ('r, 'd) core_wrapper \<Rightarrow> ('r, 'd) core_wrapper" where
  "core_eval_once rand ev i w =
     (let w1 = (if i = evals_per_clock div 2 then core_toggle rand w else w)
      in tick (core_eval_dut ev (core_drive (core_eval_dut ev w1))))"

definition core_step_clk ::
  "('r \<Rightarrow> nat \<times> 'r) \<Rightarrow> ('d core_top \<Rightarrow> 'd core_top) \<Rightarrow>
   ('r, 'd) core_wrapper \<Rightarrow> ('r, 'd) core_wrapper" where
  "core_step_clk rand ev w = fold (core_eval_once rand ev) [0..<evals_per_clock] w"

section \<open>The core complex: one external memory port\<close>

record 'd ccx_top =
  ccx_g_resetn :: u8
  ccx_f_clk :: u8
  ccx_emem :: mem_if
  ccx_trs_valid :: u8
  ccx_trs_pc :: u64
  ccx_trs_instr :: u32
  ccx_state :: 'd

record ('r, 'd) ccx_wrapper = "'r dut_base" +
  mem_agent :: core_mem_agent
  ccx_dut :: "'d ccx_top"

definition new_ccx_wrapper ::
  "memory_bus \<Rightarrow> 'r \<Rightarrow> 'd ccx_top \<Rightarrow> core_mem_agent \<Rightarrow> ('r, 'd) ccx_wrapper" where
  "new_ccx_wrapper bus r d ag =
     \<lparr>sim_time = 0, dut_trace = [], wr_mem = bus, wr_rand = r, mem_agent = ag, ccx_dut = d\<rparr>"

definition ccx_set_reset :: "('r, 'd) ccx_wrapper \<Rightarrow> ('r, 'd) ccx_wrapper" where
  "ccx_set_reset w =
     w\<lparr>ccx_dut := (ccx_dut w)\<lparr>ccx_g_resetn := 0, ccx_f_clk := 0,
        ccx_emem := set_reset (ccx_emem (ccx_dut w))\<rparr>\<rparr>"

definition ccx_clear_reset :: "('r, 'd) ccx_wrapper \<Rightarrow> ('r, 'd) ccx_wrapper" where
  "ccx_clear_reset w =
     w\<lparr>ccx_dut := (ccx_dut w)\<lparr>ccx_g_resetn := 1,
        ccx_emem := clear_reset (ccx_emem (ccx_dut w))\<rparr>\<rparr>"

definition ccx_posedge_gclk ::
  "('r \<Rightarrow> nat \<times> 'r) \<Rightarrow> ('r, 'd) ccx_wrapper \<Rightarrow> ('r, 'd) ccx_wrapper" where
  "ccx_posedge_gclk rand w =
     (case posedge_clk rand (mem_agent w) (ccx_emem (ccx_dut w)) (wr_mem w) (wr_rand w) of
        (ag, bus1, r1) \<Rightarrow>
          (let w' = w\<lparr>mem_agent := ag, wr_mem := bus1, wr_rand := r1\<rparr>
           in if ccx_trs_valid (ccx_dut w) \<noteq> 0
              then push_trace (ccx_trs_pc (ccx_dut w)) (ccx_trs_instr (ccx_dut w)) w'
              else w'))"

definition ccx_drive :: "('r, 'd) ccx_wrapper \<Rightarrow> ('r, 'd) ccx_wrapper" where
  "ccx_drive w =
     w\<lparr>ccx_dut := (ccx_dut w)\<lparr>
        ccx_emem := drive_signals (mem_agent w) (ccx_emem (ccx_dut w))\<rparr>\<rparr>"

definition ccx_toggle ::
  "('r \<Rightarrow> nat \<times> 'r) \<Rightarrow> ('r, 'd) ccx_wrapper \<Rightarrow> ('r, 'd) ccx_wrapper" where
  "ccx_toggle rand w =
     (let w' = w\<lparr>ccx_dut := (ccx_dut w)\<lparr>ccx_f_clk := of_bool (ccx_f_clk (ccx_dut w) = 0)\<rparr>\<rparr>
      in if ccx_f_clk (ccx_dut w') = 1 then ccx_posedge_gclk rand w' else w')"

definition ccx_eval_dut ::
  "('d ccx_top \<Rightarrow> 'd ccx_top) \<Rightarrow> ('r, 'd) ccx_wrapper \<Rightarrow> ('r, 'd) ccx_wrapper" where
  "ccx_eval_dut ev w = w\<lparr>ccx_dut := ev (ccx_dut w)\<rparr>"

definition ccx_eval_once ::
  "('r \<Rightarrow> nat \<times> 'r) \<Rightarrow> ('d ccx_top \<Rightarrow> 'd ccx_top) \<Rightarrow> nat \<Rightarrow>
   ('r, 'd) ccx_wrapper \<Rightarrow> ('r, 'd) ccx_wrapper" where
  "ccx_eval_once rand ev i w =
     (let w1 = (if i = evals_per_clock div 2 then ccx_toggle rand w else w)
      in tick (ccx_eval_dut ev (ccx_drive (ccx_eval_dut ev w1))))"

definition ccx_step_clk ::
  "('r \<Rightarrow> nat \<times> 'r) \<Rightarrow> ('d ccx_top \<Rightarrow> 'd ccx_top) \<Rightarrow>
   ('r, 'd) ccx_wrapper \<Rightarrow> ('r, 'd) ccx_wrapper" where
  "ccx_step_clk rand ev w = fold (ccx_eval_once rand ev) [0..<evals_per_clock] w"

section \<open>The test bench\<close>

definition core_build :: "u32 \<Rightarrow> u32 \<Rightarrow> u32 \<Rightarrow> u32 \<Rightarrow> memory_bus" where
  "core_build tx rx ctrl status =
     (let default_ram = new_ram 0x10000000 0x00200000;
          uart_0 = new_uart 0x11000000 tx rx ctrl status
      in snd (add_device (snd (add_device new_memory_bus (Ram default_ram))) (Uart uart_0)))"

definition ccx_build :: "u32 \<Rightarrow> u32 \<Rightarrow> u32 \<Rightarrow> u32 \<Rightarrow> memory_bus" where
  "ccx_build tx rx ctrl status =
     (let uart_0 = new_uart 0x11000000 tx rx ctrl status;
          ext_ram = new_ram 0x12000000 0x00010000
      in snd (add_device (snd (add_device new_memory_bus (Uart uart_0))) (Ram ext_ram)))"

record 'w testbench =
  max_sim_time :: u64
  pass_address :: memory_address
  fail_address :: memory_address
  sim_finished :: bool
  sim_passed :: bool
  tb_dut :: 'w

definition new_testbench :: "'w \<Rightarrow> 'w testbench" where
  "new_testbench w =
     \<lparr>max_sim_time = 10000, pass_address = 0, fail_address = - 1,
      sim_finished = False, sim_passed = False, tb_dut = w\<rparr>"

definition pre_run :: "('w \<Rightarrow> 'w) \<Rightarrow> 'w testbench \<Rightarrow> 'w testbench" where
  "pre_run set_rst tb = tb\<lparr>tb_dut := set_rst (tb_dut tb)\<rparr>"

text \<open>One pass of the main loop: a clock step, then at most one trace packet is examined.\<close>

definition check_packet :: "dut_trace_pkt \<Rightarrow> 'w testbench \<Rightarrow> 'w testbench" where
  "check_packet item tb =
     (if program_counter item = pass_address tb then tb\<lparr>sim_passed := True, sim_finished := True\<rparr>
      else if program_counter item = fail_address tb
      then tb\<lparr>sim_passed := False, sim_finished := True\<rparr>
      else tb)"

definition run_body ::
  "(('r, 'z) dut_base_scheme \<Rightarrow> ('r, 'z) dut_base_scheme) \<Rightarrow>
   ('r, 'z) dut_base_scheme testbench \<Rightarrow> ('r, 'z) dut_base_scheme testbench" where
  "run_body step tb =
     (let w = step (tb_dut tb) in
      case dut_trace w of
        [] \<Rightarrow> tb\<lparr>tb_dut := w\<rparr>
      | item # rest \<Rightarrow> (check_packet item tb)\<lparr>tb_dut := w\<lparr>dut_trace := rest\<rparr>\<rparr>)"

partial_function (option) run_loop ::
  "(('r, 'z) dut_base_scheme \<Rightarrow> ('r, 'z) dut_base_scheme) \<Rightarrow>
   ('r, 'z) dut_base_scheme testbench \<Rightarrow> ('r, 'z) dut_base_scheme testbench option" where
  "run_loop step tb =
     (if sim_time (tb_dut tb) < max_sim_time tb \<and> \<not> sim_finished tb
      then run_loop step (run_body step tb) else Some tb)"

definition run ::
  "(('r, 'z) dut_base_scheme \<Rightarrow> ('r, 'z) dut_base_scheme) \<Rightarrow>
   (('r, 'z) dut_base_scheme \<Rightarrow> ('r, 'z) dut_base_scheme) \<Rightarrow>
   ('r, 'z) dut_base_scheme testbench \<Rightarrow> ('r, 'z) dut_base_scheme testbench option" where
  "run step clear_rst tb = run_loop step (tb\<lparr>tb_dut := clear_rst ((step ^^ 5) (tb_dut tb))\<rparr>)"

definition run_simulation ::
  "(('r, 'z) dut_base_scheme \<Rightarrow> ('r, 'z) dut_base_scheme) \<Rightarrow>
   (('r, 'z) dut_base_scheme \<Rightarrow> ('r, 'z) dut_base_scheme) \<Rightarrow>
   (('r, 'z) dut_base_scheme \<Rightarrow> ('r, 'z) dut_base_scheme) \<Rightarrow>
   ('r, 'z) dut_base_scheme testbench \<Rightarrow> ('r, 'z) dut_base_scheme testbench option" where
  "run_simulation set_rst step clear_rst tb = run step clear_rst (pre_run set_rst tb)"

section \<open>What a clock step promises the loop\<close>

text \<open>
  The loop relies on three facts about \<open>dut_step_clk\<close>: it advances the time by ten ticks, it
  traces at most one packet, behind those already queued, and it leaves the address map alone.
\<close>

definition popped ::
  "(('r, 'z) dut_base_scheme \<Rightarrow> ('r, 'z) dut_base_scheme) \<Rightarrow>
   ('r, 'z) dut_base_scheme testbench \<Rightarrow> u64 list" where
  "popped step tb = map program_counter (take 1 (dut_trace (step (tb_dut tb))))"

text \<open>The program counters examined by the first \<open>n\<close> passes of the loop.\<close>

fun consumed ::
  "(('r, 'z) dut_base_scheme \<Rightarrow> ('r, 'z) dut_base_scheme) \<Rightarrow> nat \<Rightarrow>
   ('r, 'z) dut_base_scheme testbench \<Rightarrow> u64 list" where
  "consumed step 0 tb = []"
| "consumed step (Suc n) tb = popped step tb @ consumed step n (run_body step tb)"

text \<open>The verdict on a stream of program counters: the first marker decides.\<close>

fun first_hit :: "u64 \<Rightarrow> u64 \<Rightarrow> u64 list \<Rightarrow> bool option" where
  "first_hit pass fail [] = None"
| "first_hit pass fail (pc # pcs) =
     (if pc = pass then Some True else if pc = fail then Some False else first_hit pass fail pcs)"

definition verdict :: "'w testbench \<Rightarrow> bool option" where
  "verdict tb = (if sim_finished tb then Some (sim_passed tb) else None)"

definition running :: "('r, 'z) dut_base_scheme testbench \<Rightarrow> bool" where
  "running tb \<longleftrightarrow> sim_time (tb_dut tb) < max_sim_time tb \<and> \<not> sim_finished tb"

lemma run_loop_running: "running tb \<Longrightarrow> run_loop step tb = run_loop step (run_body step tb)"
  by (subst run_loop.simps) (simp add: running_def)

lemma run_loop_stopped: "\<not> running tb \<Longrightarrow> run_loop step tb = Some tb"
  by (subst run_loop.simps) (auto simp: running_def)

lemma check_packet_fields [simp]:
  "max_sim_time (check_packet p tb) = max_sim_time tb"
  "pass_address (check_packet p tb) = pass_address tb"
  "fail_address (check_packet p tb) = fail_address tb"
  "tb_dut (check_packet p tb) = tb_dut tb"
  by (simp_all add: check_packet_def)

lemma run_body_fields [simp]:
  "max_sim_time (run_body step tb) = max_sim_time tb"
  "pass_address (run_body step tb) = pass_address tb"
  "fail_address (run_body step tb) = fail_address tb"
  by (simp_all add: run_body_def Let_def split: list.split)

lemma run_body_verdict:
  assumes "\<not> sim_finished tb"
  shows "verdict (run_body step tb) = first_hit (pass_address tb) (fail_address tb) (popped step tb)"
  using assms
  by (simp add: run_body_def Let_def popped_def verdict_def check_packet_def split: list.split)

lemma first_hit_append:
  "first_hit p f (xs @ ys) =
     (case first_hit p f xs of None \<Rightarrow> first_hit p f ys | Some v \<Rightarrow> Some v)"
  by (induction xs) simp_all

text \<open>The loop is the iteration of its body as long as the loop condition holds.\<close>

definition reaches ::
  "(('r, 'z) dut_base_scheme \<Rightarrow> ('r, 'z) dut_base_scheme) \<Rightarrow>
   ('r, 'z) dut_base_scheme testbench \<Rightarrow> ('r, 'z) dut_base_scheme testbench \<Rightarrow> bool" where
  "reaches step tb tb' \<longleftrightarrow>
     (\<exists>n. tb' = (run_body step ^^ n) tb \<and> \<not> running tb' \<and>
          (\<forall>k<n. running ((run_body step ^^ k) tb)))"

lemma reaches_stop: "\<not> running tb \<Longrightarrow> reaches step tb tb"
  unfolding reaches_def by (intro exI [of _ 0]) simp

lemma reaches_step:
  assumes "running tb" "reaches step (run_body step tb) tb'"
  shows "reaches step tb tb'"
proof -
  from assms(2) obtain n where n: "tb' = (run_body step ^^ n) (run_body step tb)"
    "\<not> running tb'" "\<forall>k<n. running ((run_body step ^^ k) (run_body step tb))"
    unfolding reaches_def by blast
  with assms(1) show ?thesis unfolding reaches_def
    by (intro exI [of _ "Suc n"])
      (auto simp: less_Suc_eq_0_disj funpow_Suc_right simp del: funpow.simps)
qed

lemma run_loop_iterates:
  assumes "run_loop step tb = Some tb'"
  shows "reaches step tb tb'"
proof (rule run_loop.raw_induct [where P = reaches, OF _ assms])
  fix rl step tb tb'
  assume IH: "\<And>s b y. rl s b = Some y \<Longrightarrow> reaches s b y"
    and eq: "(if sim_time (tb_dut tb) < max_sim_time tb \<and> \<not> sim_finished tb
      then rl step (run_body step tb) else Some tb) = Some tb'"
  show "reaches step tb tb'"
  proof (cases "running tb")
    case False
    with eq show ?thesis by (auto simp: running_def intro: reaches_stop split: if_splits)
  next
    case True
    with eq have "rl step (run_body step tb) = Some tb'" by (simp add: running_def)
    then show ?thesis by (rule reaches_step [OF True IH])
  qed
qed

lemma iterate_verdict:
  assumes "\<forall>k<n. running ((run_body step ^^ k) tb)" "\<not> sim_finished tb"
  shows "verdict ((run_body step ^^ n) tb) =
    first_hit (pass_address tb) (fail_address tb) (consumed step n tb)"
  using assms
proof (induction n arbitrary: tb)
  case 0
  then show ?case by (simp add: verdict_def)
next
  case (Suc n)
  let ?b = "run_body step tb"
  have run: "\<forall>k<n. running ((run_body step ^^ k) ?b)"
    using Suc.prems(1) by (auto simp: funpow_Suc_right simp del: funpow.simps dest: spec [of _ "Suc _"])
  show ?case
  proof (cases "sim_finished ?b")
    case False
    then have "first_hit (pass_address tb) (fail_address tb) (popped step tb) = None"
      using run_body_verdict [OF Suc.prems(2), of step] by (simp add: verdict_def)
    then show ?thesis using Suc.IH [OF run False]
      by (simp add: first_hit_append funpow_Suc_right del: funpow.simps)
  next
    case True
    then have "n = 0" using run by (cases n) (auto simp: running_def)
    then show ?thesis using run_body_verdict [OF Suc.prems(2), of step] by (simp add: first_hit_append split: option.split)
  qed
qed

lemma run_loop_verdict_lemma:
  assumes "run_loop step tb = Some tb'" "\<not> sim_finished tb"
  shows "\<exists>n. tb' = (run_body step ^^ n) tb \<and>
    verdict tb' = first_hit (pass_address tb) (fail_address tb) (consumed step n tb)"
  using run_loop_iterates [OF assms(1)] iterate_verdict [OF _ assms(2)]
  unfolding reaches_def by blast

locale stepper =
  fixes step :: "('r, 'z) dut_base_scheme \<Rightarrow> ('r, 'z) dut_base_scheme"
  assumes step_time: "sim_time (step w) = sim_time w + 10"
    and step_trace: "\<exists>xs. length xs \<le> 1 \<and> dut_trace (step w) = dut_trace w @ xs"
    and step_mem: "bus_wf (wr_mem (step w)) = bus_wf (wr_mem w)"
begin

lemma body_time: "sim_time (tb_dut (run_body step tb)) = sim_time (tb_dut tb) + 10"
  by (simp add: run_body_def Let_def step_time split: list.split)

lemma body_mem: "bus_wf (wr_mem (tb_dut (run_body step tb))) = bus_wf (wr_mem (tb_dut tb))"
  by (simp add: run_body_def Let_def step_mem split: list.split)

lemma body_trace: "length (dut_trace (tb_dut (run_body step tb))) \<le> length (dut_trace (tb_dut tb))"
proof -
  obtain xs where xs: "length xs \<le> 1" "dut_trace (step (tb_dut tb)) = dut_trace (tb_dut tb) @ xs"
    using step_trace by blast
  then have "length (dut_trace (step (tb_dut tb))) \<le> Suc (length (dut_trace (tb_dut tb)))" by simp
  then show ?thesis by (auto simp: run_body_def Let_def split: list.split)
qed

lemma iterate_frame:
  "bus_wf (wr_mem (tb_dut ((run_body step ^^ n) tb))) = bus_wf (wr_mem (tb_dut tb))"
  "length (dut_trace (tb_dut ((run_body step ^^ n) tb))) \<le> length (dut_trace (tb_dut tb))"
  by (induction n) (auto simp: body_mem intro: order.trans [OF body_trace])

text \<open>
  The loop returns when the time limit leaves room for one more step below the wrap-around;
  it stops less than a step after the limit.
\<close>

lemma run_loop_total:
  assumes "unat (max_sim_time tb) + 10 \<le> 2 ^ 64"
  shows "\<exists>tb'. run_loop step tb = Some tb' \<and> (sim_finished tb' \<or> max_sim_time tb \<le> sim_time (tb_dut tb')) \<and>
    unat (sim_time (tb_dut tb')) < max (unat (max_sim_time tb) + 10) (Suc (unat (sim_time (tb_dut tb))))"
  using assms
proof (induction "unat (max_sim_time tb) - unat (sim_time (tb_dut tb))" arbitrary: tb rule: less_induct)
  case less
  show ?case
  proof (cases "running tb")
    case False
    then show ?thesis by (auto simp: run_loop_stopped running_def)
  next
    case True
    then have lt: "unat (sim_time (tb_dut tb)) < unat (max_sim_time tb)"
      by (simp add: running_def word_less_nat_alt)
    then have "unat (sim_time (tb_dut tb)) + unat (10 :: u64) < 2 ^ LENGTH(64)"
      using less.prems by simp
    then have t: "unat (sim_time (tb_dut (run_body step tb))) = unat (sim_time (tb_dut tb)) + 10"
      unfolding body_time by (subst unat_plus_simple [THEN iffD1]) (simp_all add: no_olen_add_nat)
    with lt less.hyps [of "run_body step tb"] less.prems show ?thesis
      by (auto simp: run_loop_running [OF True])
  qed
qed

lemma steps_time: "sim_time ((step ^^ n) w) = sim_time w + of_nat n * 10"
  by (induction n) (simp_all add: step_time algebra_simps)

lemma steps_trace: "length (dut_trace ((step ^^ n) w)) \<le> length (dut_trace w) + n"
proof (induction n)
  case (Suc n)
  then show ?case using step_trace [of "(step ^^ n) w"] by auto
qed simp

lemma steps_mem: "bus_wf (wr_mem ((step ^^ n) w)) = bus_wf (wr_mem w)"
  by (induction n) (simp_all add: step_mem)

end

section \<open>The two wrappers keep the promise\<close>

lemma push_trace_fields [simp]:
  "sim_time (push_trace pc i w) = sim_time w"
  "wr_mem (push_trace pc i w) = wr_mem w"
  "length (dut_trace (push_trace pc i w)) = Suc (length (dut_trace w))"
  by (simp_all add: push_trace_def)

definition at_most_one :: "('r, 'z) dut_base_scheme \<Rightarrow> ('r, 'z) dut_base_scheme \<Rightarrow> bool" where
  "at_most_one w w' \<longleftrightarrow> (\<exists>xs. length xs \<le> 1 \<and> dut_trace w' = dut_trace w @ xs)"

lemma at_most_one_refl [simp]: "at_most_one w w"
  by (simp add: at_most_one_def)

lemma core_toggle_frame:
  "sim_time (core_toggle rand w) = sim_time w"
  "bus_wf (wr_mem (core_toggle rand w)) = bus_wf (wr_mem w)"
  "at_most_one w (core_toggle rand w)"
  by (auto simp: core_toggle_def core_posedge_gclk_def Let_def case_prod_unfold posedge_bus_wf
      at_most_one_def push_trace_def)

lemma core_once_frame:
  "sim_time (core_eval_once rand ev i w) = sim_time w + 1"
  "bus_wf (wr_mem (core_eval_once rand ev i w)) = bus_wf (wr_mem w)"
  "i \<noteq> 5 \<Longrightarrow> dut_trace (core_eval_once rand ev i w) = dut_trace w"
  "dut_trace (core_eval_once rand ev 5 w) = dut_trace (core_toggle rand w)"
  by (simp_all add: core_eval_once_def Let_def tick_def core_eval_dut_def core_drive_def
      core_toggle_frame evals_per_clock_def)

lemma ccx_toggle_frame:
  "sim_time (ccx_toggle rand w) = sim_time w"
  "bus_wf (wr_mem (ccx_toggle rand w)) = bus_wf (wr_mem w)"
  "at_most_one w (ccx_toggle rand w)"
  by (auto simp: ccx_toggle_def ccx_posedge_gclk_def Let_def case_prod_unfold posedge_bus_wf
      at_most_one_def push_trace_def)

lemma ccx_once_frame:
  "sim_time (ccx_eval_once rand ev i w) = sim_time w + 1"
  "bus_wf (wr_mem (ccx_eval_once rand ev i w)) = bus_wf (wr_mem w)"
  "i \<noteq> 5 \<Longrightarrow> dut_trace (ccx_eval_once rand ev i w) = dut_trace w"
  "dut_trace (ccx_eval_once rand ev 5 w) = dut_trace (ccx_toggle rand w)"
  by (simp_all add: ccx_eval_once_def Let_def tick_def ccx_eval_dut_def ccx_drive_def
      ccx_toggle_frame evals_per_clock_def)

lemma upt_evals: "[0..<evals_per_clock] = [0, 1, 2, 3, 4, 5, 6, 7, 8, 9]"
  by (simp add: evals_per_clock_def upt_rec)

interpretation core: stepper "core_step_clk rand ev" for rand ev
proof
  fix w
  show "sim_time (core_step_clk rand ev w) = sim_time w + 10"
    by (simp add: core_step_clk_def upt_evals core_once_frame)
  show "bus_wf (wr_mem (core_step_clk rand ev w)) = bus_wf (wr_mem w)"
    by (simp add: core_step_clk_def upt_evals core_once_frame)
  let ?once = "core_eval_once rand ev"
  let ?w = "?once 4 (?once 3 (?once 2 (?once 1 (?once 0 w))))"
  have "dut_trace (core_step_clk rand ev w) = dut_trace (core_toggle rand ?w)"
    "dut_trace ?w = dut_trace w"
    by (simp_all add: core_step_clk_def upt_evals core_once_frame)
  then show "\<exists>xs. length xs \<le> 1 \<and> dut_trace (core_step_clk rand ev w) = dut_trace w @ xs"
    using core_toggle_frame(3) [of ?w rand] by (simp add: at_most_one_def)
qed

interpretation ccx: stepper "ccx_step_clk rand ev" for rand ev
proof
  fix w
  show "sim_time (ccx_step_clk rand ev w) = sim_time w + 10"
    by (simp add: ccx_step_clk_def upt_evals ccx_once_frame)
  show "bus_wf (wr_mem (ccx_step_clk rand ev w)) = bus_wf (wr_mem w)"
    by (simp add: ccx_step_clk_def upt_evals ccx_once_frame)
  let ?once = "ccx_eval_once rand ev"
  let ?w = "?once 4 (?once 3 (?once 2 (?once 1 (?once 0 w))))"
  have "dut_trace (ccx_step_clk rand ev w) = dut_trace (ccx_toggle rand ?w)"
    "dut_trace ?w = dut_trace w"
    by (simp_all add: ccx_step_clk_def upt_evals ccx_once_frame)
  then show "\<exists>xs. length xs \<le> 1 \<and> dut_trace (ccx_step_clk rand ev w) = dut_trace w @ xs"
    using ccx_toggle_frame(3) [of ?w rand] by (simp add: at_most_one_def)
qed

end
