(* ===== verification/Srec.thy ===== *)
theory Srec
  imports Bus
begin

text \<open>
  The S-record reader of the test bench (\<open>verif/share/verilator/srec.hpp\<close>, \<open>srec.cpp\<close>),
  its \<open>$readmemh\<close> writer, and \<open>load_srec_file\<close> of the two \<open>main.cpp\<close>, which stores the
  parsed bytes through the memory bus. Characters are bytes. A read past the terminating
  zero of a \<open>std::string\<close> is undefined behaviour in C++ and is \<open>None\<close> here. The ordered
  \<open>std::map\<close> is an association list kept sorted by \<open>map_put\<close>.
\<close>

section \<open>Ordered maps\<close>

type_synonym data_map = "(u64 \<times> u8) list"

fun map_put :: "u64 \<Rightarrow> u8 \<Rightarrow> data_map \<Rightarrow> data_map" where
  "map_put k v [] = [(k, v)]"
| "map_put k v ((k', v') # m) =
     (if k < k' then (k, v) # (k', v') # m
      else if k = k' then (k, v) # m
      else (k', v') # map_put k v m)"

abbreviation "ordered m \<equiv> sorted_wrt (<) (map fst m)"

lemma fst_map_put: "fst ` set (map_put k v m) = insert k (fst ` set m)"
  by (induction k v m rule: map_put.induct) auto

lemma ordered_map_put: "ordered m \<Longrightarrow> ordered (map_put k v m)"
proof (induction k v m rule: map_put.induct)
  case (2 k v k' v' m)
  have "\<forall>x \<in> set (map fst (map_put k v m)). k' < x"
    if "\<not> k < k'" "k \<noteq> k'"
    using that 2(2) fst_map_put [of k v m] by auto
  with 2 show ?case by auto
qed simp

lemma map_of_map_put: "map_of (map_put k v m) = (map_of m)(k \<mapsto> v)"
  by (induction k v m rule: map_put.induct) auto

section \<open>Characters\<close>

definition hctoi :: "u8 \<Rightarrow> u8" where
  "hctoi hc = (if hc \<ge> 97 then hc - 87 else if hc \<ge> 65 then hc - 55 else hc - 48)"

text \<open>\<open>line[k]\<close>: the terminating zero is readable, anything beyond is not.\<close>

definition char_at :: "u8 list \<Rightarrow> nat \<Rightarrow> u8 option" where
  "char_at line k =
     (if k < length line then Some (line ! k) else if k = length line then Some 0 else None)"

text \<open>\<open>std::getline\<close>: the next line without its newline, and the rest of the stream.\<close>

fun getline :: "u8 list \<Rightarrow> (u8 list \<times> u8 list) option" where
  "getline [] = None"
| "getline (c # cs) =
     (if c = 10 then Some ([], cs)
      else (case getline cs of None \<Rightarrow> Some ([c], []) | Some (l, rest) \<Rightarrow> Some (c # l, rest)))"

lemma getline_shorter: "getline cs = Some (l, rest) \<Longrightarrow> length rest < length cs"
  by (induction cs arbitrary: l rest) (fastforce split: if_splits option.splits)+

section \<open>One record\<close>

definition size_digit :: "u8 \<Rightarrow> u8" where
  "size_digit ch = (if ch > 65 then ch - 55 else ch)"

definition rec_size :: "u8 \<Rightarrow> u8 \<Rightarrow> u32" where
  "rec_size ch0 ch1 =
     push_bit 4 (ucast (size_digit ch0 AND 15)) OR ucast (size_digit ch1 AND 15)"

definition data_bytes :: "u32 \<Rightarrow> u8" where
  "data_bytes sz = ucast (sz - 5)"

text \<open>A nibble is shifted as a signed 32-bit \<open>int\<close> and then widened to \<open>unsigned long\<close>.\<close>

fun addr_nibbles :: "u8 list \<Rightarrow> (nat \<times> nat) list \<Rightarrow> u64 \<Rightarrow> u64 option" where
  "addr_nibbles line [] acc = Some acc"
| "addr_nibbles line ((k, sh) # rest) acc =
     (case char_at line k of
        None \<Rightarrow> None
      | Some c \<Rightarrow>
          addr_nibbles line rest (acc OR scast (push_bit sh (ucast (hctoi c AND 15) :: u32))))"

definition rec_addr :: "u8 list \<Rightarrow> u64 option" where
  "rec_addr line =
     map_option (\<lambda>a. a AND 0xffffffff)
       (addr_nibbles line [(4, 28), (5, 24), (6, 20), (7, 16), (8, 12), (9, 8), (10, 4), (11, 0)] 0)"

definition data_byte :: "u8 \<Rightarrow> u8 \<Rightarrow> u8" where
  "data_byte hi lo = push_bit 4 (hctoi hi AND 15) OR push_bit 0 (hctoi lo AND 15)"

fun data_loop :: "nat \<Rightarrow> nat \<Rightarrow> u8 list \<Rightarrow> u64 \<Rightarrow> data_map \<Rightarrow> data_map option" where
  "data_loop 0 i line addr m = Some m"
| "data_loop (Suc n) i line addr m =
     (case char_at line (12 + 2 * i) of
        None \<Rightarrow> None
      | Some hi \<Rightarrow>
          (case char_at line (13 + 2 * i) of
             None \<Rightarrow> None
           | Some lo \<Rightarrow>
               data_loop n (Suc i) line addr (map_put (addr + of_nat i) (data_byte hi lo) m)))"

text \<open>\<open>srec_cerr\<close> collects the record types reported as unknown on standard error.\<close>

record srec_file =
  srec_data :: data_map
  srec_cerr :: "u8 list"

definition srec_line :: "u8 list \<Rightarrow> srec_file \<Rightarrow> srec_file option" where
  "srec_line line f =
     (if line = [] then Some f
      else
        (case (char_at line 1, char_at line 2, char_at line 3) of
           (Some t, Some ch0, Some ch1) \<Rightarrow>
             (let rec_type = t AND 15; n = data_bytes (rec_size ch0 ch1) in
              if rec_type = 0 then Some f
              else if rec_type = 3 then
                (case rec_addr line of
                   None \<Rightarrow> None
                 | Some addr \<Rightarrow>
                     map_option (\<lambda>m. f\<lparr>srec_data := m\<rparr>)
                       (data_loop (unat n) 0 line addr (srec_data f)))
              else if rec_type = 7 then Some f
              else Some (f\<lparr>srec_cerr := srec_cerr f @ [rec_type]\<rparr>))
         | _ \<Rightarrow> None))"

section \<open>The file\<close>

function srec_lines :: "u8 list \<Rightarrow> srec_file \<Rightarrow> srec_file option" where
  "srec_lines cs f =
     (case getline cs of
        None \<Rightarrow> Some f
      | Some (line, rest) \<Rightarrow>
          (case srec_line line f of None \<Rightarrow> None | Some f' \<Rightarrow> srec_lines rest f'))"
  by pat_completeness auto
termination
  by (relation "measure (\<lambda>(cs, f). length cs)") (auto dest: getline_shorter)

declare srec_lines.simps [simp del]

text \<open>The argument is the contents of the file, or \<open>None\<close> when it cannot be opened.\<close>

definition new_srec_file :: "u8 list option \<Rightarrow> srec_file option" where
  "new_srec_file file =
     (case file of
        None \<Rightarrow> Some \<lparr>srec_data = [], srec_cerr = []\<rparr>
      | Some cs \<Rightarrow> srec_lines cs \<lparr>srec_data = [], srec_cerr = []\<rparr>)"

section \<open>The readmemh writer\<close>

text \<open>\<open>std::hex\<close> prints lower-case digits without leading zeros.\<close>

definition hex_digit :: "nat \<Rightarrow> u8" where
  "hex_digit d = of_nat (if d < 10 then 48 + d else 87 + d)"

fun to_hex :: "nat \<Rightarrow> u8 list" where
  "to_hex n = (if n < 16 then [hex_digit n] else to_hex (n div 16) @ [hex_digit (n mod 16)])"

declare to_hex.simps [simp del]

text \<open>The output file is the list of its lines; 64 is the character \<open>@\<close>.\<close>

fun dump_loop :: "data_map \<Rightarrow> u64 \<Rightarrow> u8 list list" where
  "dump_loop [] prev_address = []"
| "dump_loop ((offset, d) # m) prev_address =
     (if prev_address + 1 \<noteq> 0 + offset
      then [64 # to_hex (unat ((0 + offset) AND 0xFFFF))] else []) @
     [to_hex (unat d)] @ dump_loop m (0 + offset)"

definition dump_readmemh :: "data_map \<Rightarrow> u8 list list" where
  "dump_readmemh m = [64 # to_hex 0] @ dump_loop m 0"

section \<open>Loading the program\<close>

definition load_srec_file :: "memory_bus \<Rightarrow> data_map \<Rightarrow> memory_bus" where
  "load_srec_file bus m = foldl (\<lambda>b (a, v). snd (bus_write_byte b a v)) bus m"

section \<open>Reading back a written record\<close>

text \<open>
  The format the reader is for: an \<open>S3\<close> line with a byte count, a 32-bit address, the data
  and a checksum, in upper-case hexadecimal as object-copy tools write it.
\<close>

definition hexdig :: "nat \<Rightarrow> u8" where
  "hexdig d = of_nat (if d < 10 then 48 + d else 55 + d)"

definition hex2 :: "u8 \<Rightarrow> u8 list" where
  "hex2 b = [hexdig (unat b div 16), hexdig (unat b mod 16)]"

definition addr_digits :: "u32 \<Rightarrow> u8 list" where
  "addr_digits a =
     map (\<lambda>sh. hexdig (unat (take_bit 4 (drop_bit sh a)))) [28, 24, 20, 16, 12, 8, 4, 0]"

definition s3_record :: "u32 \<Rightarrow> u8 list \<Rightarrow> u8 \<Rightarrow> u8 list" where
  "s3_record a ds ck =
     [83, 51] @ hex2 (of_nat (length ds + 5)) @ addr_digits a @ concat (map hex2 ds) @ hex2 ck"

text \<open>The byte count is read correctly exactly when neither of its digits is an \<open>A\<close>.\<close>

definition count_readable :: "nat \<Rightarrow> bool" where
  "count_readable n \<longleftrightarrow> n div 16 \<noteq> 10 \<and> n mod 16 \<noteq> 10"

lemma less_16: "n < 16 \<Longrightarrow> n \<in> {0, 1, 2, 3, 4, 5, 6, 7, 8, 9, 10, 11, 12, 13, 14, 15 :: nat}"
  by (simp add: numeral_eq_Suc less_Suc_eq)

lemma hctoi_hexdig: "n < 16 \<Longrightarrow> hctoi (hexdig n) AND 15 = of_nat n"
  using less_16 [of n] by (auto simp: hctoi_def hexdig_def)

lemma size_digit_hexdig: "n < 16 \<Longrightarrow> n \<noteq> 10 \<Longrightarrow> size_digit (hexdig n) AND 15 = of_nat n"
  using less_16 [of n] by (auto simp: size_digit_def hexdig_def)

lemma size_digit_A: "size_digit (hexdig 10) AND 15 = 1"
  by (simp add: size_digit_def hexdig_def)

lemma unat_nibbles:
  fixes b :: u8
  shows "unat b div 16 < 16" "unat b mod 16 < 16"
  using unat_bound [of b] by auto

lemma data_byte_hex2: "data_byte (hexdig (unat b div 16)) (hexdig (unat b mod 16)) = b"
proof -
  have "unat b div 16 = unat (drop_bit 4 b)" "unat b mod 16 = unat (take_bit 4 b)"
    by (simp_all add: drop_bit_eq_div take_bit_eq_mod unat_div unat_mod)
  then have "data_byte (hexdig (unat b div 16)) (hexdig (unat b mod 16)) =
      push_bit 4 (drop_bit 4 b) OR take_bit 4 b"
    using hctoi_hexdig [OF unat_nibbles(1) [of b]] hctoi_hexdig [OF unat_nibbles(2) [of b]]
    by (simp add: data_byte_def)
  also have "\<dots> = b"
    by (rule bit_word_eqI) (auto simp: bit_simps)
  finally show ?thesis .
qed

lemma rec_size_hex2:
  assumes "count_readable n" "n < 256"
  shows "rec_size (hexdig (n div 16)) (hexdig (n mod 16)) = of_nat n"
proof -
  have d: "n div 16 < 16" "n mod 16 < 16" "n div 16 \<noteq> 10" "n mod 16 \<noteq> 10"
    using assms by (auto simp: count_readable_def)
  have "rec_size (hexdig (n div 16)) (hexdig (n mod 16)) =
      push_bit 4 (ucast (of_nat (n div 16) :: u8)) OR ucast (of_nat (n mod 16) :: u8)"
    using d by (simp add: rec_size_def size_digit_hexdig)
  also have "\<dots> = push_bit 4 (of_nat (n div 16)) OR of_nat (n mod 16)"
    using d by (simp add: unsigned_of_nat take_bit_nat_eq_self)
  also have "\<dots> = of_nat (push_bit 4 (n div 16) OR n mod 16)"
    by (simp add: of_nat_or_eq push_bit_of_nat)
  also have "push_bit 4 (n div 16) OR n mod 16 = n"
  proof -
    have "n div 16 = drop_bit 4 n" "n mod 16 = take_bit 4 n"
      by (simp_all add: drop_bit_eq_div take_bit_eq_mod)
    then show ?thesis by (simp add: bit_eq_iff bit_simps) auto
  qed
  finally show ?thesis .
qed

lemma char_at_append_right: "char_at (xs @ ys) (length xs + k) = char_at ys k"
  by (simp add: char_at_def nth_append)

text \<open>The address digits, reassembled through signed 32-bit shifts and the final mask.\<close>

definition widened_nibble :: "u32 \<Rightarrow> nat \<Rightarrow> u64" where
  "widened_nibble a sh =
     scast (push_bit sh (ucast (hctoi (hexdig (unat (take_bit 4 (drop_bit sh a)))) AND 15) :: u32))"

lemma bit_widened_nibble:
  "bit (widened_nibble a sh) k
     \<longleftrightarrow> k < 64 \<and> sh \<le> min k 31 \<and> min k 31 < sh + 4 \<and> bit a (min k 31)"
proof -
  have n: "unat (take_bit 4 (drop_bit sh a)) < 16"
    by (simp add: unsigned_take_bit_eq take_bit_nat_less_exp [of 4, simplified])
  have "ucast (hctoi (hexdig (unat (take_bit 4 (drop_bit sh a)))) AND 15) = take_bit 4 (drop_bit sh a)"
    using n by (simp add: hctoi_hexdig unsigned_of_nat take_bit_nat_eq_self unsigned_ucast_eq)
  then show ?thesis
    by (auto simp: widened_nibble_def bit_simps min_def)
qed

lemma mask_32: "(0xffffffff :: u64) = mask 32"
  by (simp add: mask_numeral)

lemma addr_nibbles_digits:
  assumes "length p = 4"
  shows "addr_nibbles (p @ addr_digits a @ q)
      [(4, 28), (5, 24), (6, 20), (7, 16), (8, 12), (9, 8), (10, 4), (11, 0)] 0 =
    Some (foldl (\<lambda>x sh. x OR widened_nibble a sh) 0 [28, 24, 20, 16, 12, 8, 4, 0])"
proof -
  obtain p0 p1 p2 p3 where p: "p = [p0, p1, p2, p3]"
    using assms by (auto simp: numeral_eq_Suc length_Suc_conv)
  show ?thesis
    by (simp add: p addr_digits_def char_at_def widened_nibble_def)
qed

lemma rec_addr_digits:
  assumes "length p = 4"
  shows "rec_addr (p @ addr_digits a @ q) = Some (ucast a)"
proof -
  have "foldl (\<lambda>x sh. x OR widened_nibble a sh) 0 [28, 24, 20, 16, 12, 8, 4, 0] AND mask 32 = ucast a"
  proof (rule bit_word_eqI)
    fix k assume "k < LENGTH(64)"
    have cover: "28 \<le> k \<or> 24 \<le> k \<and> k < 28 \<or> 20 \<le> k \<and> k < 24 \<or> 16 \<le> k \<and> k < 20 \<or>
        12 \<le> k \<and> k < 16 \<or> 8 \<le> k \<and> k < 12 \<or> 4 \<le> k \<and> k < 8 \<or> k < 4" by arith
    show "bit (foldl (\<lambda>x sh. x OR widened_nibble a sh) 0 [28, 24, 20, 16, 12, 8, 4, 0] AND mask 32) k =
        bit (ucast a :: u64) k"
    proof (cases "k < 32")
      case True
      then have "min k 31 = k" by simp
      with True cover show ?thesis
        by (auto simp: bit_and_iff bit_or_iff bit_mask_iff bit_ucast_iff bit_widened_nibble)
    next
      case False
      then show ?thesis
        using bit_imp_le_length [of a k] by (auto simp: bit_and_iff bit_mask_iff bit_ucast_iff)
    qed
  qed
  then show ?thesis
    using addr_nibbles_digits [OF assms] by (simp add: rec_addr_def mask_32)
qed

text \<open>The data bytes of a record, stored one after the other.\<close>

fun put_bytes :: "u64 \<Rightarrow> nat \<Rightarrow> u8 list \<Rightarrow> data_map \<Rightarrow> data_map" where
  "put_bytes addr i [] m = m"
| "put_bytes addr i (d # ds) m = put_bytes addr (Suc i) ds (map_put (addr + of_nat i) d m)"

lemma map_of_put_bytes:
  "i + length ds \<le> 2 ^ 64 \<Longrightarrow> map_of (put_bytes addr i ds m) x =
     (let k = unat (x - addr) in
      if i \<le> k \<and> k < i + length ds then Some (ds ! (k - i)) else map_of m x)"
proof (induction ds arbitrary: i m)
  case (Cons d ds)
  have i: "unat (addr + of_nat i - addr) = i" using Cons.prems by (intro unat_offset) simp
  have x: "x = addr + of_nat i \<longleftrightarrow> unat (x - addr) = i"
    using i unat_diff_eqD [of x addr i] by blast
  have IH: "map_of (put_bytes addr i (d # ds) m) x =
      (let k = unat (x - addr) in
       if Suc i \<le> k \<and> k < Suc i + length ds then Some (ds ! (k - Suc i))
       else map_of (map_put (addr + of_nat i) d m) x)"
    using Cons.IH [of "Suc i"] Cons.prems by simp
  show ?case
    unfolding IH map_of_map_put
    using x by (auto simp: Let_def nth_Cons diff_Suc split: nat.split)
qed (auto simp: Let_def)

lemma ordered_put_bytes: "ordered m \<Longrightarrow> ordered (put_bytes addr i ds m)"
  by (induction ds arbitrary: i m) (simp_all add: ordered_map_put)

lemma length_hex2 [simp]: "length (hex2 b) = 2"
  by (simp add: hex2_def)

lemma length_addr_digits [simp]: "length (addr_digits a) = 8"
  by (simp add: addr_digits_def)

lemma data_loop_hex:
  assumes "length pre = 12 + 2 * i"
  shows "data_loop (length ds) i (pre @ concat (map hex2 ds) @ post) addr m =
    Some (put_bytes addr i ds m)"
  using assms
proof (induction ds arbitrary: i pre m)
  case (Cons d ds)
  let ?line = "pre @ hex2 d @ concat (map hex2 ds) @ post"
  have hi: "char_at ?line (12 + 2 * i) = Some (hexdig (unat d div 16))"
    using Cons.prems char_at_append_right [of pre "hex2 d @ concat (map hex2 ds) @ post" 0]
    by (simp add: char_at_def hex2_def)
  have lo: "char_at ?line (13 + 2 * i) = Some (hexdig (unat d mod 16))"
    using Cons.prems char_at_append_right [of pre "hex2 d @ concat (map hex2 ds) @ post" 1]
    by (simp add: char_at_def hex2_def)
  have "data_loop (length ds) (Suc i) ((pre @ hex2 d) @ concat (map hex2 ds) @ post) addr
      (map_put (addr + of_nat i) d m) = Some (put_bytes addr (Suc i) ds (map_put (addr + of_nat i) d m))"
    by (rule Cons.IH) (use Cons.prems in simp)
  then show ?case using hi lo by (simp add: data_byte_hex2)
qed simp

lemma data_bytes_count: "n < 251 \<Longrightarrow> unat (data_bytes (of_nat (n + 5))) = n"
proof -
  assume "n < 251"
  have "(of_nat (n + 5) - 5 :: u32) = of_nat n" by simp
  then show ?thesis
    using \<open>n < 251\<close> by (simp add: data_bytes_def unsigned_of_nat take_bit_nat_eq_self)
qed

lemma srec_line_s3:
  assumes "length ds < 251" "count_readable (length ds + 5)"
  shows "srec_line (s3_record a ds ck) f =
    Some (f\<lparr>srec_data := put_bytes (ucast a) 0 ds (srec_data f)\<rparr>)"
proof -
  let ?n = "length ds + 5"
  let ?pre = "[83, 51, hexdig (?n div 16), hexdig (?n mod 16)]"
  have u: "unat (of_nat ?n :: u8) = ?n"
    using assms(1) by (intro unat_of_nat_id) simp
  have line: "s3_record a ds ck = ?pre @ addr_digits a @ (concat (map hex2 ds) @ hex2 ck)"
    using u by (simp add: s3_record_def hex2_def)
  have c: "char_at (s3_record a ds ck) 1 = Some 51"
    "char_at (s3_record a ds ck) 2 = Some (hexdig (?n div 16))"
    "char_at (s3_record a ds ck) 3 = Some (hexdig (?n mod 16))"
    by (simp_all add: line char_at_def)
  have addr: "rec_addr (s3_record a ds ck) = Some (ucast a)"
    unfolding line by (rule rec_addr_digits) simp
  have sz: "unat (data_bytes (rec_size (hexdig (?n div 16)) (hexdig (?n mod 16)))) = length ds"
    using assms by (simp only: rec_size_hex2 data_bytes_count)
  have "data_loop (length ds) 0 ((?pre @ addr_digits a) @ concat (map hex2 ds) @ hex2 ck)
      (ucast a) (srec_data f) = Some (put_bytes (ucast a) 0 ds (srec_data f))"
    by (rule data_loop_hex) simp
  then have loop: "data_loop (length ds) 0 (s3_record a ds ck) (ucast a) (srec_data f) =
      Some (put_bytes (ucast a) 0 ds (srec_data f))"
    by (simp add: line)
  show ?thesis
    unfolding srec_line_def c addr Let_def option.case sz prod.case loop
    by (simp add: line)
qed

section \<open>Whole files\<close>

lemma getline_line: "10 \<notin> set l \<Longrightarrow> getline (l @ 10 # rest) = Some (l, rest)"
  by (induction l) auto

lemma hexdig_no_newline: "n < 16 \<Longrightarrow> hexdig n \<noteq> 10"
  using less_16 [of n] by (auto simp: hexdig_def)

lemma hex2_no_newline: "10 \<notin> set (hex2 b)"
  using unat_nibbles [of b] hexdig_no_newline by (fastforce simp: hex2_def)

lemma nibble_less: "unat (take_bit 4 (w :: 'a::len word)) < 16"
  by (simp add: unsigned_take_bit_eq take_bit_nat_less_exp [of 4, simplified])

lemma addr_digits_no_newline: "10 \<notin> set (addr_digits a)"
  using hexdig_no_newline [OF nibble_less] by (fastforce simp: addr_digits_def)

lemma s3_no_newline: "10 \<notin> set (s3_record a ds ck)"
  using hex2_no_newline addr_digits_no_newline by (auto simp: s3_record_def)

type_synonym srec_data = "u32 \<times> u8 list \<times> u8"

fun s3_lines :: "srec_data list \<Rightarrow> u8 list" where
  "s3_lines [] = []"
| "s3_lines ((a, ds, ck) # rs) = s3_record a ds ck @ 10 # s3_lines rs"

fun s3_data :: "srec_data list \<Rightarrow> data_map \<Rightarrow> data_map" where
  "s3_data [] m = m"
| "s3_data ((a, ds, ck) # rs) m = s3_data rs (put_bytes (ucast a) 0 ds m)"

definition s3_readable :: "srec_data list \<Rightarrow> bool" where
  "s3_readable rs \<longleftrightarrow>
     (\<forall>(a, ds, ck) \<in> set rs. length ds < 251 \<and> count_readable (length ds + 5))"

text \<open>A line the reader skips: its type digit is 0 (header) or 7 (entry point).\<close>

definition skipped_line :: "u8 list \<Rightarrow> bool" where
  "skipped_line l \<longleftrightarrow> 4 \<le> length l \<and> (l ! 1 = 48 \<or> l ! 1 = 55) \<and> 10 \<notin> set l"

lemma srec_lines_cons:
  assumes "10 \<notin> set l" "srec_line l f = Some f'"
  shows "srec_lines (l @ 10 # rest) f = srec_lines rest f'"
  using assms by (subst srec_lines.simps) (simp add: getline_line)

lemma srec_line_skipped: "skipped_line l \<Longrightarrow> srec_line l f = Some f"
  by (auto simp: skipped_line_def srec_line_def char_at_def Let_def)

lemma srec_lines_s3:
  "s3_readable rs \<Longrightarrow>
     srec_lines (s3_lines rs @ rest) f = srec_lines rest (f\<lparr>srec_data := s3_data rs (srec_data f)\<rparr>)"
proof (induction rs arbitrary: f)
  case (Cons r rs)
  obtain a ds ck where r: "r = (a, ds, ck)" by (cases r)
  with Cons.prems have v: "length ds < 251" "count_readable (length ds + 5)" "s3_readable rs"
    by (simp_all add: s3_readable_def)
  show ?case
    using srec_lines_cons [OF s3_no_newline srec_line_s3 [OF v(1,2)]] Cons.IH [OF v(3)]
    by (simp add: r)
qed simp

lemma srec_file_lemma:
  assumes "s3_readable rs" "skipped_line hdr" "skipped_line ftr"
  shows "new_srec_file (Some (hdr @ 10 # s3_lines rs @ ftr @ 10 # [])) =
    Some \<lparr>srec_data = s3_data rs [], srec_cerr = []\<rparr>"
proof -
  have nl: "10 \<notin> set hdr" "10 \<notin> set ftr" using assms by (simp_all add: skipped_line_def)
  have e: "srec_lines [] f = Some f" for f by (subst srec_lines.simps) simp
  show ?thesis
    using srec_lines_cons [OF nl(1) srec_line_skipped [OF assms(2)]]
      srec_lines_cons [OF nl(2) srec_line_skipped [OF assms(3)]] srec_lines_s3 [OF assms(1)] e
    by (simp add: new_srec_file_def)
qed

lemma ordered_s3_data: "ordered m \<Longrightarrow> ordered (s3_data rs m)"
  by (induction rs m rule: s3_data.induct) (simp_all add: ordered_put_bytes)

section \<open>Loading through a byte store\<close>

context byte_store
begin

text \<open>Storing a list of address/byte pairs: the last value for an address wins.\<close>

lemma store_list_inr:
  "inr (foldl (\<lambda>b (a, v). snd (wr b a v)) s kvs) = inr s"
  by (induction kvs arbitrary: s) (auto simp: inr_wr)

lemma store_list_cont:
  assumes "\<forall>(a, v) \<in> set kvs. inr s a"
  shows "cont (foldl (\<lambda>b (a, v). snd (wr b a v)) s kvs) =
    (\<lambda>x. case map_of (rev kvs) x of Some v \<Rightarrow> v | None \<Rightarrow> cont s x)"
  using assms
proof (induction kvs arbitrary: s)
  case (Cons kv kvs)
  obtain a v where kv: "kv = (a, v)" by (cases kv)
  from Cons.prems kv have r: "inr s a" "\<forall>(b, w) \<in> set kvs. inr (snd (wr s a v)) b"
    by (auto simp: inr_wr)
  then show ?case using Cons.IH [OF r(2)]
    by (auto simp: kv cont_wr fun_eq_iff map_add_def split: option.split)
qed simp

end

lemma map_of_rev_ordered:
  fixes m :: data_map
  assumes "ordered m"
  shows "map_of (rev m) = map_of m"
  using assms
proof (induction m)
  case (Cons kv m)
  then have "\<forall>x \<in> set m. fst kv < fst x" by simp
  then have "fst kv \<notin> fst ` set m" by force
  then have "map_of m (fst kv) = None" by (simp add: map_of_eq_None_iff)
  with Cons show ?case by (auto simp: fun_eq_iff map_add_def split: option.split)
qed simp

lemma load_srec_lemma:
  assumes "ordered m" "\<forall>(a, v) \<in> set m. bus_ram bus a"
  shows "bus_byte (load_srec_file bus m) x =
    (case map_of m x of Some v \<Rightarrow> v | None \<Rightarrow> bus_byte bus x)"
  using bus.store_list_cont [OF assms(2)] map_of_rev_ordered [OF assms(1)]
  by (simp add: load_srec_file_def)

end
