(* ===== verification/Signature.thy ===== *)
theory Signature
  imports Srec
begin

text \<open>
  The memory signature of \<open>verif/core/verilator/main.cpp\<close>: \<open>dump_signature_file\<close> writes the
  32-bit words of a region as text, \<open>verif_signature_file\<close> compares such a text with the
  memory. Both loops count in 32 bits and need not end when the region touches the top of
  the 32-bit space, so they are partial functions. The messages on standard output are left
  out. C++ leaves the order of the two \<open>getc\<close> of a byte open: for each of the four bytes of a word the
  compiler's choice is an argument.
\<close>

section \<open>Dumping\<close>

text \<open>\<open>fprintf(fh, "%02x", b)\<close> for a byte.\<close>

definition hex02 :: "u8 \<Rightarrow> u8 list" where
  "hex02 b = [hex_digit (unat b div 16), hex_digit (unat b mod 16)]"

definition read_sig_byte :: "u32 \<Rightarrow> memory_bus \<Rightarrow> u8 \<times> memory_bus" where
  "read_sig_byte i bus = bus_read_byte bus (ucast i)"

text \<open>The four bytes of the word at \<open>i\<close>, highest address first.\<close>

definition read_sig_word :: "u32 \<Rightarrow> memory_bus \<Rightarrow> u8 list \<times> memory_bus" where
  "read_sig_word i bus =
     (case read_sig_byte (i + 3) bus of (b3, bus3) \<Rightarrow>
      case read_sig_byte (i + 2) bus3 of (b2, bus2) \<Rightarrow>
      case read_sig_byte (i + 1) bus2 of (b1, bus1) \<Rightarrow>
      case read_sig_byte (i + 0) bus1 of (b0, bus0) \<Rightarrow> ([b3, b2, b1, b0], bus0))"

definition sig_line :: "u8 list \<Rightarrow> u8 list" where
  "sig_line bs = concat (map hex02 bs) @ [10]"

partial_function (option) dump_signature_loop ::
  "u32 \<Rightarrow> u32 \<Rightarrow> memory_bus \<Rightarrow> u8 list \<Rightarrow> (u8 list \<times> memory_bus) option" where
  "dump_signature_loop i e bus out =
     (if i < e then
        (case read_sig_word i bus of (bs, bus') \<Rightarrow>
           dump_signature_loop (i + 4) e bus' (out @ sig_line bs))
      else Some (out, bus))"

definition dump_signature_file :: "u32 \<Rightarrow> u32 \<Rightarrow> memory_bus \<Rightarrow> (u8 list \<times> memory_bus) option" where
  "dump_signature_file sig_start sig_end bus = dump_signature_loop sig_start sig_end bus []"

section \<open>Verifying\<close>

text \<open>A \<open>char\<close> is signed: the comparisons are on the sign-extended value.\<close>

definition a2h :: "u8 \<Rightarrow> u32" where
  "a2h c =
     (let num = scast c :: u32 in
      if sint num < 58 \<and> sint num > 47 then num - 48
      else if sint num < 103 \<and> sint num > 96 then num - 87
      else num)"

fun getc :: "u8 list \<Rightarrow> u32 \<times> u8 list" where
  "getc [] = (- 1, [])"
| "getc (c # cs) = (ucast c, cs)"

text \<open>\<open>lf\<close> is whether the compiler evaluates the left of the two \<open>getc\<close> first.\<close>

definition get_sig_byte :: "bool \<Rightarrow> u8 list \<Rightarrow> u8 \<times> u8 list" where
  "get_sig_byte lf fh =
     (case getc fh of (c1, fh1) \<Rightarrow>
      case getc fh1 of (c2, fh2) \<Rightarrow>
        (let l = (if lf then c1 else c2); r = (if lf then c2 else c1) in
         (ucast (push_bit 4 (a2h (ucast l)) OR a2h (ucast r)), fh2)))"

definition get_sig_word :: "(nat \<Rightarrow> bool) \<Rightarrow> u8 list \<Rightarrow> u8 list \<times> u8 list" where
  "get_sig_word lf fh =
     (case get_sig_byte (lf 3) fh of (s3, fh3) \<Rightarrow>
      case get_sig_byte (lf 2) fh3 of (s2, fh2) \<Rightarrow>
      case get_sig_byte (lf 1) fh2 of (s1, fh1) \<Rightarrow>
      case get_sig_byte (lf 0) fh1 of (s0, fh0) \<Rightarrow> ([s3, s2, s1, s0], snd (getc fh0)))"

partial_function (option) verif_signature_loop ::
  "(nat \<Rightarrow> bool) \<Rightarrow> u32 \<Rightarrow> u32 \<Rightarrow> memory_bus \<Rightarrow> u8 list \<Rightarrow> bool \<Rightarrow> (bool \<times> memory_bus) option" where
  "verif_signature_loop lf i e bus fh result =
     (if i < e then
        (case read_sig_word i bus of (dut, bus') \<Rightarrow>
         case get_sig_word lf fh of (sig, fh') \<Rightarrow>
           verif_signature_loop lf (i + 4) e bus' fh' (if dut \<noteq> sig then False else result))
      else Some (result, bus))"

text \<open>A file that cannot be opened is a null pointer for \<open>getc\<close>: undefined.\<close>

definition verif_signature_file ::
  "(nat \<Rightarrow> bool) \<Rightarrow> u32 \<Rightarrow> u32 \<Rightarrow> u8 list option \<Rightarrow> memory_bus \<Rightarrow> (bool \<times> memory_bus) option" where
  "verif_signature_file lf sig_start sig_end file bus =
     (case file of
        None \<Rightarrow> if sig_start < sig_end then None else Some (True, bus)
      | Some fh \<Rightarrow> verif_signature_loop lf sig_start sig_end bus fh True)"

section \<open>Hexadecimal bytes\<close>

lemma a2h_hex_digit: "n < 16 \<Longrightarrow> a2h (hex_digit n) = of_nat n"
  using less_16 [of n] by (auto simp: a2h_def hex_digit_def Let_def)

lemma ucast_getc [simp]: "ucast (ucast (c :: u8) :: u32) = c"
  by (simp add: unsigned_ucast_eq take_bit_word_eq_self)

lemma nibbles_or: "n < 16 \<Longrightarrow> m < 16 \<Longrightarrow>
  ucast (push_bit 4 (of_nat n :: u32) OR of_nat m) = (of_nat (16 * n + m) :: u8)"
  using less_16 [of n] less_16 [of m] by auto

text \<open>The byte that the two digits of \<open>b\<close> are read as, and the four bytes of a line.\<close>

definition byte_as_read :: "bool \<Rightarrow> u8 \<Rightarrow> u8" where
  "byte_as_read lf b = (if lf then b else of_nat (16 * (unat b mod 16) + unat b div 16))"

definition word_as_read :: "(nat \<Rightarrow> bool) \<Rightarrow> u8 list \<Rightarrow> u8 list" where
  "word_as_read lf bs = map2 (\<lambda>k. byte_as_read (lf k)) [3, 2, 1, 0] bs"

lemma get_sig_byte_hex02: "get_sig_byte lf (hex02 b @ rest) = (byte_as_read lf b, rest)"
proof -
  have n: "unat b div 16 < 16" "unat b mod 16 < 16" using unat_bound [of b] by auto
  have "16 * (unat b div 16) + unat b mod 16 = unat b" by simp
  then show ?thesis
    using nibbles_or [OF n] nibbles_or [OF n(2,1)]
    by (simp add: get_sig_byte_def hex02_def a2h_hex_digit n byte_as_read_def)
qed

lemma get_sig_word_line:
  "get_sig_word lf (sig_line [b3, b2, b1, b0] @ rest) = (word_as_read lf [b3, b2, b1, b0], rest)"
  by (simp add: get_sig_word_def sig_line_def get_sig_byte_hex02 word_as_read_def)

lemma word_as_read_left: "(\<And>k. k < 4 \<Longrightarrow> lf k) \<Longrightarrow> word_as_read lf [b3, b2, b1, b0] = [b3, b2, b1, b0]"
  by (simp add: word_as_read_def byte_as_read_def)

section \<open>The two loops over a region of RAM\<close>

definition sig_bounded :: "u32 \<Rightarrow> bool" where
  "sig_bounded e \<longleftrightarrow> unat e + 4 \<le> 2 ^ 32"

lemma sig_next:
  assumes "i < e" "sig_bounded e"
  shows "unat (i + 4) = unat i + 4"
proof -
  have "unat i + unat (4 :: u32) < 2 ^ LENGTH(32)"
    using assms by (simp add: sig_bounded_def word_less_nat_alt)
  then show ?thesis by (subst unat_plus_simple [THEN iffD1]) (simp_all add: no_olen_add_nat)
qed

text \<open>The word addresses both loops visit.\<close>

function sig_addrs :: "u32 \<Rightarrow> u32 \<Rightarrow> u32 list" where
  "sig_addrs i e = (if i < e \<and> sig_bounded e then i # sig_addrs (i + 4) e else [])"
  by pat_completeness auto
termination
  by (relation "measure (\<lambda>(i, e). unat e - unat i)") (auto simp: sig_next word_less_nat_alt)

declare sig_addrs.simps [simp del]

definition sig_word :: "memory_bus \<Rightarrow> u32 \<Rightarrow> u8 list" where
  "sig_word bus i =
     [bus_byte bus (ucast (i + 3)), bus_byte bus (ucast (i + 2)),
      bus_byte bus (ucast (i + 1)), bus_byte bus (ucast (i + 0))]"

definition sig_ram :: "u32 \<Rightarrow> u32 \<Rightarrow> memory_bus \<Rightarrow> bool" where
  "sig_ram s e bus \<longleftrightarrow> list_all (\<lambda>i. bus_ram bus (ucast (i + 3)) \<and> bus_ram bus (ucast (i + 2)) \<and>
     bus_ram bus (ucast (i + 1)) \<and> bus_ram bus (ucast (i + 0))) (sig_addrs s e)"

lemma read_sig_byte_ram:
  assumes "bus_ram bus (ucast i)"
  shows "read_sig_byte i bus = (bus_byte bus (ucast i), snd (read_sig_byte i bus))"
    and "bus_byte (snd (read_sig_byte i bus)) = bus_byte bus"
    and "bus_ram (snd (read_sig_byte i bus)) = bus_ram bus"
  using assms
  by (simp_all add: read_sig_byte_def bus.rd_val bus.cont_rd bus.inr_rd prod_eq_iff)

lemma read_sig_word_ram:
  assumes "bus_ram bus (ucast (i + 3))" "bus_ram bus (ucast (i + 2))"
    "bus_ram bus (ucast (i + 1))" "bus_ram bus (ucast (i + 0))"
  obtains bus' where "read_sig_word i bus = (sig_word bus i, bus')"
    "bus_byte bus' = bus_byte bus" "bus_ram bus' = bus_ram bus"
proof -
  define b1 where "b1 = snd (read_sig_byte (i + 3) bus)"
  define b2 where "b2 = snd (read_sig_byte (i + 2) b1)"
  define b3 where "b3 = snd (read_sig_byte (i + 1) b2)"
  define b4 where "b4 = snd (read_sig_byte (i + 0) b3)"
  note step1 = read_sig_byte_ram [OF assms(1), folded b1_def]
  have "bus_ram b1 (ucast (i + 2))" using assms step1 by simp
  note step2 = read_sig_byte_ram [OF this, folded b2_def]
  have "bus_ram b2 (ucast (i + 1))" using assms step1 step2 by simp
  note step3 = read_sig_byte_ram [OF this, folded b3_def]
  have "bus_ram b3 (ucast (i + 0))" using assms step1 step2 step3 by simp
  note step4 = read_sig_byte_ram [OF this, folded b4_def]
  show thesis
  proof (rule that)
    show "read_sig_word i bus = (sig_word bus i, b4)"
      unfolding read_sig_word_def sig_word_def step1(1) prod.case step2(1) step3(1) step4(1)
      by (simp only: step1(2) step2(2) step3(2))
    show "bus_byte b4 = bus_byte bus" "bus_ram b4 = bus_ram bus"
      using step1 step2 step3 step4 by simp_all
  qed
qed

lemma sig_ram_step:
  assumes "i < e" "sig_bounded e" "sig_ram i e bus"
  obtains bus' where "read_sig_word i bus = (sig_word bus i, bus')"
    "bus_byte bus' = bus_byte bus" "bus_ram bus' = bus_ram bus" "sig_ram (i + 4) e bus'"
proof -
  have a: "sig_addrs i e = i # sig_addrs (i + 4) e"
    using assms by (subst sig_addrs.simps) simp
  from assms(3) a have r: "bus_ram bus (ucast (i + 3))" "bus_ram bus (ucast (i + 2))"
    "bus_ram bus (ucast (i + 1))" "bus_ram bus (ucast (i + 0))" "sig_ram (i + 4) e bus"
    by (simp_all add: sig_ram_def)
  obtain bus' where "read_sig_word i bus = (sig_word bus i, bus')"
    "bus_byte bus' = bus_byte bus" "bus_ram bus' = bus_ram bus"
    using read_sig_word_ram [OF r(1-4)] .
  with r(5) show thesis by (intro that [of bus']) (simp_all add: sig_ram_def)
qed

lemma sig_word_cong: "bus_byte b = bus_byte b' \<Longrightarrow> sig_word b = sig_word b'"
  by (simp add: sig_word_def fun_eq_iff)

definition sig_text :: "memory_bus \<Rightarrow> u32 list \<Rightarrow> u8 list" where
  "sig_text bus is = concat (map (\<lambda>i. sig_line (sig_word bus i)) is)"

lemma dump_signature_loop_ram:
  assumes "sig_bounded e" "sig_ram i e bus"
  shows "\<exists>bus'. dump_signature_loop i e bus out = Some (out @ sig_text bus (sig_addrs i e), bus') \<and>
    bus_byte bus' = bus_byte bus \<and> bus_ram bus' = bus_ram bus"
  using assms
proof (induction "unat e - unat i" arbitrary: i bus out rule: less_induct)
  case less
  show ?case
  proof (cases "i < e")
    case False
    then show ?thesis by (simp add: dump_signature_loop.simps sig_addrs.simps sig_text_def)
  next
    case True
    have a: "sig_addrs i e = i # sig_addrs (i + 4) e"
      using True less.prems by (subst sig_addrs.simps) simp
    obtain bus1 where b1: "read_sig_word i bus = (sig_word bus i, bus1)"
      "bus_byte bus1 = bus_byte bus" "bus_ram bus1 = bus_ram bus" "sig_ram (i + 4) e bus1"
      using sig_ram_step [OF True less.prems] .
    have "unat e - unat (i + 4) < unat e - unat i"
      using sig_next [OF True less.prems(1)] True by (simp add: word_less_nat_alt)
    from less.hyps [OF this less.prems(1) b1(4), of "out @ sig_line (sig_word bus i)"] b1 True
    show ?thesis
      by (subst dump_signature_loop.simps) (auto simp: a sig_text_def sig_word_cong [OF b1(2)])
  qed
qed

lemma verif_signature_loop_ram:
  assumes "sig_bounded e" "sig_ram i e bus"
  shows "\<exists>bus'. verif_signature_loop lf i e bus (sig_text ref (sig_addrs i e) @ rest) result =
      Some (result \<and> (\<forall>j \<in> set (sig_addrs i e). sig_word bus j = word_as_read lf (sig_word ref j)), bus')"
  using assms
proof (induction "unat e - unat i" arbitrary: i bus result rule: less_induct)
  case less
  show ?case
  proof (cases "i < e")
    case False
    then show ?thesis by (simp add: verif_signature_loop.simps sig_addrs.simps)
  next
    case True
    have a: "sig_addrs i e = i # sig_addrs (i + 4) e"
      using True less.prems by (subst sig_addrs.simps) simp
    obtain bus1 where b1: "read_sig_word i bus = (sig_word bus i, bus1)"
      "bus_byte bus1 = bus_byte bus" "sig_ram (i + 4) e bus1"
      using sig_ram_step [OF True less.prems] by metis
    have w: "get_sig_word lf (sig_text ref (sig_addrs i e) @ rest) =
        (word_as_read lf (sig_word ref i), sig_text ref (sig_addrs (i + 4) e) @ rest)"
      using get_sig_word_line by (simp add: a sig_text_def sig_word_def)
    have "unat e - unat (i + 4) < unat e - unat i"
      using sig_next [OF True less.prems(1)] True by (simp add: word_less_nat_alt)
    from less.hyps [OF this less.prems(1) b1(3),
        of "if sig_word bus i \<noteq> word_as_read lf (sig_word ref i) then False else result"]
    show ?thesis using True b1(1) w
      by (subst verif_signature_loop.simps) (auto simp: a sig_word_cong [OF b1(2)])
  qed
qed

end
