(* ===== verification/Args.thy ===== *)
theory Args
  imports Srec
begin

text \<open>
  The command line of the two simulators (\<open>process_arguments\<close> of
  \<open>verif/core/verilator/main.cpp\<close> and \<open>verif/ccx/verilator/main.cpp\<close>), with the standard
  library functions it uses: \<open>std::string::find\<close>, \<open>substr\<close> and \<open>std::stoul\<close>. The globals
  are the record \<open>args\<close>. An uncaught exception is \<open>Throws\<close>, \<open>exit(0)\<close> is \<open>Exits\<close>. The
  progress messages are left out.
\<close>

section \<open>Strings and numbers of the standard library\<close>

definition str :: "string \<Rightarrow> u8 list" where
  "str s = map of_char s"

text \<open>\<open>s.find(pat) != std::string::npos\<close>\<close>

fun found :: "u8 list \<Rightarrow> u8 list \<Rightarrow> bool" where
  "found pat [] = (pat = [])"
| "found pat (c # cs) = (take (length pat) (c # cs) = pat \<or> found pat cs)"

definition substr :: "u8 list \<Rightarrow> nat \<Rightarrow> u8 list option" where
  "substr s pos = (if pos \<le> length s then Some (drop pos s) else None)"

definition is_space :: "u8 \<Rightarrow> bool" where
  "is_space c \<longleftrightarrow> c = 32 \<or> 9 \<le> c \<and> c \<le> 13"

definition digit_val :: "u8 \<Rightarrow> nat option" where
  "digit_val c =
     (if 48 \<le> c \<and> c \<le> 57 then Some (unat c - 48)
      else if 97 \<le> c \<and> c \<le> 122 then Some (unat c - 87)
      else if 65 \<le> c \<and> c \<le> 90 then Some (unat c - 55)
      else None)"

definition is_digit :: "nat \<Rightarrow> u8 \<Rightarrow> bool" where
  "is_digit base c = (case digit_val c of None \<Rightarrow> False | Some d \<Rightarrow> d < base)"

fun digits :: "nat \<Rightarrow> u8 list \<Rightarrow> nat \<Rightarrow> nat" where
  "digits base [] acc = acc"
| "digits base (c # cs) acc =
     (if is_digit base c then digits base cs (base * acc + the (digit_val c)) else acc)"

text \<open>\<open>strtoul\<close> with base 0 takes the base from the prefix.\<close>

fun detect_base :: "nat \<Rightarrow> u8 list \<Rightarrow> nat \<times> u8 list" where
  "detect_base base (z # x # d # cs) =
     (if base = 0 \<and> z = 48 \<and> (x = 120 \<or> x = 88) \<and> is_digit 16 d then (16, d # cs)
      else if base = 0 then (if z = 48 then 8 else 10, z # x # d # cs)
      else (base, z # x # d # cs))"
| "detect_base base (z # cs) = (if base = 0 then (if z = 48 then 8 else 10) else base, z # cs)"
| "detect_base base [] = (if base = 0 then 10 else base, [])"

definition sign_of :: "u8 list \<Rightarrow> bool \<times> u8 list" where
  "sign_of s =
     (case s of
        c # cs \<Rightarrow> if c = 45 then (True, cs) else if c = 43 then (False, cs) else (False, s)
      | [] \<Rightarrow> (False, []))"

text \<open>\<open>std::stoul\<close>: \<open>None\<close> is \<open>std::invalid_argument\<close> or \<open>std::out_of_range\<close>.\<close>

definition stoul :: "nat \<Rightarrow> u8 list \<Rightarrow> u64 option" where
  "stoul base s =
     (case sign_of (dropWhile is_space s) of (neg, s1) \<Rightarrow>
      case detect_base base s1 of (b, s2) \<Rightarrow>
        (case s2 of
           [] \<Rightarrow> None
         | c # cs \<Rightarrow>
             (if is_digit b c then
                (let n = digits b s2 0 in
                 if n < 2 ^ 64 then Some (if neg then - of_nat n else of_nat n) else None)
              else None)))"

section \<open>The globals\<close>

record args =
  TB_PASS_ADDRESS :: u32
  TB_FAIL_ADDRESS :: u32
  quiet :: bool
  arg_dump_waves :: bool
  vcd_wavefile_path :: "u8 list"
  dump_signature :: bool
  sig_dump_path :: "u8 list"
  SIG_START :: u32
  SIG_END :: u32
  REG_ADDR :: u32
  verif_signature :: bool
  sig_verif_path :: "u8 list"
  arg_max_sim_time :: u64
  load_srec :: bool
  srec_path :: "u8 list"
  max_stall_imem :: u32
  max_stall_dmem :: u32

definition core_default_args :: args where
  "core_default_args =
     \<lparr>TB_PASS_ADDRESS = 0, TB_FAIL_ADDRESS = - 1, quiet = False, arg_dump_waves = False,
      vcd_wavefile_path = str ''waves.vcd'', dump_signature = False,
      sig_dump_path = str ''signature.sig'', SIG_START = 0, SIG_END = 0, REG_ADDR = 0,
      verif_signature = False, sig_verif_path = [], arg_max_sim_time = 10000,
      load_srec = False, srec_path = [], max_stall_imem = 0, max_stall_dmem = 0\<rparr>"

datatype arg_result = Parsed args | Exits | Throws

definition with_path :: "u8 list \<Rightarrow> nat \<Rightarrow> (u8 list \<Rightarrow> args) \<Rightarrow> arg_result" where
  "with_path s pos k = (case substr s pos of None \<Rightarrow> Throws | Some path \<Rightarrow> Parsed (k path))"

definition with_num :: "nat \<Rightarrow> u8 list \<Rightarrow> nat \<Rightarrow> (u64 \<Rightarrow> args) \<Rightarrow> arg_result" where
  "with_num base s pos k =
     (case substr s pos of
        None \<Rightarrow> Throws
      | Some num \<Rightarrow> (case stoul base num of None \<Rightarrow> Throws | Some v \<Rightarrow> Parsed (k v)))"

section \<open>The core simulator\<close>

definition core_argument :: "u8 list \<Rightarrow> args \<Rightarrow> arg_result" where
  "core_argument s a =
     (if found (str ''+IMEM='') s then
        with_path s 6 (\<lambda>p. a\<lparr>srec_path := p, load_srec := True\<rparr>)
      else if found (str ''+WAVES='') s then
        with_path s 7 (\<lambda>p. if p \<noteq> [] then a\<lparr>vcd_wavefile_path := p, arg_dump_waves := True\<rparr>
                           else a\<lparr>vcd_wavefile_path := p\<rparr>)
      else if found (str ''+TIMEOUT='') s then
        with_num 10 s 9 (\<lambda>v. a\<lparr>arg_max_sim_time := v * 10\<rparr>)
      else if found (str ''+IMEM_MAX_STALL='') s then
        with_num 10 s 16 (\<lambda>v. a\<lparr>max_stall_imem := ucast v\<rparr>)
      else if found (str ''+DMEM_MAX_STALL='') s then
        with_num 10 s 16 (\<lambda>v. a\<lparr>max_stall_dmem := ucast v\<rparr>)
      else if found (str ''+PASS_ADDR='') s then
        with_num 0 s 11 (\<lambda>v. a\<lparr>TB_PASS_ADDRESS := ucast v\<rparr>)
      else if found (str ''+FAIL_ADDR='') s then
        with_num 0 s 11 (\<lambda>v. a\<lparr>TB_FAIL_ADDRESS := ucast v\<rparr>)
      else if found (str ''+SIG_START='') s then
        with_num 0 s 11 (\<lambda>v. a\<lparr>SIG_START := ucast v\<rparr>)
      else if found (str ''+SIG_END='') s then
        with_num 0 s 9 (\<lambda>v. a\<lparr>SIG_END := ucast v\<rparr>)
      else if found (str ''+REG_ADDR='') s then
        with_num 0 s 10 (\<lambda>v. a\<lparr>REG_ADDR := ucast v\<rparr>)
      else if found (str ''+SIG_PATH='') s then
        with_path s 10 (\<lambda>p. if p \<noteq> [] then a\<lparr>sig_dump_path := p, dump_signature := True\<rparr>
                            else a\<lparr>sig_dump_path := p\<rparr>)
      else if found (str ''+SIG_VERIF='') s then
        with_path s 11 (\<lambda>p. if p \<noteq> [] then a\<lparr>sig_verif_path := p, verif_signature := True\<rparr>
                            else a\<lparr>sig_verif_path := p\<rparr>)
      else if s = str ''+q'' then Parsed (a\<lparr>quiet := True\<rparr>)
      else if s = str ''--help'' \<or> s = str ''-h'' then Exits
      else Parsed a)"

fun process_with :: "(u8 list \<Rightarrow> args \<Rightarrow> arg_result) \<Rightarrow> u8 list list \<Rightarrow> args \<Rightarrow> arg_result" where
  "process_with f [] a = Parsed a"
| "process_with f (s # argv) a =
     (case f s a of Parsed a' \<Rightarrow> process_with f argv a' | Exits \<Rightarrow> Exits | Throws \<Rightarrow> Throws)"

definition core_process_arguments :: "u8 list list \<Rightarrow> args \<Rightarrow> arg_result" where
  "core_process_arguments = process_with core_argument"

section \<open>The core complex simulator\<close>

text \<open>It has one memory port: its stall limit is kept in \<open>max_stall_imem\<close>.\<close>

definition ccx_default_args :: args where
  "ccx_default_args = core_default_args\<lparr>TB_PASS_ADDRESS := - 1\<rparr>"

definition ccx_argument :: "u8 list \<Rightarrow> args \<Rightarrow> arg_result" where
  "ccx_argument s a =
     (if found (str ''+IMEM='') s then
        with_path s 6 (\<lambda>p. a\<lparr>srec_path := p, load_srec := True\<rparr>)
      else if found (str ''+WAVES='') s then
        with_path s 7 (\<lambda>p. if p \<noteq> [] then a\<lparr>vcd_wavefile_path := p, arg_dump_waves := True\<rparr>
                           else a\<lparr>vcd_wavefile_path := p\<rparr>)
      else if found (str ''+TIMEOUT='') s then
        with_num 10 s 9 (\<lambda>v. a\<lparr>arg_max_sim_time := v * 10\<rparr>)
      else if found (str ''+MEM_MAX_STALL='') s then
        with_num 10 s 16 (\<lambda>v. a\<lparr>max_stall_imem := ucast v\<rparr>)
      else if found (str ''+PASS_ADDR='') s then
        with_num 0 s 11 (\<lambda>v. a\<lparr>TB_PASS_ADDRESS := ucast (v AND 0xFFFFFFFF)\<rparr>)
      else if found (str ''+FAIL_ADDR='') s then
        with_num 0 s 11 (\<lambda>v. a\<lparr>TB_FAIL_ADDRESS := ucast (v AND 0xFFFFFFFF)\<rparr>)
      else if s = str ''+q'' then Parsed (a\<lparr>quiet := True\<rparr>)
      else if s = str ''--help'' \<or> s = str ''-h'' then Exits
      else Parsed a)"

definition ccx_process_arguments :: "u8 list list \<Rightarrow> args \<Rightarrow> arg_result" where
  "ccx_process_arguments = process_with ccx_argument"

section \<open>Numbers as the tools print them\<close>

lemma digits_append:
  "list_all (is_digit b) xs \<Longrightarrow> digits b (xs @ ys) acc = digits b ys (digits b xs acc)"
  by (induction xs arbitrary: acc) simp_all

lemma digit_val_hex_digit:
  assumes "n < 16"
  shows "digit_val (hex_digit n) = Some n"
  using less_16 [OF assms] by (elim insertE emptyE; simp add: digit_val_def hex_digit_def)

lemma is_digit_hex_digit: "n < 16 \<Longrightarrow> is_digit 16 (hex_digit n)"
  by (simp add: is_digit_def digit_val_hex_digit)

lemma to_hex_digits: "list_all (is_digit 16) (to_hex n)"
proof (induction n rule: to_hex.induct)
  case (1 n)
  then show ?case
    by (subst to_hex.simps) (simp add: is_digit_hex_digit)
qed

lemma digits_to_hex: "digits 16 (to_hex n) 0 = n"
proof (induction n rule: to_hex.induct)
  case (1 n)
  show ?case
  proof (cases "n < 16")
    case True
    then show ?thesis by (simp add: to_hex.simps is_digit_hex_digit digit_val_hex_digit)
  next
    case False
    with 1 have "digits 16 (to_hex (n div 16)) 0 = n div 16" by simp
    with False show ?thesis
      by (subst to_hex.simps)
        (simp add: digits_append to_hex_digits is_digit_hex_digit digit_val_hex_digit)
  qed
qed

lemma to_hex_cons: "\<exists>d ds. to_hex n = d # ds \<and> is_digit 16 d"
  using to_hex_digits [of n] by (cases "to_hex n") (simp_all add: to_hex.simps split: if_splits)

lemma stoul_hex:
  assumes "n < 2 ^ 64"
  shows "stoul 0 (48 # 120 # to_hex n) = Some (of_nat n)"
proof -
  obtain d ds where d: "to_hex n = d # ds" "is_digit 16 d" using to_hex_cons by blast
  have "digits 16 (d # ds) 0 = n" using digits_to_hex [of n] d by simp
  with d assms show ?thesis by (simp add: stoul_def is_space_def sign_of_def Let_def)
qed

lemma found_prefix: "found pat (pat @ s)"
proof (cases "pat @ s")
  case (Cons c cs)
  then have "take (length pat) (c # cs) = pat" by (metis append_eq_conv_conj)
  with Cons show ?thesis by simp
qed simp

end
