(* ===== verification/Simulator.thy ===== *)
theory Simulator
  imports Testbench Signature Args
begin

text \<open>
  The two \<open>main\<close> functions (\<open>verif/core/verilator/main.cpp\<close>,
  \<open>verif/ccx/verilator/main.cpp\<close>): parse the arguments, build the bench, load the program,
  run, dump and check the signature, choose the exit code. Files are a map from paths to
  contents; writing always succeeds. \<open>None\<close> means that the program does not return or has
  undefined behaviour. \<open>Returned code sig\<close> carries the signature file that was written.
\<close>

datatype outcome =
    Returned nat "(u8 list \<times> u8 list) option"
  | ExitedHelp
  | Uncaught

text \<open>The last lines of \<open>main\<close>: a timeout comes first, then a pass, then the signature.\<close>

definition exit_code :: "u64 \<Rightarrow> u64 \<Rightarrow> bool \<Rightarrow> bool \<Rightarrow> nat" where
  "exit_code time limit passed verif_result =
     (if time \<ge> limit then 1
      else if passed then 0
      else if \<not> verif_result then 3
      else 2)"

text \<open>What surrounds the run: everything the simulated design and the host provide, and the order in which
  the compiler evaluates the reads of a signature byte.\<close>

record ('r, 't) host =
  host_files :: "u8 list \<Rightarrow> u8 list option"
  host_left_first :: "nat \<Rightarrow> bool"
  host_rand :: "'r \<Rightarrow> nat \<times> 'r"
  host_seed :: 'r
  host_eval :: "'t \<Rightarrow> 't"
  host_top :: 't
  host_iagent :: core_mem_agent
  host_dagent :: core_mem_agent
  host_uart :: "u32 \<times> u32 \<times> u32 \<times> u32"

definition set_max_stall :: "u32 \<Rightarrow> core_mem_agent \<Rightarrow> core_mem_agent" where
  "set_max_stall n ag = ag\<lparr>max_req_stall := n\<rparr>"

text \<open>\<open>load_srec_file\<close> with the constructor of \<open>srec_file\<close>; without \<open>+IMEM=\<close> it is skipped.\<close>

definition load_program ::
  "(u8 list \<Rightarrow> u8 list option) \<Rightarrow> args \<Rightarrow> memory_bus \<Rightarrow> memory_bus option" where
  "load_program files a bus =
     (if load_srec a
      then map_option (\<lambda>f. load_srec_file bus (srec_data f)) (new_srec_file (files (srec_path a)))
      else Some bus)"

definition configured :: "args \<Rightarrow> 'w \<Rightarrow> 'w testbench" where
  "configured a w =
     (new_testbench w)\<lparr>pass_address := ucast (TB_PASS_ADDRESS a),
        fail_address := ucast (TB_FAIL_ADDRESS a), max_sim_time := arg_max_sim_time a\<rparr>"

text \<open>The signature phase and the exit code of the core simulator, on the memory left.\<close>

definition write_signature ::
  "args \<Rightarrow> memory_bus \<Rightarrow> ((u8 list \<times> u8 list) option \<times> memory_bus) option" where
  "write_signature a bus =
     (if dump_signature a
      then map_option (\<lambda>(out, bus'). (Some (sig_dump_path a, out), bus'))
             (dump_signature_file (SIG_START a) (SIG_END a) bus)
      else Some (None, bus))"

definition files_after ::
  "(u8 list \<Rightarrow> u8 list option) \<Rightarrow> (u8 list \<times> u8 list) option \<Rightarrow> u8 list \<Rightarrow> u8 list option" where
  "files_after files written =
     (case written of None \<Rightarrow> files | Some (path, out) \<Rightarrow> files(path \<mapsto> out))"

definition check_signature ::
  "(nat \<Rightarrow> bool) \<Rightarrow> (u8 list \<Rightarrow> u8 list option) \<Rightarrow> args \<Rightarrow> memory_bus \<Rightarrow> (bool \<times> memory_bus) option" where
  "check_signature lf files a bus =
     (if verif_signature a
      then verif_signature_file lf (SIG_START a) (SIG_END a) (files (sig_verif_path a)) bus
      else Some (True, bus))"

definition core_finish ::
  "(nat \<Rightarrow> bool) \<Rightarrow> (u8 list \<Rightarrow> u8 list option) \<Rightarrow> args \<Rightarrow> u64 \<Rightarrow> bool \<Rightarrow> memory_bus \<Rightarrow> outcome option" where
  "core_finish lf files a time passed bus =
     (case write_signature a bus of
        None \<Rightarrow> None
      | Some (written, bus1) \<Rightarrow>
          (case check_signature lf (files_after files written) a bus1 of
             None \<Rightarrow> None
           | Some (verif_result, bus2) \<Rightarrow>
               Some (Returned (exit_code time (arg_max_sim_time a) (passed \<and> verif_result) verif_result)
                      written)))"

definition core_simulate ::
  "('r, 'd core_top) host \<Rightarrow> args \<Rightarrow> memory_bus \<Rightarrow> ('r, 'd) core_wrapper testbench option" where
  "core_simulate h a bus =
     run_simulation core_set_reset (core_step_clk (host_rand h) (host_eval h)) core_clear_reset
       (configured a
          (new_core_wrapper bus (host_seed h) (host_top h)
             (set_max_stall (max_stall_imem a) (host_iagent h))
             (set_max_stall (max_stall_dmem a) (host_dagent h))))"

definition core_main :: "('r, 'd core_top) host \<Rightarrow> u8 list list \<Rightarrow> outcome option" where
  "core_main h argv =
     (case core_process_arguments argv core_default_args of
        Exits \<Rightarrow> Some ExitedHelp
      | Throws \<Rightarrow> Some Uncaught
      | Parsed a \<Rightarrow>
          (case host_uart h of (tx, rx, ctrl, status) \<Rightarrow>
           case load_program (host_files h) a (core_build tx rx ctrl status) of
             None \<Rightarrow> None
           | Some bus \<Rightarrow>
               (case core_simulate h a bus of
                  None \<Rightarrow> None
                | Some tb \<Rightarrow>
                    core_finish (host_left_first h) (host_files h) a (sim_time (tb_dut tb)) (sim_passed tb)
                      (wr_mem (tb_dut tb)))))"

definition ccx_simulate ::
  "('r, 'd ccx_top) host \<Rightarrow> args \<Rightarrow> memory_bus \<Rightarrow> ('r, 'd) ccx_wrapper testbench option" where
  "ccx_simulate h a bus =
     run_simulation ccx_set_reset (ccx_step_clk (host_rand h) (host_eval h)) ccx_clear_reset
       (configured a
          (new_ccx_wrapper bus (host_seed h) (host_top h)
             (set_max_stall (max_stall_imem a) (host_iagent h))))"

definition ccx_main :: "('r, 'd ccx_top) host \<Rightarrow> u8 list list \<Rightarrow> outcome option" where
  "ccx_main h argv =
     (case ccx_process_arguments argv ccx_default_args of
        Exits \<Rightarrow> Some ExitedHelp
      | Throws \<Rightarrow> Some Uncaught
      | Parsed a \<Rightarrow>
          (case host_uart h of (tx, rx, ctrl, status) \<Rightarrow>
           case load_program (host_files h) a (ccx_build tx rx ctrl status) of
             None \<Rightarrow> None
           | Some bus \<Rightarrow>
               map_option
                 (\<lambda>tb. Returned (exit_code (sim_time (tb_dut tb)) (arg_max_sim_time a) (sim_passed tb) True)
                         None)
                 (ccx_simulate h a bus)))"

end
