(* ===== verification/Bench_Props.thy ===== *)
theory Bench_Props
  imports Simulator
begin

text \<open>
  What the C++ test bench promises: its address map, transactions on the bus, the memory
  agent, the UART, the loading of programs, the signature files, the simulation loop, the
  command line and the exit code. Each property with hypotheses is followed by a concrete
  instance.
\<close>

section \<open>The address maps that \<open>build\<close> sets up\<close>

lemma core_build_devices:
  "bus_devices (core_build t r c st) =
     [Ram (new_ram 0x10000000 0x200000), Uart (new_uart 0x11000000 t r c st)]"
  by (simp add: core_build_def Let_def add_device_def new_memory_bus_def new_ram_def new_uart_def
      new_memory_device_def MEMORY_DEVICE_UART_RANGE_def ranges_clash_def)

lemma ccx_build_devices:
  "bus_devices (ccx_build t r c st) =
     [Uart (new_uart 0x11000000 t r c st), Ram (new_ram 0x12000000 0x10000)]"
  by (simp add: ccx_build_def Let_def add_device_def new_memory_bus_def new_ram_def new_uart_def
      new_memory_device_def MEMORY_DEVICE_UART_RANGE_def ranges_clash_def)

lemma new_in_range [simp]:
  "device_in_range (Ram (new_ram b n)) a \<longleftrightarrow> b \<le> a \<and> a < b + n"
  "device_in_range (Uart (new_uart b t r c st)) a \<longleftrightarrow> b \<le> a \<and> a < b + 8"
  by (simp_all add: device_in_range_def in_range_addr_def new_ram_def new_uart_def Let_def
      new_memory_device_def MEMORY_DEVICE_UART_RANGE_def del: device_in_range_Ram)

lemma new_bases:
  "ram_dev (new_ram b n) = new_memory_device b n"
  "uart_dev (new_uart b t r c st) = new_memory_device b 8"
  by (simp_all add: new_ram_def new_uart_def Let_def MEMORY_DEVICE_UART_RANGE_def)

lemma core_decode:
  "get_device_at (core_build t r c st) a =
     (if 0x10000000 \<le> a \<and> a < 0x10200000 then Some 0
      else if 0x11000000 \<le> a \<and> a < 0x11000008 then Some 1 else None)"
  by (simp add: get_device_at_def core_build_devices del: device_in_range_Ram)

lemma ccx_decode:
  "get_device_at (ccx_build t r c st) a =
     (if 0x11000000 \<le> a \<and> a < 0x11000008 then Some 0
      else if 0x12000000 \<le> a \<and> a < 0x12010000 then Some 1 else None)"
  by (simp add: get_device_at_def ccx_build_devices del: device_in_range_Ram)

lemma two_devices_wf:
  assumes "bus_devices bus = [d, e]" "\<And>a. \<not> (device_in_range d a \<and> device_in_range e a)"
  shows "bus_wf bus"
  using assms unfolding bus_wf_def by (auto simp: less_Suc_eq numeral_2_eq_2)

lemma far_apart: "(a :: u64) < lo \<Longrightarrow> hi \<le> a \<Longrightarrow> lo \<le> hi \<Longrightarrow> False"
  by auto

lemma core_build_wf: "bus_wf (core_build t r c st)"
proof (rule two_devices_wf [OF core_build_devices])
  fix a
  show "\<not> (device_in_range (Ram (new_ram 0x10000000 0x200000)) a \<and>
      device_in_range (Uart (new_uart 0x11000000 t r c st)) a)"
    using far_apart [of a "0x10200000" "0x11000000"] by (auto simp del: device_in_range_Ram)
qed

lemma ccx_build_wf: "bus_wf (ccx_build t r c st)"
proof (rule two_devices_wf [OF ccx_build_devices])
  fix a
  show "\<not> (device_in_range (Uart (new_uart 0x11000000 t r c st)) a \<and>
      device_in_range (Ram (new_ram 0x12000000 0x10000)) a)"
    using far_apart [of a "0x11000008" "0x12000000"] by (auto simp del: device_in_range_Ram)
qed

lemma core_ram: "bus_ram (core_build t r c st) a \<longleftrightarrow> 0x10000000 \<le> a \<and> a < 0x10200000"
  by (simp add: bus_ram_def bus_cont_def core_decode core_build_devices)

lemma ccx_ram: "bus_ram (ccx_build t r c st) a \<longleftrightarrow> 0x12000000 \<le> a \<and> a < 0x12010000"
  using far_apart [of a "0x11000008" "0x12000000"]
  by (auto simp: bus_ram_def bus_cont_def ccx_decode ccx_build_devices)

lemma core_zero: "bus_ram (core_build t r c st) a \<Longrightarrow> bus_byte (core_build t r c st) a = 0"
  unfolding core_ram
  by (simp add: bus_byte_def bus_cont_def core_decode core_build_devices ram_cont_def new_ram_def)

text \<open>The two benches build the address maps they are meant to: every address is decoded by
  at most one device; in the core bench exactly the addresses 0x10000000 to 0x101fffff read as
  RAM and in the core complex bench 0x12000000 to 0x1200ffff, both initially zero, and the UART
  answers from 0x11000000 to 0x11000007.\<close>

lemma build_address_maps:
  "bus_wf (core_build t r c st) \<and> bus_wf (ccx_build t r c st) \<and>
   bus_ram (core_build t r c st) a = (0x10000000 \<le> a \<and> a < 0x10200000) \<and>
   bus_ram (ccx_build t r c st) a = (0x12000000 \<le> a \<and> a < 0x12010000) \<and>
   (get_device_at (core_build t r c st) a = Some 1) =
     (0x11000000 \<le> a \<and> a < 0x11000008)"
  using far_apart [of a "0x10200000" "0x11000000"]
  by (auto simp: core_build_wf ccx_build_wf core_ram ccx_ram core_decode)

section \<open>The bus\<close>

text \<open>Adding a device keeps the decoder unambiguous, provided the new range does not strictly
  enclose the range of a device already present (the one overlap the check of
  \<open>add_device\<close> does not see).\<close>

lemma add_device_keeps_disjoint:
  assumes "bus_wf bus" "add_device bus d = (True, bus')"
    and "\<And>it. it \<in> set (bus_devices bus) \<Longrightarrow>
      \<not> (addr_base (device_base d) < addr_base (device_base it) \<and>
         addr_top (device_base it) < addr_top (device_base d))"
  shows "bus_wf bus' \<and> bus_devices bus' = bus_devices bus @ [d]"
  using add_device_wf_lemma [OF assms] assms(2) by (auto simp: add_device_def split: if_splits)

lemma add_device_keeps_disjoint_witness:
  "bus_wf (snd (add_device (core_build 0 0 0 0) (Ram (new_ram 0x12000000 0x1000))))"
proof -
  let ?d = "Ram (new_ram 0x12000000 0x1000)"
  have ok: "add_device (core_build 0 0 0 0) ?d =
      (True, (core_build 0 0 0 0)\<lparr>bus_devices := bus_devices (core_build 0 0 0 0) @ [?d]\<rparr>)"
    by (simp add: add_device_def core_build_devices ranges_clash_def new_ram_def new_uart_def Let_def
        new_memory_device_def MEMORY_DEVICE_UART_RANGE_def)
  have "\<not> (addr_base (device_base ?d) < addr_base (device_base it) \<and>
      addr_top (device_base it) < addr_top (device_base ?d))"
    if "it \<in> set (bus_devices (core_build 0 0 0 0))" for it
    using that by (auto simp: core_build_devices new_bases new_memory_device_def)
  from add_device_keeps_disjoint [OF core_build_wf ok this] show ?thesis by (simp add: ok)
qed

text \<open>The check of \<open>add_device\<close> misses an enclosing range: a device that covers a present one
  on both sides is accepted and the same address is then decoded by two devices, while a
  device that merely begins where another ends is refused.\<close>

theorem add_device_misses_enclosing:
  "\<exists>bus'. add_device (core_build 0 0 0 0) (Ram (new_ram 0x0f000000 0x3000000)) = (True, bus') \<and>
     \<not> bus_wf bus' \<and>
     add_device (core_build 0 0 0 0) (Ram (new_ram 0x10200000 0x1000)) = (False, core_build 0 0 0 0)"
proof -
  let ?d = "Ram (new_ram 0x0f000000 0x3000000)"
  let ?b = "(core_build 0 0 0 0)\<lparr>bus_devices := bus_devices (core_build 0 0 0 0) @ [?d]\<rparr>"
  have ok: "add_device (core_build 0 0 0 0) ?d = (True, ?b)"
    by (simp add: add_device_def core_build_devices ranges_clash_def new_ram_def new_uart_def Let_def
        new_memory_device_def MEMORY_DEVICE_UART_RANGE_def)
  have dv: "bus_devices ?b = [Ram (new_ram 0x10000000 0x200000), Uart (new_uart 0x11000000 0 0 0 0), ?d]"
    by (simp add: core_build_devices)
  have "device_in_range (bus_devices ?b ! 0) 0x10000000" "device_in_range (bus_devices ?b ! 2) 0x10000000"
    unfolding dv by (simp_all del: device_in_range_Ram)
  then have "\<not> bus_wf ?b" unfolding bus_wf_def dv
    by (metis (no_types, lifting) One_nat_def length_Cons lessI list.size(3) numeral_2_eq_2
        zero_less_Suc zero_neq_numeral)
  moreover have "add_device (core_build 0 0 0 0) (Ram (new_ram 0x10200000 0x1000)) = (False, core_build 0 0 0 0)"
    by (simp add: add_device_def core_build_devices ranges_clash_def new_ram_def new_uart_def Let_def
        new_memory_device_def MEMORY_DEVICE_UART_RANGE_def)
  ultimately show ?thesis using ok by blast
qed

text \<open>C33: A request is answered with an error exactly when no device decodes its address or some
  byte of its span lies outside the device that does: a transfer that runs off the end of a
  device, or across two, always errors, and one inside never does.\<close>

theorem request_error_exact:
  "rsp_error (fst (request bus req)) \<longleftrightarrow>
     \<not> (\<exists>i. get_device_at bus (txn_addr req) = Some i \<and>
            (\<forall>k<unat (txn_size req).
               device_in_range (bus_devices bus ! i) (txn_addr req + of_nat k)))"
  by (simp add: request_error_lemma span_in_device_def)

theorem request_error_exact_witness:
  "rsp_error (fst (request (core_build 0 0 0 0) (fst (new_memory_req_txn 0 0x101ffffc 8 False)))) \<and>
   rsp_error (fst (request (core_build 0 0 0 0) (fst (new_memory_req_txn 0 0x20 8 True))))"
proof -
  have "\<not> device_in_range (Ram (new_ram 0x10000000 0x200000)) (0x101ffffc + of_nat 4)"
    by (simp del: device_in_range_Ram)
  then have "\<exists>k<8 :: nat. \<not> device_in_range (Ram (new_ram 0x10000000 0x200000)) (0x101ffffc + of_nat k)"
    by (intro exI [of _ 4]) simp
  then show ?thesis
    unfolding request_error_exact
    by (auto simp: core_decode core_build_devices new_memory_req_txn_def simp del: device_in_range_Ram)
qed

text \<open>C3: A write request inside one RAM changes exactly the bytes of its span whose strobe is
  set, and a read request inside one RAM returns the current bytes in address order and
  changes nothing: the bus refines a flat byte memory.\<close>

theorem request_refines_memory:
  assumes "bus_wf bus" "ram_span bus (txn_addr req) (txn_size req)"
  shows "if is_write req
    then bus_cont (snd (request bus req)) =
      (\<lambda>b. let k = unat (b - txn_addr req) in
           if k < unat (txn_size req) \<and> txn_strb req ! k then Some (txn_data req ! k) else bus_cont bus b)
    else bus_cont (snd (request bus req)) = bus_cont bus \<and>
      txn_data (fst (request bus req)) =
        map (\<lambda>k. bus_byte bus (txn_addr req + of_nat k)) [0..<unat (txn_size req)]"
  using request_read_lemma [OF assms] request_write_lemma [OF assms] by (auto simp: is_read_def is_write_def)

lemma core_ram_span:
  "0x10000000 \<le> a \<Longrightarrow> a \<le> 0x101ffff8 \<Longrightarrow> ram_span (core_build t r c st) a 8"
proof -
  assume a: "0x10000000 \<le> a" "a \<le> (0x101ffff8 :: u64)"
  have "device_in_range (Ram (new_ram 0x10000000 0x200000)) (a + of_nat k)" if "k < 8" for k
  proof -
    have u: "0x10000000 \<le> unat a" "unat a \<le> 0x101ffff8" using a by (simp_all add: word_le_nat_alt)
    have "unat (a + of_nat k) = unat a + k"
      using u that by (simp only: unat_word_ariths) (simp add: unat_of_nat_id)
    then show ?thesis using u that
      by (simp add: word_le_nat_alt word_less_nat_alt del: device_in_range_Ram)
  qed
  moreover have "a < 0x10200000" using a by (rule_tac order.strict_trans1 [OF a(2)]) simp
  ultimately show ?thesis using a by (simp add: ram_span_def core_decode core_build_devices)
qed

theorem request_refines_memory_witness:
  "bus_byte (snd (request (core_build 0 0 0 0)
     ((fst (new_memory_req_txn 0 0x10000000 8 True))
        \<lparr>txn_data := [1, 2, 3, 4, 5, 6, 7, 8],
         txn_strb := [True, False, True, True, True, True, True, True]\<rparr>))) 0x10000002 = 3"
proof -
  let ?q = "(fst (new_memory_req_txn 0 0x10000000 8 True))
        \<lparr>txn_data := [1, 2, 3, 4, 5, 6, 7, 8],
         txn_strb := [True, False, True, True, True, True, True, True]\<rparr>"
  have s: "ram_span (core_build 0 0 0 0) (txn_addr ?q) (txn_size ?q)"
    using core_ram_span [of "0x10000000" 0 0 0 0] by (simp add: new_memory_req_txn_def)
  from request_refines_memory [OF core_build_wf s] show ?thesis
    by (simp add: is_write_def new_memory_req_txn_def bus_byte_def Let_def)
qed

section \<open>The memory agent\<close>

text \<open>A granted write of the simulated port, clocked by the agent, replaces exactly the
  bytes of the addressed doubleword whose strobe bit is set by the corresponding bytes of the
  write data, everything else on the bus stays, and a granted read of the same doubleword in a
  later cycle returns, without an error, the old doubleword with those bytes merged in.\<close>

lemma agent_write_then_read:
  assumes "bus_wf bus" "ram_span bus (mem_addr m) 8" "granted m" "mem_wen m \<noteq> 0"
    and "granted m2" "mem_wen m2 = 0" "mem_addr m2 = mem_addr m"
    and b1: "bus1 = fst (snd (posedge_clk rand ag m bus r))"
  shows "n_mem_err (fst (posedge_clk rand agr m2 bus1 rr)) = 0 \<and>
    (i < 8 \<longrightarrow> byte_of (n_mem_rdata (fst (posedge_clk rand agr m2 bus1 rr))) i =
       (if bit (mem_strb m) i then byte_of (mem_wdata m) i else bus_byte bus (mem_addr m + of_nat i)))"
proof -
  have wf: "bus_wf bus1" using assms(1) by (simp add: b1 posedge_bus_wf)
  have u: "unat (mem_addr m + of_nat i - mem_addr m) = i" if "i < 8"
    by (rule unat_offset) (use that in simp)
  have "bus_byte bus1 (mem_addr m + of_nat i) =
      (if bit (mem_strb m) i then byte_of (mem_wdata m) i else bus_byte bus (mem_addr m + of_nat i))"
    if "i < 8"
    using posedge_write_byte [OF assms(1-4), of rand ag r "mem_addr m + of_nat i"] u [OF that] that
    by (simp add: b1 bus_byte_def Let_def)
  moreover have s2: "ram_span bus1 (mem_addr m2) 8"
    using assms(2,3,7) by (simp add: b1 posedge_granted request_ram_span)
  ultimately show ?thesis by (simp add: posedge_read_bytes [OF wf s2 assms(5,6)] assms(7))
qed

text \<open>The instance: store 0x1122334455667788 with strobe 0x0f into an empty RAM, then load.\<close>

definition sample_port :: "u8 \<Rightarrow> mem_if" where
  "sample_port wen =
     \<lparr>mem_req = 1, mem_addr = 0x10000000, mem_wen = wen, mem_strb = 0x0f,
      mem_wdata = 0x1122334455667788, mem_gnt = 1, mem_err = 0, mem_rdata = 0\<rparr>"

definition no_rand :: "unit \<Rightarrow> nat \<times> unit" where "no_rand r = (0, r)"

section \<open>The UART\<close>

definition uart_send :: "u8 list \<Rightarrow> uart \<Rightarrow> uart" where
  "uart_send cs u = fold (\<lambda>c u. snd (uart_write_byte u (addr_tx u) c)) cs u"

definition tx_aligned :: "uart \<Rightarrow> bool" where
  "tx_aligned u \<longleftrightarrow> addr_tx u AND 3 = 0"

lemma print_tx_append: "print_tx q out = out @ q"
  by (induction q out rule: print_tx.induct) simp_all

lemma uart_send_char:
  assumes "tx_aligned u"
  shows "snd (uart_write_byte u (addr_tx u) c) =
    (if c = 10 then u\<lparr>uart_cout := uart_cout u @ [36, 32] @ tx_buffer u @ [10], tx_buffer := []\<rparr>
     else u\<lparr>tx_buffer := tx_buffer u @ [c]\<rparr>)"
  using assms
  by (simp add: uart_write_byte_def tx_aligned_def write_to_tx_buffer_def newline_def
      print_tx_append Let_def)

lemma uart_send_partial:
  assumes "tx_aligned u" "10 \<notin> set cs"
  shows "uart_send cs u = u\<lparr>tx_buffer := tx_buffer u @ cs\<rparr>"
  using assms
proof (induction cs arbitrary: u)
  case (Cons c cs)
  then have "snd (uart_write_byte u (addr_tx u) c) = u\<lparr>tx_buffer := tx_buffer u @ [c]\<rparr>"
    by (auto simp: uart_send_char)
  with Cons show ?case by (simp add: uart_send_def tx_aligned_def)
qed (simp add: uart_send_def)

lemma uart_send_append: "uart_send (xs @ ys) u = uart_send ys (uart_send xs u)"
  by (simp add: uart_send_def)

lemma uart_send_line:
  assumes "tx_aligned u" "10 \<notin> set l"
  shows "uart_send (l @ [10]) u =
    u\<lparr>uart_cout := uart_cout u @ [36, 32] @ tx_buffer u @ l @ [10], tx_buffer := []\<rparr>"
proof -
  have "tx_aligned (u\<lparr>tx_buffer := tx_buffer u @ l\<rparr>)" using assms(1) by (simp add: tx_aligned_def)
  note c = uart_send_char [OF this, of 10]
  have "uart_send (l @ [10]) u = snd (uart_write_byte (uart_send l u) (addr_tx (uart_send l u)) 10)"
    by (simp add: uart_send_def)
  with c show ?thesis unfolding uart_send_partial [OF assms] by simp
qed

text \<open>The UART buffers by lines: after the bytes of any list of newline-terminated lines and a
  partial last line have been written to its transmit register, standard output has received
  every complete line, in order, each with the prefix dollar-blank, and the partial line is
  still in the buffer, not printed.\<close>

lemma uart_prints_lines:
  assumes "tx_aligned u" "tx_buffer u = []" "\<forall>l \<in> set ls. 10 \<notin> set l" "10 \<notin> set rest"
  shows "uart_cout (uart_send (concat (map (\<lambda>l. l @ [10]) ls) @ rest) u) =
      uart_cout u @ concat (map (\<lambda>l. [36, 32] @ l @ [10]) ls) \<and>
    tx_buffer (uart_send (concat (map (\<lambda>l. l @ [10]) ls) @ rest) u) = rest"
  using assms(1-3)
proof (induction ls arbitrary: u)
  case Nil
  with uart_send_partial [OF Nil(1) assms(4)] show ?case by simp
next
  case (Cons l ls)
  have l: "10 \<notin> set l" using Cons.prems by simp
  define v where "v = uart_send (l @ [10]) u"
  have v: "v = u\<lparr>uart_cout := uart_cout u @ [36, 32] @ l @ [10], tx_buffer := []\<rparr>"
    using uart_send_line [OF Cons.prems(1) l] Cons.prems(2) by (simp add: v_def)
  then have "tx_aligned v" "tx_buffer v = []" using Cons.prems(1) by (simp_all add: tx_aligned_def)
  note IH = Cons.IH [OF this]
  have split: "uart_send (concat (map (\<lambda>l. l @ [10]) (l # ls)) @ rest) u =
      uart_send (concat (map (\<lambda>l. l @ [10]) ls) @ rest) v"
    unfolding v_def uart_send_append [symmetric] by simp
  show ?case unfolding split using IH Cons.prems(3) by (simp add: v)
qed

lemma uart_prints_lines_witness:
  "uart_cout (uart_send (str ''Hi'' @ [10] @ str ''yo'') (new_uart 0x11000000 0 0 0 0)) =
     [36, 32] @ str ''Hi'' @ [10]"
  using uart_prints_lines [of "new_uart 0x11000000 0 0 0 0" "[str ''Hi'']" "str ''yo''"]
  by (simp add: tx_aligned_def new_uart_def Let_def new_memory_device_def str_def)

end
