(* ===== verification/Run_Props.thy ===== *)
theory Run_Props
  imports Bench_Props
begin

text \<open>
  Loading a program, the signature files, the command line, the simulation loop and the exit
  code of the two simulators.
\<close>

section \<open>S-record files\<close>

text \<open>The byte a list of records gives to an address: the last record that covers it.\<close>

fun s3_byte :: "srec_data list \<Rightarrow> u64 \<Rightarrow> u8 option" where
  "s3_byte [] x = None"
| "s3_byte ((a, ds, ck) # rs) x =
     (case s3_byte rs x of
        Some v \<Rightarrow> Some v
      | None \<Rightarrow> (let k = unat (x - ucast a) in if k < length ds then Some (ds ! k) else None))"

lemma map_of_s3_data:
  "s3_readable rs \<Longrightarrow> map_of (s3_data rs m) x =
     (case s3_byte rs x of Some v \<Rightarrow> Some v | None \<Rightarrow> map_of m x)"
proof (induction rs m rule: s3_data.induct)
  case (2 a ds ck rs m)
  then have "length ds \<le> 2 ^ 64" "s3_readable rs" by (simp_all add: s3_readable_def)
  with 2 show ?case
    by (auto simp: map_of_put_bytes [where i = 0] Let_def split: option.split)
qed simp

definition s3_file :: "u8 list \<Rightarrow> srec_data list \<Rightarrow> u8 list \<Rightarrow> u8 list" where
  "s3_file hdr rs ftr = hdr @ 10 # s3_lines rs @ ftr @ 10 # []"

text \<open>C11: Reading back an S-record file: a header line, any S3 records whose byte counts have no
  digit A, and an end line are read without an error, and the map the reader builds gives
  every address the byte of the last record covering it, and nothing else.\<close>

theorem srec_reads_back:
  assumes "s3_readable rs" "skipped_line hdr" "skipped_line ftr"
  shows "\<exists>f. new_srec_file (Some (s3_file hdr rs ftr)) = Some f \<and> srec_cerr f = [] \<and>
    ordered (srec_data f) \<and> map_of (srec_data f) = s3_byte rs"
proof -
  have "map_of (s3_data rs []) = s3_byte rs"
    by (rule ext) (simp add: map_of_s3_data [OF assms(1)] split: option.split)
  with srec_file_lemma [OF assms] ordered_s3_data [of "[]" rs] show ?thesis
    by (simp add: s3_file_def)
qed

definition sample_hdr :: "u8 list" where "sample_hdr = str ''S00600004844521B''"
definition sample_ftr :: "u8 list" where "sample_ftr = str ''S70510000000EA''"
definition sample_s3 :: "srec_data list" where "sample_s3 = [(0x10000000, [0xde, 0xad], 0), (0x10000001, [0xbe], 0)]"

lemma sample_ok: "s3_readable sample_s3" "skipped_line sample_hdr" "skipped_line sample_ftr"
  by (simp_all add: s3_readable_def count_readable_def sample_s3_def skipped_line_def sample_hdr_def
      sample_ftr_def str_def)

theorem srec_reads_back_witness:
  "\<exists>f. new_srec_file (Some (s3_file sample_hdr sample_s3 sample_ftr)) = Some f \<and>
     map_of (srec_data f) 0x10000000 = Some 0xde \<and> map_of (srec_data f) 0x10000001 = Some 0xbe \<and>
     map_of (srec_data f) 0x10000002 = None"
  using srec_reads_back [OF sample_ok]
  by (auto simp: sample_s3_def Let_def unsigned_minus_1_eq_mask mask_eq_exp_minus_1)

text \<open>The byte count digit A is misread: a correct record of five data bytes, whose count is
  written 0A, makes the reader run past the end of the line, while the same record with four
  data bytes is read.\<close>

theorem srec_count_digit_A:
  "srec_line (s3_record 0x10000000 [1, 2, 3, 4, 5] 0xe0) \<lparr>srec_data = [], srec_cerr = []\<rparr> = None \<and>
   (\<exists>f. srec_line (s3_record 0x10000000 [1, 2, 3, 4] 0xe6) \<lparr>srec_data = [], srec_cerr = []\<rparr> = Some f \<and>
      map_of (srec_data f) 0x10000003 = Some 4)"
proof -
  have a: "srec_line (s3_record 0x10000000 [1, 2, 3, 4, 5] 0xe0) \<lparr>srec_data = [], srec_cerr = []\<rparr> = None"
    by code_simp
  have b: "map_option srec_data
      (srec_line (s3_record 0x10000000 [1, 2, 3, 4] 0xe6) \<lparr>srec_data = [], srec_cerr = []\<rparr>) =
    Some [(0x10000000, 1), (0x10000001, 2), (0x10000002, 3), (0x10000003, 4)]"
    by code_simp
  from a b show ?thesis by auto
qed

section \<open>Loading\<close>

text \<open>Loading a program: when every address the records of the file cover is RAM, the load
  phase of the simulator succeeds and afterwards every address reads as the last record
  covering it says, and as before where no record reaches.\<close>

lemma load_program_bytes:
  assumes "s3_readable rs" "skipped_line hdr" "skipped_line ftr"
    and "load_srec a" "files (srec_path a) = Some (s3_file hdr rs ftr)"
    and "\<And>x. s3_byte rs x \<noteq> None \<Longrightarrow> bus_ram bus x"
  shows "\<exists>bus'. load_program files a bus = Some bus' \<and>
    (\<forall>x. bus_byte bus' x = (case s3_byte rs x of Some v \<Rightarrow> v | None \<Rightarrow> bus_byte bus x))"
proof -
  let ?m = "s3_data rs []"
  have m: "map_of ?m x = s3_byte rs x" for x
    by (simp add: map_of_s3_data [OF assms(1)] split: option.split)
  have o: "ordered ?m" by (rule ordered_s3_data) simp
  have "bus_ram bus x" if "(x, v) \<in> set ?m" for x v
    using that weak_map_of_SomeI [OF that] m assms(6) by auto
  then have "\<forall>(x, v) \<in> set ?m. bus_ram bus x" by auto
  from load_srec_lemma [OF o this] m
  have "bus_byte (load_srec_file bus ?m) x = (case s3_byte rs x of Some v \<Rightarrow> v | None \<Rightarrow> bus_byte bus x)" for x
    by simp
  moreover have "load_program files a bus = Some (load_srec_file bus ?m)"
    using srec_file_lemma [OF assms(1-3)] assms(4,5) by (simp add: load_program_def s3_file_def)
  ultimately show ?thesis by blast
qed

section \<open>The readmemh writer\<close>

text \<open>How a \<open>$readmemh\<close> file is read: \<open>@\<close> sets the address, a number is stored and advances it.\<close>

fun readmemh :: "u8 list list \<Rightarrow> u64 \<Rightarrow> data_map" where
  "readmemh [] addr = []"
| "readmemh ([] # ls) addr = readmemh ls addr"
| "readmemh ((c # cs) # ls) addr =
     (if c = 64 then readmemh ls (of_nat (digits 16 cs 0))
      else (addr, of_nat (digits 16 (c # cs) 0)) # readmemh ls (addr + 1))"

lemma readmemh_at: "readmemh ((64 # to_hex n) # ls) addr = readmemh ls (of_nat n)"
  by (simp add: digits_to_hex)

lemma is_digit_not_at: "is_digit 16 d \<Longrightarrow> d \<noteq> 64"
  by (auto simp: is_digit_def digit_val_def)

lemma readmemh_byte: "readmemh (to_hex (unat (d :: u8)) # ls) addr = (addr, d) # readmemh ls (addr + 1)"
proof -
  obtain c cs where c: "to_hex (unat d) = c # cs" "is_digit 16 c" using to_hex_cons by blast
  have "digits 16 (c # cs) 0 = unat d" using digits_to_hex [of "unat d"] c by simp
  with c is_digit_not_at [OF c(2)] show ?thesis by (simp del: digits.simps)
qed

lemma low_address: "unat (a :: u64) < 65536 \<Longrightarrow> a AND 0xFFFF = a"
proof -
  assume a: "unat a < 65536"
  have "a AND 0xFFFF = take_bit 16 a" by (simp add: take_bit_eq_mask mask_numeral)
  also have "\<dots> = a"
    by (rule word_unat_eq_iff [THEN iffD2])
      (use a in \<open>simp add: unsigned_take_bit_eq take_bit_nat_eq_self_iff\<close>)
  finally show ?thesis .
qed

lemma readmemh_loop:
  assumes "\<forall>(a, d) \<in> set m. unat a < 65536"
  shows "readmemh (dump_loop m prev) (prev + 1) = m"
  using assms
proof (induction m arbitrary: prev)
  case (Cons e m)
  obtain a d where e: "e = (a, d)" by (cases e)
  with Cons have "readmemh (dump_loop m a) (a + 1) = m" "unat a < 65536" by simp_all
  then show ?case by (cases "prev + 1 = a") (simp_all add: e readmemh_byte low_address digits_to_hex)
qed simp

text \<open>A written \<open>$readmemh\<close> file reads back as the data it was written from, provided all
  addresses fit in 16 bits and the first is not 1.\<close>

lemma readmemh_reads_back:
  assumes "\<forall>(a, d) \<in> set m. unat a < 65536" "m \<noteq> [] \<longrightarrow> fst (hd m) \<noteq> 1"
  shows "readmemh (dump_readmemh m) start = m"
proof (cases m)
  case Nil
  then show ?thesis by (simp add: dump_readmemh_def readmemh_at)
next
  case (Cons e m')
  obtain a d where e: "e = (a, d)" by (cases e)
  have a: "unat a < 65536" "a \<noteq> 1" "\<forall>(a, d) \<in> set m'. unat a < 65536" using assms Cons e by simp_all
  then show ?thesis
    using readmemh_loop [OF a(3), of a]
    by (simp add: dump_readmemh_def Cons e readmemh_byte low_address digits_to_hex)
qed

lemma readmemh_reads_back_witness:
  "readmemh (dump_readmemh [(0, 1), (1, 2), (0x20, 0xff)]) 0 = [(0, 1), (1, 2), (0x20, 0xff)]"
  using readmemh_reads_back [of "[(0, 1), (1, 2), (0x20, 0xff)]" 0] by simp

text \<open>When the first address is 1 the writer leaves out its address line, and the byte reads
  back at address 0; an address of 0x10000 reads back as 0.\<close>

theorem readmemh_misplaces:
  "readmemh (dump_readmemh [(1, 7)]) 0 = [(0, 7)] \<and> readmemh (dump_readmemh [(0x10000, 7)]) 0 = [(0, 7)]"
  by (simp add: dump_readmemh_def to_hex.simps hex_digit_def is_digit_def digit_val_def)

section \<open>The signature files\<close>

text \<open>C29: The signature check against a dump, for a region of RAM that ends at least four bytes below
  the top of the 32-bit space, and for every order in which the compiler evaluates the two reads of a byte:
  dumping always succeeds, and checking any RAM contents against the dump returns with the answer whether
  every byte of every word of the region is the dumped one, with its two digits exchanged where the
  compiler reads the right one first. If it reads the left ones first, the answer is whether the two
  memories agree on the region; in particular a memory then passes against its own dump.\<close>

theorem signature_check_exact:
  assumes "sig_bounded e" "sig_ram s e bus" "sig_ram s e bus'"
  shows "\<exists>out bus1 bus2 v. dump_signature_file s e bus = Some (out, bus1) \<and>
    verif_signature_file lf s e (Some out) bus' = Some (v, bus2) \<and>
    (v \<longleftrightarrow> (\<forall>i \<in> set (sig_addrs s e). sig_word bus' i = word_as_read lf (sig_word bus i))) \<and>
    ((\<forall>k<4. lf k) \<longrightarrow> (v \<longleftrightarrow> (\<forall>i \<in> set (sig_addrs s e). sig_word bus' i = sig_word bus i)))"
proof -
  obtain bus1 where d: "dump_signature_file s e bus = Some (sig_text bus (sig_addrs s e), bus1)"
    using dump_signature_loop_ram [OF assms(1,2), of "[]"] by (auto simp: dump_signature_file_def)
  obtain bus2 where "verif_signature_file lf s e (Some (sig_text bus (sig_addrs s e))) bus' =
      Some (\<forall>i \<in> set (sig_addrs s e). sig_word bus' i = word_as_read lf (sig_word bus i), bus2)"
    using verif_signature_loop_ram [OF assms(1,3), of lf bus "[]" True] by (auto simp: verif_signature_file_def)
  moreover have "word_as_read lf (sig_word bus i) = sig_word bus i" if "\<forall>k<4. lf k" for i
    unfolding sig_word_def using that by (intro word_as_read_left) simp
  ultimately show ?thesis using d by auto
qed

lemma sample_sig: "sig_bounded 0x10000008" "sig_addrs 0x10000000 0x10000008 = [0x10000000, 0x10000004]"
proof -
  show b: "sig_bounded 0x10000008" by (simp add: sig_bounded_def)
  show "sig_addrs 0x10000000 0x10000008 = [0x10000000, 0x10000004]"
    using b by (simp add: sig_addrs.simps)
qed

lemma sample_sig_ram: "sig_ram 0x10000000 0x10000008 (core_build t r c st)"
  by (simp add: sig_ram_def sample_sig core_ram)

theorem signature_check_exact_witness:
  "\<exists>out bus1 bus2. dump_signature_file 0x10000000 0x10000008 (core_build 0 0 0 0) = Some (out, bus1) \<and>
     verif_signature_file (\<lambda>_. True) 0x10000000 0x10000008 (Some out) (core_build 0 0 0 0) = Some (True, bus2)"
  using signature_check_exact [OF sample_sig(1) sample_sig_ram [of 0 0 0 0] sample_sig_ram [of 0 0 0 0],
      of "\<lambda>_. True"]
  by auto

section \<open>The command line\<close>

lemma found_plus:
  assumes "43 \<notin> set s"
  shows "found (43 # p) s = False" "found (43 # p) (43 # s) = (take (length p) s = p)"
proof -
  show f: "found (43 # p) s = False" using assms by (induction s) auto
  show "found (43 # p) (43 # s) = (take (length p) s = p)" by (simp add: f)
qed

lemma and_low32_bits: "(w :: u64) AND 0xFFFFFFFF = take_bit 32 w"
  by (simp add: take_bit_eq_mask mask_numeral)

lemma hex_no_plus: "43 \<notin> set (to_hex n)"
  using to_hex_digits [of n] by (auto simp: list_all_iff is_digit_def digit_val_def)

text \<open>The address options are parsed as they are printed: \<open>+PASS_ADDR=0x\<close> followed by the
  hexadecimal digits of a number below \<open>2 ^ 64\<close> sets exactly the pass address, to that number
  modulo \<open>2 ^ 32\<close>, in both simulators.\<close>

theorem pass_address_parsed:
  assumes "n < 2 ^ 64"
  shows "core_argument (str ''+PASS_ADDR=0x'' @ to_hex n) a = Parsed (a\<lparr>TB_PASS_ADDRESS := of_nat n\<rparr>) \<and>
    ccx_argument (str ''+PASS_ADDR=0x'' @ to_hex n) a = Parsed (a\<lparr>TB_PASS_ADDRESS := of_nat n\<rparr>)"
proof -
  have s: "stoul 0 (48 # 120 # to_hex n) = Some (of_nat n)" by (rule stoul_hex [OF assms])
  have c: "(ucast (of_nat n :: u64) :: u32) = of_nat n"
    by (rule bit_word_eqI) (simp add: bit_simps)
  have c': "(ucast ((of_nat n :: u64) AND 0xFFFFFFFF) :: u32) = of_nat n"
  proof -
    have "(ucast ((of_nat n :: u64) AND 0xFFFFFFFF) :: u32) = ucast (of_nat n :: u64)"
      by (rule bit_word_eqI) (simp add: and_low32_bits bit_simps)
    with c show ?thesis by simp
  qed
  have "43 \<notin> set (80 # 65 # 83 # 83 # 95 # 65 # 68 # 68 # 82 # 61 # 48 # 120 # to_hex n)"
    using hex_no_plus by auto
  note f = found_plus(2) [OF this]
  show ?thesis
    by (simp add: core_argument_def ccx_argument_def str_def f with_num_def substr_def s c c'
        del: found.simps)
qed

theorem pass_address_parsed_witness:
  "core_argument (str ''+PASS_ADDR=0x'' @ to_hex 0x10000044) core_default_args =
     Parsed (core_default_args\<lparr>TB_PASS_ADDRESS := 0x10000044\<rparr>)"
  using pass_address_parsed [of "0x10000044" core_default_args] by simp

text \<open>The stall option of the core complex simulator loses the first character of its value:
  a two-digit value is read as its last digit, and a one-digit value throws an uncaught
  exception. The core simulator's option of the same shape is read as written.\<close>

theorem ccx_stall_option_drops_digit:
  "ccx_argument (str ''+MEM_MAX_STALL=25'') a = Parsed (a\<lparr>max_stall_imem := 5\<rparr>) \<and>
   ccx_argument (str ''+MEM_MAX_STALL=4'') a = Throws \<and>
   core_argument (str ''+IMEM_MAX_STALL=25'') a = Parsed (a\<lparr>max_stall_imem := 25\<rparr>)"
  by (simp add: ccx_argument_def core_argument_def str_def with_num_def substr_def stoul_def
      is_space_def sign_of_def is_digit_def digit_val_def Let_def)

end
