(* ===== verification/Sim_Props.thy ===== *)
theory Sim_Props
  imports Run_Props
begin

text \<open>
  The simulation loop and the exit code of the two simulators: the run ends, its verdict is
  decided by the first marker address among the traced instructions, and the exit code tells
  timeout, pass, signature failure and failure apart.
\<close>

section \<open>The run ends\<close>

lemma run_simulation_total:
  fixes step :: "('r, 'z) dut_base_scheme \<Rightarrow> ('r, 'z) dut_base_scheme"
  assumes st: "stepper step"
    and set_rst: "\<And>w. sim_time (set_rst w) = sim_time w" "\<And>w. wr_mem (set_rst w) = wr_mem w"
      "\<And>w. dut_trace (set_rst w) = dut_trace w"
    and clear: "\<And>w. sim_time (clear_rst w) = sim_time w" "\<And>w. wr_mem (clear_rst w) = wr_mem w"
      "\<And>w. dut_trace (clear_rst w) = dut_trace w"
    and start: "sim_time (tb_dut tb) = 0" "dut_trace (tb_dut tb) = []" "bus_wf (wr_mem (tb_dut tb))"
    and limit: "unat (max_sim_time tb) + 10 \<le> 2 ^ 64"
  shows "\<exists>tb'. run_simulation set_rst step clear_rst tb = Some tb' \<and>
    (sim_finished tb' \<or> max_sim_time tb \<le> sim_time (tb_dut tb')) \<and>
    unat (sim_time (tb_dut tb')) < max (unat (max_sim_time tb) + 10) 51 \<and>
    bus_wf (wr_mem (tb_dut tb')) \<and> length (dut_trace (tb_dut tb')) \<le> 5"
proof -
  let ?w = "(step ^^ 5) (set_rst (tb_dut tb))"
  let ?tb = "(pre_run set_rst tb)\<lparr>tb_dut := clear_rst ?w\<rparr>"
  have t0: "sim_time (tb_dut ?tb) = 50"
    using stepper.steps_time [OF st, of 5 "set_rst (tb_dut tb)"] by (simp add: clear set_rst start)
  have m: "max_sim_time ?tb = max_sim_time tb" by (simp add: pre_run_def)
  have wf: "bus_wf (wr_mem (tb_dut ?tb))"
    using stepper.steps_mem [OF st, of 5 "set_rst (tb_dut tb)"] by (simp add: clear set_rst start)
  have tr: "length (dut_trace (tb_dut ?tb)) \<le> 5"
    using stepper.steps_trace [OF st, of 5 "set_rst (tb_dut tb)"] by (simp add: clear set_rst start)
  have run: "run_simulation set_rst step clear_rst tb = run_loop step ?tb"
    by (simp add: run_simulation_def run_def pre_run_def)
  obtain tb' where r: "run_loop step ?tb = Some tb'"
    "sim_finished tb' \<or> max_sim_time tb \<le> sim_time (tb_dut tb')"
    "unat (sim_time (tb_dut tb')) < max (unat (max_sim_time tb) + 10) 51"
    using stepper.run_loop_total [OF st, of ?tb] limit unfolding m t0 by auto
  obtain n where "tb' = (run_body step ^^ n) ?tb"
    using run_loop_iterates [OF r(1)] by (auto simp: reaches_def)
  with stepper.iterate_frame [OF st, of n ?tb] wf tr
  have "bus_wf (wr_mem (tb_dut tb'))" "length (dut_trace (tb_dut tb')) \<le> 5" by auto
  with r run show ?thesis by auto
qed

lemma reset_frames [simp]:
  "sim_time (core_set_reset w) = sim_time w" "wr_mem (core_set_reset w) = wr_mem w"
  "dut_trace (core_set_reset w) = dut_trace w"
  "sim_time (core_clear_reset w) = sim_time w" "wr_mem (core_clear_reset w) = wr_mem w"
  "dut_trace (core_clear_reset w) = dut_trace w"
  by (simp_all add: core_set_reset_def core_clear_reset_def)

lemma ccx_reset_frames [simp]:
  "sim_time (ccx_set_reset w) = sim_time w" "wr_mem (ccx_set_reset w) = wr_mem w"
  "dut_trace (ccx_set_reset w) = dut_trace w"
  "sim_time (ccx_clear_reset w) = sim_time w" "wr_mem (ccx_clear_reset w) = wr_mem w"
  "dut_trace (ccx_clear_reset w) = dut_trace w"
  by (simp_all add: ccx_set_reset_def ccx_clear_reset_def)

lemma configured_fields [simp]:
  "max_sim_time (configured a w) = arg_max_sim_time a"
  "pass_address (configured a w) = ucast (TB_PASS_ADDRESS a)"
  "fail_address (configured a w) = ucast (TB_FAIL_ADDRESS a)"
  "sim_finished (configured a w) = False" "tb_dut (configured a w) = w"
  by (simp_all add: configured_def new_testbench_def)

lemma core_simulate_total:
  assumes "bus_wf bus" "unat (arg_max_sim_time a) + 10 \<le> 2 ^ 64"
  shows "\<exists>tb. core_simulate h a bus = Some tb \<and>
    (sim_finished tb \<or> arg_max_sim_time a \<le> sim_time (tb_dut tb)) \<and>
    unat (sim_time (tb_dut tb)) < max (unat (arg_max_sim_time a) + 10) 51 \<and>
    bus_wf (wr_mem (tb_dut tb)) \<and> length (dut_trace (tb_dut tb)) \<le> 5"
  using run_simulation_total [OF core.stepper_axioms, of core_set_reset core_clear_reset
      "configured a (new_core_wrapper bus (host_seed h) (host_top h)
             (set_max_stall (max_stall_imem a) (host_iagent h))
             (set_max_stall (max_stall_dmem a) (host_dagent h)))"] assms
  by (simp add: core_simulate_def new_core_wrapper_def)

lemma ccx_simulate_total:
  assumes "bus_wf bus" "unat (arg_max_sim_time a) + 10 \<le> 2 ^ 64"
  shows "\<exists>tb. ccx_simulate h a bus = Some tb \<and>
    (sim_finished tb \<or> arg_max_sim_time a \<le> sim_time (tb_dut tb)) \<and>
    unat (sim_time (tb_dut tb)) < max (unat (arg_max_sim_time a) + 10) 51 \<and>
    bus_wf (wr_mem (tb_dut tb)) \<and> length (dut_trace (tb_dut tb)) \<le> 5"
  using run_simulation_total [OF ccx.stepper_axioms, of ccx_set_reset ccx_clear_reset
      "configured a (new_ccx_wrapper bus (host_seed h) (host_top h)
             (set_max_stall (max_stall_imem a) (host_iagent h)))"] assms
  by (simp add: ccx_simulate_def new_ccx_wrapper_def)

text \<open>C12: The simulation always ends, whatever the simulated design does: for every design, every
  source of random numbers and every well-formed bus, if the time limit leaves room for one
  step below \<open>2 ^ 64\<close>, both simulators return from the main loop, because a marker was traced
  or the limit was reached; the clock stops less than one step after the limit (or right
  after the five reset steps), the address map is still unambiguous, and at most five traced
  instructions are left unexamined.\<close>

theorem simulation_ends:
  assumes "bus_wf bus" "unat (arg_max_sim_time a) + 10 \<le> 2 ^ 64"
  shows "(\<exists>tb. core_simulate h a bus = Some tb \<and>
      (sim_finished tb \<or> arg_max_sim_time a \<le> sim_time (tb_dut tb)) \<and>
      unat (sim_time (tb_dut tb)) < max (unat (arg_max_sim_time a) + 10) 51 \<and>
      bus_wf (wr_mem (tb_dut tb)) \<and> length (dut_trace (tb_dut tb)) \<le> 5) \<and>
    (\<exists>tb. ccx_simulate h' a bus = Some tb \<and>
      (sim_finished tb \<or> arg_max_sim_time a \<le> sim_time (tb_dut tb)) \<and>
      unat (sim_time (tb_dut tb)) < max (unat (arg_max_sim_time a) + 10) 51 \<and>
      bus_wf (wr_mem (tb_dut tb)) \<and> length (dut_trace (tb_dut tb)) \<le> 5)"
  using core_simulate_total [OF assms] ccx_simulate_total [OF assms] by blast

text \<open>The instance: a design that ignores everything, under the default arguments.\<close>

definition idle_port :: mem_if where
  "idle_port = \<lparr>mem_req = 0, mem_addr = 0, mem_wen = 0, mem_strb = 0, mem_wdata = 0,
     mem_gnt = 0, mem_err = 0, mem_rdata = 0\<rparr>"

definition idle_core :: "unit core_top" where
  "idle_core = \<lparr>core_g_resetn = 0, core_f_clk = 0, core_imem = idle_port, core_dmem = idle_port,
     core_trs_valid = 0, core_trs_pc = 0, core_trs_instr = 0, core_state = ()\<rparr>"

definition idle_ccx :: "unit ccx_top" where
  "idle_ccx = \<lparr>ccx_g_resetn = 0, ccx_f_clk = 0, ccx_emem = idle_port,
     ccx_trs_valid = 0, ccx_trs_pc = 0, ccx_trs_instr = 0, ccx_state = ()\<rparr>"

definition sample_host :: "'t \<Rightarrow> (unit, 't) host" where
  "sample_host t = \<lparr>host_files = (\<lambda>p. None), host_left_first = (\<lambda>_. True), host_rand = no_rand, host_seed = (),
     host_eval = (\<lambda>d. d), host_top = t, host_iagent = new_core_mem_agent 0 0 0,
     host_dagent = new_core_mem_agent 0 0 0, host_uart = (0, 0, 0, 0)\<rparr>"

theorem simulation_ends_witness:
  "\<exists>tb. core_simulate (sample_host idle_core) core_default_args (core_build 0 0 0 0) = Some tb \<and>
     unat (sim_time (tb_dut tb)) < 10010"
  using simulation_ends [OF core_build_wf, of core_default_args "sample_host idle_core" 0 0 0 0 "sample_host idle_ccx"]
  by (auto simp: core_default_args_def)

section \<open>The verdict\<close>

text \<open>C24: The verdict is decided by the first marker: if the loop returns, it has run some number
  of passes, and its verdict is that of the first of the program counters it examined, in
  traced order, that equals the pass address (pass) or the fail address (fail; pass wins when
  the two are equal); without such an instruction there is no verdict, and the loop can then
  only have stopped at the time limit.\<close>

theorem verdict_first_marker:
  assumes "run_loop step tb = Some tb'" "\<not> sim_finished tb"
  shows "\<exists>n. tb' = (run_body step ^^ n) tb \<and>
    verdict tb' = first_hit (pass_address tb) (fail_address tb) (consumed step n tb) \<and>
    (verdict tb' = None \<longrightarrow> max_sim_time tb' \<le> sim_time (tb_dut tb'))"
proof -
  obtain n where n: "tb' = (run_body step ^^ n) tb" "\<not> running tb'"
    "\<forall>k<n. running ((run_body step ^^ k) tb)"
    using run_loop_iterates [OF assms(1)] by (auto simp: reaches_def)
  have "verdict tb' = first_hit (pass_address tb) (fail_address tb) (consumed step n tb)"
    using iterate_verdict [OF n(3) assms(2)] n(1) by simp
  moreover have "verdict tb' = None \<longrightarrow> max_sim_time tb' \<le> sim_time (tb_dut tb')"
  proof
    assume "verdict tb' = None"
    then have "\<not> sim_finished tb'" by (simp add: verdict_def split: if_splits)
    then have "\<not> sim_time (tb_dut tb') < max_sim_time tb'" using n(2) unfolding running_def by blast
    then show "max_sim_time tb' \<le> sim_time (tb_dut tb')" by (rule leI)
  qed
  ultimately show ?thesis by (intro exI [of _ n] conjI n(1))
qed

text \<open>The instance: a design that traces its own time, run until it reaches the pass address.\<close>

definition timer_step :: "unit dut_base \<Rightarrow> unit dut_base" where
  "timer_step w = push_trace (sim_time w) 0 (w\<lparr>sim_time := sim_time w + 10\<rparr>)"

definition timer_bench :: "unit dut_base testbench" where
  "timer_bench = (new_testbench \<lparr>sim_time = 0, dut_trace = [], wr_mem = new_memory_bus, wr_rand = ()\<rparr>)
     \<lparr>pass_address := 20, fail_address := 40\<rparr>"

theorem verdict_first_marker_witness:
  "\<exists>tb' n. run_loop timer_step timer_bench = Some tb' \<and>
     verdict tb' = first_hit 20 40 (consumed timer_step n timer_bench) \<and> sim_passed tb'"
proof -
  define b where "b t p = timer_bench
      \<lparr>sim_finished := p, sim_passed := p, tb_dut := (tb_dut timer_bench)\<lparr>sim_time := t\<rparr>\<rparr>" for t p
  have b0: "timer_bench = b 0 False" by (simp add: b_def timer_bench_def new_testbench_def)
  have body: "run_body timer_step (b t False) = b (t + 10) (t = 20)" if "t \<noteq> 40" for t
    using that by (simp add: b_def run_body_def timer_step_def push_trace_def check_packet_def Let_def
        timer_bench_def new_testbench_def)
  have go: "running (b t False) \<longleftrightarrow> t < 10000" for t
    by (simp add: b_def running_def timer_bench_def new_testbench_def)
  have stop: "\<not> running (b 30 True)" by (simp add: b_def running_def)
  have "run_loop timer_step (b 0 False) = Some (b 30 True)"
    using run_loop_running [of "b 0 False" timer_step] run_loop_running [of "b 10 False" timer_step]
      run_loop_running [of "b 20 False" timer_step] run_loop_stopped [OF stop]
    by (simp add: go body)
  then have r: "\<exists>tb'. run_loop timer_step timer_bench = Some tb' \<and> sim_passed tb'"
    unfolding b0 by (simp add: b_def)
  from r obtain tb' where tb': "run_loop timer_step timer_bench = Some tb'" "sim_passed tb'" by blast
  have nf: "\<not> sim_finished timer_bench" by (simp add: timer_bench_def new_testbench_def)
  from verdict_first_marker [OF tb'(1) nf] tb' show ?thesis
    by (auto simp: timer_bench_def)
qed

section \<open>The clock\<close>

lemma core_once_clk:
  assumes "\<And>d. core_f_clk (ev d) = core_f_clk d"
  shows "core_f_clk (core_dut (core_eval_once rand ev i w)) =
    (if i = 5 then of_bool (core_f_clk (core_dut w) = 0) else core_f_clk (core_dut w))"
  by (simp add: core_eval_once_def Let_def tick_def core_eval_dut_def core_drive_def assms
      core_toggle_def core_posedge_gclk_def case_prod_unfold push_trace_def evals_per_clock_def)

text \<open>A call of \<open>dut_step_clk\<close> advances the simulation by ten ticks and is half a clock cycle:
  it inverts the clock once, for every design whose evaluation does not write its own clock
  input, so two calls make one full cycle, and an agent that a step clocks is clocked by every
  second step only.\<close>

theorem step_is_half_cycle:
  assumes "\<And>d. core_f_clk (ev d) = core_f_clk d"
  shows "core_f_clk (core_dut (core_step_clk rand ev w)) = of_bool (core_f_clk (core_dut w) = 0) \<and>
    sim_time (core_step_clk rand ev w) = sim_time w + 10 \<and>
    (core_f_clk (core_dut w) \<in> {0, 1} \<longrightarrow>
       core_f_clk (core_dut (core_step_clk rand ev (core_step_clk rand ev w))) = core_f_clk (core_dut w))"
proof -
  have h: "core_f_clk (core_dut (core_step_clk rand ev w)) = of_bool (core_f_clk (core_dut w) = 0)" for w
    by (simp add: core_step_clk_def upt_evals core_once_clk [OF assms])
  show ?thesis by (auto simp: h core.step_time)
qed

theorem step_is_half_cycle_witness:
  "core_f_clk (core_dut (core_step_clk no_rand (\<lambda>d. d)
     (new_core_wrapper new_memory_bus () idle_core (new_core_mem_agent 0 0 0) (new_core_mem_agent 0 0 0)))) = 1"
  using step_is_half_cycle [of "\<lambda>d. d" no_rand
      "new_core_wrapper new_memory_bus () idle_core (new_core_mem_agent 0 0 0) (new_core_mem_agent 0 0 0)"]
  by (simp add: new_core_wrapper_def idle_core_def)

section \<open>The exit code\<close>

text \<open>C32: The exit code of the core simulator is exact: when the signature phase returns, the code
  is 1 exactly when the time limit was reached, whatever the verdict; 0 exactly when it was
  not, the run passed and the signature (if one is to be verified, against the files as they
  are after the dump) matches; 3 exactly when it was not and the signature differs; and 2 in
  the remaining case.\<close>

theorem core_exit_code:
  assumes "core_finish lf files a time passed bus = Some (Returned c written)"
  shows "\<exists>bus1 v bus2. write_signature a bus = Some (written, bus1) \<and>
    check_signature lf (files_after files written) a bus1 = Some (v, bus2) \<and>
    (c = 1 \<longleftrightarrow> arg_max_sim_time a \<le> time) \<and>
    (c = 0 \<longleftrightarrow> time < arg_max_sim_time a \<and> passed \<and> v) \<and>
    (c = 3 \<longleftrightarrow> time < arg_max_sim_time a \<and> \<not> v) \<and>
    (c = 2 \<longleftrightarrow> time < arg_max_sim_time a \<and> \<not> passed \<and> v)"
  using assms
  by (auto simp: core_finish_def exit_code_def split: option.splits prod.splits if_splits)

theorem core_exit_code_witness:
  "core_finish (\<lambda>_. True) (\<lambda>p. None) core_default_args 500 True new_memory_bus = Some (Returned 0 None) \<and>
   (\<exists>v bus2. check_signature (\<lambda>_. True) (files_after (\<lambda>p. None) None) core_default_args new_memory_bus = Some (v, bus2) \<and> v)"
proof -
  have r: "core_finish (\<lambda>_. True) (\<lambda>p. None) core_default_args 500 True new_memory_bus = Some (Returned 0 None)"
    by (simp add: core_finish_def write_signature_def check_signature_def core_default_args_def exit_code_def)
  from core_exit_code [OF r] r show ?thesis
    by (auto simp: write_signature_def core_default_args_def)
qed

text \<open>From the command line to the exit code: when the arguments parse, ask for neither a
  program file nor signature files, and give a time limit below the wrap-around, the core
  simulator terminates normally, for every design and host, with exit code 0, 1 or 2, and
  writes no file.\<close>

lemma core_main_returns:
  assumes "core_process_arguments argv core_default_args = Parsed a"
    and "\<not> load_srec a" "\<not> dump_signature a" "\<not> verif_signature a"
    and "unat (arg_max_sim_time a) + 10 \<le> 2 ^ 64"
  shows "\<exists>c. core_main h argv = Some (Returned c None) \<and> c \<in> {0, 1, 2}"
proof -
  obtain t r k st where u: "host_uart h = (t, r, k, st)" by (cases "host_uart h")
  obtain tb where tb: "core_simulate h a (core_build t r k st) = Some tb"
    using core_simulate_total [OF core_build_wf assms(5)] by blast
  show ?thesis
    using assms(1-4) by (simp add: core_main_def u tb load_program_def core_finish_def write_signature_def
        check_signature_def exit_code_def)
qed

end
