(* ===== verification/Unit_Lib.thy ===== *)
theory Unit_Lib
  imports Args
begin

text \<open>
  The printing library of the unit tests (\<open>verif/share/unit/unit_test.c\<close>). Every function only
  stores words to the volatile register \<open>UART[0]\<close>: its model is the list of the words stored, in
  order. \<open>char\<close> is unsigned on RISC-V. A C string is the list of the characters from the pointer
  to the end of its array, terminator included; reading past the array is \<open>None\<close>.
\<close>

section \<open>Characters and strings\<close>

definition lut :: "u8 list" where
  "lut = str ''0123456789ABCDEF''"

definition putchar :: "u8 \<Rightarrow> u32 list" where
  "putchar c = [ucast c]"

text \<open>The \<open>do\<close>-\<open>while\<close> loop of \<open>__putstr\<close>: the list starts at index \<open>i\<close>.\<close>

fun putstr_loop :: "u8 list \<Rightarrow> u32 list option" where
  "putstr_loop [] = None"
| "putstr_loop [c] = None"
| "putstr_loop (c # d # s) =
     (if d \<noteq> 0 then map_option (\<lambda>ws. ucast c # ws) (putstr_loop (d # s)) else Some [ucast c])"

definition putstr :: "u8 list \<Rightarrow> u32 list option" where
  "putstr s = (case s of [] \<Rightarrow> None | c # _ \<Rightarrow> if c = 0 then Some [] else putstr_loop s)"

section \<open>Numbers in hexadecimal\<close>

definition nibble_lo :: "'a::len word \<Rightarrow> nat \<Rightarrow> nat" where
  "nibble_lo w i = unat (ucast (drop_bit (8 * i) w AND 0xF) :: u8)"

definition nibble_hi :: "'a::len word \<Rightarrow> nat \<Rightarrow> nat" where
  "nibble_hi w i = unat (ucast (drop_bit (8 * i + 4) w AND 0xF) :: u8)"

text \<open>The body of the loops of \<open>__puthex64\<close>, \<open>__puthex32\<close> and, for byte 0, of \<open>__puthex8\<close>.\<close>

definition puthex_byte :: "'a::len word \<Rightarrow> nat \<Rightarrow> u32 list" where
  "puthex_byte w i = putchar (lut ! nibble_hi w i) @ putchar (lut ! nibble_lo w i)"

definition puthex64 :: "u64 \<Rightarrow> u32 list" where
  "puthex64 w = concat (map (puthex_byte w) (rev [0..<8]))"

definition puthex32 :: "u32 \<Rightarrow> u32 list" where
  "puthex32 w = concat (map (puthex_byte w) (rev [0..<4]))"

definition puthex8 :: "u8 \<Rightarrow> u32 list" where
  "puthex8 w = puthex_byte w 0"

text \<open>Without leading zeros: the flag \<open>nz_seen\<close> runs through the digits.\<close>

definition nlz_digit :: "nat \<Rightarrow> bool \<times> u32 list \<Rightarrow> bool \<times> u32 list" where
  "nlz_digit b st =
     (if b > 0 \<or> fst st then (True, snd st @ putchar (lut ! b)) else st)"

definition puthex64_nlz :: "u64 \<Rightarrow> u32 list" where
  "puthex64_nlz w =
     snd (fold (\<lambda>i st. nlz_digit (nibble_lo w i) (nlz_digit (nibble_hi w i) st)) (rev [0..<8])
       (False, []))"

section \<open>What is printed\<close>

lemma putstr_loop_lemma:
  "c \<noteq> 0 \<Longrightarrow> 0 \<notin> set s \<Longrightarrow> putstr_loop (c # s @ 0 # rest) = Some (map ucast (c # s))"
proof (induction s arbitrary: c)
  case (Cons d s)
  then have "putstr_loop (d # s @ 0 # rest) = Some (map ucast (d # s))" by auto
  with Cons.prems show ?case by auto
qed simp

lemma putstr_lemma: "0 \<notin> set s \<Longrightarrow> putstr (s @ 0 # rest) = Some (map ucast s)"
proof (cases s)
  case (Cons c cs)
  then show "0 \<notin> set s \<Longrightarrow> ?thesis"
    using putstr_loop_lemma [of c cs rest] by (auto simp: putstr_def simp del: putstr_loop.simps)
qed (simp add: putstr_def)

text \<open>The digits of a 64-bit word, most significant first.\<close>

definition nibbles64 :: "u64 \<Rightarrow> nat list" where
  "nibbles64 w = map (\<lambda>k. unat (drop_bit (4 * k) w AND 0xF)) (rev [0..<16])"

definition hex_chars :: "nat list \<Rightarrow> u32 list" where
  "hex_chars ds = map (\<lambda>d. ucast (lut ! d)) ds"

lemma mask_4: "(w :: 'a::len word) AND 0xF = take_bit 4 w"
  by (simp add: take_bit_eq_mask mask_numeral)

lemma unat_nibble: "unat (ucast (w AND 0xF :: u64) :: u8) = unat (w AND 0xF)"
  by (simp add: mask_4 unsigned_ucast_eq unsigned_take_bit_eq)

lemma nibbles64_unfold:
  "nibbles64 w = concat (map (\<lambda>i. [nibble_hi w i, nibble_lo w i]) (rev [0..<8]))"
  by (simp add: nibbles64_def nibble_hi_def nibble_lo_def unat_nibble upt_rec)

lemma puthex64_chars: "puthex64 w = hex_chars (nibbles64 w)"
  by (simp add: puthex64_def nibbles64_unfold hex_chars_def puthex_byte_def [abs_def] putchar_def
      map_concat o_def)

lemma nlz_fold:
  "fold (\<lambda>i st. nlz_digit (l i) (nlz_digit (h i) st)) is st =
     fold nlz_digit (concat (map (\<lambda>i. [h i, l i]) is)) st"
  by (induction "is" arbitrary: st) simp_all

lemma nlz_digits:
  "snd (fold nlz_digit ds (seen, out)) =
     out @ hex_chars (if seen then ds else dropWhile (\<lambda>d. d = 0) ds)"
  by (induction ds arbitrary: seen out) (auto simp: nlz_digit_def hex_chars_def putchar_def)

lemma puthex64_nlz_chars: "puthex64_nlz w = hex_chars (dropWhile (\<lambda>d. d = 0) (nibbles64 w))"
  by (simp add: puthex64_nlz_def nlz_fold nibbles64_unfold [symmetric] nlz_digits)

text \<open>Reading the digits back.\<close>

lemma hex_nibble_less: "unat ((w :: u64) AND 0xF) < 16"
  using take_bit_nat_less_exp [of 4 "unat w"] by (simp add: mask_4 unsigned_take_bit_eq)

lemma nibbles64_less: "d \<in> set (nibbles64 w) \<Longrightarrow> d < 16"
  by (auto simp: nibbles64_def hex_nibble_less)

lemma digit_val_lut: "d < 16 \<Longrightarrow> digit_val (lut ! d) = Some d \<and> is_digit 16 (lut ! d) \<and> \<not> is_space (lut ! d) \<and> lut ! d \<notin> {43, 45}"
proof -
  have "\<forall>d\<in>set [0..<16]. digit_val (lut ! d) = Some d \<and> is_digit 16 (lut ! d) \<and> \<not> is_space (lut ! d) \<and> lut ! d \<notin> {43, 45}"
    by code_simp
  then show "d < 16 \<Longrightarrow> ?thesis" by simp
qed

lemma digits_lut:
  "\<forall>d\<in>set ds. d < 16 \<Longrightarrow>
     digits 16 (map ((!) lut) ds) acc = foldl (\<lambda>a d. 16 * a + d) acc ds"
  by (induction ds arbitrary: acc) (simp_all add: digit_val_lut)

lemma nibble_value: "unat (drop_bit (4 * k) w AND 0xF) = unat w div 16 ^ k mod 16" for w :: u64
proof -
  have "(2 :: nat) ^ (4 * k) = 16 ^ k" by (simp add: power_mult)
  then show ?thesis
    unfolding mask_4 unsigned_take_bit_eq unat_drop_bit_eq by (simp add: take_bit_eq_mod drop_bit_eq_div)
qed

lemma foldl_nibbles:
  "foldl (\<lambda>a d. 16 * a + d) acc (map (\<lambda>k. m div 16 ^ k mod 16) (rev [0..<n])) =
     acc * 16 ^ n + m mod 16 ^ n" for m :: nat
proof (induction n arbitrary: acc)
  case (Suc n)
  let ?f = "\<lambda>a d. 16 * a + d" and ?d = "\<lambda>k. m div 16 ^ k mod 16"
  have "foldl ?f acc (map ?d (rev [0..<Suc n])) = foldl ?f (16 * acc + ?d n) (map ?d (rev [0..<n]))"
    by simp
  also have "\<dots> = (16 * acc + ?d n) * 16 ^ n + m mod 16 ^ n" by (rule Suc.IH)
  also have "\<dots> = acc * 16 ^ Suc n + m mod 16 ^ Suc n"
    using mod_mult2_eq [of m "16 ^ n" 16] by (simp add: algebra_simps)
  finally show ?case .
qed simp

lemma stoul_puthex64: "stoul 16 (map ucast (puthex64 w)) = Some w"
proof -
  let ?cs = "map ((!) lut) (nibbles64 w)"
  have "(ucast (ucast c :: u32) :: u8) = c" for c :: u8
    by (rule bit_word_eqI) (simp add: bit_simps)
  then have chars: "map ucast (puthex64 w) = ?cs"
    by (simp add: puthex64_chars hex_chars_def)
  have "nibbles64 w = map (\<lambda>k. unat w div 16 ^ k mod 16) (rev [0..<16])"
    unfolding nibbles64_def nibble_value ..
  then have val: "digits 16 ?cs 0 = unat w"
    using digits_lut [of "nibbles64 w" 0] nibbles64_less foldl_nibbles [of 0 "unat w" 16]
      unat_bound [of w]
    by simp
  obtain d ds where ds: "nibbles64 w = d # ds" by (simp add: nibbles64_def upt_rec)
  then have d: "d < 16" using nibbles64_less [of d w] by simp
  have "sign_of (dropWhile is_space ?cs) = (False, ?cs)"
    using digit_val_lut [OF d] by (simp add: ds sign_of_def)
  moreover have "detect_base 16 ?cs = (16, ?cs)"
    by (cases ds; cases "tl ds") (simp_all add: ds)
  ultimately show ?thesis
    unfolding chars stoul_def using val digit_val_lut [OF d] unat_bound [of w] by (simp add: ds)
qed

end
