(* ===== verification/Access_Traps.thy ===== *)
theory Access_Traps
  imports Unit_Lib
begin

text \<open>
  The access fault test of the core complex (\<open>verif/ccx/unit/access-traps/access-traps.c\<close>), over an
  abstract machine: a \<open>platform\<close> says what an aligned 64-bit load or store does to the memory
  system, where the two handlers and the two access instructions are, and what the program text is.
  The state is the C globals, the trap registers it uses, the words printed, and the memory
  system. \<open>test_pass\<close> and \<open>test_fail\<close> loop for ever: reaching one of them is the
  outcome \<open>Verdict\<close>, with the words printed by then. The assembly stub around \<open>test_trap_handler\<close> saves and restores the registers and
  ends in \<open>mret\<close>, so after it execution resumes at \<open>mepc\<close>; resuming anywhere but at the next
  instruction is \<open>Astray\<close>, an access that is never answered is \<open>Stuck\<close>.
\<close>

type_synonym s32 = "32 word"

section \<open>The machine\<close>

record 'm platform =
  pl_load :: "u64 \<Rightarrow> 'm \<Rightarrow> ((u64 + u64) \<times> 'm) option"
  pl_store :: "u64 \<Rightarrow> u64 \<Rightarrow> 'm \<Rightarrow> (u64 option \<times> 'm) option"
  fail_at :: u64
  handler_at :: u64
  load_pc :: u64
  store_pc :: u64
  text_byte :: "u64 \<Rightarrow> u8"
  stale :: u64

record 'm at_state =
  expect_trap :: s32
  expect_cause :: s32
  step_over :: s32
  trap_seen :: s32
  mtvec :: u64
  mepc :: u64
  mcause :: u64
  at_out :: "u32 list"
  at_mem :: 'm

datatype 'a flow = Running 'a | Verdict bool "u32 list" | Astray | Stuck

definition then_do :: "'a flow \<Rightarrow> ('a \<Rightarrow> 'b flow) \<Rightarrow> 'b flow" where
  "then_do r f = (case r of Running a \<Rightarrow> f a | Verdict b out \<Rightarrow> Verdict b out
     | Astray \<Rightarrow> Astray | Stuck \<Rightarrow> Stuck)"

lemma then_do_simps [simp]:
  "then_do (Running a) f = f a" "then_do (Verdict b out) f = Verdict b out"
  "then_do Astray f = Astray" "then_do Stuck f = Stuck"
  by (simp_all add: then_do_def)

text \<open>The globals as initialised, with the given handler and memory system.\<close>

definition at_init :: "u64 \<Rightarrow> 'm \<Rightarrow> 'm at_state" where
  "at_init tvec m =
     \<lparr>expect_trap = 0, expect_cause = 0, step_over = 1, trap_seen = 0, mtvec = tvec, mepc = 0,
      mcause = 0, at_out = [], at_mem = m\<rparr>"

definition CAUSE_CODE_LDACCESS :: s32 where "CAUSE_CODE_LDACCESS = 5"
definition CAUSE_CODE_STACCESS :: s32 where "CAUSE_CODE_STACCESS = 7"

section \<open>The trap handler\<close>

definition print_line :: "char list \<Rightarrow> 'm at_state \<Rightarrow> 'm at_state" where
  "print_line msg s = s\<lparr>at_out := at_out s @ (case putstr (str msg @ [0]) of None \<Rightarrow> [] | Some ws \<Rightarrow> ws)\<rparr>"

definition fail :: "'m at_state \<Rightarrow> 'a flow" where
  "fail s = Verdict False (at_out s)"

definition test_trap_handler :: "'m platform \<Rightarrow> 'm at_state \<Rightarrow> 'm at_state flow" where
  "test_trap_handler pl s =
     (if expect_trap s = 0 then fail (print_line (''Unexpected trap.'' @ [CHR 0x0A]) s)
      else let cause = (ucast (mcause s) :: s32) in
        if sint cause < 0 then fail (print_line (''Unexpected interrupt'' @ [CHR 0x0A]) s)
        else if cause \<noteq> expect_cause s
        then fail (print_line (''Unexpected cause code'' @ [CHR 0x0A]) s)
        else
          let s1 = (if step_over s \<noteq> 0 then
                let pc = mepc s; ib = text_byte pl pc; pc1 = pc + 2;
                    pc2 = (if ib AND 3 = 3 then pc1 + 2 else pc1)
                in s\<lparr>mepc := pc2\<rparr> else s)
          in Running (s1\<lparr>expect_trap := 0, expect_cause := 0, trap_seen := trap_seen s1 + 1\<rparr>))"

text \<open>The next instruction: 32-bit instructions have both low bits set.\<close>

definition next_pc :: "'m platform \<Rightarrow> u64 \<Rightarrow> u64" where
  "next_pc pl pc = pc + (if text_byte pl pc AND 3 = 3 then 4 else 2)"

text \<open>A trap raised by the instruction at \<open>pc\<close>; \<open>mtvec\<close> is in direct mode.\<close>

definition take_trap :: "'m platform \<Rightarrow> u64 \<Rightarrow> u64 \<Rightarrow> 'm at_state \<Rightarrow> 'm at_state flow" where
  "take_trap pl pc cause s =
     (let s1 = s\<lparr>mepc := pc, mcause := cause\<rparr>; target = mtvec s AND NOT 3 in
      if target = fail_at pl then fail s1
      else if target = handler_at pl then
        then_do (test_trap_handler pl s1)
          (\<lambda>s2. if mepc s2 = next_pc pl pc then Running s2 else Astray)
      else Astray)"

definition do_load :: "'m platform \<Rightarrow> u64 \<Rightarrow> 'm at_state \<Rightarrow> (u64 \<times> 'm at_state) flow" where
  "do_load pl a s =
     (case pl_load pl a (at_mem s) of
        None \<Rightarrow> Stuck
      | Some (Inr v, m) \<Rightarrow> Running (v, s\<lparr>at_mem := m\<rparr>)
      | Some (Inl cause, m) \<Rightarrow>
          then_do (take_trap pl (load_pc pl) cause (s\<lparr>at_mem := m\<rparr>)) (\<lambda>s'. Running (stale pl, s')))"

definition do_store :: "'m platform \<Rightarrow> u64 \<Rightarrow> u64 \<Rightarrow> 'm at_state \<Rightarrow> 'm at_state flow" where
  "do_store pl a v s =
     (case pl_store pl a v (at_mem s) of
        None \<Rightarrow> Stuck
      | Some (None, m) \<Rightarrow> Running (s\<lparr>at_mem := m\<rparr>)
      | Some (Some cause, m) \<Rightarrow> take_trap pl (store_pc pl) cause (s\<lparr>at_mem := m\<rparr>))"

section \<open>The test\<close>

definition test_address_load ::
  "'m platform \<Rightarrow> u64 \<Rightarrow> bool \<Rightarrow> 'm at_state \<Rightarrow> (s32 \<times> 'm at_state) flow" where
  "test_address_load pl addr readable s =
     (let old_mtvec = mtvec s;
          s1 = (if readable then s\<lparr>mtvec := fail_at pl, expect_trap := 0, expect_cause := - 1\<rparr>
                else s\<lparr>mtvec := handler_at pl, expect_trap := 1,
                       expect_cause := CAUSE_CODE_LDACCESS\<rparr>)
      in then_do (do_load pl addr s1) (\<lambda>(v, s2).
           if \<not> readable \<and> trap_seen s2 \<noteq> 1 then fail s2
           else Running (ucast v, s2\<lparr>trap_seen := 0, mtvec := old_mtvec\<rparr>)))"

definition test_address_store ::
  "'m platform \<Rightarrow> u64 \<Rightarrow> bool \<Rightarrow> 'm at_state \<Rightarrow> (s32 \<times> 'm at_state) flow" where
  "test_address_store pl addr writeable s =
     (let old_mtvec = mtvec s;
          s1 = (if writeable then s\<lparr>mtvec := fail_at pl, expect_trap := 0, expect_cause := - 1\<rparr>
                else s\<lparr>mtvec := handler_at pl, expect_trap := 1,
                       expect_cause := CAUSE_CODE_STACCESS\<rparr>)
      in then_do (do_store pl addr addr s1) (\<lambda>s2.
           if \<not> writeable \<and> trap_seen s2 \<noteq> 1 then fail s2
           else Running (0, s2\<lparr>trap_seen := 0, mtvec := old_mtvec\<rparr>)))"

definition test_address ::
  "'m platform \<Rightarrow> u64 \<times> bool \<times> bool \<Rightarrow> 'm at_state \<Rightarrow> 'm at_state flow" where
  "test_address pl = (\<lambda>(addr, readable, writeable) s.
     then_do (test_address_load pl addr readable s) (\<lambda>(_, s1).
     then_do (test_address_store pl addr writeable s1) (\<lambda>(_, s2). Running s2)))"

text \<open>The linker symbols, and the table of \<open>test_main\<close>: pointer arithmetic is in units of 8 bytes.\<close>

record at_symbols =
  rom_begin :: u64
  rom_end :: u64
  ram_begin :: u64
  ram_end :: u64
  ext_begin :: u64
  ext_end :: u64

definition at_table :: "at_symbols \<Rightarrow> (u64 \<times> bool \<times> bool) list" where
  "at_table y =
     [(rom_begin y, True, False), (rom_begin y - 8, False, False),
      (rom_end y, False, False), (rom_end y - 8, True, False),
      (ram_begin y, True, True), (ram_begin y - 8, False, False),
      (ram_end y, True, True), (ram_end y - 8, True, True),
      (ext_begin y, True, True), (ext_begin y - 8, False, False),
      (ext_end y, False, False), (ext_end y - 8, True, True)]"

fun test_addresses :: "'m platform \<Rightarrow> (u64 \<times> bool \<times> bool) list \<Rightarrow> 'm at_state \<Rightarrow> 'm at_state flow" where
  "test_addresses pl [] s = Running s"
| "test_addresses pl (t # ts) s = then_do (test_address pl t s) (test_addresses pl ts)"

definition at_test_main :: "'m platform \<Rightarrow> at_symbols \<Rightarrow> 'm at_state \<Rightarrow> 'm at_state flow" where
  "at_test_main pl y s = then_do (test_addresses pl (at_table y) s) (\<lambda>s'. Verdict True (at_out s'))"

section \<open>What the test decides\<close>

text \<open>Two distinct handlers, aligned as \<open>mtvec\<close> requires.\<close>

definition handlers_ok :: "'m platform \<Rightarrow> bool" where
  "handlers_ok pl \<longleftrightarrow> fail_at pl AND NOT 3 = fail_at pl \<and> handler_at pl AND NOT 3 = handler_at pl \<and>
     handler_at pl \<noteq> fail_at pl"

text \<open>A platform whose accesses are always answered, and whose answers depend on the address only.\<close>

locale checked_platform =
  fixes pl :: "'m platform" and ok :: "'m \<Rightarrow> bool" and rd wr :: "u64 \<Rightarrow> bool"
  assumes load_law: "8 dvd unat a \<Longrightarrow> ok m \<Longrightarrow>
      \<exists>r m'. pl_load pl a m = Some (r, m') \<and> ok m' \<and> (if rd a then \<exists>v. r = Inr v else r = Inl 5)"
    and store_law: "8 dvd unat a \<Longrightarrow> ok m \<Longrightarrow>
      \<exists>r m'. pl_store pl a v m = Some (r, m') \<and> ok m' \<and> r = (if wr a then None else Some 7)"
begin

definition ready :: "'m at_state \<Rightarrow> bool" where
  "ready s \<longleftrightarrow> ok (at_mem s) \<and> trap_seen s = 0 \<and> step_over s \<noteq> 0 \<and> handlers_ok pl"

lemma handled:
  assumes "mtvec s = handler_at pl" "expect_trap s = 1" "ucast cause = expect_cause s"
    "expect_cause s \<in> {5, 7}" "step_over s \<noteq> 0" "handlers_ok pl"
  shows "\<exists>s'. take_trap pl pc cause s = Running s' \<and> trap_seen s' = trap_seen s + 1 \<and>
    at_mem s' = at_mem s \<and> step_over s' = step_over s \<and> at_out s' = at_out s"
  using assms
  by (auto simp: take_trap_def Let_def test_trap_handler_def next_pc_def handlers_ok_def)

lemma load_exact:
  assumes "ready s" "8 dvd unat a"
  shows "if r = rd a
    then \<exists>v s'. test_address_load pl a r s = Running (v, s') \<and> ready s' \<and> mtvec s' = mtvec s \<and>
      at_out s' = at_out s
    else test_address_load pl a r s = Verdict False (at_out s)"
proof -
  let ?s = "if r then s\<lparr>mtvec := fail_at pl, expect_trap := 0, expect_cause := - 1\<rparr>
    else s\<lparr>mtvec := handler_at pl, expect_trap := 1, expect_cause := CAUSE_CODE_LDACCESS\<rparr>"
  have "ok (at_mem s)" using assms(1) by (simp add: ready_def)
  then obtain x m where l: "pl_load pl a (at_mem s) = Some (x, m)" "ok m"
    "if rd a then \<exists>v. x = Inr v else x = Inl 5"
    using load_law [OF assms(2)] by blast
  show ?thesis
  proof (cases "rd a")
    case True
    then obtain v where v: "x = Inr v" using l(3) by auto
    show ?thesis
      using True l(1,2) v assms(1)
      by (auto simp: test_address_load_def Let_def do_load_def ready_def fail_def)
  next
    case False
    show ?thesis
    proof (cases r)
      case True
      then show ?thesis
        using False l assms(1) 
        by (simp add: test_address_load_def Let_def do_load_def take_trap_def fail_def ready_def
            handlers_ok_def)
    next
      case r: False
      have "\<exists>s'. take_trap pl (load_pc pl) 5 (?s\<lparr>at_mem := m\<rparr>) = Running s' \<and>
          trap_seen s' = trap_seen (?s\<lparr>at_mem := m\<rparr>) + 1 \<and> at_mem s' = at_mem (?s\<lparr>at_mem := m\<rparr>) \<and>
          step_over s' = step_over (?s\<lparr>at_mem := m\<rparr>) \<and> at_out s' = at_out (?s\<lparr>at_mem := m\<rparr>)"
        by (rule handled) (use assms(1) r in \<open>simp_all add: ready_def CAUSE_CODE_LDACCESS_def\<close>)
      then show ?thesis
        using False r l assms(1)
        by (auto simp: test_address_load_def Let_def do_load_def ready_def fail_def)
    qed
  qed
qed

lemma store_exact:
  assumes "ready s" "8 dvd unat a"
  shows "if w = wr a
    then \<exists>v s'. test_address_store pl a w s = Running (v, s') \<and> ready s' \<and> mtvec s' = mtvec s \<and>
      at_out s' = at_out s
    else test_address_store pl a w s = Verdict False (at_out s)"
proof -
  let ?s = "if w then s\<lparr>mtvec := fail_at pl, expect_trap := 0, expect_cause := - 1\<rparr>
    else s\<lparr>mtvec := handler_at pl, expect_trap := 1, expect_cause := CAUSE_CODE_STACCESS\<rparr>"
  have "ok (at_mem s)" using assms(1) by (simp add: ready_def)
  then obtain m where l: "pl_store pl a a (at_mem s) = Some (if wr a then None else Some 7, m)" "ok m"
    using store_law [OF assms(2)] by blast
  show ?thesis
  proof (cases "wr a")
    case True
    show ?thesis
      using True l assms(1)
      by (auto simp: test_address_store_def Let_def do_store_def ready_def fail_def)
  next
    case False
    show ?thesis
    proof (cases w)
      case True
      then show ?thesis
        using False l assms(1)
        by (simp add: test_address_store_def Let_def do_store_def take_trap_def fail_def ready_def
            handlers_ok_def)
    next
      case w: False
      have "\<exists>s'. take_trap pl (store_pc pl) 7 (?s\<lparr>at_mem := m\<rparr>) = Running s' \<and>
          trap_seen s' = trap_seen (?s\<lparr>at_mem := m\<rparr>) + 1 \<and> at_mem s' = at_mem (?s\<lparr>at_mem := m\<rparr>) \<and>
          step_over s' = step_over (?s\<lparr>at_mem := m\<rparr>) \<and> at_out s' = at_out (?s\<lparr>at_mem := m\<rparr>)"
        by (rule handled) (use assms(1) w in \<open>simp_all add: ready_def CAUSE_CODE_STACCESS_def\<close>)
      then show ?thesis
        using False w l assms(1)
        by (auto simp: test_address_store_def Let_def do_store_def ready_def)
    qed
  qed
qed

lemma address_exact:
  assumes "ready s" "8 dvd unat a"
  shows "if r = rd a \<and> w = wr a
    then \<exists>s'. test_address pl (a, r, w) s = Running s' \<and> ready s' \<and> at_out s' = at_out s
    else test_address pl (a, r, w) s = Verdict False (at_out s)"
proof (cases "r = rd a")
  case True
  then obtain v s1 where l: "test_address_load pl a r s = Running (v, s1)" "ready s1"
    "at_out s1 = at_out s"
    using load_exact [OF assms, of r] by auto
  show ?thesis
    using True store_exact [OF l(2) assms(2), of w] l
    by (cases "w = wr a") (auto simp: test_address_def)
next
  case False
  then show ?thesis using load_exact [OF assms, of r] by (simp add: test_address_def)
qed

lemma addresses_exact:
  assumes "ready s" "\<forall>(a, r, w) \<in> set ts. 8 dvd unat a"
  shows "if \<forall>(a, r, w) \<in> set ts. r = rd a \<and> w = wr a
    then \<exists>s'. test_addresses pl ts s = Running s' \<and> ready s' \<and> at_out s' = at_out s
    else test_addresses pl ts s = Verdict False (at_out s)"
  using assms
proof (induction ts arbitrary: s)
  case (Cons t ts)
  obtain a r w where t: "t = (a, r, w)" by (cases t)
  note e = address_exact [OF Cons.prems(1), of a r w]
  show ?case
  proof (cases "r = rd a \<and> w = wr a")
    case True
    then obtain s1 where s1: "test_address pl t s = Running s1" "ready s1" "at_out s1 = at_out s"
      using e Cons.prems(2) by (auto simp: t)
    have q: "(\<forall>(a, r, w) \<in> set (t # ts). r = rd a \<and> w = wr a) \<longleftrightarrow>
        (\<forall>(a, r, w) \<in> set ts. r = rd a \<and> w = wr a)"
      and v: "test_addresses pl (t # ts) s = test_addresses pl ts s1"
      using True s1(1) by (simp_all add: t)
    have al: "\<forall>(a, r, w) \<in> set ts. 8 dvd unat a" using Cons.prems(2) by auto
    show ?thesis
      unfolding q v s1(3) [symmetric] by (rule Cons.IH [OF s1(2) al])
  next
    case False
    then have "test_address pl t s = Verdict False (at_out s)"
      using e Cons.prems(2) by (auto simp: t)
    then show ?thesis using False by (auto simp: t)
  qed
qed simp

lemma main_exact:
  assumes "ok m" "\<forall>(a, r, w) \<in> set (at_table y). 8 dvd unat a" "handlers_ok pl"
  shows "at_test_main pl y (at_init tvec m) =
    Verdict (\<forall>(a, r, w) \<in> set (at_table y). r = rd a \<and> w = wr a) []"
proof -
  have "ready (at_init tvec m)" "at_out (at_init tvec m) = []"
    using assms(1,3) by (simp_all add: ready_def at_init_def)
  then show ?thesis
    using addresses_exact [OF _ assms(2), of "at_init tvec m"]
    by (cases "\<forall>(a, r, w) \<in> set (at_table y). r = rd a \<and> w = wr a")
      (auto simp: at_test_main_def)
qed

end

end
