(* ===== verification/Ccx.thy ===== *)
theory Ccx
  imports Agent
begin

text \<open>
  The memory side of the core complex (\<open>rtl/ccx\<close>): the router that decodes an address to one of
  four targets (\<open>ccx_ic_router.sv\<close>), the arbiter that puts the data and the instruction port of
  the core on one target (\<open>ccx_ic_arbiter.sv\<close>), the interconnect of two routers and four arbiters
  (\<open>ccx_ic_top.sv\<close>), the on-chip memories (\<open>rtl/mem/mem_sram_wxd.v\<close>) and the timers and counters
  (\<open>rtl/core/core_counters.sv\<close>), joined as in \<open>ccx_top.sv\<close>. A bus is a request record and a
  response record; the four copies of a wire that the sources write out are a function on
  \<open>target\<close>. A \<open>_step\<close> function is a rising clock edge.
\<close>

section \<open>Buses\<close>

type_synonym addr39 = "39 word"

record bus_req =
  br_req :: bool
  br_rtype :: bool
  br_addr :: addr39
  br_wen :: bool
  br_strb :: u8
  br_wdata :: u64
  br_prv :: "2 word"

record bus_rsp =
  br_gnt :: bool
  br_err :: bool
  br_rdata :: u64

datatype target = Rom | RamT | Ext | Mmio

section \<open>Router\<close>

record ic_map =
  t_base :: "target \<Rightarrow> addr39"
  t_size :: "target \<Rightarrow> addr39"

definition address_match :: "addr39 \<Rightarrow> addr39 \<Rightarrow> addr39 \<Rightarrow> addr39 \<Rightarrow> bool" where
  "address_match address msk base rng \<longleftrightarrow>
     address AND msk = base \<and> address AND NOT msk = address AND rng"

definition map_core :: "ic_map \<Rightarrow> target \<Rightarrow> addr39 \<Rightarrow> bool" where
  "map_core p t a = address_match a (NOT (t_size p t)) (t_base p t) (t_size p t)"

definition map_core_none :: "ic_map \<Rightarrow> addr39 \<Rightarrow> bool" where
  "map_core_none p a \<longleftrightarrow>
     \<not> map_core p Rom a \<and> \<not> map_core p RamT a \<and> \<not> map_core p Ext a \<and> \<not> map_core p Mmio a"

record router =
  rsp_route :: "target \<Rightarrow> bool"
  rsp_route_none :: bool

definition router_req :: "ic_map \<Rightarrow> bus_req \<Rightarrow> target \<Rightarrow> bus_req" where
  "router_req p core t = core\<lparr>br_req := br_req core \<and> map_core p t (br_addr core)\<rparr>"

text \<open>The four-way selections take the targets in this order.\<close>

definition pick :: "(target \<Rightarrow> bool) \<Rightarrow> (target \<Rightarrow> 'a) \<Rightarrow> 'a \<Rightarrow> 'a" where
  "pick c v d = (if c Rom then v Rom else if c RamT then v RamT else if c Ext then v Ext
     else if c Mmio then v Mmio else d)"

definition router_gnt :: "ic_map \<Rightarrow> bus_req \<Rightarrow> (target \<Rightarrow> bus_rsp) \<Rightarrow> bool" where
  "router_gnt p core rsps =
     pick (\<lambda>t. map_core p t (br_addr core)) (\<lambda>t. br_gnt (rsps t)) True"

definition router_rsp :: "ic_map \<Rightarrow> router \<Rightarrow> bus_req \<Rightarrow> (target \<Rightarrow> bus_rsp) \<Rightarrow> bus_rsp" where
  "router_rsp p r core rsps =
     \<lparr>br_gnt = router_gnt p core rsps,
      br_err = pick (rsp_route r) (\<lambda>t. br_err (rsps t)) True,
      br_rdata = pick (rsp_route r) (\<lambda>t. br_rdata (rsps t)) 0\<rparr>"

definition router_step :: "ic_map \<Rightarrow> bool \<Rightarrow> bus_req \<Rightarrow> (target \<Rightarrow> bus_rsp) \<Rightarrow> router" where
  "router_step p resetn core rsps =
     (if \<not> resetn then \<lparr>rsp_route = (\<lambda>_. False), rsp_route_none = False\<rparr>
      else \<lparr>rsp_route = (\<lambda>t. br_req (router_req p core t) \<and> router_gnt p core rsps),
            rsp_route_none = (map_core_none p (br_addr core) \<and> router_gnt p core rsps)\<rparr>)"

section \<open>Arbiter\<close>

record arbiter =
  inflight_r1 :: bool
  route_rsp_0 :: bool
  route_rsp_1 :: bool

definition route_req_r0 :: "arbiter \<Rightarrow> bus_req \<Rightarrow> bool" where
  "route_req_r0 s req0 \<longleftrightarrow> br_req req0 \<and> \<not> inflight_r1 s"

definition route_req_r1 :: "bus_req \<Rightarrow> bus_req \<Rightarrow> bool" where
  "route_req_r1 req0 req1 \<longleftrightarrow> br_req req1 \<and> \<not> br_req req0"

definition arb_req :: "arbiter \<Rightarrow> bus_req \<Rightarrow> bus_req \<Rightarrow> bus_req" where
  "arb_req s req0 req1 = (if route_req_r0 s req0 then req0 else req1)"

definition arb_rsp0 :: "arbiter \<Rightarrow> bus_req \<Rightarrow> bus_rsp \<Rightarrow> bus_rsp" where
  "arb_rsp0 s req0 rsp =
     \<lparr>br_gnt = (route_req_r0 s req0 \<and> br_gnt rsp), br_err = (route_rsp_0 s \<and> br_err rsp),
      br_rdata = br_rdata rsp\<rparr>"

definition arb_rsp1 :: "arbiter \<Rightarrow> bus_req \<Rightarrow> bus_req \<Rightarrow> bus_rsp \<Rightarrow> bus_rsp" where
  "arb_rsp1 s req0 req1 rsp =
     \<lparr>br_gnt = (route_req_r1 req0 req1 \<and> br_gnt rsp), br_err = (route_rsp_1 s \<and> br_err rsp),
      br_rdata = br_rdata rsp\<rparr>"

definition n_inflight_r1 :: "arbiter \<Rightarrow> bus_req \<Rightarrow> bus_req \<Rightarrow> bus_rsp \<Rightarrow> bool" where
  "n_inflight_r1 s req0 req1 rsp =
     (if inflight_r1 s then br_req req1 \<and> \<not> br_gnt (arb_rsp1 s req0 req1 rsp)
      else br_req req1 \<and> \<not> br_gnt (arb_rsp1 s req0 req1 rsp) \<and> \<not> br_req req0)"

definition arb_step :: "bool \<Rightarrow> bus_req \<Rightarrow> bus_req \<Rightarrow> bus_rsp \<Rightarrow> arbiter \<Rightarrow> arbiter" where
  "arb_step resetn req0 req1 rsp s =
     (if \<not> resetn then \<lparr>inflight_r1 = False, route_rsp_0 = False, route_rsp_1 = False\<rparr>
      else \<lparr>inflight_r1 = n_inflight_r1 s req0 req1 rsp, route_rsp_0 = route_req_r0 s req0,
            route_rsp_1 = route_req_r1 req0 req1\<rparr>)"

section \<open>Interconnect\<close>

record interconnect =
  ic_imem :: router
  ic_dmem :: router
  ic_arb :: "target \<Rightarrow> arbiter"

text \<open>The request on a target's port, and the responses of the two core ports.\<close>

definition ic_port :: "ic_map \<Rightarrow> interconnect \<Rightarrow> bus_req \<Rightarrow> bus_req \<Rightarrow> target \<Rightarrow> bus_req" where
  "ic_port p s imem dmem t = arb_req (ic_arb s t) (router_req p dmem t) (router_req p imem t)"

definition ic_dmem_rsps ::
  "ic_map \<Rightarrow> interconnect \<Rightarrow> bus_req \<Rightarrow> (target \<Rightarrow> bus_rsp) \<Rightarrow> target \<Rightarrow> bus_rsp" where
  "ic_dmem_rsps p s dmem rsps t = arb_rsp0 (ic_arb s t) (router_req p dmem t) (rsps t)"

definition ic_imem_rsps ::
  "ic_map \<Rightarrow> interconnect \<Rightarrow> bus_req \<Rightarrow> bus_req \<Rightarrow> (target \<Rightarrow> bus_rsp) \<Rightarrow> target \<Rightarrow> bus_rsp" where
  "ic_imem_rsps p s imem dmem rsps t =
     arb_rsp1 (ic_arb s t) (router_req p dmem t) (router_req p imem t) (rsps t)"

definition ic_dmem_rsp :: "ic_map \<Rightarrow> interconnect \<Rightarrow> bus_req \<Rightarrow> (target \<Rightarrow> bus_rsp) \<Rightarrow> bus_rsp" where
  "ic_dmem_rsp p s dmem rsps = router_rsp p (ic_dmem s) dmem (ic_dmem_rsps p s dmem rsps)"

definition ic_imem_rsp ::
  "ic_map \<Rightarrow> interconnect \<Rightarrow> bus_req \<Rightarrow> bus_req \<Rightarrow> (target \<Rightarrow> bus_rsp) \<Rightarrow> bus_rsp" where
  "ic_imem_rsp p s imem dmem rsps = router_rsp p (ic_imem s) imem (ic_imem_rsps p s imem dmem rsps)"

definition ic_step ::
  "ic_map \<Rightarrow> bool \<Rightarrow> bus_req \<Rightarrow> bus_req \<Rightarrow> (target \<Rightarrow> bus_rsp) \<Rightarrow> interconnect \<Rightarrow> interconnect" where
  "ic_step p resetn imem dmem rsps s =
     \<lparr>ic_imem = router_step p resetn imem (ic_imem_rsps p s imem dmem rsps),
      ic_dmem = router_step p resetn dmem (ic_dmem_rsps p s dmem rsps),
      ic_arb = (\<lambda>t. arb_step resetn (router_req p dmem t) (router_req p imem t) (rsps t) (ic_arb s t))\<rparr>"

section \<open>On-chip memory\<close>

record sram =
  sr_mem :: "nat \<Rightarrow> u8"
  sr_rdata :: u64
  sr_err :: bool

text \<open>\<open>word\<close> is the word address; byte lane \<open>i\<close> is the byte \<open>8 * word + i\<close>.\<close>

definition sram_err :: "bool \<Rightarrow> sram \<Rightarrow> bool" where
  "sram_err rom s \<longleftrightarrow> rom \<and> sr_err s"

definition sram_step ::
  "bool \<Rightarrow> bool \<Rightarrow> bool \<Rightarrow> u8 \<Rightarrow> nat \<Rightarrow> u64 \<Rightarrow> sram \<Rightarrow> sram" where
  "sram_step rom resetn cen wstrb word wdata s =
     \<lparr>sr_mem =
        (if rom then sr_mem s
         else fold (\<lambda>i m. if cen \<and> bit wstrb i then m(8 * word + i := byte_of wdata i) else m)
                [0..<8] (sr_mem s)),
      sr_rdata = (if cen then or_bytes (\<lambda>i. sr_mem s (8 * word + i)) 8 else sr_rdata s),
      sr_err = (resetn \<and> wstrb \<noteq> 0)\<rparr>"

section \<open>Timers and counters\<close>

record counters =
  mapped_mtime :: u64
  mapped_mtimecmp :: u64
  timer_interrupt :: bool
  mmio_error :: bool
  mmio_rdata :: u64
  ctr_instret :: u64
  instr_ret_r :: bool
  ctr_cycle :: u64

record ctr_in =
  ctr_resetn :: bool
  instr_ret :: bool
  inhibit_cy :: bool
  inhibit_tm :: bool
  inhibit_ir :: bool

definition addr_mtime_lo :: "ic_map \<Rightarrow> bus_req \<Rightarrow> bool" where
  "addr_mtime_lo p q \<longleftrightarrow> br_addr q AND t_size p Mmio = t_base p Mmio AND t_size p Mmio"

definition addr_mtimecmp_lo :: "ic_map \<Rightarrow> bus_req \<Rightarrow> bool" where
  "addr_mtimecmp_lo p q \<longleftrightarrow>
     br_addr q AND t_size p Mmio = (t_base p Mmio + 8) AND t_size p Mmio"

definition core_mode_m :: "bus_req \<Rightarrow> bool" where "core_mode_m q = bit (br_prv q) 1"
definition core_mode_u :: "bus_req \<Rightarrow> bool" where "core_mode_u q = bit (br_prv q) 0"

definition n_mmio_rdata :: "ic_map \<Rightarrow> bus_req \<Rightarrow> counters \<Rightarrow> u64" where
  "n_mmio_rdata p q s =
     (if addr_mtime_lo p q then mapped_mtime s else 0) OR
     (if addr_mtimecmp_lo p q then mapped_mtimecmp s else 0)"

definition n_mmio_error :: "ic_map \<Rightarrow> bus_req \<Rightarrow> bool" where
  "n_mmio_error p q \<longleftrightarrow>
     br_req q \<and> (\<not> (addr_mtime_lo p q \<or> addr_mtimecmp_lo p q) \<or> core_mode_u q)"

definition wr_mtime_lo :: "ic_map \<Rightarrow> bus_req \<Rightarrow> bool" where
  "wr_mtime_lo p q \<longleftrightarrow> core_mode_m q \<and> addr_mtime_lo p q \<and> br_wen q \<and> br_req q"

definition wr_mtimecmp_lo :: "ic_map \<Rightarrow> bus_req \<Rightarrow> bool" where
  "wr_mtimecmp_lo p q \<longleftrightarrow> core_mode_m q \<and> addr_mtimecmp_lo p q \<and> br_wen q \<and> br_req q"

definition counters_step :: "ic_map \<Rightarrow> ctr_in \<Rightarrow> bus_req \<Rightarrow> counters \<Rightarrow> counters" where
  "counters_step p x q s =
     \<lparr>mapped_mtime =
        (if \<not> ctr_resetn x then 0 else if wr_mtime_lo p q then br_wdata q
         else if \<not> inhibit_tm x then mapped_mtime s + 1 else mapped_mtime s),
      mapped_mtimecmp =
        (if \<not> ctr_resetn x then - 1 else if wr_mtimecmp_lo p q then br_wdata q
         else mapped_mtimecmp s),
      timer_interrupt = (ctr_resetn x \<and> mapped_mtime s \<ge> mapped_mtimecmp s),
      mmio_error =
        (if \<not> ctr_resetn x then False else if br_req q then n_mmio_error p q else mmio_error s),
      mmio_rdata =
        (if \<not> ctr_resetn x then 0
         else if br_req q \<and> \<not> br_wen q \<and> \<not> n_mmio_error p q then n_mmio_rdata p q s
         else mmio_rdata s),
      ctr_instret =
        (if \<not> ctr_resetn x then 0
         else if instr_ret_r s \<and> \<not> inhibit_ir x then ctr_instret s + 1 else ctr_instret s),
      instr_ret_r = instr_ret x,
      ctr_cycle =
        (if \<not> ctr_resetn x then 0
         else if \<not> inhibit_cy x then ctr_cycle s + 1 else ctr_cycle s)\<rparr>"

section \<open>The core complex\<close>

definition ccx_map :: ic_map where
  "ccx_map =
     \<lparr>t_base = (\<lambda>t. case t of Rom \<Rightarrow> 0 | RamT \<Rightarrow> 0x10000 | Ext \<Rightarrow> 0x10000000 | Mmio \<Rightarrow> 0x20000),
      t_size = (\<lambda>t. case t of Rom \<Rightarrow> 0x3FF | RamT \<Rightarrow> 0xFFFF | Ext \<Rightarrow> 0x0FFFFFFF | Mmio \<Rightarrow> 0xFF)\<rparr>"

record ccx =
  cx_ic :: interconnect
  cx_rom :: sram
  cx_ram :: sram
  cx_ctr :: counters

text \<open>What the targets answer; \<open>ext\<close> is the response of the external memory port.\<close>

definition ccx_rsps :: "ccx \<Rightarrow> bus_rsp \<Rightarrow> target \<Rightarrow> bus_rsp" where
  "ccx_rsps s ext t =
     (case t of
        Rom \<Rightarrow> \<lparr>br_gnt = True, br_err = sram_err True (cx_rom s), br_rdata = sr_rdata (cx_rom s)\<rparr>
      | RamT \<Rightarrow> \<lparr>br_gnt = True, br_err = sram_err False (cx_ram s), br_rdata = sr_rdata (cx_ram s)\<rparr>
      | Mmio \<Rightarrow> \<lparr>br_gnt = True, br_err = mmio_error (cx_ctr s), br_rdata = mmio_rdata (cx_ctr s)\<rparr>
      | Ext \<Rightarrow> ext)"

definition ccx_port :: "ccx \<Rightarrow> bus_req \<Rightarrow> bus_req \<Rightarrow> target \<Rightarrow> bus_req" where
  "ccx_port s imem dmem t = ic_port ccx_map (cx_ic s) imem dmem t"

definition ccx_dmem_rsp :: "ccx \<Rightarrow> bus_req \<Rightarrow> bus_rsp \<Rightarrow> bus_rsp" where
  "ccx_dmem_rsp s dmem ext = ic_dmem_rsp ccx_map (cx_ic s) dmem (ccx_rsps s ext)"

definition ccx_imem_rsp :: "ccx \<Rightarrow> bus_req \<Rightarrow> bus_req \<Rightarrow> bus_rsp \<Rightarrow> bus_rsp" where
  "ccx_imem_rsp s imem dmem ext = ic_imem_rsp ccx_map (cx_ic s) imem dmem (ccx_rsps s ext)"

definition wr_strb :: "bus_req \<Rightarrow> u8" where
  "wr_strb q = (if br_wen q then br_strb q else 0)"

definition ccx_step :: "ctr_in \<Rightarrow> bus_req \<Rightarrow> bus_req \<Rightarrow> bus_rsp \<Rightarrow> ccx \<Rightarrow> ccx" where
  "ccx_step x imem dmem ext s =
     (let q = ccx_port s imem dmem; resetn = ctr_resetn x in
      \<lparr>cx_ic = ic_step ccx_map resetn imem dmem (ccx_rsps s ext) (cx_ic s),
       cx_rom = sram_step True resetn (br_req (q Rom)) (wr_strb (q Rom))
                  (unat (take_bit 7 (drop_bit 3 (br_addr (q Rom))))) (br_wdata (q Rom)) (cx_rom s),
       cx_ram = sram_step False resetn (br_req (q RamT)) (wr_strb (q RamT))
                  (unat (take_bit 13 (drop_bit 3 (br_addr (q RamT))))) (br_wdata (q RamT)) (cx_ram s),
       cx_ctr = counters_step ccx_map x (q Mmio) (cx_ctr s)\<rparr>)"

end
