(* ===== verification/Lsu.thy ===== *)
theory Lsu
  imports Ccx
begin

text \<open>
  Data memory accesses of the core: the load/store unit (\<open>rtl/core/core_pipe_exec_lsu.sv\<close>), the
  way the execute stage feeds it and hands its operation on (\<open>core_pipe_exec.sv\<close>), and what
  the writeback stage does with the response (\<open>core_pipe_wb.sv\<close>). The ports of the unit are the
  record \<open>lsu_in\<close>; \<open>lsu\<close> holds its two registers and \<open>lsu_wb\<close> the pipeline registers of the
  writeback stage that concern it. Interrupts and the other sources of a trap are not part of
  these definitions.
\<close>

section \<open>The unit\<close>

record lsu_in =
  new_instr :: bool
  ls_valid :: bool
  ls_addr :: addr39
  ls_wdata :: u64
  ls_load :: bool
  ls_store :: bool
  d_double :: bool
  d_word :: bool
  d_half :: bool
  d_byte :: bool
  mprv_m :: bool
  mprv_u :: bool

record lsu =
  finished :: bool
  dmem_prv :: "2 word"

definition addr_err :: "lsu_in \<Rightarrow> bool" where
  "addr_err x \<longleftrightarrow>
     d_double x \<and> take_bit 3 (ls_addr x) \<noteq> 0 \<or> d_word x \<and> take_bit 2 (ls_addr x) \<noteq> 0 \<or>
     d_half x \<and> bit (ls_addr x) 0"

definition txn_okay :: "lsu_in \<Rightarrow> bool" where "txn_okay x \<longleftrightarrow> \<not> addr_err x"

definition data_shift :: "lsu_in \<Rightarrow> nat" where
  "data_shift x = 8 * unat (take_bit 3 (ls_addr x))"

definition trap_addr :: "lsu_in \<Rightarrow> bool" where
  "trap_addr x \<longleftrightarrow> addr_err x \<and> ls_valid x"

definition dmem_wen :: "lsu_in \<Rightarrow> bool" where "dmem_wen x = ls_store x"

definition dmem_req :: "lsu_in \<Rightarrow> lsu \<Rightarrow> bool" where
  "dmem_req x s \<longleftrightarrow> ls_valid x \<and> txn_okay x \<and> \<not> finished s"

definition dmem_addr :: "lsu_in \<Rightarrow> addr39" where
  "dmem_addr x = push_bit 3 (drop_bit 3 (ls_addr x))"

definition dmem_wdata :: "lsu_in \<Rightarrow> u64" where
  "dmem_wdata x = push_bit (data_shift x) (ls_wdata x)"

text \<open>Strobe bit \<open>i\<close>: the eight assignments differ in the selects only.\<close>

definition strb :: "lsu_in \<Rightarrow> nat \<Rightarrow> bool" where
  "strb x i \<longleftrightarrow>
     d_double x \<or>
     d_word x \<and> bit (ls_addr x) 2 = (4 \<le> i) \<or>
     d_half x \<and> unat (take_bit 2 (drop_bit 1 (ls_addr x))) = i div 2 \<or>
     d_byte x \<and> unat (take_bit 3 (ls_addr x)) = i"

definition dmem_strb :: "lsu_in \<Rightarrow> u8" where
  "dmem_strb x = (if ls_valid x then of_bits (strb x) else 0)"

definition req_sent :: "lsu_in \<Rightarrow> lsu \<Rightarrow> bool \<Rightarrow> bool" where
  "req_sent x s gnt \<longleftrightarrow> dmem_req x s \<and> gnt"

definition lsu_ready :: "lsu_in \<Rightarrow> lsu \<Rightarrow> bool \<Rightarrow> bool" where
  "lsu_ready x s gnt \<longleftrightarrow> req_sent x s gnt \<or> ls_valid x \<and> trap_addr x"

definition lsu_step :: "bool \<Rightarrow> lsu_in \<Rightarrow> bool \<Rightarrow> lsu \<Rightarrow> lsu" where
  "lsu_step resetn x gnt s =
     \<lparr>finished =
        (if \<not> resetn then False else if new_instr x then False
         else if req_sent x s gnt then True else finished s),
      dmem_prv =
        (if \<not> resetn then 2
         else if \<not> dmem_req x s \<or> req_sent x s gnt
         then of_bits (\<lambda>i. if i = 0 then mprv_u x else mprv_m x)
         else dmem_prv s)\<rparr>"

text \<open>The request bus it drives.\<close>

definition lsu_bus :: "lsu_in \<Rightarrow> lsu \<Rightarrow> bus_req" where
  "lsu_bus x s =
     \<lparr>br_req = dmem_req x s, br_rtype = False, br_addr = dmem_addr x, br_wen = dmem_wen x,
      br_strb = dmem_strb x, br_wdata = dmem_wdata x, br_prv = dmem_prv s\<rparr>"

section \<open>Execute and writeback\<close>

record lsu_wb =
  s3_load :: bool
  s3_store :: bool
  s3_byte :: bool
  s3_half :: bool
  s3_word :: bool
  s3_sext :: bool
  s3_wdata :: u64
  s3_trap :: bool
  s3_rd :: "5 word"
  p_lsu_req :: bool

text \<open>
  The execute stage: the effective address is cut to the width of the bus, and a trapping
  instruction carries its cause in the destination register field.
\<close>

definition lsu_addr :: "u64 \<Rightarrow> addr39" where "lsu_addr alu_add_out = ucast alu_add_out"

definition n_s3_rd :: "bool \<Rightarrow> 5 word \<Rightarrow> 5 word" where
  "n_s3_rd lsu_trap_addr s2_rd = (if lsu_trap_addr then 4 else s2_rd)"

text \<open>The writeback registers when the instruction leaves the execute stage.\<close>

definition wb_step :: "lsu_in \<Rightarrow> lsu \<Rightarrow> bool \<Rightarrow> bool \<Rightarrow> u64 \<Rightarrow> 5 word \<Rightarrow> lsu_wb" where
  "wb_step x s gnt sext alu_add_out rd =
     \<lparr>s3_load = ls_load x, s3_store = ls_store x, s3_byte = d_byte x, s3_half = d_half x,
      s3_word = d_word x, s3_sext = sext, s3_wdata = alu_add_out, s3_trap = trap_addr x,
      s3_rd = n_s3_rd (trap_addr x) rd, p_lsu_req = (dmem_req x s \<and> gnt)\<rparr>"

definition wb_data_shift :: "lsu_wb \<Rightarrow> nat" where
  "wb_data_shift w = 8 * unat (take_bit 3 (s3_wdata w))"

definition rdata_shifted :: "lsu_wb \<Rightarrow> u64 \<Rightarrow> u64" where
  "rdata_shifted w rdata = drop_bit (wb_data_shift w) rdata"

definition lsu_rdata :: "lsu_wb \<Rightarrow> u64 \<Rightarrow> u64" where
  "lsu_rdata w rdata =
     (let r = rdata_shifted w rdata;
          ext = (\<lambda>n. r AND mask n OR push_bit n (if s3_sext w \<and> bit r (n - 1) then - 1 else 0))
      in if s3_byte w then ext 8 else if s3_half w then ext 16 else if s3_word w then ext 32
         else rdata)"

definition lsu_trap_load :: "lsu_wb \<Rightarrow> bool \<Rightarrow> bool" where
  "lsu_trap_load w err \<longleftrightarrow> s3_load w \<and> err \<and> p_lsu_req w"

definition lsu_trap_store :: "lsu_wb \<Rightarrow> bool \<Rightarrow> bool" where
  "lsu_trap_store w err \<longleftrightarrow> s3_store w \<and> err \<and> p_lsu_req w"

definition TRAP_LDACCESS :: "7 word" where "TRAP_LDACCESS = 5"
definition TRAP_STACCESS :: "7 word" where "TRAP_STACCESS = 7"

definition lsu_trap :: "lsu_wb \<Rightarrow> bool \<Rightarrow> bool" where
  "lsu_trap w err \<longleftrightarrow> s3_trap w \<or> lsu_trap_load w err \<or> lsu_trap_store w err"

definition lsu_cause :: "lsu_wb \<Rightarrow> bool \<Rightarrow> 7 word" where
  "lsu_cause w err =
     (if s3_trap w then ucast (s3_rd w) else if lsu_trap_load w err then TRAP_LDACCESS
      else if lsu_trap_store w err then TRAP_STACCESS else 0)"

end
