(* ===== verification/Ccx_Props.thy ===== *)
theory Ccx_Props
  imports Lsu
begin

text \<open>
  Proofs about the memory side of the core complex. \<open>region\<close> states the memory map; a state is
  \<open>settled\<close> when the arbiters of the targets that always grant hold no pending fetch, which
  every clock edge keeps. The section on data accesses follows a granted request of the data port to its
  response in the next cycle, the one on the arbiter shows when requests are granted.
\<close>

section \<open>The memory map\<close>

definition region :: "addr39 \<Rightarrow> target option" where
  "region a =
     (if a < 0x400 then Some Rom
      else if 0x10000 \<le> a \<and> a < 0x20000 then Some RamT
      else if 0x20000 \<le> a \<and> a < 0x20100 then Some Mmio
      else if 0x10000000 \<le> a \<and> a < 0x20000000 then Some Ext
      else None)"

lemma and_not_mask: "(a :: 'a::len word) AND NOT (mask n) = push_bit n (drop_bit n a)"
  by (rule bit_word_eqI) (auto simp: bit_simps)

lemma drop_and_not_mask: "drop_bit n ((a :: 'a::len word) AND NOT (mask n)) = drop_bit n a"
  by (rule bit_word_eqI) (auto simp: bit_simps dest: bit_imp_le_length)

lemma and_not_mask_eq:
  assumes "(b :: 'a::len word) AND NOT (mask n) = b"
  shows "a AND NOT (mask n) = b \<longleftrightarrow> unat a div 2 ^ n = unat b div 2 ^ n"
proof -
  have "a AND NOT (mask n) = b \<longleftrightarrow> drop_bit n a = drop_bit n b"
  proof
    assume "a AND NOT (mask n) = b"
    then show "drop_bit n a = drop_bit n b" using drop_and_not_mask [of n a] by (simp del: drop_bit_and)
  next
    assume "drop_bit n a = drop_bit n b"
    then show "a AND NOT (mask n) = b" using assms by (simp add: and_not_mask)
  qed
  also have "\<dots> \<longleftrightarrow> unat a div 2 ^ n = unat b div 2 ^ n"
    unfolding word_unat_eq_iff unat_drop_bit_eq unfolding drop_bit_eq_div ..
  finally show ?thesis .
qed

lemma map_core_div:
  "map_core ccx_map Rom a \<longleftrightarrow> unat a div 2 ^ 10 = 0"
  "map_core ccx_map RamT a \<longleftrightarrow> unat a div 2 ^ 16 = 1"
  "map_core ccx_map Ext a \<longleftrightarrow> unat a div 2 ^ 28 = 1"
  "map_core ccx_map Mmio a \<longleftrightarrow> unat a div 2 ^ 8 = 512"
proof -
  have e: "map_core ccx_map t a \<longleftrightarrow> a AND NOT (t_size ccx_map t) = t_base ccx_map t" for t
    by (auto simp: map_core_def address_match_def)
  show "map_core ccx_map Rom a \<longleftrightarrow> unat a div 2 ^ 10 = 0"
    using and_not_mask_eq [of 0 10 a] unfolding e by (simp add: ccx_map_def mask_eq_exp_minus_1)
  show "map_core ccx_map RamT a \<longleftrightarrow> unat a div 2 ^ 16 = 1"
    using and_not_mask_eq [of "0x10000" 16 a] unfolding e by (simp add: ccx_map_def mask_eq_exp_minus_1)
  show "map_core ccx_map Ext a \<longleftrightarrow> unat a div 2 ^ 28 = 1"
    using and_not_mask_eq [of "0x10000000" 28 a] unfolding e by (simp add: ccx_map_def mask_eq_exp_minus_1)
  show "map_core ccx_map Mmio a \<longleftrightarrow> unat a div 2 ^ 8 = 512"
    using and_not_mask_eq [of "0x20000" 8 a] unfolding e by (simp add: ccx_map_def mask_eq_exp_minus_1)
qed

lemma div_block: "0 < d \<Longrightarrow> (n :: nat) div d = k \<longleftrightarrow> d * k \<le> n \<and> n < d * Suc k"
  by (auto simp: div_nat_eqI mult.commute dividend_less_times_div)

lemma map_core_region: "map_core ccx_map t a \<longleftrightarrow> region a = Some t"
  by (cases t; simp add: map_core_div div_block region_def word_le_nat_alt word_less_nat_alt)

lemma pick_simps [simp]: "pick ((=) t) v d = v t" "pick (\<lambda>t. False) v d = d"
  by (cases t; simp add: pick_def)+

lemma pick_eq: "pick (\<lambda>t. r = Some t) v d = (case r of None \<Rightarrow> d | Some t \<Rightarrow> v t)"
  by (simp split: option.split)

lemma map_core_none_region [simp]: "map_core_none ccx_map a \<longleftrightarrow> region a = None"
  by (auto simp: map_core_none_def map_core_region) (metis target.exhaust option.exhaust)

section \<open>Settled states\<close>

definition settled :: "ccx \<Rightarrow> bool" where
  "settled s \<longleftrightarrow> (\<forall>t. t \<noteq> Ext \<longrightarrow> \<not> inflight_r1 (ic_arb (cx_ic s) t))"

lemma onchip_gnt [simp]: "t \<noteq> Ext \<Longrightarrow> br_gnt (ccx_rsps s ext t)"
  by (cases t) (simp_all add: ccx_rsps_def)

lemma ext_rsps [simp]: "ccx_rsps s ext Ext = ext"
  by (simp add: ccx_rsps_def)

lemma n_inflight_gnt: "br_gnt rsp \<Longrightarrow> \<not> inflight_r1 a \<Longrightarrow> \<not> n_inflight_r1 a q0 q1 rsp"
  by (auto simp: n_inflight_r1_def arb_rsp1_def route_req_r1_def)

lemma ccx_step_arb:
  "ic_arb (cx_ic (ccx_step x imem dmem ext s)) t =
     arb_step (ctr_resetn x) (router_req ccx_map dmem t) (router_req ccx_map imem t)
       (ccx_rsps s ext t) (ic_arb (cx_ic s) t)"
  by (simp add: ccx_step_def Let_def ic_step_def)

lemma settled_step: "settled s \<Longrightarrow> settled (ccx_step x imem dmem ext s)"
  by (simp add: settled_def ccx_step_arb arb_step_def n_inflight_gnt)

lemma settled_reset: "\<not> ctr_resetn x \<Longrightarrow> settled (ccx_step x imem dmem ext s)"
  by (simp add: settled_def ccx_step_arb arb_step_def)

section \<open>Grants and responses of the data port\<close>

lemma dmem_gnt:
  assumes "br_req q"
  shows "br_gnt (ccx_dmem_rsp s q ext) \<longleftrightarrow>
    (case region (br_addr q) of None \<Rightarrow> True
     | Some t \<Rightarrow> \<not> inflight_r1 (ic_arb (cx_ic s) t) \<and> br_gnt (ccx_rsps s ext t))"
  using assms
  by (simp add: ccx_dmem_rsp_def ic_dmem_rsp_def router_rsp_def router_gnt_def ic_dmem_rsps_def
      arb_rsp0_def route_req_r0_def router_req_def map_core_region split: option.split)

lemma dmem_gnt_onchip:
  assumes "settled s" "br_req q" "region (br_addr q) \<noteq> Some Ext"
  shows "br_gnt (ccx_dmem_rsp s q ext)"
  using assms by (auto simp: dmem_gnt settled_def split: option.split)

lemma dmem_rsp_next:
  fixes imem :: bus_req
  assumes q: "br_req q" and g: "br_gnt (ccx_dmem_rsp s q ext)" and r: "ctr_resetn x"
  defines "s' \<equiv> ccx_step x imem q ext s"
  shows "br_err (ccx_dmem_rsp s' q' ext') = (case region (br_addr q) of None \<Rightarrow> True
       | Some t \<Rightarrow> br_err (ccx_rsps s' ext' t))"
    and "br_rdata (ccx_dmem_rsp s' q' ext') = (case region (br_addr q) of None \<Rightarrow> 0
       | Some t \<Rightarrow> br_rdata (ccx_rsps s' ext' t))"
proof -
  have n: "rsp_route (ic_dmem (cx_ic s')) = (\<lambda>t. region (br_addr q) = Some t)"
    using q g r by (auto simp: s'_def ccx_step_def Let_def ic_step_def router_step_def
        router_req_def map_core_region ccx_dmem_rsp_def ic_dmem_rsp_def router_rsp_def)
  have a: "region (br_addr q) = Some t \<Longrightarrow> route_rsp_0 (ic_arb (cx_ic s') t)" for t
    using q g r by (auto simp: s'_def ccx_step_arb arb_step_def route_req_r0_def router_req_def
        map_core_region dmem_gnt)
  show "br_err (ccx_dmem_rsp s' q' ext') = (case region (br_addr q) of None \<Rightarrow> True
       | Some t \<Rightarrow> br_err (ccx_rsps s' ext' t))"
    by (auto simp: ccx_dmem_rsp_def ic_dmem_rsp_def router_rsp_def n pick_eq ic_dmem_rsps_def
        arb_rsp0_def a split: option.split)
  show "br_rdata (ccx_dmem_rsp s' q' ext') = (case region (br_addr q) of None \<Rightarrow> 0
       | Some t \<Rightarrow> br_rdata (ccx_rsps s' ext' t))"
    by (auto simp: ccx_dmem_rsp_def ic_dmem_rsp_def router_rsp_def n pick_eq ic_dmem_rsps_def
        arb_rsp0_def split: option.split)
qed

text \<open>What a target sees in the cycle of a granted data request.\<close>

lemma port_dmem:
  assumes "br_req q" "br_gnt (ccx_dmem_rsp s q ext)" "region (br_addr q) = Some t"
  shows "ccx_port s imem q t = q"
  using assms by (simp add: ccx_port_def ic_port_def arb_req_def route_req_r0_def router_req_def
      map_core_region dmem_gnt)

lemma port_other:
  assumes "region (br_addr q) \<noteq> Some t \<or> \<not> br_req q"
  shows "ccx_port s imem q t = router_req ccx_map imem t"
  using assms by (auto simp: ccx_port_def ic_port_def arb_req_def route_req_r0_def router_req_def
      map_core_region)

section \<open>On-chip memory\<close>

lemma lane_writes:
  "fold (\<lambda>i m. if c \<and> bit w i then m(b + i := f i) else m) [0..<k] m n =
     (if c \<and> b \<le> n \<and> n < b + k \<and> bit w (n - b) then f (n - b) else m n)"
  for w :: u8 and b k n :: nat
  by (induction k) auto

lemma fold_idle: "fold (\<lambda>i m. m) xs m = m"
  by (induction xs) auto

lemma sram_mem_step:
  "sr_mem (sram_step rom resetn cen wstrb word wdata s) n =
     (if \<not> rom \<and> cen \<and> 8 * word \<le> n \<and> n < 8 * word + 8 \<and> bit wstrb (n - 8 * word)
      then byte_of wdata (n - 8 * word) else sr_mem s n)"
  by (cases cen; simp add: sram_step_def lane_writes [where c = True, simplified] fold_idle)

definition onchip_byte :: "ccx \<Rightarrow> addr39 \<Rightarrow> u8" where
  "onchip_byte s a = (if region a = Some Rom then sr_mem (cx_rom s) (unat a)
     else sr_mem (cx_ram s) (unat a - 0x10000))"

lemma unat_word_index: "unat (take_bit k (drop_bit 3 a)) = unat (a :: addr39) div 8 mod 2 ^ k"
  unfolding unsigned_take_bit_eq unat_drop_bit_eq unfolding take_bit_eq_mod drop_bit_eq_div by simp

lemma region_Rom: "region a = Some Rom \<longleftrightarrow> unat a < 0x400"
  and region_Ram: "region a = Some RamT \<longleftrightarrow> 0x10000 \<le> unat a \<and> unat a < 0x20000"
  and region_Mmio: "region a = Some Mmio \<longleftrightarrow> 0x20000 \<le> unat a \<and> unat a < 0x20100"
  and region_Ext: "region a = Some Ext \<longleftrightarrow> 0x10000000 \<le> unat a \<and> unat a < 0x20000000"
  by (auto simp: region_def word_le_nat_alt word_less_nat_alt)

lemma rom_index:
  assumes "region a = Some Rom" "8 dvd unat a"
  shows "8 * unat (take_bit 7 (drop_bit 3 a)) = unat a"
  using assms by (auto simp: unat_word_index region_Rom)

lemma ram_index:
  assumes "region a = Some RamT" "8 dvd unat a"
  shows "8 * unat (take_bit 13 (drop_bit 3 a)) = unat a - 0x10000"
proof -
  have "0x10000 \<le> unat a" "unat a < 0x20000" using assms by (simp_all add: region_Ram)
  then have "unat a div 8 mod 8192 = unat a div 8 - 8192"
    by (subst le_mod_geq) auto
  then show ?thesis using assms(2) by (auto simp: unat_word_index)
qed

lemma aligned_add:
  fixes a :: addr39
  assumes "8 dvd unat a" "i < 8"
  shows "unat (a + of_nat i) = unat a + i"
proof -
  have "unat a < 2 ^ 39" using unat_bound [of a] by simp
  then have "unat a + 8 \<le> 2 ^ 39" using assms(1) by (auto elim!: dvdE)
  then show ?thesis using assms(2) by (simp add: unat_word_ariths unat_of_nat_id)
qed

lemma region_dword:
  assumes "8 dvd unat a" "i < 8" "region a = Some t"
  shows "region (a + of_nat i) = Some t"
  using assms
  by (cases t; simp add: region_Rom region_Ram region_Mmio region_Ext aligned_add; presburger)

lemma onchip_same_dword:
  fixes a b :: addr39
  assumes "8 dvd unat a" "region a = Some RamT" "region b = Some RamT"
  shows "unat a - 0x10000 \<le> unat b - 0x10000 \<and> unat b - 0x10000 < unat a - 0x10000 + 8 \<longleftrightarrow>
      unat (b - a) < 8"
    and "unat (b - a) < 8 \<Longrightarrow> unat b - 0x10000 - (unat a - 0x10000) = unat (b - a)"
proof -
  have r: "0x10000 \<le> unat a" "unat a < 0x20000" "0x10000 \<le> unat b" "unat b < 0x20000"
    using assms by (simp_all add: region_Ram)
  have d: "unat (b - a) = (if unat a \<le> unat b then unat b - unat a else unat b + 2 ^ 39 - unat a)"
    by (simp add: unat_sub_if_size word_size)
  show "unat a - 0x10000 \<le> unat b - 0x10000 \<and> unat b - 0x10000 < unat a - 0x10000 + 8 \<longleftrightarrow>
      unat (b - a) < 8"
    using r d by auto
  show "unat (b - a) < 8 \<Longrightarrow> unat b - 0x10000 - (unat a - 0x10000) = unat (b - a)"
    using r d by (auto split: if_splits)
qed

lemma ccx_step_targets:
  "cx_rom (ccx_step x imem dmem ext s) =
     (let q = ccx_port s imem dmem Rom in
      sram_step True (ctr_resetn x) (br_req q) (wr_strb q)
        (unat (take_bit 7 (drop_bit 3 (br_addr q)))) (br_wdata q) (cx_rom s))"
  "cx_ram (ccx_step x imem dmem ext s) =
     (let q = ccx_port s imem dmem RamT in
      sram_step False (ctr_resetn x) (br_req q) (wr_strb q)
        (unat (take_bit 13 (drop_bit 3 (br_addr q)))) (br_wdata q) (cx_ram s))"
  "cx_ctr (ccx_step x imem dmem ext s) =
     counters_step ccx_map x (ccx_port s imem dmem Mmio) (cx_ctr s)"
  by (simp_all add: ccx_step_def Let_def)

lemma rom_unchanged: "sr_mem (cx_rom (ccx_step x imem dmem ext s)) = sr_mem (cx_rom s)"
  by (simp add: ccx_step_targets Let_def fun_eq_iff sram_mem_step)

lemma ram_step:
  "sr_mem (cx_ram (ccx_step x imem dmem ext s)) n =
    (let q = ccx_port s imem dmem RamT; w = 8 * unat (take_bit 13 (drop_bit 3 (br_addr q))) in
     if br_req q \<and> w \<le> n \<and> n < w + 8 \<and> bit (wr_strb q) (n - w) then byte_of (br_wdata q) (n - w)
     else sr_mem (cx_ram s) n)"
  by (simp add: ccx_step_targets Let_def sram_mem_step)

lemma ram_unchanged:
  assumes "\<not> br_wen imem" "\<not> br_req q \<or> region (br_addr q) \<noteq> Some RamT"
  shows "sr_mem (cx_ram (ccx_step x imem q ext s)) = sr_mem (cx_ram s)"
  using assms by (auto simp: fun_eq_iff ram_step port_other router_req_def wr_strb_def)

lemma onchip_step:
  assumes q: "br_req q" and g: "br_gnt (ccx_dmem_rsp s q ext)" and i: "\<not> br_wen imem"
    and a: "8 dvd unat (br_addr q)" and b: "region b \<in> {Some Rom, Some RamT}"
  shows "onchip_byte (ccx_step x imem q ext s) b =
    (if region (br_addr q) = Some RamT \<and> region b = Some RamT \<and> br_wen q \<and>
        unat (b - br_addr q) < 8 \<and> bit (br_strb q) (unat (b - br_addr q))
     then byte_of (br_wdata q) (unat (b - br_addr q)) else onchip_byte s b)"
proof (cases "region (br_addr q) = Some RamT \<and> region b = Some RamT")
  case True
  then have p: "ccx_port s imem q RamT = q" using q g by (simp add: port_dmem)
  have n: "onchip_byte (ccx_step x imem q ext s) b =
      (let w = unat (br_addr q) - 0x10000; n = unat b - 0x10000 in
       if w \<le> n \<and> n < w + 8 \<and> bit (wr_strb q) (n - w) then byte_of (br_wdata q) (n - w)
       else sr_mem (cx_ram s) n)"
    using True q by (simp add: onchip_byte_def ram_step p ram_index [OF _ a] Let_def)
  have o: "onchip_byte s b = sr_mem (cx_ram s) (unat b - 0x10000)"
    using True by (simp add: onchip_byte_def)
  show ?thesis
    unfolding n o Let_def conj_assoc [symmetric]
      onchip_same_dword(1) [OF a conjunct1 [OF True] conjunct2 [OF True]]
    using True onchip_same_dword(2) [OF a, of b] by (auto simp: wr_strb_def)
next
  case False
  have "region (br_addr q) \<noteq> Some RamT \<Longrightarrow>
      sr_mem (cx_ram (ccx_step x imem q ext s)) = sr_mem (cx_ram s)"
    using i by (simp add: ram_unchanged)
  then show ?thesis using False b by (auto simp: onchip_byte_def rom_unchanged)
qed

lemma onchip_rsp:
  fixes imem :: bus_req
  assumes q: "br_req q" and g: "br_gnt (ccx_dmem_rsp s q ext)" and r: "ctr_resetn x"
    and a: "8 dvd unat (br_addr q)" and t: "region (br_addr q) \<in> {Some Rom, Some RamT}"
  defines "s' \<equiv> ccx_step x imem q ext s"
  shows "br_err (ccx_dmem_rsp s' q' ext') \<longleftrightarrow>
      region (br_addr q) = Some Rom \<and> br_wen q \<and> br_strb q \<noteq> 0"
    and "i < 8 \<Longrightarrow> byte_of (br_rdata (ccx_dmem_rsp s' q' ext')) i =
      onchip_byte s (br_addr q + of_nat i)"
proof -
  have p: "region (br_addr q) = Some t \<Longrightarrow> ccx_port s imem q t = q" for t
    using q g by (simp add: port_dmem)
  show "br_err (ccx_dmem_rsp s' q' ext') \<longleftrightarrow>
      region (br_addr q) = Some Rom \<and> br_wen q \<and> br_strb q \<noteq> 0"
    using t r q unfolding s'_def dmem_rsp_next [OF q g r]
    by (auto simp: ccx_rsps_def sram_err_def ccx_step_targets Let_def sram_step_def p wr_strb_def
        split: if_splits)
  assume i: "i < 8"
  have w: "region (br_addr q + of_nat i) = region (br_addr q)"
    using t region_dword [OF a i] by auto
  have n: "0x10000 \<le> unat (br_addr q)" if "region (br_addr q) = Some RamT"
    using that by (simp add: region_Ram)
  show "byte_of (br_rdata (ccx_dmem_rsp s' q' ext')) i = onchip_byte s (br_addr q + of_nat i)"
    using t r i n unfolding s'_def dmem_rsp_next [OF q g r]
    by (auto simp: ccx_rsps_def ccx_step_targets Let_def sram_step_def p q byte_of_or_bytes
        onchip_byte_def w rom_index [OF _ a] ram_index [OF _ a] aligned_add [OF a])
qed

section \<open>Timers\<close>

lemma low8: "a AND 0xFF = c \<longleftrightarrow> unat a mod 256 = unat c" if "unat c < 256" for a c :: addr39
proof -
  have m: "a AND 0xFF = take_bit 8 a" by (simp add: take_bit_eq_mask mask_eq_exp_minus_1)
  show ?thesis
    unfolding m word_unat_eq_iff unsigned_take_bit_eq unfolding take_bit_eq_mod by simp
qed

lemma mmio_offset:
  assumes "131072 \<le> n" "n < 131328"
  shows "n mod 256 = n - (131072 :: nat)"
proof -
  have "n div 256 = 512" using assms by (intro div_nat_eqI) auto
  then show ?thesis using minus_div_mult_eq_mod [of n 256] by simp
qed

lemma mmio_decode:
  assumes "region (br_addr q) = Some Mmio"
  shows "addr_mtime_lo ccx_map q \<longleftrightarrow> br_addr q = 0x20000"
    and "addr_mtimecmp_lo ccx_map q \<longleftrightarrow> br_addr q = 0x20008"
  using assms low8 [of 0 "br_addr q"] low8 [of 8 "br_addr q"]
  by (auto simp: addr_mtime_lo_def addr_mtimecmp_lo_def ccx_map_def word_unat_eq_iff region_Mmio mmio_offset)

definition next_mtime :: "ctr_in \<Rightarrow> counters \<Rightarrow> u64" where
  "next_mtime x s = (if inhibit_tm x then mapped_mtime s else mapped_mtime s + 1)"

lemma mmio_step:
  fixes s :: counters
  assumes q: "br_req q" and r: "region (br_addr q) = Some Mmio" and x: "ctr_resetn x"
  defines "s' \<equiv> counters_step ccx_map x q s"
  shows "mmio_error s' \<longleftrightarrow> br_addr q \<notin> {0x20000, 0x20008} \<or> core_mode_u q"
    and "\<not> mmio_error s' \<Longrightarrow> \<not> br_wen q \<Longrightarrow>
      mmio_rdata s' = (if br_addr q = 0x20000 then mapped_mtime s else mapped_mtimecmp s)"
    and "mapped_mtime s' = (if br_addr q = 0x20000 \<and> br_wen q \<and> core_mode_m q then br_wdata q
      else next_mtime x s)"
    and "mapped_mtimecmp s' = (if br_addr q = 0x20008 \<and> br_wen q \<and> core_mode_m q
      then br_wdata q else mapped_mtimecmp s)"
  using q x
  by (auto simp: s'_def counters_step_def n_mmio_error_def n_mmio_rdata_def mmio_decode [OF r]
      wr_mtime_lo_def wr_mtimecmp_lo_def next_mtime_def)

lemma mmio_quiet:
  assumes q: "\<not> br_wen q \<or> \<not> br_req q" and x: "ctr_resetn x"
  shows "mapped_mtime (counters_step p x q s) = next_mtime x s"
    and "mapped_mtimecmp (counters_step p x q s) = mapped_mtimecmp s"
    and "timer_interrupt (counters_step p x q s) \<longleftrightarrow> mapped_mtimecmp s \<le> mapped_mtime s"
  using q x by (auto simp: counters_step_def wr_mtime_lo_def wr_mtimecmp_lo_def next_mtime_def)

lemma mtime_runs:
  assumes "\<not> br_wen q \<or> \<not> br_req q" "ctr_resetn x" "\<not> inhibit_tm x"
  shows "mapped_mtime ((counters_step p x q ^^ n) s) = mapped_mtime s + of_nat n \<and>
    mapped_mtimecmp ((counters_step p x q ^^ n) s) = mapped_mtimecmp s"
  by (induction n) (simp_all add: mmio_quiet [OF assms(1,2)] next_mtime_def assms(3))

lemma timer_runs:
  assumes q: "\<not> br_wen q \<or> \<not> br_req q" "ctr_resetn x" "\<not> inhibit_tm x"
    and n: "0 < n" "unat (mapped_mtime s) + n \<le> 2 ^ 64"
  shows "timer_interrupt ((counters_step p x q ^^ n) s) \<longleftrightarrow>
    unat (mapped_mtimecmp s) < unat (mapped_mtime s) + n"
proof -
  obtain m where m: "n = Suc m" using n(1) gr0_implies_Suc by blast
  have "unat (mapped_mtime s + of_nat m) = unat (mapped_mtime s) + m"
    using n(2) by (simp add: m unat_word_ariths unat_of_nat_id)
  then show ?thesis
    by (auto simp: m mmio_quiet [OF q(1,2)] mtime_runs [OF q] word_le_nat_alt)
qed

section \<open>Progress of the two ports\<close>

lemma imem_gnt:
  assumes "br_req i"
  shows "br_gnt (ccx_imem_rsp s i q ext) \<longleftrightarrow>
    (case region (br_addr i) of None \<Rightarrow> True
     | Some t \<Rightarrow> \<not> (br_req q \<and> region (br_addr q) = Some t) \<and> br_gnt (ccx_rsps s ext t))"
  using assms
  by (simp add: ccx_imem_rsp_def ic_imem_rsp_def router_rsp_def router_gnt_def ic_imem_rsps_def
      arb_rsp1_def route_req_r1_def router_req_def map_core_region split: option.split)

text \<open>A run of the core complex: inputs, fetch and data requests and external answers by cycle.\<close>

primrec ccx_run ::
  "(nat \<Rightarrow> ctr_in) \<Rightarrow> (nat \<Rightarrow> bus_req) \<Rightarrow> (nat \<Rightarrow> bus_req) \<Rightarrow> (nat \<Rightarrow> bus_rsp) \<Rightarrow> nat \<Rightarrow> ccx \<Rightarrow> ccx"
where
  "ccx_run x i d e 0 s = s"
| "ccx_run x i d e (Suc n) s = ccx_step (x n) (i n) (d n) (e n) (ccx_run x i d e n s)"

definition asks :: "bus_req \<Rightarrow> target \<Rightarrow> bool" where
  "asks q t \<longleftrightarrow> br_req q \<and> region (br_addr q) = Some t"

lemma inflight_ext_step:
  assumes "ctr_resetn x" "asks i Ext" "\<not> br_gnt (ccx_imem_rsp s i d e)"
    "inflight_r1 (ic_arb (cx_ic s) Ext) \<or> \<not> asks d Ext"
  shows "inflight_r1 (ic_arb (cx_ic (ccx_step x i d e s)) Ext)"
  using assms
  by (auto simp: ccx_step_arb arb_step_def n_inflight_r1_def asks_def router_req_def
      map_core_region arb_rsp1_def route_req_r1_def imem_gnt)

lemma ext_stuck:
  assumes x: "\<And>n. ctr_resetn (x n)" and i: "\<And>n. asks (i n) Ext"
    and d: "\<And>n. 0 < n \<Longrightarrow> asks (d n) Ext" and first: "\<not> asks (d 0) Ext" "\<not> br_gnt (e 0)"
  shows "inflight_r1 (ic_arb (cx_ic (ccx_run x i d e (Suc n) s)) Ext)"
proof (induction n)
  case 0
  show ?case
    using inflight_ext_step [of "x 0" "i 0" s "d 0" "e 0"] x [of 0] i [of 0] first
    by (auto simp: asks_def imem_gnt)
next
  case (Suc n)
  have "\<not> br_gnt (ccx_imem_rsp (ccx_run x i d e (Suc n) s) (i (Suc n)) (d (Suc n)) (e (Suc n)))"
    using i [of "Suc n"] d [of "Suc n"] by (simp add: asks_def imem_gnt)
  then show ?case
    using inflight_ext_step [of "x (Suc n)" "i (Suc n)"] Suc.IH x i by simp
qed

end
