(* ===== verification/Lsu_Props.thy ===== *)
theory Lsu_Props
  imports Ccx_Props
begin

text \<open>
  Proofs about the load/store unit alone and on the core complex: which byte lanes an access of
  1, 2, 4 or 8 bytes takes, what a load returns and a store leaves in on-chip memory, and what
  the two do on a misaligned address. \<open>load_ext\<close> states the extension a load instruction is to
  perform.
\<close>

section \<open>Sizes and alignment\<close>

definition one_size :: "lsu_in \<Rightarrow> nat \<Rightarrow> bool" where
  "one_size x n \<longleftrightarrow> n \<in> {1, 2, 4, 8} \<and> (d_double x \<longleftrightarrow> n = 8) \<and> (d_word x \<longleftrightarrow> n = 4) \<and>
     (d_half x \<longleftrightarrow> n = 2) \<and> (d_byte x \<longleftrightarrow> n = 1)"

definition lane :: "lsu_in \<Rightarrow> nat" where "lane x = unat (ls_addr x) mod 8"

lemma lane_less [simp]: "lane x < 8"
  by (simp add: lane_def)

lemma low_bits:
  fixes a :: "'a::len word"
  shows "unat (take_bit n a) = unat a mod 2 ^ n"
    and "unat (take_bit n (drop_bit k a)) = unat a div 2 ^ k mod 2 ^ n"
    and "bit a k \<longleftrightarrow> odd (unat a div 2 ^ k)"
proof -
  show "unat (take_bit n a) = unat a mod 2 ^ n"
    unfolding unsigned_take_bit_eq unfolding take_bit_eq_mod ..
  show "unat (take_bit n (drop_bit k a)) = unat a div 2 ^ k mod 2 ^ n"
    unfolding unsigned_take_bit_eq unat_drop_bit_eq unfolding take_bit_eq_mod drop_bit_eq_div ..
  have "bit a k \<longleftrightarrow> bit (unat a) k" by (simp add: bit_unsigned_iff)
  then show "bit a k \<longleftrightarrow> odd (unat a div 2 ^ k)" by (simp add: bit_iff_odd [of "unat a"])
qed

lemma mod_8_div: "n mod 8 div 4 = n div 4 mod (2 :: nat)" "n mod 8 div 2 = n div 2 mod (4 :: nat)"
proof -
  have "n mod 8 = 4 * (n div 4 mod 2) + n mod 4" using mod_mult2_eq [of n 4 2] by simp
  then show "n mod 8 div 4 = n div 4 mod 2" by simp
  have "n mod 8 = 2 * (n div 2 mod 4) + n mod 2" using mod_mult2_eq [of n 2 4] by simp
  then show "n mod 8 div 2 = n div 2 mod 4" by simp
qed

lemma lanes:
  "unat (take_bit 3 (ls_addr x)) = lane x" "unat (take_bit 2 (ls_addr x)) = lane x mod 4"
  "bit (ls_addr x) 0 \<longleftrightarrow> odd (lane x)" "bit (ls_addr x) 2 \<longleftrightarrow> 4 \<le> lane x"
  "unat (take_bit 2 (drop_bit (Suc 0) (ls_addr x))) = lane x div 2"
proof -
  show "unat (take_bit 3 (ls_addr x)) = lane x" by (simp add: low_bits lane_def)
  show "unat (take_bit 2 (ls_addr x)) = lane x mod 4"
    by (simp add: low_bits lane_def mod_mod_cancel)
  show "bit (ls_addr x) 0 \<longleftrightarrow> odd (lane x)"
    by (simp add: low_bits(3) lane_def dvd_mod_iff)
  have "odd (unat (ls_addr x) div 4) \<longleftrightarrow> lane x div 4 = 1"
    unfolding lane_def mod_8_div by (simp add: odd_iff_mod_2_eq_one)
  also have "lane x div 4 = 1 \<longleftrightarrow> 4 \<le> lane x"
    using lane_less [of x] by (auto simp: div_nat_eqI)
  finally show "bit (ls_addr x) 2 \<longleftrightarrow> 4 \<le> lane x" by (simp add: low_bits(3))
  show "unat (take_bit 2 (drop_bit (Suc 0) (ls_addr x))) = lane x div 2"
    unfolding low_bits(2) lane_def mod_8_div by simp
qed

lemma addr_err_iff:
  assumes "one_size x n"
  shows "addr_err x \<longleftrightarrow> \<not> n dvd unat (ls_addr x)"
proof -
  have z: "take_bit 3 (ls_addr x) = 0 \<longleftrightarrow> lane x = 0" "take_bit 2 (ls_addr x) = 0 \<longleftrightarrow> lane x mod 4 = 0"
    by (simp_all add: lanes flip: unat_eq_0)
  show ?thesis
    using assms by (auto simp: one_size_def addr_err_def z lanes lane_def mod_mod_cancel dvd_eq_mod_eq_0)
qed

lemma lane_fits:
  assumes "one_size x n" "\<not> addr_err x"
  shows "n dvd lane x" "lane x + n \<le> 8"
proof -
  have n: "n dvd 8" using assms(1) by (auto simp: one_size_def)
  show "n dvd lane x" using assms n by (simp add: addr_err_iff lane_def dvd_mod)
  then obtain k where k: "lane x = n * k" by (rule dvdE)
  show "lane x + n \<le> 8"
  proof (cases "n = 8")
    case True
    then show ?thesis using lane_less [of x] k by simp
  next
    case False
    then have "n = 1 \<or> n = 2 \<or> n = 4" using assms(1) by (simp add: one_size_def)
    then show ?thesis using lane_less [of x] k by (elim disjE) simp_all
  qed
qed

lemma strb_lanes:
  assumes "one_size x n" "\<not> addr_err x" "i < 8"
  shows "strb x i \<longleftrightarrow> lane x \<le> i \<and> i < lane x + n"
proof -
  have d: "n dvd lane x" using lane_fits [OF assms(1,2)] by simp
  consider "n = 1" | "n = 2" | "n = 4" | "n = 8" using assms(1) by (auto simp: one_size_def)
  then show ?thesis
  proof cases
    case 2
    then have "even (lane x)" using d by simp
    then show ?thesis using 2 assms by (auto simp: strb_def one_size_def lanes elim!: evenE)
  next
    case 3
    then obtain k where k: "lane x = 4 * k" using d by (auto elim: dvdE)
    then have "k < 2" using lane_less [of x] unfolding k by linarith
    then have "lane x = 0 \<or> lane x = 4" using k by (auto simp: less_2_cases_iff)
    then show ?thesis using 3 assms by (auto simp: strb_def one_size_def lanes)
  next
    case 4
    then have "lane x = 0" using d by (metis lane_less nat_dvd_not_less gr0I)
    then show ?thesis using 4 assms by (auto simp: strb_def one_size_def lanes)
  qed (use assms in \<open>auto simp: strb_def one_size_def lanes\<close>)
qed

section \<open>Data lanes\<close>

lemma byte_of_push: "i < 8 \<Longrightarrow> byte_of (push_bit (8 * k) w) i = (if k \<le> i then byte_of w (i - k) else 0)"
  by (rule bit_word_eqI) (auto simp: bytes bit_simps algebra_simps)

definition load_ext :: "bool \<Rightarrow> nat \<Rightarrow> u64 \<Rightarrow> u64" where
  "load_ext sx n w = (if sx then signed_take_bit (8 * n - 1) w else take_bit (8 * n) w)"

lemma ext_bits:
  "0 < n \<Longrightarrow> (r AND mask n OR push_bit n (if sx \<and> bit r (n - 1) then - 1 else 0)) =
     (if sx then signed_take_bit (n - 1) r else take_bit n r)" for r :: u64
  by (rule bit_word_eqI, case_tac "na = n - 1")
    (auto simp: bit_simps bit_signed_take_bit_iff min_def)

lemma wb_step_fields [simp]:
  "s3_load (wb_step x u gnt sx ea rd) = ls_load x" "s3_store (wb_step x u gnt sx ea rd) = ls_store x"
  "s3_byte (wb_step x u gnt sx ea rd) = d_byte x" "s3_half (wb_step x u gnt sx ea rd) = d_half x"
  "s3_word (wb_step x u gnt sx ea rd) = d_word x" "s3_sext (wb_step x u gnt sx ea rd) = sx"
  "s3_wdata (wb_step x u gnt sx ea rd) = ea" "s3_trap (wb_step x u gnt sx ea rd) = trap_addr x"
  "s3_rd (wb_step x u gnt sx ea rd) = n_s3_rd (trap_addr x) rd"
  "p_lsu_req (wb_step x u gnt sx ea rd) = (dmem_req x u \<and> gnt)"
  by (simp_all add: wb_step_def)

lemma lsu_rdata_alt:
  "lsu_rdata w r = (let v = rdata_shifted w r; ext = (\<lambda>n. if s3_sext w then signed_take_bit (n - 1) v else take_bit n v)
     in if s3_byte w then ext 8 else if s3_half w then ext 16 else if s3_word w then ext 32 else r)"
  by (simp only: lsu_rdata_def Let_def ext_bits zero_less_numeral)

lemma lsu_rdata_ext:
  assumes "one_size x n" "\<not> addr_err x" "ls_addr x = lsu_addr ea"
  shows "lsu_rdata (wb_step x u gnt sx ea rd) r = load_ext sx n (drop_bit (8 * lane x) r)"
proof -
  have "unat (take_bit 3 ea) = lane x"
    unfolding low_bits lane_def assms(3) lsu_addr_def unsigned_ucast_eq unfolding take_bit_eq_mod
    by (simp add: mod_mod_cancel)
  then have k: "wb_data_shift (wb_step x u gnt sx ea rd) = 8 * lane x"
    by (simp add: wb_data_shift_def)
  have d: "n = 8 \<Longrightarrow> lane x = 0" using lane_fits [OF assms(1,2)] by auto
  have e8: "load_ext sx 8 r = r" for r
    by (rule bit_word_eqI, case_tac "n = 63")
      (auto simp: load_ext_def bit_simps bit_signed_take_bit_iff min_def)
  show ?thesis
  proof (cases "n = 8")
    case True
    then have "lsu_rdata (wb_step x u gnt sx ea rd) r = r"
      using assms(1) by (simp add: one_size_def lsu_rdata_alt Let_def)
    then show ?thesis using True d by (simp add: e8)
  next
    case False
    then have "n = 1 \<or> n = 2 \<or> n = 4" using assms(1) by (simp add: one_size_def)
    then show ?thesis
      using assms(1) by (elim disjE)
        (simp_all add: one_size_def lsu_rdata_alt Let_def rdata_shifted_def k load_ext_def)
  qed
qed

section \<open>Loads and stores on the complex\<close>

text \<open>A well-formed access of \<open>n\<close> bytes, ready to be issued.\<close>

definition access :: "lsu_in \<Rightarrow> lsu \<Rightarrow> nat \<Rightarrow> bool" where
  "access x u n \<longleftrightarrow> one_size x n \<and> n dvd unat (ls_addr x) \<and> ls_valid x \<and> \<not> finished u"

lemma access_bus:
  assumes "access x u n"
  shows "br_req (lsu_bus x u)" "\<not> addr_err x"
  using assms by (auto simp: access_def lsu_bus_def dmem_req_def txn_okay_def addr_err_iff)

lemma bus_addr:
  "unat (br_addr (lsu_bus x u)) = unat (ls_addr x) - lane x" "8 dvd unat (br_addr (lsu_bus x u))"
proof -
  have "unat (br_addr (lsu_bus x u)) = take_bit 39 (unat (ls_addr x) div 8 * 8)"
    by (simp add: lsu_bus_def dmem_addr_def unsigned_push_bit_eq unat_drop_bit_eq
        push_bit_eq_mult [of 3 "unat (ls_addr x) div 8"] drop_bit_eq_div [of 3 "unat (ls_addr x)"]
        del: push_bit_numeral)
  also have "\<dots> = unat (ls_addr x) div 8 * 8"
    using unat_bound [of "ls_addr x"] by (simp add: take_bit_nat_eq_self_iff)
  finally have e: "unat (br_addr (lsu_bus x u)) = unat (ls_addr x) div 8 * 8" .
  then show "8 dvd unat (br_addr (lsu_bus x u))" by simp
  show "unat (br_addr (lsu_bus x u)) = unat (ls_addr x) - lane x"
    unfolding e lane_def by (simp add: minus_mod_eq_div_mult)
qed

lemma bus_addr_lane: "br_addr (lsu_bus x u) + of_nat (lane x) = ls_addr x"
proof -
  have "unat (br_addr (lsu_bus x u) + of_nat (lane x)) = unat (ls_addr x)"
    by (simp add: aligned_add bus_addr lane_def)
  then show ?thesis by (simp add: word_unat_eq_iff)
qed

lemma block_floor: "8 * b \<le> 8 * k + l \<Longrightarrow> l < 8 \<Longrightarrow> 8 * b \<le> 8 * k" for b k l :: nat
  by presburger
lemma region_floor:
  assumes k: "unat a = 8 * k" "unat b = 8 * k + l" "l < 8" and r: "region b = Some t"
  shows "region a = Some t"
proof (cases t)
  case Rom
  show ?thesis using r k unfolding Rom region_Rom by linarith
next
  case RamT
  show ?thesis using r k block_floor [of 8192 k l] unfolding RamT region_Ram by linarith
next
  case Ext
  show ?thesis using r k block_floor [of "0x2000000" k l] unfolding Ext region_Ext by linarith
next
  case Mmio
  show ?thesis using r k block_floor [of "0x4000" k l] unfolding Mmio region_Mmio by linarith
qed
lemma bus_region: "region (br_addr (lsu_bus x u)) = region (ls_addr x)"
proof -
  have up: "region (br_addr (lsu_bus x u)) = Some t \<Longrightarrow> region (ls_addr x) = Some t" for t
    using region_dword [OF bus_addr(2) [of x u] lane_less [of x], of t] by (simp add: bus_addr_lane)
  have down: "region (ls_addr x) = Some t \<Longrightarrow> region (br_addr (lsu_bus x u)) = Some t" for t
  proof -
    obtain k where k: "unat (br_addr (lsu_bus x u)) = 8 * k"
      using bus_addr(2) by (rule dvdE)
    have "unat (ls_addr x) = 8 * k + lane x"
      unfolding k [symmetric] by (simp add: bus_addr lane_def)
    then show "region (ls_addr x) = Some t \<Longrightarrow> region (br_addr (lsu_bus x u)) = Some t"
      by (rule region_floor [OF k _ lane_less])
  qed
  show ?thesis using up down by (metis not_Some_eq)
qed

lemma load_ext_cong:
  assumes "0 < n" "n \<le> 8" "\<And>j. j < n \<Longrightarrow> byte_of v j = byte_of w j"
  shows "load_ext sx n v = load_ext sx n w"
proof -
  have "take_bit (8 * n) v = take_bit (8 * n) w"
  proof (rule bit_word_eqI)
    fix k assume k: "k < LENGTH(64)"
    have "bit (byte_of v (k div 8)) (k mod 8) = bit (byte_of w (k div 8)) (k mod 8)" if "k < 8 * n"
    proof -
      have "k div 8 < n" using that by (simp add: less_mult_imp_div_less mult.commute)
      then show ?thesis by (simp add: assms(3))
    qed
    then show "bit (take_bit (8 * n) v) k = bit (take_bit (8 * n) w) k"
      by (auto simp: bytes bit_simps)
  qed
  then show ?thesis
    using assms(1) by (simp add: load_ext_def signed_take_bit_eq_iff_take_bit_eq)
qed

lemma byte_of_drop: "k + j < 8 \<Longrightarrow> byte_of (drop_bit (8 * k) w) j = byte_of w (k + j)"
  by (rule bit_word_eqI) (auto simp: bytes bit_simps algebra_simps)

lemma access_size: "access x u n \<Longrightarrow> 0 < n \<and> n \<le> 8"
  by (auto simp: access_def one_size_def)

lemma access_gnt:
  assumes "access x u n" "settled s" "region (ls_addr x) \<noteq> Some Ext"
  shows "br_gnt (ccx_dmem_rsp s (lsu_bus x u) e)"
  using assms by (simp add: dmem_gnt_onchip access_bus bus_region)

lemma onchip_load:
  assumes a: "access x u n" and s: "settled s" and r: "region (ls_addr x) \<in> {Some Rom, Some RamT}"
    and c: "ctr_resetn c" and ea: "ls_addr x = lsu_addr ea"
  shows "lsu_rdata (wb_step x u True sx ea rd)
      (br_rdata (ccx_dmem_rsp (ccx_step c i (lsu_bus x u) e s) q' e')) =
    load_ext sx n (or_bytes (\<lambda>j. onchip_byte s (ls_addr x + of_nat j)) n)"
proof -
  let ?q = "lsu_bus x u"
  have g: "br_gnt (ccx_dmem_rsp s ?q e)" using r by (intro access_gnt [OF a s]) auto
  have b: "byte_of (br_rdata (ccx_dmem_rsp (ccx_step c i ?q e s) q' e')) k =
      onchip_byte s (br_addr ?q + of_nat k)" if "k < 8" for k
    by (rule onchip_rsp(2) [OF _ g c bus_addr(2) _ that]) (use a r in \<open>simp_all add: access_bus bus_region\<close>)
  have f: "lane x + n \<le> 8" "\<not> addr_err x" "one_size x n"
    using a lane_fits [of x n] by (auto simp: access_bus access_def addr_err_iff)
  show ?thesis
    unfolding lsu_rdata_ext [OF f(3,2) ea]
  proof (rule load_ext_cong)
    fix j assume j: "j < n"
    have "byte_of (drop_bit (8 * lane x) (br_rdata (ccx_dmem_rsp (ccx_step c i ?q e s) q' e'))) j =
        onchip_byte s (br_addr ?q + of_nat (lane x + j))"
      using j f(1) by (simp add: byte_of_drop b del: of_nat_add)
    also have "br_addr ?q + of_nat (lane x + j) = ls_addr x + of_nat j"
      unfolding of_nat_add add.assoc [symmetric] bus_addr_lane ..
    finally show "byte_of (drop_bit (8 * lane x)
        (br_rdata (ccx_dmem_rsp (ccx_step c i ?q e s) q' e'))) j =
      byte_of (or_bytes (\<lambda>j. onchip_byte s (ls_addr x + of_nat j)) n) j"
      using j access_size [OF a] by (simp add: byte_of_or_bytes)
  qed (use access_size [OF a] in simp_all)
qed

lemma store_lanes:
  assumes "lane x + n \<le> 8"
  shows "unat (b - br_addr (lsu_bus x u)) < 8 \<and> lane x \<le> unat (b - br_addr (lsu_bus x u)) \<and>
      unat (b - br_addr (lsu_bus x u)) < lane x + n \<longleftrightarrow> unat (b - ls_addr x) < n"
    and "unat (b - ls_addr x) < n \<Longrightarrow>
      unat (b - br_addr (lsu_bus x u)) = lane x + unat (b - ls_addr x)"
proof -
  let ?i = "b - br_addr (lsu_bus x u)" and ?d = "b - ls_addr x"
  have e: "?i = ?d + of_nat (lane x)" "?d = ?i - of_nat (lane x)"
    by (simp_all add: bus_addr_lane [of x u, symmetric])
  have l: "unat (of_nat (lane x) :: addr39) = lane x"
    by (rule unat_of_nat_id, rule less_le_trans [OF lane_less]) simp
  show up: "unat ?d < n \<Longrightarrow> unat ?i = lane x + unat ?d"
    using assms by (simp add: e(1) unat_word_ariths l)
  show "unat ?i < 8 \<and> lane x \<le> unat ?i \<and> unat ?i < lane x + n \<longleftrightarrow> unat ?d < n"
  proof
    assume i: "unat ?i < 8 \<and> lane x \<le> unat ?i \<and> unat ?i < lane x + n"
    then have "unat ?d = unat ?i - lane x"
      unfolding e(2) using l by (subst unat_sub) (simp_all add: word_le_nat_alt)
    then show "unat ?d < n" using i by linarith
  next
    assume "unat ?d < n"
    then show "unat ?i < 8 \<and> lane x \<le> unat ?i \<and> unat ?i < lane x + n"
      using up assms by simp
  qed
qed

lemma onchip_store:
  assumes a: "access x u n" and s: "settled s" and r: "region (ls_addr x) = Some RamT"
    and w: "ls_store x" and i: "\<not> br_wen i" and b: "region b \<in> {Some Rom, Some RamT}"
  shows "onchip_byte (ccx_step c i (lsu_bus x u) e s) b =
    (if region b = Some RamT \<and> unat (b - ls_addr x) < n
     then byte_of (ls_wdata x) (unat (b - ls_addr x)) else onchip_byte s b)"
proof -
  let ?q = "lsu_bus x u" and ?k = "unat (b - br_addr (lsu_bus x u))"
  have g: "br_gnt (ccx_dmem_rsp s ?q e)" using r by (intro access_gnt [OF a s]) auto
  have q: "br_req ?q" "\<not> addr_err x" using a by (simp_all add: access_bus)
  have f: "lane x + n \<le> 8" "one_size x n"
    using a q lane_fits [of x n] by (auto simp: access_def)
  have v: "br_wen ?q" "br_strb ?q = of_bits (strb x)" "br_wdata ?q = push_bit (8 * lane x) (ls_wdata x)"
    using a w by (simp_all add: lsu_bus_def dmem_wen_def dmem_strb_def dmem_wdata_def
        data_shift_def lanes access_def)
  have m: "?k < 8 \<and> bit (br_strb ?q) ?k \<longleftrightarrow> unat (b - ls_addr x) < n"
    unfolding store_lanes(1) [OF f(1), of b u, symmetric]
    by (auto simp: v bit_of_bits strb_lanes [OF f(2) q(2)])
  show ?thesis
    using onchip_step [OF q(1) g i bus_addr(2) b, of c] r m f(1)
    by (auto simp: bus_region v(1,3) byte_of_push store_lanes(2) [OF f(1)])
qed

lemma strb_nonzero:
  assumes "access x u n"
  shows "dmem_strb x \<noteq> 0"
proof -
  have "strb x (lane x)"
    using assms access_size [OF assms] strb_lanes [of x n "lane x"] access_bus(2) [OF assms]
    by (simp add: access_def)
  then have "bit (dmem_strb x) (lane x)"
    using assms by (simp add: access_def dmem_strb_def bit_of_bits)
  then show ?thesis by auto
qed

lemma lsu_trap_onchip:
  assumes a: "access x u n" and s: "settled s" and r: "region (ls_addr x) \<in> {Some Rom, Some RamT}"
    and c: "ctr_resetn c"
  shows "lsu_trap (wb_step x u True sx ea rd)
      (br_err (ccx_dmem_rsp (ccx_step c i (lsu_bus x u) e s) q' e')) \<longleftrightarrow>
    ls_store x \<and> region (ls_addr x) = Some Rom"
proof -
  have g: "br_gnt (ccx_dmem_rsp s (lsu_bus x u) e)" using r by (intro access_gnt [OF a s]) auto
  have q: "br_req (lsu_bus x u)" "\<not> addr_err x" using a by (simp_all add: access_bus)
  have "br_err (ccx_dmem_rsp (ccx_step c i (lsu_bus x u) e s) q' e') \<longleftrightarrow>
      region (ls_addr x) = Some Rom \<and> ls_store x"
    using onchip_rsp(1) [OF q(1) g c bus_addr(2) r [folded bus_region [of x u]], of i q' e']
      strb_nonzero [OF a]
    unfolding bus_region by (simp add: lsu_bus_def dmem_wen_def)
  then show ?thesis
    using q by (auto simp: lsu_trap_def lsu_trap_load_def lsu_trap_store_def trap_addr_def lsu_bus_def)
qed

lemma onchip_unchanged:
  assumes a: "access x u n" and s: "settled s" and r: "region (ls_addr x) \<in> {Some Rom, Some RamT}"
    and w: "\<not> ls_store x \<or> region (ls_addr x) = Some Rom" and i: "\<not> br_wen i"
    and b: "region b \<in> {Some Rom, Some RamT}"
  shows "onchip_byte (ccx_step c i (lsu_bus x u) e s) b = onchip_byte s b"
proof -
  have g: "br_gnt (ccx_dmem_rsp s (lsu_bus x u) e)" using r by (intro access_gnt [OF a s]) auto
  have q: "br_req (lsu_bus x u)" using a by (simp add: access_bus)
  have "\<not> br_wen (lsu_bus x u) \<or> region (br_addr (lsu_bus x u)) \<noteq> Some RamT"
    using w by (auto simp: bus_region) (simp add: lsu_bus_def dmem_wen_def)
  then show ?thesis using onchip_step [OF q g i bus_addr(2) b, of c] by auto
qed

lemma access_bytes:
  assumes "access x u n" "region (ls_addr x) = Some t" "j < n"
  shows "region (ls_addr x + of_nat j) = Some t"
proof -
  have "lane x + n \<le> 8" using assms(1) lane_fits [of x n] access_bus(2) [OF assms(1)]
    by (simp add: access_def)
  then have j: "lane x + j < 8" using assms(3) by simp
  have "region (br_addr (lsu_bus x u) + of_nat (lane x + j)) = Some t"
    using region_dword [OF bus_addr(2) j] assms(2) by (simp add: bus_region del: of_nat_add)
  then show ?thesis by (simp add: add.assoc [symmetric] bus_addr_lane)
qed

lemma access_span: "access x u n \<Longrightarrow> j < n \<Longrightarrow> unat (ls_addr x + of_nat j - ls_addr x) = j"
  using access_size [of x u n] by (intro unat_offset) auto

section \<open>Properties of data accesses\<close>

text \<open>Concrete states for the witnesses: the registers after reset, memories of zeros.\<close>

definition idle_req :: bus_req where
  "idle_req = \<lparr>br_req = False, br_rtype = False, br_addr = 0, br_wen = False, br_strb = 0,
     br_wdata = 0, br_prv = 2\<rparr>"

definition quiet_rsp :: bus_rsp where "quiet_rsp = \<lparr>br_gnt = False, br_err = False, br_rdata = 0\<rparr>"

definition clocked :: ctr_in where
  "clocked = \<lparr>ctr_resetn = True, instr_ret = False, inhibit_cy = False, inhibit_tm = False,
     inhibit_ir = False\<rparr>"

definition zero_sram :: sram where "zero_sram = \<lparr>sr_mem = (\<lambda>_. 0), sr_rdata = 0, sr_err = False\<rparr>"

definition ccx_zero :: ccx where
  "ccx_zero =
     \<lparr>cx_ic = \<lparr>ic_imem = \<lparr>rsp_route = (\<lambda>_. False), rsp_route_none = False\<rparr>,
               ic_dmem = \<lparr>rsp_route = (\<lambda>_. False), rsp_route_none = False\<rparr>,
               ic_arb = (\<lambda>_. \<lparr>inflight_r1 = False, route_rsp_0 = False, route_rsp_1 = False\<rparr>)\<rparr>,
      cx_rom = zero_sram, cx_ram = zero_sram,
      cx_ctr = \<lparr>mapped_mtime = 0, mapped_mtimecmp = - 1, timer_interrupt = False,
                mmio_error = False, mmio_rdata = 0, ctr_instret = 0, instr_ret_r = False,
                ctr_cycle = 0\<rparr>\<rparr>"

lemma settled_zero [simp]: "settled ccx_zero"
  by (simp add: settled_def ccx_zero_def)

definition data_op :: "bool \<Rightarrow> nat \<Rightarrow> addr39 \<Rightarrow> u64 \<Rightarrow> lsu_in" where
  "data_op store n a d =
     \<lparr>new_instr = True, ls_valid = True, ls_addr = a, ls_wdata = d, ls_load = (\<not> store),
      ls_store = store, d_double = (n = 8), d_word = (n = 4), d_half = (n = 2), d_byte = (n = 1),
      mprv_m = True, mprv_u = False\<rparr>"

lemma data_op_access:
  "n \<in> {1, 2, 4, 8} \<Longrightarrow> n dvd unat a \<Longrightarrow> \<not> finished u \<Longrightarrow> access (data_op st n a d) u n"
  by (simp add: access_def one_size_def data_op_def)

abbreviation "lsu_idle \<equiv> \<lparr>finished = False, dmem_prv = 2\<rparr>"

text \<open>C9: A naturally aligned load or store of 1, 2, 4 or 8 bytes to the boot ROM or the on-chip RAM,
  issued by the load/store unit while the instruction port does whatever it likes, is granted in
  its cycle and answered in the next: it traps exactly when it is a store to the ROM, a load
  returns the sign- or zero-extended bytes at its address, and afterwards both memories are as
  before but for the bytes the store named.\<close>

theorem onchip_access_exact:
  assumes a: "access x u n" and s: "settled s" and r: "region (ls_addr x) \<in> {Some Rom, Some RamT}"
    and c: "ctr_resetn c" and ea: "ls_addr x = lsu_addr ea" and i: "\<not> br_wen i"
  shows "let s' = ccx_step c i (lsu_bus x u) e s; w = wb_step x u True sx ea rd;
             rsp = ccx_dmem_rsp s' q' e' in
    br_gnt (ccx_dmem_rsp s (lsu_bus x u) e) \<and>
    (lsu_trap w (br_err rsp) \<longleftrightarrow> ls_store x \<and> region (ls_addr x) = Some Rom) \<and>
    lsu_rdata w (br_rdata rsp) =
      load_ext sx n (or_bytes (\<lambda>j. onchip_byte s (ls_addr x + of_nat j)) n) \<and>
    (\<forall>b. region b \<in> {Some Rom, Some RamT} \<longrightarrow> onchip_byte s' b =
      (if ls_store x \<and> region (ls_addr x) = Some RamT \<and> region b = Some RamT \<and>
          unat (b - ls_addr x) < n
       then byte_of (ls_wdata x) (unat (b - ls_addr x)) else onchip_byte s b))"
proof -
  have "br_gnt (ccx_dmem_rsp s (lsu_bus x u) e)" using r by (intro access_gnt [OF a s]) auto
  moreover have "onchip_byte (ccx_step c i (lsu_bus x u) e s) b =
      (if ls_store x \<and> region (ls_addr x) = Some RamT \<and> region b = Some RamT \<and>
          unat (b - ls_addr x) < n
       then byte_of (ls_wdata x) (unat (b - ls_addr x)) else onchip_byte s b)"
    if "region b \<in> {Some Rom, Some RamT}" for b
  proof (cases "ls_store x \<and> region (ls_addr x) = Some RamT")
    case True
    then show ?thesis using onchip_store [OF a s _ _ i that] by auto
  next
    case False
    then show ?thesis using onchip_unchanged [OF a s r _ i that] r by auto
  qed
  ultimately show ?thesis
    unfolding Let_def lsu_trap_onchip [OF a s r c] onchip_load [OF a s r c ea] by simp
qed

theorem onchip_access_exact_witness:
  "lsu_trap (wb_step (data_op True 4 0x10 5) lsu_idle True False 0x10 0)
     (br_err (ccx_dmem_rsp (ccx_step clocked idle_req (lsu_bus (data_op True 4 0x10 5) lsu_idle)
       quiet_rsp ccx_zero) idle_req quiet_rsp))"
proof -
  let ?x = "data_op True 4 0x10 5"
  have a: "access ?x lsu_idle 4" by (rule data_op_access) simp_all
  have r: "region (ls_addr ?x) = Some Rom" "ls_store ?x" "ls_addr ?x = lsu_addr 0x10"
    by (simp_all add: data_op_def region_def lsu_addr_def)
  show ?thesis
    using onchip_access_exact [OF a settled_zero, of clocked "0x10" idle_req quiet_rsp False 0 idle_req
        quiet_rsp] r
    by (simp add: Let_def clocked_def idle_req_def)
qed

text \<open>C26: What a store puts into the on-chip RAM, the next instruction's load of the same size
  at the same address reads back: the low bytes of the register stored, sign- or zero-extended.\<close>

theorem store_load_roundtrip:
  assumes x: "access x u n" "ls_store x" "new_instr x" and s: "settled s"
    and r: "region (ls_addr x) = Some RamT" and c: "ctr_resetn c" "ctr_resetn c'"
    and i: "\<not> br_wen i" and y: "one_size y n" "ls_valid y" "ls_addr y = ls_addr x"
    and ea: "ls_addr y = lsu_addr ea"
  shows "let s1 = ccx_step c i (lsu_bus x u) e s; u1 = lsu_step True x True u;
             s2 = ccx_step c' i' (lsu_bus y u1) e' s1 in
    lsu_rdata (wb_step y u1 True sx ea rd) (br_rdata (ccx_dmem_rsp s2 q e'')) =
      load_ext sx n (ls_wdata x)"
proof -
  let ?s1 = "ccx_step c i (lsu_bus x u) e s" and ?u1 = "lsu_step True x True u"
  have y1: "access y ?u1 n" using x y by (simp add: access_def lsu_step_def)
  have s1: "settled ?s1" by (rule settled_step [OF s])
  have "onchip_byte ?s1 (ls_addr y + of_nat j) = byte_of (ls_wdata x) j" if "j < n" for j
  proof -
    have t: "region (ls_addr x + of_nat j) = Some RamT" by (rule access_bytes [OF x(1) r that])
    show ?thesis
      using onchip_store [OF x(1) s r x(2) i, of "ls_addr x + of_nat j" c e] t
        access_span [OF x(1) that] that by (simp add: y(3))
  qed
  then have "load_ext sx n (or_bytes (\<lambda>j. onchip_byte ?s1 (ls_addr y + of_nat j)) n) =
      load_ext sx n (ls_wdata x)"
    using access_size [OF x(1)] by (intro load_ext_cong) (simp_all add: byte_of_or_bytes)
  then show ?thesis
    using onchip_load [OF y1 s1 _ c(2) ea, of sx rd i' e' q e''] r y(3) by (simp add: Let_def)
qed

theorem store_load_roundtrip_witness:
  "lsu_rdata (wb_step (data_op False 2 0x10006 0) (lsu_step True (data_op True 2 0x10006 0x1ABCD) True
      lsu_idle) True True 0x10006 0)
     (br_rdata (ccx_dmem_rsp (ccx_step clocked idle_req (lsu_bus (data_op False 2 0x10006 0)
        (lsu_step True (data_op True 2 0x10006 0x1ABCD) True lsu_idle)) quiet_rsp
       (ccx_step clocked idle_req (lsu_bus (data_op True 2 0x10006 0x1ABCD) lsu_idle) quiet_rsp
         ccx_zero)) idle_req quiet_rsp)) = 0xFFFFFFFFFFFFABCD"
proof -
  let ?x = "data_op True 2 0x10006 0x1ABCD" and ?y = "data_op False 2 0x10006 0"
  have x: "access ?x lsu_idle 2" by (rule data_op_access) simp_all
  have v: "load_ext True 2 0x1ABCD = 0xFFFFFFFFFFFFABCD"
    by (simp add: load_ext_def signed_take_bit_eq_if_negative)
  show ?thesis
    using store_load_roundtrip [OF x, of ccx_zero clocked clocked idle_req ?y "0x10006" quiet_rsp
        idle_req quiet_rsp True 0 idle_req quiet_rsp] v
    by (simp add: Let_def clocked_def idle_req_def data_op_def region_def lsu_addr_def one_size_def)
qed

text \<open>C35: A load or store to an address in no region of the memory map is accepted at once, reaches no target,
  changes neither memory, and traps in the next cycle with the load or the store access fault. The map is the
  one of the default parameters of the core complex, the boot ROM at 0, 1 KiB; the RAM at 0x10000, 64 KiB; the
  timers at 0x20000, 256 bytes; the external port at 0x10000000, 256 MiB; the table of the documentation has
  no timers and the external port at 0x120000000, 1 GiB.\<close>

theorem unmapped_access_traps:
  assumes a: "access x u n"
    and r: "\<not> unat (ls_addr x) < 0x400" "\<not> (0x10000 \<le> unat (ls_addr x) \<and> unat (ls_addr x) < 0x20100)"
      "\<not> (0x10000000 \<le> unat (ls_addr x) \<and> unat (ls_addr x) < 0x20000000)"
    and k: "ls_load x \<noteq> ls_store x" and c: "ctr_resetn c" and i: "\<not> br_wen i"
  shows "let s' = ccx_step c i (lsu_bus x u) e s; w = wb_step x u True sx ea rd;
             err = br_err (ccx_dmem_rsp s' q' e') in
    br_gnt (ccx_dmem_rsp s (lsu_bus x u) e) \<and>
    (\<forall>t. ccx_port s i (lsu_bus x u) t = router_req ccx_map i t) \<and>
    (\<forall>b. region b \<in> {Some Rom, Some RamT} \<longrightarrow> onchip_byte s' b = onchip_byte s b) \<and>
    lsu_trap w err \<and> lsu_cause w err = (if ls_load x then TRAP_LDACCESS else TRAP_STACCESS)"
proof -
  have n: "region (br_addr (lsu_bus x u)) = None"
  proof -
    have "region (ls_addr x) \<noteq> Some t" for t
      by (cases t) (use r in \<open>auto simp: region_Rom region_Ram region_Mmio region_Ext\<close>)
    then show ?thesis unfolding bus_region by (metis not_Some_eq)
  qed
  have q: "br_req (lsu_bus x u)" "\<not> addr_err x" using a by (simp_all add: access_bus)
  have g: "br_gnt (ccx_dmem_rsp s (lsu_bus x u) e)" by (simp add: dmem_gnt [OF q(1)] n)
  have err: "br_err (ccx_dmem_rsp (ccx_step c i (lsu_bus x u) e s) q' e')"
    by (simp add: dmem_rsp_next(1) [OF q(1) g c] n)
  have "dmem_req x u" using q(1) by (simp add: lsu_bus_def)
  then have "lsu_trap (wb_step x u True sx ea rd) True"
    "lsu_cause (wb_step x u True sx ea rd) True = (if ls_load x then TRAP_LDACCESS else TRAP_STACCESS)"
    using k q(2) by (auto simp: lsu_trap_def lsu_cause_def lsu_trap_load_def lsu_trap_store_def
        trap_addr_def)
  then show ?thesis
    using g err n onchip_step [OF q(1) g i bus_addr(2)] by (simp add: Let_def port_other)
qed

theorem unmapped_access_traps_witness:
  "lsu_cause (wb_step (data_op False 8 0x400 0) lsu_idle True False 0x400 0)
     (br_err (ccx_dmem_rsp (ccx_step clocked idle_req (lsu_bus (data_op False 8 0x400 0) lsu_idle)
       quiet_rsp ccx_zero) idle_req quiet_rsp)) = TRAP_LDACCESS"
proof -
  have x: "access (data_op False 8 0x400 0) lsu_idle 8" by (rule data_op_access) simp_all
  show ?thesis
    using unmapped_access_traps [OF x, of clocked idle_req quiet_rsp ccx_zero False "0x400" 0
        idle_req quiet_rsp]
    by (simp add: Let_def clocked_def idle_req_def data_op_def)
qed

text \<open>A misaligned access is never put on the bus and is ready at once, so it cannot hang or
  disturb memory; but the trap it raises has cause 4, load address misaligned, for a store as
  much as for a load, where the instruction set gives 6 for stores.\<close>

lemma misaligned_store_reports_load:
  assumes a: "one_size x n" "\<not> n dvd unat (ls_addr x)" "ls_valid x"
  shows "\<not> dmem_req x u \<and> lsu_ready x u gnt \<and>
    (let w = wb_step x u gnt sx ea rd in lsu_trap w err \<and> lsu_cause w err = 4)"
  using a by (simp add: addr_err_iff dmem_req_def txn_okay_def lsu_ready_def trap_addr_def Let_def
      lsu_trap_def lsu_cause_def n_s3_rd_def)

lemma misaligned_store_reports_load_witness:
  "lsu_cause (wb_step (data_op True 4 0x10002 7) lsu_idle True False 0x10002 0) False = 4"
proof -
  have "one_size (data_op True 4 0x10002 7) 4"
    by (simp add: one_size_def data_op_def)
  then show ?thesis
    using misaligned_store_reports_load [of "data_op True 4 0x10002 7" 4 lsu_idle True False "0x10002" 0 False]
    by (simp add: Let_def data_op_def)
qed

text \<open>The data path keeps 39 bits of an effective address and checks none of the others: an
  access through any 64-bit address behaves as one through the same address with bits 39 to 63
  cleared, so 2 to the power of 39 reads the boot ROM instead of trapping.\<close>

theorem upper_address_bits_ignored:
  "lsu_addr ea = lsu_addr (take_bit 39 ea) \<and> region (lsu_addr (push_bit 39 h)) = Some Rom"
proof -
  have "lsu_addr ea = lsu_addr (take_bit 39 ea)" "lsu_addr (push_bit 39 h) = 0"
    unfolding lsu_addr_def by (rule bit_word_eqI; auto simp: bit_simps)+
  then show ?thesis by (simp add: region_def)
qed

text \<open>The two ports of the core never hold each other's answer: on one target at most one of them
  is granted in a cycle. A data request is granted exactly when its address is unmapped or its
  target grants and no fetch is pending there; a fetch exactly when its address is unmapped or
  its target grants and the data port is not asking for the same target. So on every target but
  the external port a data access never waits, and a fetch waits only for data accesses.\<close>

lemma port_grants_exact:
  assumes q: "br_req d" "br_req i" and s: "settled s"
  shows "(br_gnt (ccx_dmem_rsp s d ext) \<longleftrightarrow>
      region (br_addr d) \<noteq> Some Ext \<or> \<not> inflight_r1 (ic_arb (cx_ic s) Ext) \<and> br_gnt ext) \<and>
    (br_gnt (ccx_imem_rsp s i d ext) \<longleftrightarrow>
      region (br_addr i) = None \<or>
      region (br_addr d) \<noteq> region (br_addr i) \<and> (region (br_addr i) = Some Ext \<longrightarrow> br_gnt ext)) \<and>
    \<not> (br_gnt (ccx_dmem_rsp s d ext) \<and> br_gnt (ccx_imem_rsp s i d ext) \<and>
      region (br_addr d) = region (br_addr i) \<and> region (br_addr d) \<noteq> None)"
proof -
  have g: "br_gnt (ccx_rsps s ext t) \<longleftrightarrow> t \<noteq> Ext \<or> br_gnt ext" for t
    by (cases t) simp_all
  have f: "t \<noteq> Ext \<Longrightarrow> \<not> inflight_r1 (ic_arb (cx_ic s) t)" for t
    using s by (simp add: settled_def)
  have d: "br_gnt (ccx_dmem_rsp s d ext) \<longleftrightarrow>
      region (br_addr d) \<noteq> Some Ext \<or> \<not> inflight_r1 (ic_arb (cx_ic s) Ext) \<and> br_gnt ext"
  proof (cases "region (br_addr d)")
    case (Some t)
    then show ?thesis using f [of t] by (cases "t = Ext") (simp_all add: dmem_gnt [OF q(1)] g)
  qed (simp add: dmem_gnt [OF q(1)])
  have i: "br_gnt (ccx_imem_rsp s i d ext) \<longleftrightarrow>
      region (br_addr i) = None \<or>
      region (br_addr d) \<noteq> region (br_addr i) \<and> (region (br_addr i) = Some Ext \<longrightarrow> br_gnt ext)"
    unfolding imem_gnt [OF q(2)] g using q(1) by (auto split: option.split)
  show ?thesis unfolding d i by auto
qed

definition bus_read :: "addr39 \<Rightarrow> bus_req" where
  "bus_read a = idle_req\<lparr>br_req := True, br_addr := a, br_strb := 255\<rparr>"

text \<open>C27: The external port can be locked up by the core's own two ports. If a fetch from external
  memory is refused once while the data port is elsewhere, and from the next cycle on both ports
  ask for external memory, then neither is ever granted again, whatever the memory answers,
  although the port keeps requesting: the arbiter withholds the data port because a fetch is pending and
  the fetch because the data port asks.\<close>

theorem ext_port_deadlock:
  assumes x: "\<And>n. ctr_resetn (x n)" and i: "\<And>n. asks (i n) Ext"
    and d: "\<And>n. 0 < n \<Longrightarrow> asks (d n) Ext" and first: "\<not> asks (d 0) Ext" "\<not> br_gnt (e 0)"
    and n: "0 < n"
  shows "let s = ccx_run x i d e n s0 in
    \<not> br_gnt (ccx_dmem_rsp s (d n) (e n)) \<and> \<not> br_gnt (ccx_imem_rsp s (i n) (d n) (e n)) \<and>
    br_req (ccx_port s (i n) (d n) Ext)"
proof -
  obtain m where m: "n = Suc m" using n gr0_implies_Suc by blast
  have "inflight_r1 (ic_arb (cx_ic (ccx_run x i d e n s0)) Ext)"
    unfolding m by (rule ext_stuck) (use x i d first in simp_all)
  then show ?thesis
    using i [of n] d [OF n]
    by (simp add: asks_def dmem_gnt imem_gnt ccx_port_def ic_port_def arb_req_def
        route_req_r0_def router_req_def map_core_region)
qed

theorem ext_port_deadlock_witness:
  "let d = (\<lambda>n. if n = 0 then idle_req else bus_read 0x10000008); i = (\<lambda>_. bus_read 0x10000000);
       e = (\<lambda>n. quiet_rsp\<lparr>br_gnt := 0 < n\<rparr>); s = ccx_run (\<lambda>_. clocked) i d e 1000 ccx_zero in
   br_gnt (e 1000) \<and> \<not> br_gnt (ccx_dmem_rsp s (d 1000) (e 1000)) \<and>
   \<not> br_gnt (ccx_imem_rsp s (i 1000) (d 1000) (e 1000))"
proof -
  let ?d = "\<lambda>n :: nat. if n = 0 then idle_req else bus_read 0x10000008"
  let ?i = "\<lambda>_ :: nat. bus_read 0x10000000" and ?e = "\<lambda>n :: nat. quiet_rsp\<lparr>br_gnt := 0 < n\<rparr>"
  have a: "asks (bus_read 0x10000000) Ext" "asks (bus_read 0x10000008) Ext" "\<not> asks idle_req Ext"
    by (simp_all add: asks_def bus_read_def idle_req_def region_def)
  show ?thesis
    using ext_port_deadlock [of "\<lambda>_. clocked" ?i ?d ?e 1000 ccx_zero] a
    by (simp add: clocked_def Let_def)
qed

section \<open>Properties of the timers\<close>

text \<open>A request of the data port to the timer region is granted at once. It is answered with an
  error exactly when its address is neither of the two registers or it comes from user mode; a
  read without error returns the register as it was in the cycle of the request; a machine-mode
  write replaces the register named, and mtime otherwise advances by one unless inhibited.\<close>

lemma mmio_access_exact:
  assumes q: "br_req q" and r: "0x20000 \<le> unat (br_addr q)" "unat (br_addr q) < 0x20100"
    and s: "settled s" and x: "ctr_resetn x"
  shows "let s' = ccx_step x i q e s; rsp = ccx_dmem_rsp s' q' e' in
    br_gnt (ccx_dmem_rsp s q e) \<and>
    (br_err rsp \<longleftrightarrow> br_addr q \<notin> {0x20000, 0x20008} \<or> core_mode_u q) \<and>
    (\<not> br_err rsp \<and> \<not> br_wen q \<longrightarrow> br_rdata rsp =
      (if br_addr q = 0x20000 then mapped_mtime (cx_ctr s) else mapped_mtimecmp (cx_ctr s))) \<and>
    mapped_mtime (cx_ctr s') =
      (if br_addr q = 0x20000 \<and> br_wen q \<and> core_mode_m q then br_wdata q
       else if inhibit_tm x then mapped_mtime (cx_ctr s) else mapped_mtime (cx_ctr s) + 1) \<and>
    mapped_mtimecmp (cx_ctr s') =
      (if br_addr q = 0x20008 \<and> br_wen q \<and> core_mode_m q then br_wdata q
       else mapped_mtimecmp (cx_ctr s))"
proof -
  have m: "region (br_addr q) = Some Mmio" using r by (simp add: region_Mmio)
  have g: "br_gnt (ccx_dmem_rsp s q e)" using m by (intro dmem_gnt_onchip [OF s q]) simp
  have c: "cx_ctr (ccx_step x i q e s) = counters_step ccx_map x q (cx_ctr s)"
    by (simp add: ccx_step_targets port_dmem [OF q g m])
  have v: "br_err (ccx_dmem_rsp (ccx_step x i q e s) q' e') =
      mmio_error (counters_step ccx_map x q (cx_ctr s))"
    "br_rdata (ccx_dmem_rsp (ccx_step x i q e s) q' e') =
      mmio_rdata (counters_step ccx_map x q (cx_ctr s))"
    using m by (simp_all add: dmem_rsp_next [OF q g x] ccx_rsps_def c)
  show ?thesis
    using g mmio_step [OF q m x, of "cx_ctr s"]
    by (simp add: Let_def c v next_mtime_def)
qed

lemma mmio_access_exact_witness:
  "br_rdata (ccx_dmem_rsp (ccx_step clocked idle_req (bus_read 0x20008) quiet_rsp ccx_zero)
     idle_req quiet_rsp) = - 1"
proof -
  have q: "br_req (bus_read 0x20008)" "br_addr (bus_read 0x20008) = 0x20008"
    "\<not> br_wen (bus_read 0x20008)" "\<not> core_mode_u (bus_read 0x20008)" "ctr_resetn clocked"
    "mapped_mtimecmp (cx_ctr ccx_zero) = - 1"
    by (simp_all add: bus_read_def idle_req_def core_mode_u_def clocked_def ccx_zero_def)
  show ?thesis
    using mmio_access_exact [OF q(1) _ _ settled_zero q(5), of idle_req quiet_rsp idle_req quiet_rsp]
    by (simp add: Let_def q)
qed

text \<open>With mtime running and no write to the timers, the timer interrupt rises exactly one cycle after
  mtime reaches mtimecmp and stays up: after n cycles it is up exactly when mtime started less than n
  short of mtimecmp, for every n that does not take mtime past 2 to the power of 64.\<close>

lemma timer_interrupt_exact:
  assumes q: "\<not> br_wen q \<or> \<not> br_req q" "ctr_resetn x" "\<not> inhibit_tm x"
    and n: "0 < n" "unat (mapped_mtime s) + n \<le> 2 ^ 64"
  shows "timer_interrupt ((counters_step ccx_map x q ^^ n) s) \<longleftrightarrow>
    unat (mapped_mtimecmp s) < unat (mapped_mtime s) + n"
  by (rule timer_runs [OF q n])

text \<open>The timer registers have no byte strobes: a machine-mode store of any size into mtimecmp
  replaces all 64 bits by the shifted store data, so a word store to its upper half clears the
  lower half.\<close>

lemma timer_store_ignores_strobes:
  assumes a: "access x u n" and w: "ls_store x" and p: "bit (dmem_prv u) 1"
    and r: "0x20008 \<le> unat (ls_addr x)" "unat (ls_addr x) < 0x20010"
    and s: "settled s" and c: "ctr_resetn c"
  shows "mapped_mtimecmp (cx_ctr (ccx_step c i (lsu_bus x u) e s)) =
    push_bit (8 * (unat (ls_addr x) - 0x20008)) (ls_wdata x)"
proof -
  have l: "unat (ls_addr x) div 8 = 0x4001" using r by (intro div_nat_eqI) simp_all
  have b: "unat (br_addr (lsu_bus x u)) = 0x20008" and k: "lane x = unat (ls_addr x) - 0x20008"
    using l minus_mod_eq_mult_div [of "unat (ls_addr x)" 8] minus_mult_div_eq_mod [of "unat (ls_addr x)" 8]
    by (simp_all add: bus_addr lane_def)
  have a8: "br_addr (lsu_bus x u) = 0x20008" by (simp add: word_unat_eq_iff b)
  have q: "br_req (lsu_bus x u)" using a by (simp add: access_bus)
  have v: "br_wen (lsu_bus x u)" "core_mode_m (lsu_bus x u)"
    "br_wdata (lsu_bus x u) = push_bit (8 * lane x) (ls_wdata x)"
    using w p by (simp_all add: lsu_bus_def core_mode_m_def dmem_wen_def dmem_wdata_def
        data_shift_def lanes)
  have m: "region (br_addr (lsu_bus x u)) = Some Mmio" by (simp add: region_Mmio b)
  have g: "br_gnt (ccx_dmem_rsp s (lsu_bus x u) e)" using m by (intro dmem_gnt_onchip [OF s q]) simp
  show ?thesis
    using mmio_step(4) [OF q m c, of "cx_ctr s"]
    by (simp add: ccx_step_targets port_dmem [OF q g m] a8 v k)
qed

lemma timer_store_ignores_strobes_witness:
  "mapped_mtimecmp (cx_ctr (ccx_step clocked idle_req (lsu_bus (data_op True 4 0x2000C 1) lsu_idle)
     quiet_rsp ccx_zero)) = 0x100000000"
proof -
  have x: "access (data_op True 4 0x2000C 1) lsu_idle 4" by (rule data_op_access) simp_all
  show ?thesis
    using timer_store_ignores_strobes [OF x, of ccx_zero clocked idle_req quiet_rsp]
    by (simp add: data_op_def clocked_def bit_simps)
qed

end
