(* ===== verification/Trap_Platform.thy ===== *)
theory Trap_Platform
  imports Access_Traps Lsu_Props Bench_Props
begin

text \<open>
  The access fault test on the modelled hardware: the load/store unit, the core complex and the
  test bench's memory agent and bus run together, one clock cycle at a time, and a load or store
  of the program is the run of cycles until the unit is ready. The instruction port is a function
  of the state that fetches from on-chip memory; the random source of the agent must grant
  again and again (\<open>fair\<close>). The interpretation shows that this machine is a \<open>checked_platform\<close>.
\<close>

section \<open>One clock cycle of the composition\<close>

record 'r cosim =
  cs_ccx :: ccx
  cs_lsu :: lsu
  cs_agent :: core_mem_agent
  cs_emem :: mem_if
  cs_bus :: memory_bus
  cs_rand :: 'r

text \<open>The external port of the complex and the signals of the agent.\<close>

definition emem_rsp :: "mem_if \<Rightarrow> bus_rsp" where
  "emem_rsp m = \<lparr>br_gnt = mem_gnt m \<noteq> 0, br_err = mem_err m \<noteq> 0, br_rdata = mem_rdata m\<rparr>"

definition drive_emem :: "bus_req \<Rightarrow> mem_if \<Rightarrow> mem_if" where
  "drive_emem q m =
     m\<lparr>mem_req := of_bool (br_req q), mem_addr := ucast (br_addr q), mem_wen := of_bool (br_wen q),
       mem_strb := br_strb q, mem_wdata := br_wdata q\<rparr>"

definition cosim_gnt :: "lsu_in \<Rightarrow> 'r cosim \<Rightarrow> bool" where
  "cosim_gnt x co = br_gnt (ccx_dmem_rsp (cs_ccx co) (lsu_bus x (cs_lsu co)) (emem_rsp (cs_emem co)))"

definition cosim_cycle ::
  "('r \<Rightarrow> nat \<times> 'r) \<Rightarrow> ('r cosim \<Rightarrow> bus_req) \<Rightarrow> ctr_in \<Rightarrow> lsu_in \<Rightarrow> 'r cosim \<Rightarrow> 'r cosim" where
  "cosim_cycle rand fetch c x co =
     (let q = lsu_bus x (cs_lsu co); ext = emem_rsp (cs_emem co); gnt = cosim_gnt x co;
          m = drive_emem (ccx_port (cs_ccx co) (fetch co) q Ext) (cs_emem co)
      in case posedge_clk rand (cs_agent co) m (cs_bus co) (cs_rand co) of (ag, bus, r) \<Rightarrow>
        \<lparr>cs_ccx = ccx_step c (fetch co) q ext (cs_ccx co),
         cs_lsu = lsu_step True (x\<lparr>new_instr := lsu_ready x (cs_lsu co) gnt\<rparr>) gnt (cs_lsu co),
         cs_agent = ag, cs_emem = drive_signals ag m, cs_bus = bus, cs_rand = r\<rparr>)"

text \<open>Run until the unit is ready; the writeback registers are those of the last cycle.\<close>

partial_function (option) lsu_access ::
  "('r \<Rightarrow> nat \<times> 'r) \<Rightarrow> ('r cosim \<Rightarrow> bus_req) \<Rightarrow> ctr_in \<Rightarrow> u64 \<Rightarrow> lsu_in \<Rightarrow> 'r cosim \<Rightarrow>
   (lsu_wb \<times> 'r cosim) option" where
  "lsu_access rand fetch c ea x co =
     (if lsu_ready x (cs_lsu co) (cosim_gnt x co)
      then Some (wb_step x (cs_lsu co) (cosim_gnt x co) False ea 0, cosim_cycle rand fetch c x co)
      else lsu_access rand fetch c ea x (cosim_cycle rand fetch c x co))"

text \<open>The response the writeback stage sees in the state after the last cycle.\<close>

definition wb_rsp :: "'r cosim \<Rightarrow> bus_rsp" where
  "wb_rsp co = ccx_dmem_rsp (cs_ccx co) idle_req (emem_rsp (cs_emem co))"

definition cosim_load ::
  "('r \<Rightarrow> nat \<times> 'r) \<Rightarrow> ('r cosim \<Rightarrow> bus_req) \<Rightarrow> ctr_in \<Rightarrow> u64 \<Rightarrow> 'r cosim \<Rightarrow>
   ((u64 + u64) \<times> 'r cosim) option" where
  "cosim_load rand fetch c a co =
     map_option (\<lambda>(w, co'). (if lsu_trap w (br_err (wb_rsp co'))
         then Inl (ucast (lsu_cause w (br_err (wb_rsp co'))))
         else Inr (lsu_rdata w (br_rdata (wb_rsp co'))), co'))
       (lsu_access rand fetch c a (data_op False 8 (lsu_addr a) 0) co)"

definition cosim_store ::
  "('r \<Rightarrow> nat \<times> 'r) \<Rightarrow> ('r cosim \<Rightarrow> bus_req) \<Rightarrow> ctr_in \<Rightarrow> u64 \<Rightarrow> u64 \<Rightarrow> 'r cosim \<Rightarrow>
   (u64 option \<times> 'r cosim) option" where
  "cosim_store rand fetch c a v co =
     map_option (\<lambda>(w, co'). (if lsu_trap w (br_err (wb_rsp co'))
         then Some (ucast (lsu_cause w (br_err (wb_rsp co')))) else None, co'))
       (lsu_access rand fetch c a (data_op True 8 (lsu_addr a) v) co)"

text \<open>The random source: from every state an idle cycle grants sooner or later.\<close>

definition idle_draw :: "('r \<Rightarrow> nat \<times> 'r) \<Rightarrow> 'r \<Rightarrow> 'r" where
  "idle_draw rand r = snd (rand (snd (rand (snd (rand (snd (rand r)))))))"

definition idle_grant :: "('r \<Rightarrow> nat \<times> 'r) \<Rightarrow> 'r \<Rightarrow> bool" where
  "idle_grant rand r \<longleftrightarrow> fst (rand (snd (rand (snd (rand (snd (rand r))))))) mod 10 < 9"

definition fair :: "('r \<Rightarrow> nat \<times> 'r) \<Rightarrow> bool" where
  "fair rand \<longleftrightarrow> (\<forall>r. \<exists>k. idle_grant rand ((idle_draw rand ^^ k) r))"

section \<open>The external memory\<close>

lemma request_bases:
  "map device_base (bus_devices (snd (request bus req))) = map device_base (bus_devices bus)"
proof -
  have u: "device_base d = device_base (bus_devices bus ! i) \<Longrightarrow>
      map device_base ((bus_devices bus)[i := d]) = map device_base (bus_devices bus)" for d i
    by (simp add: map_update) (metis list_update_id list_update_beyond length_map linorder_not_less nth_map)
  show ?thesis
    by (auto simp: request_def Let_def case_prod_unfold u split: option.split)
qed

definition ext_mapped :: "u64 \<Rightarrow> bool" where
  "ext_mapped a \<longleftrightarrow> a = 0x11000000 \<or> 0x12000000 \<le> a \<and> a < 0x12010000"

abbreviation "ext_bases \<equiv> map device_base (bus_devices (ccx_build 0 0 0 0))"

lemma same_bases:
  assumes "map device_base (bus_devices bus) = map device_base (bus_devices bus')"
  shows "get_device_at bus a = get_device_at bus' a"
    and "get_device_at bus a = Some i \<Longrightarrow>
      span_in_device (bus_devices bus ! i) b n = span_in_device (bus_devices bus' ! i) b n"
proof -
  show g: "get_device_at bus a = get_device_at bus' a"
    unfolding get_device_at_def by (rule find_device_bases [OF assms])
  assume "get_device_at bus a = Some i"
  then have "i < length (bus_devices bus)" "i < length (bus_devices bus')"
    using get_device_at_Some [of bus a i] get_device_at_Some [of bus' a i] g by auto
  then have "device_base (bus_devices bus ! i) = device_base (bus_devices bus' ! i)"
    using assms by (metis nth_map)
  then show "span_in_device (bus_devices bus ! i) b n = span_in_device (bus_devices bus' ! i) b n"
    by (simp add: span_in_device_def device_in_range_def)
qed

lemma aligned_span:
  fixes a :: u64
  assumes "8 dvd unat a" "unat a < 2 ^ 39" "8 dvd lo" "8 dvd hi" "k < 8"
    "lo \<le> unat a" "unat a < hi"
  shows "lo \<le> unat (a + of_nat k) \<and> unat (a + of_nat k) < hi"
proof -
  have u: "unat (a + of_nat k) = unat a + k"
    using assms(2,5) by (simp add: unat_word_ariths unat_of_nat_id)
  obtain i j where ij: "unat a = 8 * i" "hi = 8 * j" using assms(1,4) by (auto elim!: dvdE)
  then have "8 * i + 8 \<le> 8 * j" using assms(7) by simp
  with ij show ?thesis using assms(5,6) unfolding u by linarith
qed

lemma ext_error:
  assumes b: "map device_base (bus_devices bus) = ext_bases" and n: "txn_size req = 8"
    and a: "8 dvd unat (txn_addr req)" "unat (txn_addr req) < 2 ^ 39"
  shows "rsp_error (fst (request bus req)) \<longleftrightarrow> \<not> ext_mapped (txn_addr req)"
proof -
  let ?a = "txn_addr req" and ?c = "ccx_build 0 0 0 0"
  have "(\<exists>i. get_device_at bus ?a = Some i \<and> span_in_device (bus_devices bus ! i) ?a 8) \<longleftrightarrow>
      (\<exists>i. get_device_at ?c ?a = Some i \<and> span_in_device (bus_devices ?c ! i) ?a 8)"
    using same_bases [OF b, of ?a] by (metis (no_types, lifting))
  also have "\<dots> \<longleftrightarrow> ext_mapped ?a"
  proof -
    have span: "\<forall>k<8. lo \<le> unat (?a + of_nat k) \<and> unat (?a + of_nat k) < hi"
      if "lo \<le> unat ?a" "unat ?a < hi" "8 dvd lo" "8 dvd hi" for lo hi :: nat
      using aligned_span [OF a that(3,4) _ that(1,2)] by simp
    consider (uart) "0x11000000 \<le> unat ?a" "unat ?a < 0x11000008"
      | (ram) "0x12000000 \<le> unat ?a" "unat ?a < 0x12010000"
      | (none) "\<not> (0x11000000 \<le> unat ?a \<and> unat ?a < 0x11000008)"
          "\<not> (0x12000000 \<le> unat ?a \<and> unat ?a < 0x12010000)"
      by linarith
    then show ?thesis
    proof cases
      case uart
      obtain i where i: "unat ?a = 8 * i" using a(1) by (rule dvdE)
      have "i = 0x2200000" using uart unfolding i by simp
      then have "unat ?a = 0x11000000" unfolding i by simp
      then have "?a = 0x11000000" by (simp add: word_unat_eq_iff)
      then show ?thesis using span [OF uart]
        by (simp add: ccx_decode ext_mapped_def span_in_device_def ccx_build_devices
            word_le_nat_alt word_less_nat_alt)
    next
      case ram
      then show ?thesis using span [OF ram]
        by (simp add: ccx_decode ext_mapped_def span_in_device_def ccx_build_devices
            word_le_nat_alt word_less_nat_alt del: device_in_range_Ram)
    next
      case none
      then show ?thesis
        by (auto simp: ccx_decode ext_mapped_def word_le_nat_alt word_less_nat_alt split: if_splits)
    qed
  qed
  finally show ?thesis by (simp add: request_error_lemma n)
qed

section \<open>Every access is answered\<close>

definition mapped :: "u64 \<Rightarrow> bool" where
  "mapped a \<longleftrightarrow> region (lsu_addr a) = Some RamT \<or> lsu_addr a \<in> {0x20000, 0x20008} \<or>
     ext_mapped (ucast (lsu_addr a))"

definition plat_ok :: "'r cosim \<Rightarrow> bool" where
  "plat_ok co \<longleftrightarrow> settled (cs_ccx co) \<and> \<not> inflight_r1 (ic_arb (cx_ic (cs_ccx co)) Ext) \<and>
     \<not> finished (cs_lsu co) \<and> dmem_prv (cs_lsu co) = 2 \<and>
     map device_base (bus_devices (cs_bus co)) = ext_bases"

text \<open>The instruction port: any on-chip fetches.\<close>

definition fetches_onchip :: "('r cosim \<Rightarrow> bus_req) \<Rightarrow> bool" where
  "fetches_onchip fetch \<longleftrightarrow> (\<forall>co. \<not> asks (fetch co) Ext \<and> \<not> br_wen (fetch co))"

lemma dword_op:
  assumes "8 dvd unat a" "\<not> finished u"
  shows "access (data_op st 8 (lsu_addr a) d) u 8" "ls_addr (data_op st 8 (lsu_addr a) d) = lsu_addr a"
    "ls_store (data_op st 8 (lsu_addr a) d) = st" "ls_load (data_op st 8 (lsu_addr a) d) = (\<not> st)"
proof -
  have "unat (lsu_addr a) = unat a mod 2 ^ 39"
    unfolding lsu_addr_def unsigned_ucast_eq unfolding take_bit_eq_mod by simp
  moreover have "8 dvd unat a mod 2 ^ 39" using assms(1) by (rule dvd_mod) simp
  ultimately show "access (data_op st 8 (lsu_addr a) d) u 8"
    using assms(2) by (intro data_op_access) simp_all
qed (simp_all add: data_op_def)

lemma cycle_fields:
  "cs_ccx (cosim_cycle rand fetch c x co) =
     ccx_step c (fetch co) (lsu_bus x (cs_lsu co)) (emem_rsp (cs_emem co)) (cs_ccx co)"
  "cs_lsu (cosim_cycle rand fetch c x co) =
     lsu_step True (x\<lparr>new_instr := lsu_ready x (cs_lsu co) (cosim_gnt x co)\<rparr>) (cosim_gnt x co) (cs_lsu co)"
  "cs_bus (cosim_cycle rand fetch c x co) =
     fst (snd (posedge_clk rand (cs_agent co)
       (drive_emem (ccx_port (cs_ccx co) (fetch co) (lsu_bus x (cs_lsu co)) Ext) (cs_emem co))
       (cs_bus co) (cs_rand co)))"
  by (simp_all add: cosim_cycle_def Let_def case_prod_unfold)

lemma posedge_bases:
  "map device_base (bus_devices (fst (snd (posedge_clk rand ag m bus r)))) =
     map device_base (bus_devices bus)"
proof (cases "mem_req m \<noteq> 0 \<and> mem_gnt m \<noteq> 0")
  case True
  then show ?thesis by (simp add: posedge_granted(3) request_bases)
next
  case False
  then show ?thesis by (simp add: posedge_idle)
qed

lemma req_simps:
  "dmem_req (x\<lparr>new_instr := b\<rparr>) u = dmem_req x u" "req_sent (x\<lparr>new_instr := b\<rparr>) u g = req_sent x u g"
  by (simp_all add: dmem_req_def txn_okay_def addr_err_def req_sent_def)

lemma cycle_ok:
  assumes ok: "plat_ok co" and x: "access x (cs_lsu co) 8" "mprv_m x" "\<not> mprv_u x"
    and f: "fetches_onchip fetch" and c: "ctr_resetn c"
  shows "plat_ok (cosim_cycle rand fetch c x co)"
proof -
  have "\<not> inflight_r1 (ic_arb (cx_ic (cs_ccx (cosim_cycle rand fetch c x co))) Ext)"
    using ok f c
    by (auto simp: cycle_fields ccx_step_arb arb_step_def n_inflight_r1_def plat_ok_def
        fetches_onchip_def asks_def router_req_def map_core_region)
  moreover have "\<not> finished (cs_lsu (cosim_cycle rand fetch c x co))"
    using ok by (auto simp: cycle_fields lsu_step_def plat_ok_def req_simps lsu_ready_def)
  moreover have "dmem_prv (cs_lsu (cosim_cycle rand fetch c x co)) = 2"
  proof -
    have "of_bits ((<) 0) = (2 :: 2 word)"
      by (rule bit_word_eqI) (auto simp: bit_simps less_2_cases_iff)
    then show ?thesis using ok x(2,3) by (simp add: cycle_fields lsu_step_def plat_ok_def req_simps)
  qed
  ultimately show ?thesis
    using ok by (simp add: plat_ok_def cycle_fields(1,3) settled_step posedge_bases)
qed

lemma gnt_iff:
  assumes ok: "plat_ok co" and x: "access x (cs_lsu co) 8"
  shows "cosim_gnt x co \<longleftrightarrow> region (ls_addr x) \<noteq> Some Ext \<or> mem_gnt (cs_emem co) \<noteq> 0"
proof (cases "region (ls_addr x) = Some Ext")
  case True
  then show ?thesis
    using ok by (simp add: cosim_gnt_def dmem_gnt [OF access_bus(1) [OF x]] bus_region plat_ok_def
        emem_rsp_def)
next
  case False
  then show ?thesis
    using ok access_gnt [OF x] by (simp add: cosim_gnt_def plat_ok_def)
qed

lemma refused_cycle:
  assumes "mem_gnt (cs_emem co) = 0"
  shows "mem_gnt (cs_emem (cosim_cycle rand fetch c x co)) \<noteq> 0 \<longleftrightarrow> idle_grant rand (cs_rand co)"
    and "cs_rand (cosim_cycle rand fetch c x co) = idle_draw rand (cs_rand co)"
  using assms
  by (simp_all add: cosim_cycle_def Let_def case_prod_unfold drive_signals_def posedge_clk_def
      drive_emem_def idle_grant_def idle_draw_def rand_chance_def)

lemma access_ready: "access x u n \<Longrightarrow> lsu_ready x u g \<longleftrightarrow> g"
  using access_bus [of x u n]
  by (auto simp: lsu_ready_def req_sent_def lsu_bus_def trap_addr_def)

lemma access_unfinished: "access x u n \<Longrightarrow> \<not> finished u' \<Longrightarrow> access x u' n"
  by (simp add: access_def)

lemma access_returns:
  assumes "plat_ok co" "access x (cs_lsu co) 8" "mprv_m x" "\<not> mprv_u x"
    "fetches_onchip fetch" "ctr_resetn c" "idle_grant rand ((idle_draw rand ^^ k) (cs_rand co))"
  shows "\<exists>co1. plat_ok co1 \<and> cosim_gnt x co1 \<and> lsu_access rand fetch c ea x co =
    Some (wb_step x (cs_lsu co1) True False ea 0, cosim_cycle rand fetch c x co1)"
  using assms
proof (induction k arbitrary: co)
  case (0 co)
  note ok = 0(1) and x = 0(2)
  let ?co = "cosim_cycle rand fetch c x co"
  show ?case
  proof (cases "cosim_gnt x co")
    case True
    then show ?thesis
      using ok by (subst lsu_access.simps) (auto simp: access_ready [OF x])
  next
    case False
    then have g: "mem_gnt (cs_emem co) = 0" using gnt_iff [OF ok x] by simp
    have ok1: "plat_ok ?co" by (rule cycle_ok [OF ok x 0(3-6)])
    then have x1: "access x (cs_lsu ?co) 8" using access_unfinished [OF x] by (simp add: plat_ok_def)
    have "cosim_gnt x ?co" using gnt_iff [OF ok1 x1] refused_cycle(1) [OF g] 0(7) by simp
    then have "lsu_access rand fetch c ea x co =
        Some (wb_step x (cs_lsu ?co) True False ea 0, cosim_cycle rand fetch c x ?co)"
      using False by (subst lsu_access.simps, subst lsu_access.simps)
        (simp add: access_ready [OF x] access_ready [OF x1])
    then show ?thesis using ok1 \<open>cosim_gnt x ?co\<close> by blast
  qed
next
  case (Suc k co)
  note ok = Suc.prems(1) and x = Suc.prems(2)
  let ?co = "cosim_cycle rand fetch c x co"
  show ?case
  proof (cases "cosim_gnt x co")
    case True
    then show ?thesis
      using ok by (subst lsu_access.simps) (auto simp: access_ready [OF x])
  next
    case False
    then have g: "mem_gnt (cs_emem co) = 0" using gnt_iff [OF ok x] by simp
    have ok1: "plat_ok ?co" by (rule cycle_ok [OF ok x Suc.prems(3-6)])
    then have x1: "access x (cs_lsu ?co) 8" using access_unfinished [OF x] by (simp add: plat_ok_def)
    have "idle_grant rand ((idle_draw rand ^^ k) (cs_rand ?co))"
      using Suc.prems(7) by (simp add: refused_cycle(2) [OF g] funpow_swap1)
    from Suc.IH [OF ok1 x1 Suc.prems(3-6) this] show ?thesis
      using False by (subst lsu_access.simps) (simp add: access_ready [OF x])
  qed
qed

section \<open>What the answer is\<close>

definition faults :: "bool \<Rightarrow> u64 \<Rightarrow> bool" where
  "faults st a \<longleftrightarrow> \<not> mapped a \<and> (st \<or> region (lsu_addr a) \<noteq> Some Rom)"

lemma dword_bus:
  assumes "8 dvd unat a"
  shows "br_addr (lsu_bus (data_op st 8 (lsu_addr a) v) u) = lsu_addr a"
    "br_wen (lsu_bus (data_op st 8 (lsu_addr a) v) u) = st"
    "br_prv (lsu_bus (data_op st 8 (lsu_addr a) v) u) = dmem_prv u"
proof -
  let ?x = "data_op st 8 (lsu_addr a) v"
  have "8 dvd unat (ls_addr ?x)"
    using dword_op(1,2) [OF assms, of "\<lparr>finished = False, dmem_prv = 0\<rparr>" st v]
    by (simp add: access_def)
  then have "lane ?x = 0" by (simp add: lane_def)
  then show "br_addr (lsu_bus ?x u) = lsu_addr a"
    using bus_addr_lane [of ?x u] by (simp add: data_op_def)
qed (simp_all add: lsu_bus_def dmem_wen_def data_op_def)

lemma unat_ucast_39 [simp]: "unat (ucast p :: u64) = unat p" for p :: addr39
  by (simp add: unsigned_ucast_eq take_bit_nat_eq_self_iff less_trans [OF unat_bound])

lemma regions_mapped:
  "ext_mapped (ucast p) \<Longrightarrow> region p = Some Ext" "p \<in> {0x20000, 0x20008} \<Longrightarrow> region p = Some Mmio"
proof -
  show "ext_mapped (ucast p) \<Longrightarrow> region p = Some Ext"
    by (auto simp: ext_mapped_def region_Ext word_le_nat_alt word_less_nat_alt word_unat_eq_iff)
  show "p \<in> {0x20000, 0x20008} \<Longrightarrow> region p = Some Mmio"
    by (auto simp: region_Mmio)
qed

lemma ext_answer:
  assumes a: "8 dvd unat a" and e: "region (lsu_addr a) = Some Ext"
    and q: "br_addr (lsu_bus x (cs_lsu co)) = lsu_addr a" "br_req (lsu_bus x (cs_lsu co))"
    and g: "cosim_gnt x co" "mem_gnt (cs_emem co) \<noteq> 0"
    and b: "map device_base (bus_devices (cs_bus co)) = ext_bases"
  shows "br_err (emem_rsp (cs_emem (cosim_cycle rand fetch c x co))) \<longleftrightarrow>
    \<not> ext_mapped (ucast (lsu_addr a))"
proof -
  let ?q = "lsu_bus x (cs_lsu co)" and ?m = "drive_emem (lsu_bus x (cs_lsu co)) (cs_emem co)"
  have p: "ccx_port (cs_ccx co) (fetch co) ?q Ext = ?q"
    using g(1) q e by (intro port_dmem) (simp_all add: cosim_gnt_def)
  have m: "granted ?m" "mem_addr ?m = ucast (lsu_addr a)" using g(2) q by (simp_all add: drive_emem_def)
  have "unat (lsu_addr a) = unat a mod 2 ^ 39"
    unfolding lsu_addr_def unsigned_ucast_eq unfolding take_bit_eq_mod by simp
  then have d: "8 dvd unat (ucast (lsu_addr a) :: u64)" "unat (ucast (lsu_addr a) :: u64) < 2 ^ 39"
    using a by (simp_all add: dvd_mod)
  show ?thesis
    using posedge_granted(1) [OF m(1), of rand "cs_agent co" "cs_bus co" "cs_rand co"]
      ext_error [OF b, of "fst (agent_req (cs_agent co) ?m)"] m(2) d
    by (simp add: cosim_cycle_def Let_def p case_prod_unfold emem_rsp_def drive_signals_def)
qed

lemma wb_err:
  fixes co :: "'r cosim"
  assumes a: "8 dvd unat a" and ok: "plat_ok co" and c: "ctr_resetn c"
    and x: "x = data_op st 8 (lsu_addr a) v" and g: "cosim_gnt x co"
  shows "br_err (wb_rsp (cosim_cycle rand fetch c x co)) = faults st a"
proof -
  let ?q = "lsu_bus x (cs_lsu co)" and ?s = "cs_ccx co" and ?e = "emem_rsp (cs_emem co)"
  let ?co = "cosim_cycle rand fetch c x co"
  have acc: "access x (cs_lsu co) 8" unfolding x
    by (rule dword_op(1) [OF a]) (use ok in \<open>simp add: plat_ok_def\<close>)
  have q: "br_req ?q" by (rule access_bus [OF acc])
  have b: "br_addr ?q = lsu_addr a" "br_wen ?q = st" "br_prv ?q = 2"
    using ok by (simp_all add: x dword_bus [OF a] plat_ok_def)
  have gq: "br_gnt (ccx_dmem_rsp ?s ?q ?e)" using g by (simp add: cosim_gnt_def)
  have err: "br_err (wb_rsp ?co) = (case region (lsu_addr a) of None \<Rightarrow> True
      | Some t \<Rightarrow> br_err (ccx_rsps (cs_ccx ?co) (emem_rsp (cs_emem ?co)) t))"
    unfolding wb_rsp_def cycle_fields(1) by (simp add: dmem_rsp_next(1) [OF q gq c] b(1))
  have na: "region (lsu_addr a) \<noteq> Some Ext \<Longrightarrow> \<not> ext_mapped (ucast (lsu_addr a))"
    "region (lsu_addr a) \<noteq> Some Mmio \<Longrightarrow> lsu_addr a \<notin> {0x20000, 0x20008}"
    using regions_mapped by blast+
  consider (none) "region (lsu_addr a) = None"
    | (onchip) "region (lsu_addr a) \<in> {Some Rom, Some RamT}"
    | (mmio) "region (lsu_addr a) = Some Mmio" | (ext) "region (lsu_addr a) = Some Ext"
    by (cases "region (lsu_addr a)") (auto, metis target.exhaust)
  then show ?thesis
  proof cases
    case none
    then show ?thesis using na by (simp add: err faults_def mapped_def)
  next
    case onchip
    have "br_err (wb_rsp ?co) \<longleftrightarrow> region (lsu_addr a) = Some Rom \<and> st"
      unfolding wb_rsp_def cycle_fields(1)
      using onchip_rsp(1) [OF q gq c bus_addr(2)] onchip strb_nonzero [OF acc] b
      by (simp add: lsu_bus_def)
    then show ?thesis using onchip na by (auto simp: faults_def mapped_def)
  next
    case mmio
    have m: "region (br_addr ?q) = Some Mmio" using mmio b by simp
    have "br_err (wb_rsp ?co) \<longleftrightarrow> lsu_addr a \<notin> {0x20000, 0x20008}"
      using mmio_step(1) [OF q m c, of "cx_ctr ?s"] b
      by (simp add: err mmio ccx_rsps_def cycle_fields(1) ccx_step_targets port_dmem [OF q gq m]
          core_mode_u_def)
    then show ?thesis using mmio na by (auto simp: faults_def mapped_def)
  next
    case ext
    have "mem_gnt (cs_emem co) \<noteq> 0" using g gnt_iff [OF ok acc] ext by (simp add: x data_op_def)
    then have "br_err (wb_rsp ?co) \<longleftrightarrow> \<not> ext_mapped (ucast (lsu_addr a))"
      using ext_answer [OF a ext b(1) q g] ok by (simp add: err ext plat_ok_def)
    then show ?thesis using ext na by (auto simp: faults_def mapped_def)
  qed
qed

text \<open>The two access functions of the machine.\<close>

lemma cosim_answer:
  fixes st :: bool and v :: u64
  assumes a: "8 dvd unat a" and ok: "plat_ok co" and r: "fair rand" and f: "fetches_onchip fetch"
    and c: "ctr_resetn c"
  defines "x \<equiv> data_op st 8 (lsu_addr a) v"
  shows "\<exists>w co'. lsu_access rand fetch c a x co = Some (w, co') \<and> plat_ok co' \<and>
    lsu_trap w (br_err (wb_rsp co')) = faults st a \<and>
    (faults st a \<longrightarrow> lsu_cause w (br_err (wb_rsp co')) = (if st then 7 else 5))"
proof -
  have acc: "access x (cs_lsu co) 8" unfolding x_def
    by (rule dword_op(1) [OF a]) (use ok in \<open>simp add: plat_ok_def\<close>)
  have mode: "mprv_m x" "\<not> mprv_u x" by (simp_all add: x_def data_op_def)
  obtain k where k: "idle_grant rand ((idle_draw rand ^^ k) (cs_rand co))"
    using r by (auto simp: fair_def)
  obtain co1 where co1: "plat_ok co1" "cosim_gnt x co1"
    "lsu_access rand fetch c a x co =
      Some (wb_step x (cs_lsu co1) True False a 0, cosim_cycle rand fetch c x co1)"
    using access_returns [OF ok acc mode f c k] by blast
  have acc1: "access x (cs_lsu co1) 8"
    using access_unfinished [OF acc] co1(1) by (simp add: plat_ok_def)
  have ok1: "plat_ok (cosim_cycle rand fetch c x co1)" by (rule cycle_ok [OF co1(1) acc1 mode f c])
  have err: "br_err (wb_rsp (cosim_cycle rand fetch c x co1)) = faults st a"
    by (rule wb_err [OF a co1(1) c _ co1(2)]) (simp add: x_def)
  have "dmem_req x (cs_lsu co1)" "\<not> trap_addr x" "ls_store x = st" "ls_load x = (\<not> st)"
    using access_bus [OF acc1] by (simp_all add: lsu_bus_def trap_addr_def x_def data_op_def)
  then show ?thesis
    using co1(3) ok1 err
    by (auto simp: lsu_trap_def lsu_cause_def lsu_trap_load_def lsu_trap_store_def
        TRAP_LDACCESS_def TRAP_STACCESS_def)
qed

definition ccx_platform ::
  "('r \<Rightarrow> nat \<times> 'r) \<Rightarrow> ('r cosim \<Rightarrow> bus_req) \<Rightarrow> ctr_in \<Rightarrow> u64 \<Rightarrow> u64 \<Rightarrow> u64 \<Rightarrow> u64 \<Rightarrow>
   (u64 \<Rightarrow> u8) \<Rightarrow> u64 \<Rightarrow> 'r cosim platform" where
  "ccx_platform rand fetch c fa ha lpc spc prog old =
     \<lparr>pl_load = cosim_load rand fetch c, pl_store = cosim_store rand fetch c, fail_at = fa,
      handler_at = ha, load_pc = lpc, store_pc = spc, text_byte = prog, stale = old\<rparr>"

text \<open>What the machine is allowed to assume, and that it is a platform of the test.\<close>

definition set_up :: "('r \<Rightarrow> nat \<times> 'r) \<Rightarrow> ('r cosim \<Rightarrow> bus_req) \<Rightarrow> ctr_in \<Rightarrow> 'r cosim \<Rightarrow> bool" where
  "set_up rand fetch c co \<longleftrightarrow> fair rand \<and> fetches_onchip fetch \<and> ctr_resetn c \<and> plat_ok co"

interpretation traps: checked_platform "ccx_platform rand fetch c fa ha lpc spc prog old"
  "set_up rand fetch c" "\<lambda>a. \<not> faults False a" "\<lambda>a. \<not> faults True a"
  for rand :: "'r \<Rightarrow> nat \<times> 'r" and fetch c fa ha lpc spc prog old
proof
  fix a :: u64 and m :: "'r cosim"
  assume a: "8 dvd unat a" "set_up rand fetch c m"
  show "\<exists>r m'. pl_load (ccx_platform rand fetch c fa ha lpc spc prog old) a m = Some (r, m') \<and>
      set_up rand fetch c m' \<and> (if \<not> faults False a then \<exists>v. r = Inr v else r = Inl 5)"
  proof -
    obtain w m' where "lsu_access rand fetch c a (data_op False 8 (lsu_addr a) 0) m = Some (w, m')"
      and m': "plat_ok m'" "lsu_trap w (br_err (wb_rsp m')) = faults False a"
        "faults False a \<longrightarrow> lsu_cause w (br_err (wb_rsp m')) = 5"
      using cosim_answer [OF a(1), of m rand fetch c False 0] a(2) by (auto simp: set_up_def)
    then have "cosim_load rand fetch c a m =
        Some (if faults False a then Inl 5 else Inr (lsu_rdata w (br_rdata (wb_rsp m'))), m')"
      by (simp add: cosim_load_def)
    then show ?thesis using a(2) m'(1) by (auto simp: set_up_def ccx_platform_def)
  qed
next
  fix a v :: u64 and m :: "'r cosim"
  assume a: "8 dvd unat a" "set_up rand fetch c m"
  show "\<exists>r m'. pl_store (ccx_platform rand fetch c fa ha lpc spc prog old) a v m = Some (r, m') \<and>
      set_up rand fetch c m' \<and> r = (if \<not> faults True a then None else Some 7)"
  proof -
    obtain w m' where "lsu_access rand fetch c a (data_op True 8 (lsu_addr a) v) m = Some (w, m')"
      and m': "plat_ok m'" "lsu_trap w (br_err (wb_rsp m')) = faults True a"
        "faults True a \<longrightarrow> lsu_cause w (br_err (wb_rsp m')) = 7"
      using cosim_answer [OF a(1), of m rand fetch c True v] a(2) by (auto simp: set_up_def)
    then have "cosim_store rand fetch c a v m = Some (if faults True a then Some 7 else None, m')"
      by (simp add: cosim_store_def)
    then show ?thesis using a(2) m'(1) by (auto simp: set_up_def ccx_platform_def)
  qed
qed

end
