(* ===== verification/Trap_Props.thy ===== *)
theory Trap_Props
  imports Trap_Platform
begin

text \<open>
  What the access fault test shows of the core complex: it passes on the modelled hardware with
  the addresses of the linker script (\<open>verif/ccx/unit/share/link-ram.ld\<close>), and it fails on every
  wrong expectation. The last property is about the test's own trap handler.
\<close>

definition link_symbols :: at_symbols where
  "link_symbols =
     \<lparr>rom_begin = 0, rom_end = 0x400, ram_begin = 0x10000, ram_end = 0x20000,
      ext_begin = 0x12000000, ext_end = 0x12010000\<rparr>"

lemma link_table:
  "at_table link_symbols =
     [(0, True, False), (- 8, False, False), (0x400, False, False), (0x3F8, True, False),
      (0x10000, True, True), (0xFFF8, False, False), (0x20000, True, True), (0x1FFF8, True, True),
      (0x12000000, True, True), (0x11FFFFF8, False, False),
      (0x12010000, False, False), (0x1200FFF8, True, True)]"
  by (simp add: at_table_def link_symbols_def)

lemma link_table_matches:
  "\<forall>(a, r, w) \<in> set (at_table link_symbols).
     8 dvd unat a \<and> r = (\<not> faults False a) \<and> w = (\<not> faults True a)"
  unfolding link_table
  by (simp add: faults_def mapped_def region_def lsu_addr_def ext_mapped_def)

lemma platform_handlers:
  "handlers_ok (ccx_platform rand fetch c fa ha lpc spc prog old) \<longleftrightarrow>
     fa AND NOT 3 = fa \<and> ha AND NOT 3 = ha \<and> ha \<noteq> fa"
  by (simp add: handlers_ok_def ccx_platform_def)

text \<open>The state after reset with the memory agent granting nothing yet, and a fair random source.\<close>

definition cosim_start :: "nat cosim" where
  "cosim_start =
     \<lparr>cs_ccx = ccx_zero, cs_lsu = lsu_idle, cs_agent = new_core_mem_agent 0 0 0,
      cs_emem = \<lparr>mem_req = 0, mem_addr = 0, mem_wen = 0, mem_strb = 0, mem_wdata = 0, mem_gnt = 0,
                 mem_err = 0, mem_rdata = 0\<rparr>,
      cs_bus = ccx_build 0 0 0 0, cs_rand = 0\<rparr>"

definition count_rand :: "nat \<Rightarrow> nat \<times> nat" where
  "count_rand n = (n, Suc n)"

lemma fair_count: "fair count_rand"
proof -
  have "idle_grant count_rand r \<or> idle_grant count_rand (idle_draw count_rand r)" for r
    unfolding idle_grant_def idle_draw_def count_rand_def by simp presburger
  then have "\<exists>k. idle_grant count_rand ((idle_draw count_rand ^^ k) r)" for r
    by (metis comp_def funpow_0 funpow.simps(2) id_apply)
  then show ?thesis by (simp add: fair_def)
qed

lemma start_set_up: "set_up count_rand (\<lambda>_. bus_read 0x10000) clocked cosim_start"
  by (simp add: set_up_def fair_count plat_ok_def cosim_start_def fetches_onchip_def asks_def
      bus_read_def idle_req_def region_def clocked_def)
    (simp add: ccx_zero_def)

text \<open>C10: The access fault test passes on the core complex: run on the load/store unit, the
  interconnect, the memories, the timers, the memory agent and the bus as modelled, with any
  random source that keeps granting and any fetches from on-chip memory, every load and store of
  the test is answered, those at the four region boundaries trap or not as its table says, with the
  cause it expects, the handler returns behind the faulting instruction, and the program
  reaches test_pass having printed nothing.\<close>

theorem access_traps_passes:
  assumes "set_up rand fetch c co" "fa AND NOT 3 = fa" "ha AND NOT 3 = ha" "ha \<noteq> fa"
  shows "at_test_main (ccx_platform rand fetch c fa ha lpc spc prog old) link_symbols
    (at_init tvec co) = Verdict True []"
proof -
  have h: "handlers_ok (ccx_platform rand fetch c fa ha lpc spc prog old)"
    using assms by (simp add: platform_handlers)
  have a: "\<forall>(a, r, w) \<in> set (at_table link_symbols). 8 dvd unat a"
    and m: "\<forall>(a, r, w) \<in> set (at_table link_symbols). r = (\<not> faults False a) \<and> w = (\<not> faults True a)"
    using link_table_matches by auto
  show ?thesis
    using traps.main_exact [OF assms(1) a h, where tvec = tvec] m by simp
qed

theorem access_traps_passes_witness:
  "at_test_main (ccx_platform count_rand (\<lambda>_. bus_read 0x10000) clocked 0x10100 0x10200
     0x10300 0x10304 (\<lambda>_. 3) 0) link_symbols (at_init 0x10080 cosim_start) = Verdict True []"
  by (rule access_traps_passes [OF start_set_up]) simp_all

text \<open>The check of one address is exact: for every aligned address it returns, ready for the
  next check and with nothing printed, when both expectations hold of the hardware, and otherwise
  ends in test_fail; it never hangs and never resumes at a wrong instruction. Readable are the
  ROM, the RAM, the two timer registers and, behind the external port, the UART's first word
  and the 64 KiB of RAM; writeable all of these but the ROM.\<close>

lemma test_address_detects:
  assumes "set_up rand fetch c co" "fa AND NOT 3 = fa" "ha AND NOT 3 = ha" "ha \<noteq> fa"
    and "8 dvd unat a"
  defines "ram \<equiv> region (lsu_addr a) = Some RamT \<or> lsu_addr a \<in> {0x20000, 0x20008} \<or>
      lsu_addr a = 0x11000000 \<or> 0x12000000 \<le> lsu_addr a \<and> lsu_addr a < 0x12010000"
  shows "case test_address (ccx_platform rand fetch c fa ha lpc spc prog old) (a, r, w)
      (at_init tvec co) of
    Running s' \<Rightarrow> r = (ram \<or> region (lsu_addr a) = Some Rom) \<and> w = ram \<and> trap_seen s' = 0 \<and>
      at_out s' = [] \<and> set_up rand fetch c (at_mem s')
    | Verdict v out \<Rightarrow> \<not> v \<and> \<not> (r = (ram \<or> region (lsu_addr a) = Some Rom) \<and> w = ram)
    | _ \<Rightarrow> False"
proof -
  let ?pl = "ccx_platform rand fetch c fa ha lpc spc prog old"
  have "traps.ready rand fetch c fa ha lpc spc prog old (at_init tvec co)"
    unfolding traps.ready_def using assms by (simp add: platform_handlers at_init_def)
  note e = traps.address_exact [OF this assms(5), of r w]
  have "(ucast p :: u64) = 0x11000000 \<longleftrightarrow> p = 0x11000000"
    "0x12000000 \<le> (ucast p :: u64) \<and> (ucast p :: u64) < 0x12010000 \<longleftrightarrow>
      0x12000000 \<le> p \<and> p < 0x12010000" for p :: addr39
    by (simp_all add: word_unat_eq_iff word_le_nat_alt word_less_nat_alt)
  then have m: "mapped a \<longleftrightarrow> ram" by (simp add: mapped_def ram_def ext_mapped_def)
  have f: "(\<not> faults False a) = (ram \<or> region (lsu_addr a) = Some Rom)" "(\<not> faults True a) = ram"
    by (auto simp: faults_def m)
  show ?thesis
    using e unfolding f by (auto simp: traps.ready_def at_init_def split: if_splits)
qed

lemma test_address_detects_witness:
  "test_address (ccx_platform count_rand (\<lambda>_. bus_read 0x10000) clocked 0x10100 0x10200
     0x10300 0x10304 (\<lambda>_. 3) 0) (0x20010, True, False) (at_init 0x10080 cosim_start) \<in>
   range (Verdict False)"
proof -
  have r: "region (lsu_addr 0x20010) = Some Mmio" "lsu_addr 0x20010 = 0x20010"
    by (simp_all add: region_def lsu_addr_def)
  show ?thesis
    using test_address_detects [OF start_set_up, where fa = "0x10100" and ha = "0x10200" and
        a = "0x20010" and lpc = "0x10300" and spc = "0x10304" and prog = "\<lambda>_. 3" and old = 0 and
        r = True and w = False and tvec = "0x10080"] r
    by (auto split: flow.splits)
qed

text \<open>The handler of the test keeps 32 bits of mcause, so the check for interrupts never fires on one: with
  interrupt bit 63 set and code 7, a machine timer interrupt, it takes the trap for the store
  access fault it expects, steps over the interrupted instruction and returns.\<close>

lemma interrupt_passes_as_fault:
  assumes "expect_trap s = 1" "expect_cause s = CAUSE_CODE_STACCESS" "mcause s = 0x8000000000000007"
    "step_over s = 1"
  shows "\<exists>s'. test_trap_handler pl s = Running s' \<and> trap_seen s' = trap_seen s + 1 \<and>
    mepc s' = next_pc pl (mepc s)"
  using assms
  by (simp add: test_trap_handler_def CAUSE_CODE_STACCESS_def Let_def next_pc_def)

lemma interrupt_passes_as_fault_witness:
  "\<exists>s'. test_trap_handler (ccx_platform count_rand (\<lambda>_. bus_read 0x10000) clocked 0x10100 0x10200
     0x10300 0x10304 (\<lambda>_. 3) 0)
     ((at_init 0 cosim_start)\<lparr>expect_trap := 1, expect_cause := CAUSE_CODE_STACCESS,
     mcause := 0x8000000000000007\<rparr>) = Running s' \<and> trap_seen s' = 1"
  using interrupt_passes_as_fault [of "(at_init 0 cosim_start)\<lparr>expect_trap := 1,
      expect_cause := CAUSE_CODE_STACCESS, mcause := 0x8000000000000007\<rparr>" "ccx_platform count_rand (\<lambda>_. bus_read 0x10000) clocked 0x10100 0x10200
     0x10300 0x10304 (\<lambda>_. 3) 0"]
  by (auto simp: at_init_def)

end
