(* ===== verification/Soc.thy ===== *)
theory Soc
  imports Unit_Lib
begin

text \<open>
  The software that runs on the system on chip: the board support package
  (\<open>src/bsp/croyde_bsp_arty.c\<close>, a polled UART), the chip support package
  (\<open>src/csp/croyde_csp.h\<close>, the memory mapped timer and the counters), the boot loader
  (\<open>src/fsbl/fsbl_ccx.c\<close>) and the example \<open>src/examples/arty-helloworld\<close>. The hardware they
  drive is the record \<open>soc\<close>: a volatile access is a state-changing operation on a device
  state. A polling loop may not end: \<open>None\<close> is not returning.
\<close>

record 'd soc =
  rd32 :: "u64 \<Rightarrow> 'd \<Rightarrow> u32 \<times> 'd"
  wr32 :: "u64 \<Rightarrow> u32 \<Rightarrow> 'd \<Rightarrow> 'd"
  rd64 :: "u64 \<Rightarrow> 'd \<Rightarrow> u64 \<times> 'd"
  wr64 :: "u64 \<Rightarrow> u64 \<Rightarrow> 'd \<Rightarrow> 'd"
  wfi_instr :: "'d \<Rightarrow> 'd"
  time_csr :: "'d \<Rightarrow> u64 \<times> 'd"
  cycle_csr :: "'d \<Rightarrow> u64 \<times> 'd"
  instret_csr :: "'d \<Rightarrow> u64 \<times> 'd"
  mtime_ptr :: u64
  mtimecmp_ptr :: u64

section \<open>Board support: the polled UART\<close>

definition uart_rx :: u64 where "uart_rx = 0x001B0000"
definition uart_tx :: u64 where "uart_tx = 0x001B0004"
definition uart_stat :: u64 where "uart_stat = 0x001B0008"

definition BF_UART_STAT_TX_FULL :: u32 where "BF_UART_STAT_TX_FULL = push_bit 3 1"
definition BF_UART_STAT_RX_VALID :: u32 where "BF_UART_STAT_RX_VALID = push_bit 0 1"

partial_function (option) tx_wait :: "'d soc \<Rightarrow> 'd \<Rightarrow> 'd option" where
  "tx_wait m d =
     (case rd32 m uart_stat d of (s, d') \<Rightarrow>
        if s AND BF_UART_STAT_TX_FULL \<noteq> 0 then tx_wait m d' else Some d')"

definition bsp_putc_b :: "'d soc \<Rightarrow> u8 \<Rightarrow> 'd \<Rightarrow> (nat \<times> 'd) option" where
  "bsp_putc_b m c d = map_option (\<lambda>d'. (0, wr32 m uart_tx (ucast c) d')) (tx_wait m d)"

definition bsp_putc_nb :: "'d soc \<Rightarrow> u8 \<Rightarrow> 'd \<Rightarrow> nat \<times> 'd" where
  "bsp_putc_nb m c d = (0, wr32 m uart_tx (ucast c) d)"

partial_function (option) rx_wait :: "'d soc \<Rightarrow> 'd \<Rightarrow> 'd option" where
  "rx_wait m d =
     (case rd32 m uart_stat d of (s, d') \<Rightarrow>
        if s AND BF_UART_STAT_RX_VALID = 0 then rx_wait m d' else Some d')"

text \<open>The receivers return their result and the character stored through the pointer.\<close>

definition bsp_getc_b :: "'d soc \<Rightarrow> 'd \<Rightarrow> (nat \<times> u8 \<times> 'd) option" where
  "bsp_getc_b m d =
     map_option (\<lambda>d'. case rd32 m uart_rx d' of (rx, d'') \<Rightarrow> (0, ucast rx, d'')) (rx_wait m d)"

definition bsp_getc_nb :: "'d soc \<Rightarrow> 'd \<Rightarrow> u32 \<times> u8 \<times> 'd" where
  "bsp_getc_nb m d =
     (case rd32 m uart_stat d of (s, d') \<Rightarrow>
      case rd32 m uart_rx d' of (rx, d'') \<Rightarrow> (s AND BF_UART_STAT_RX_VALID, ucast rx, d''))"

section \<open>Chip support: timer and counters\<close>

text \<open>
  \<open>croyde_csp.c\<close> defines the two pointers. The header declares them without \<open>extern\<close>, so a unit that
  includes it has a tentative definition of its own: which value it uses is settled by the compiler and the
  linker, and is part of the machine here (\<open>mtime_ptr\<close>, \<open>mtimecmp_ptr\<close>).
\<close>

definition csp_mtime :: u64 where "csp_mtime = 0x20000"
definition csp_mtimecmp :: u64 where "csp_mtimecmp = 0x20008"

definition csp_rd_mtime :: "'d soc \<Rightarrow> 'd \<Rightarrow> u64 \<times> 'd" where
  "csp_rd_mtime m = rd64 m (mtime_ptr m)"

definition csp_rd_mtimecmp :: "'d soc \<Rightarrow> 'd \<Rightarrow> u64 \<times> 'd" where
  "csp_rd_mtimecmp m = rd64 m (mtimecmp_ptr m)"

definition csp_wr_mtime :: "'d soc \<Rightarrow> u64 \<Rightarrow> 'd \<Rightarrow> 'd" where
  "csp_wr_mtime m = wr64 m (mtime_ptr m)"

definition csp_wr_mtimecmp :: "'d soc \<Rightarrow> u64 \<Rightarrow> 'd \<Rightarrow> 'd" where
  "csp_wr_mtimecmp m = wr64 m (mtimecmp_ptr m)"

definition csp_wfi :: "'d soc \<Rightarrow> 'd \<Rightarrow> 'd" where "csp_wfi m = wfi_instr m"
definition csp_rdtime :: "'d soc \<Rightarrow> 'd \<Rightarrow> u64 \<times> 'd" where "csp_rdtime m = time_csr m"
definition csp_rdcycle :: "'d soc \<Rightarrow> 'd \<Rightarrow> u64 \<times> 'd" where "csp_rdcycle m = cycle_csr m"
definition csp_rdinstret :: "'d soc \<Rightarrow> 'd \<Rightarrow> u64 \<times> 'd" where "csp_rdinstret m = instret_csr m"

section \<open>The boot loader and the example\<close>

text \<open>The boot loader of the core complex spins; a state in which it returned would be \<open>Some\<close>.\<close>

partial_function (option) fsbl_main :: "'d \<Rightarrow> 'd option" where
  "fsbl_main d = fsbl_main d"

fun send_msg :: "'d soc \<Rightarrow> u8 list \<Rightarrow> 'd \<Rightarrow> 'd option" where
  "send_msg m [] d = None"
| "send_msg m (c # cs) d =
     (if c = 0 then Some d
      else case bsp_putc_b m c d of None \<Rightarrow> None | Some (_, d') \<Rightarrow> send_msg m cs d')"

definition hello_msg :: "u8 list" where "hello_msg = str ''Hello, World!'' @ [10]"
definition hello_msg2 :: "u8 list" where "hello_msg2 = str ''Hello, Again!'' @ [10]"

definition hello_main :: "'d soc \<Rightarrow> 'd \<Rightarrow> 'd option" where
  "hello_main m d =
     (case send_msg m (hello_msg @ [0]) d of
        None \<Rightarrow> None
      | Some d1 \<Rightarrow>
          (case csp_rd_mtime m d1 of (t, d2) \<Rightarrow>
             (case send_msg m (hello_msg2 @ [0]) (csp_wfi m (csp_wr_mtimecmp m (t + 100000) d2)) of
                None \<Rightarrow> None
              | Some d3 \<Rightarrow> Some (csp_wfi m (csp_wr_mtimecmp m (- 1) d3)))))"

section \<open>Polling\<close>

text \<open>The device after \<open>n\<close> reads of a register, and the value the next read returns.\<close>

definition polled :: "'d soc \<Rightarrow> u64 \<Rightarrow> nat \<Rightarrow> 'd \<Rightarrow> 'd" where
  "polled m r n d = ((\<lambda>d. snd (rd32 m r d)) ^^ n) d"

definition poll_value :: "'d soc \<Rightarrow> u64 \<Rightarrow> nat \<Rightarrow> 'd \<Rightarrow> u32" where
  "poll_value m r n d = fst (rd32 m r (polled m r n d))"

definition tx_ready_at :: "'d soc \<Rightarrow> 'd \<Rightarrow> nat \<Rightarrow> bool" where
  "tx_ready_at m d n \<longleftrightarrow> poll_value m uart_stat n d AND BF_UART_STAT_TX_FULL = 0 \<and>
     (\<forall>j<n. poll_value m uart_stat j d AND BF_UART_STAT_TX_FULL \<noteq> 0)"

lemma polled_simps [simp]:
  "polled m r 0 d = d" "polled m r (Suc n) d = polled m r n (snd (rd32 m r d))"
  by (simp_all add: polled_def funpow_Suc_right del: funpow.simps(2))

lemma poll_value_Suc: "poll_value m r (Suc n) d = poll_value m r n (snd (rd32 m r d))"
  by (simp add: poll_value_def)

lemma tx_wait_ready:
  "tx_ready_at m d n \<Longrightarrow> tx_wait m d = Some (polled m uart_stat (Suc n) d)"
proof (induction n arbitrary: d)
  case 0
  then show ?case
    by (subst tx_wait.simps) (simp add: tx_ready_at_def poll_value_def case_prod_unfold)
next
  case (Suc n)
  have "poll_value m uart_stat 0 d AND BF_UART_STAT_TX_FULL \<noteq> 0"
    using Suc.prems by (simp add: tx_ready_at_def)
  moreover have "tx_ready_at m (snd (rd32 m uart_stat d)) n"
    using Suc.prems unfolding tx_ready_at_def poll_value_Suc [symmetric] by auto
  ultimately show ?case using Suc.IH
    by (subst tx_wait.simps) (simp add: poll_value_def case_prod_unfold)
qed

lemma ready_Suc:
  "poll_value m uart_stat 0 d AND BF_UART_STAT_TX_FULL \<noteq> 0 \<Longrightarrow>
     tx_ready_at m (snd (rd32 m uart_stat d)) n \<Longrightarrow> tx_ready_at m d (Suc n)"
  by (auto simp: tx_ready_at_def poll_value_Suc less_Suc_eq_0_disj)

lemma tx_wait_returns:
  assumes "tx_wait m d = Some d'"
  shows "\<exists>n. tx_ready_at m d n"
proof (rule tx_wait.raw_induct [where P = "\<lambda>m d _. \<exists>n. tx_ready_at m d n", OF _ assms])
  fix f m d and y :: 'a
  assume IH: "\<And>m d y. f m d = Some y \<Longrightarrow> \<exists>n. tx_ready_at m d n"
    and body: "(case rd32 m uart_stat d of (s, d') \<Rightarrow>
      if s AND BF_UART_STAT_TX_FULL \<noteq> 0 then f m d' else Some d') = Some y"
  show "\<exists>n. tx_ready_at m d n"
  proof (cases "poll_value m uart_stat 0 d AND BF_UART_STAT_TX_FULL = 0")
    case True
    then have "tx_ready_at m d 0" by (simp add: tx_ready_at_def)
    then show ?thesis ..
  next
    case False
    then have "f m (snd (rd32 m uart_stat d)) = Some y"
      using body by (simp add: poll_value_def case_prod_unfold)
    from IH [OF this] obtain n where "tx_ready_at m (snd (rd32 m uart_stat d)) n" ..
    from ready_Suc [OF False this] show ?thesis ..
  qed
qed

lemma tx_ready_unique: "tx_ready_at m d n \<Longrightarrow> tx_ready_at m d k \<Longrightarrow> n = k"
  unfolding tx_ready_at_def by (meson linorder_neqE_nat)

lemma putc_lemma:
  "bsp_putc_b m c d = Some (v, d') \<longleftrightarrow>
    (\<exists>n. tx_ready_at m d n \<and> v = 0 \<and> d' = wr32 m uart_tx (ucast c) (polled m uart_stat (Suc n) d))"
proof
  assume "bsp_putc_b m c d = Some (v, d')"
  then obtain e where e: "tx_wait m d = Some e" and v: "v = 0" "d' = wr32 m uart_tx (ucast c) e"
    by (auto simp: bsp_putc_b_def)
  obtain n where n: "tx_ready_at m d n" using tx_wait_returns [OF e] ..
  with tx_wait_ready [OF n] e v
  show "\<exists>n. tx_ready_at m d n \<and> v = 0 \<and> d' = wr32 m uart_tx (ucast c) (polled m uart_stat (Suc n) d)"
    by auto
next
  assume "\<exists>n. tx_ready_at m d n \<and> v = 0 \<and> d' = wr32 m uart_tx (ucast c) (polled m uart_stat (Suc n) d)"
  then show "bsp_putc_b m c d = Some (v, d')" by (auto simp: bsp_putc_b_def tx_wait_ready simp del: polled_simps)
qed

section \<open>Sending a message\<close>

text \<open>
  What the example needs of the hardware: an invariant kept by every access it makes, under
  which the transmitter becomes ready again and again, and a log of the characters it has taken. A character
  is only known to be taken in a state with \<open>room\<close>, which a read of the status has just reported; a write
  at another time may be lost, or worse. Reads of the status and of the timer, timer writes and sleeping
  leave the log alone.
\<close>

definition uart_drains :: "'d soc \<Rightarrow> ('d \<Rightarrow> bool) \<Rightarrow> ('d \<Rightarrow> bool) \<Rightarrow> ('d \<Rightarrow> u32 list) \<Rightarrow> bool" where
  "uart_drains m ok room sent \<longleftrightarrow> (\<forall>d. ok d \<longrightarrow>
     (\<exists>n. tx_ready_at m d n) \<and>
     ok (snd (rd32 m uart_stat d)) \<and> sent (snd (rd32 m uart_stat d)) = sent d \<and>
     (fst (rd32 m uart_stat d) AND BF_UART_STAT_TX_FULL = 0 \<longrightarrow> room (snd (rd32 m uart_stat d))) \<and>
     (room d \<longrightarrow> (\<forall>c. ok (wr32 m uart_tx c d) \<and> sent (wr32 m uart_tx c d) = sent d @ [c])) \<and>
     ok (snd (rd64 m (mtime_ptr m) d)) \<and> sent (snd (rd64 m (mtime_ptr m) d)) = sent d \<and>
     (\<forall>t. ok (wr64 m (mtimecmp_ptr m) t d) \<and> sent (wr64 m (mtimecmp_ptr m) t d) = sent d) \<and>
     ok (wfi_instr m d) \<and> sent (wfi_instr m d) = sent d)"

lemma polled_drains:
  "uart_drains m ok room sent \<Longrightarrow> ok d \<Longrightarrow>
     ok (polled m uart_stat n d) \<and> sent (polled m uart_stat n d) = sent d"
proof (induction n arbitrary: d)
  case (Suc n)
  then have "ok (snd (rd32 m uart_stat d))" "sent (snd (rd32 m uart_stat d)) = sent d"
    by (simp_all add: uart_drains_def)
  with Suc.IH [OF Suc.prems(1)] show ?case by simp
qed simp

text \<open>The poll that ends the wait leaves room for a character.\<close>

lemma polled_room:
  assumes "uart_drains m ok room sent" "ok d" "tx_ready_at m d n"
  shows "room (polled m uart_stat (Suc n) d)"
proof -
  have "polled m uart_stat (Suc n) d = snd (rd32 m uart_stat (polled m uart_stat n d))"
    by (simp add: polled_def)
  then show ?thesis
    using assms polled_drains [OF assms(1,2), of n]
    by (simp add: uart_drains_def tx_ready_at_def poll_value_def)
qed

lemma putc_drains:
  assumes "uart_drains m ok room sent" "ok d"
  shows "\<exists>d'. bsp_putc_b m c d = Some (0, d') \<and> ok d' \<and> sent d' = sent d @ [ucast c]"
proof -
  obtain n where n: "tx_ready_at m d n" using assms by (auto simp: uart_drains_def)
  let ?e = "polled m uart_stat (Suc n) d"
  have "ok ?e" "sent ?e = sent d" using polled_drains [OF assms] by blast+
  then have "ok (wr32 m uart_tx (ucast c) ?e)" "sent (wr32 m uart_tx (ucast c) ?e) = sent d @ [ucast c]"
    using assms(1) polled_room [OF assms n] by (simp_all add: uart_drains_def)
  then show ?thesis using n putc_lemma [of m c d] by blast
qed

lemma send_msg_drains:
  assumes "uart_drains m ok room sent"
  shows "ok d \<Longrightarrow> 0 \<notin> set s \<Longrightarrow>
    \<exists>d'. send_msg m (s @ [0]) d = Some d' \<and> ok d' \<and> sent d' = sent d @ map ucast s"
proof (induction s arbitrary: d)
  case (Cons c s)
  obtain e where e: "bsp_putc_b m c d = Some (0, e)" "ok e" "sent e = sent d @ [ucast c]"
    using putc_drains [OF assms Cons.prems(1)] by blast
  obtain d' where "send_msg m (s @ [0]) e = Some d'" "ok d'" "sent d' = sent e @ map ucast s"
    using Cons.IH [OF e(2)] Cons.prems(2) by auto
  then show ?case using e Cons.prems(2) by auto
qed simp

end
