(* ===== verification/Soc_Props.thy ===== *)
theory Soc_Props
  imports Soc
begin

text \<open>
  What the board support package and the printing library promise: the polled UART loses no
  character as long as the transmitter drains, and hexadecimal output reads back.
\<close>

text \<open>C40: On a UART that takes a character only after its status has said that there is room, and may lose or
  damage one written at another time, the hello world example returns and has put exactly its two messages on
  the line, in order and complete, provided the transmitter becomes ready again and again and sleeping returns:
  the wait for room before each character, whatever number of polls it takes, loses nothing.\<close>

theorem hello_prints:
  assumes u: "uart_drains m ok room sent" and d: "ok d"
  shows "\<exists>d'. hello_main m d = Some d' \<and>
    sent d' = sent d @ map ucast (str ''Hello, World!'' @ [10] @ str ''Hello, Again!'' @ [10])"
proof -
  have msgs: "0 \<notin> set hello_msg" "0 \<notin> set hello_msg2"
    by code_simp+
  obtain d1 where d1: "send_msg m (hello_msg @ [0]) d = Some d1" "ok d1"
    "sent d1 = sent d @ map ucast hello_msg"
    using send_msg_drains [OF u d msgs(1)] by blast
  let ?d2 = "csp_wfi m (csp_wr_mtimecmp m (fst (csp_rd_mtime m d1) + 100000) (snd (csp_rd_mtime m d1)))"
  have d2: "ok ?d2" "sent ?d2 = sent d1"
    using u d1(2) by (simp_all add: uart_drains_def csp_wfi_def csp_wr_mtimecmp_def csp_rd_mtime_def)
  obtain d3 where d3: "send_msg m (hello_msg2 @ [0]) ?d2 = Some d3" "ok d3"
    "sent d3 = sent ?d2 @ map ucast hello_msg2"
    using send_msg_drains [OF u d2(1) msgs(2)] by blast
  have "sent (csp_wfi m (csp_wr_mtimecmp m (- 1) d3)) = sent d3"
    using u d3(2) by (simp add: uart_drains_def csp_wfi_def csp_wr_mtimecmp_def)
  then show ?thesis
    using d1 d2 d3 by (simp add: hello_main_def case_prod_unfold hello_msg_def hello_msg2_def)
qed

text \<open>A transmitter that is full for three polls after each character, and drops what is written meanwhile.\<close>

definition slow_uart :: "(nat \<times> u32 list) soc" where
  "slow_uart =
     \<lparr>rd32 = (\<lambda>a (n, ws). (if n = 0 then 0 else 8, (n - 1, ws))),
      wr32 = (\<lambda>a w (n, ws). if a = uart_tx \<and> n = 0 then (3, ws @ [w]) else (n, ws)),
      rd64 = (\<lambda>a d. (0, d)), wr64 = (\<lambda>a v d. d), wfi_instr = (\<lambda>d. d),
      time_csr = (\<lambda>d. (0, d)), cycle_csr = (\<lambda>d. (0, d)), instret_csr = (\<lambda>d. (0, d)),
      mtime_ptr = csp_mtime, mtimecmp_ptr = csp_mtimecmp\<rparr>"

lemma slow_uart_drains: "uart_drains slow_uart (\<lambda>_. True) (\<lambda>d. fst d = 0) snd"
proof -
  have p: "polled slow_uart uart_stat j (n, ws) = (n - j, ws)" for j n ws
    by (induction j arbitrary: n) (simp_all add: slow_uart_def)
  have "tx_ready_at slow_uart (n, ws) n" for n ws
    by (auto simp: tx_ready_at_def poll_value_def p) (simp_all add: slow_uart_def BF_UART_STAT_TX_FULL_def)
  then show ?thesis by (fastforce simp: uart_drains_def slow_uart_def BF_UART_STAT_TX_FULL_def)
qed

text \<open>Without the wait a character is lost.\<close>

lemma slow_uart_loses: "snd (bsp_putc_nb slow_uart c (Suc n, ws)) = (Suc n, ws)"
  by (simp add: bsp_putc_nb_def slow_uart_def)

theorem hello_prints_witness:
  "\<exists>d'. hello_main slow_uart (7, []) = Some d' \<and>
    snd d' = map ucast (str ''Hello, World!'' @ [10] @ str ''Hello, Again!'' @ [10])"
  using hello_prints [OF slow_uart_drains, of "(7, [])"] by simp

lemma hex_digit_zero: "d < 16 \<Longrightarrow> (ucast (lut ! d) :: u32) = 48 \<longleftrightarrow> d = 0"
proof -
  have "\<forall>d \<in> set [0..<16]. (ucast (lut ! d) :: u32) = 48 \<longleftrightarrow> d = 0" by code_simp
  then show "d < 16 \<Longrightarrow> ?thesis" by simp
qed

lemma hex_chars_nlz:
  "\<forall>d \<in> set ds. d < 16 \<Longrightarrow> dropWhile (\<lambda>c. c = 48) (hex_chars ds) = hex_chars (dropWhile (\<lambda>d. d = 0) ds)"
  by (induction ds) (auto simp: hex_chars_def hex_digit_zero)

lemma nibbles64_zero: "(\<forall>d \<in> set (nibbles64 w). d = 0) \<longleftrightarrow> w = 0"
proof
  assume "\<forall>d \<in> set (nibbles64 w). d = 0"
  then have n: "\<And>k. k < 16 \<Longrightarrow> drop_bit (4 * k) w AND 0xF = 0"
    by (simp add: nibbles64_def flip: unat_eq_0)
  show "w = 0"
  proof (rule bit_word_eqI)
    fix i assume "i < LENGTH(64)"
    then have "i div 4 < 16" by (simp add: div_less_iff_less_mult)
    from n [OF this] have "\<not> bit (drop_bit (4 * (i div 4)) w AND 0xF) (i mod 4)" by simp
    then show "bit w i \<longleftrightarrow> bit 0 i" by (simp add: mask_4 bit_simps)
  qed
qed (auto simp: nibbles64_def)

text \<open>What the unit tests print in hexadecimal reads back as the number printed, for all 64-bit numbers;
  the variant without leading zeros prints the same digits from the first that is not zero, and
  so prints nothing at all for zero.\<close>

lemma puthex64_reads_back:
  "stoul 16 (map ucast (puthex64 w)) = Some w \<and>
   puthex64_nlz w = dropWhile (\<lambda>c. c = 48) (puthex64 w) \<and> (puthex64_nlz w = [] \<longleftrightarrow> w = 0)"
proof -
  have z: "puthex64_nlz w = [] \<longleftrightarrow> (\<forall>d \<in> set (nibbles64 w). d = 0)"
    by (simp add: puthex64_nlz_chars hex_chars_def dropWhile_eq_Nil_conv)
  have "puthex64_nlz w = dropWhile (\<lambda>c. c = 48) (puthex64 w)"
    unfolding puthex64_nlz_chars puthex64_chars by (rule hex_chars_nlz [symmetric]) (simp add: nibbles64_less)
  then show ?thesis using stoul_puthex64 z nibbles64_zero by blast
qed

end
