(* ===== verification/Timer_Tests.thy ===== *)
theory Timer_Tests
  imports Soc Lsu_Props
begin

text \<open>
  The unit tests that read and write the memory mapped timers
  (\<open>verif/ccx/unit/mtime-read/test_mtime_read.c\<close>, \<open>verif/ccx/unit/mtime-write/test_mtime_write.c\<close>),
  over the accessors of the chip support package, and the modelled timers as the hardware under
  them: before its \<open>k\<close>-th access the program spends \<open>td_wait k\<close> clock cycles elsewhere.
\<close>

section \<open>The tests\<close>

definition mtime_read_main :: "'d soc \<Rightarrow> 'd \<Rightarrow> nat \<times> 'd" where
  "mtime_read_main m d0 =
     (case csp_rd_mtime m d0 of (fst_mtime, d1) \<Rightarrow>
      case csp_rd_mtimecmp m d1 of (fst_mtimecmp, d2) \<Rightarrow>
      case csp_rd_mtime m d2 of (snd_mtime, d3) \<Rightarrow>
      case csp_rd_mtimecmp m d3 of (snd_mtimecmp, d4) \<Rightarrow>
        if fst_mtime > snd_mtime then (1, d4)
        else if fst_mtimecmp \<noteq> snd_mtimecmp then (2, d4)
        else
          (case csp_rd_mtimecmp m d4 of (a, d5) \<Rightarrow>
           case csp_rd_mtimecmp m d5 of (b, d6) \<Rightarrow> (if a \<noteq> b then 2 else 0, d6)))"

text \<open>The loop of the write test: \<open>None\<close> is its \<open>return 7\<close>.\<close>

fun mtime_write_loop :: "'d soc \<Rightarrow> nat \<Rightarrow> u64 \<Rightarrow> 'd \<Rightarrow> u64 option \<times> 'd" where
  "mtime_write_loop m 0 v d = (Some v, d)"
| "mtime_write_loop m (Suc n) v d =
     (case csp_rd_mtime m d of (t, d1) \<Rightarrow>
      let v' = t * 20 in
      case csp_rd_mtimecmp m (csp_wr_mtimecmp m v' d1) of (c, d2) \<Rightarrow>
        if c \<noteq> v' then (None, d2) else mtime_write_loop m n v' d2)"

definition mtime_write_main :: "'d soc \<Rightarrow> 'd \<Rightarrow> nat \<times> 'd" where
  "mtime_write_main m d0 =
     (let v = 0xABCD000012340000 in
      case csp_rd_mtimecmp m (csp_wr_mtimecmp m v d0) of (c, d1) \<Rightarrow>
        if c \<noteq> v then (6, d1)
        else
          (case mtime_write_loop m 10 v d1 of
             (None, d2) \<Rightarrow> (7, d2)
           | (Some v', d2) \<Rightarrow>
               (let new_mtime = 0xF000000000000000 in
                case csp_rd_mtime m (csp_wr_mtime m new_mtime (csp_wr_mtimecmp m (- 1) d2)) of
                  (t, d3) \<Rightarrow> (if t - new_mtime > v' then 8 else 0, d3))))"

section \<open>The timers under them\<close>

record timer_dev =
  td_ctr :: counters
  td_wait :: "nat \<Rightarrow> nat"
  td_next :: nat

definition bus_write :: "addr39 \<Rightarrow> u64 \<Rightarrow> bus_req" where
  "bus_write a v = (bus_read a)\<lparr>br_wen := True, br_wdata := v\<rparr>"

definition td_access :: "ctr_in \<Rightarrow> bus_req \<Rightarrow> timer_dev \<Rightarrow> timer_dev" where
  "td_access x q d =
     d\<lparr>td_ctr := counters_step ccx_map x q
         ((counters_step ccx_map x idle_req ^^ td_wait d (td_next d)) (td_ctr d)),
       td_next := td_next d + 1\<rparr>"

definition timer_soc :: "timer_dev soc \<Rightarrow> ctr_in \<Rightarrow> timer_dev soc" where
  "timer_soc m x =
     m\<lparr>rd64 := (\<lambda>a d. let d' = td_access x (bus_read (lsu_addr a)) d in (mmio_rdata (td_ctr d'), d')),
       wr64 := (\<lambda>a v. td_access x (bus_write (lsu_addr a) v)),
       mtime_ptr := csp_mtime, mtimecmp_ptr := csp_mtimecmp\<rparr>"

section \<open>Single accesses\<close>

abbreviation "td_time d \<equiv> mapped_mtime (td_ctr d)"
abbreviation "td_cmp d \<equiv> mapped_mtimecmp (td_ctr d)"
abbreviation "td_pause d \<equiv> td_wait d (td_next d)"

lemma idle_cycles:
  assumes "ctr_resetn x" "\<not> inhibit_tm x"
  shows "mapped_mtime ((counters_step ccx_map x idle_req ^^ n) s) = mapped_mtime s + of_nat n"
    "mapped_mtimecmp ((counters_step ccx_map x idle_req ^^ n) s) = mapped_mtimecmp s"
  using mtime_runs [of idle_req x] assms by (simp_all add: idle_req_def)

lemma td_fields [simp]: "td_wait (td_access x q d) = td_wait d" "td_next (td_access x q d) = Suc (td_next d)"
  by (simp_all add: td_access_def)

text \<open>
  The contract the tests rely on: at most 500 cycles pass before an access, reads return the
  registers, writes set them, and mtime advances by one a cycle.
\<close>

locale timers =
  fixes m :: "'d soc" and time cmp :: "'d \<Rightarrow> u64" and ok :: "'d \<Rightarrow> bool"
  assumes read_time: "ok d \<Longrightarrow> csp_rd_mtime m d = (t, d') \<Longrightarrow>
      ok d' \<and> cmp d' = cmp d \<and> (\<exists>k \<le> 500. t = time d + of_nat k \<and> time d' = time d + of_nat (k + 1))"
    and read_cmp: "ok d \<Longrightarrow> csp_rd_mtimecmp m d = (t, d') \<Longrightarrow>
      ok d' \<and> cmp d' = cmp d \<and> t = cmp d \<and> (\<exists>k \<le> 500. time d' = time d + of_nat (k + 1))"
    and write_time: "ok d \<Longrightarrow> ok (csp_wr_mtime m v d) \<and> time (csp_wr_mtime m v d) = v \<and>
      cmp (csp_wr_mtime m v d) = cmp d"
    and write_cmp: "ok d \<Longrightarrow> ok (csp_wr_mtimecmp m v d) \<and> cmp (csp_wr_mtimecmp m v d) = v \<and>
      (\<exists>k \<le> 500. time (csp_wr_mtimecmp m v d) = time d + of_nat (k + 1))"
begin

lemma advance:
  assumes "unat (time d) + 501 < 2 ^ 64" "k \<le> 501"
  shows "unat (time d + of_nat k) = unat (time d) + k"
  using assms by (simp add: unat_word_ariths unat_of_nat_id)

definition between :: "'d \<Rightarrow> 'd \<Rightarrow> nat \<Rightarrow> bool" where
  "between d d' n \<longleftrightarrow> unat (time d) + n \<le> unat (time d') \<and> unat (time d') \<le> unat (time d) + 501 * n"

lemma time_read:
  assumes "ok d" "csp_rd_mtime m d = (t, d')" "unat (time d) + 501 < 2 ^ 64"
  shows "ok d'" "cmp d' = cmp d" "between d d' 1" "unat (time d) \<le> unat t"
    "unat t \<le> unat (time d) + 500" "unat t \<le> unat (time d')"
proof -
  from read_time [OF assms(1,2)] obtain k where k: "k \<le> 500" "t = time d + of_nat k"
    "time d' = time d + of_nat (k + 1)" and "ok d'" "cmp d' = cmp d" by blast
  have t: "unat t = unat (time d) + k" "unat (time d') = unat (time d) + (k + 1)"
    unfolding k(2,3) using k(1) by (intro advance [OF assms(3)]; simp)+
  show "ok d'" "cmp d' = cmp d" by fact+
  show "between d d' 1" "unat (time d) \<le> unat t" "unat t \<le> unat (time d) + 500"
    "unat t \<le> unat (time d')"
    using t k(1) by (simp_all add: between_def)
qed

lemma cmp_read:
  assumes "ok d" "csp_rd_mtimecmp m d = (t, d')" "unat (time d) + 501 < 2 ^ 64"
  shows "ok d'" "cmp d' = cmp d" "t = cmp d" "between d d' 1"
proof -
  from read_cmp [OF assms(1,2)] obtain k where k: "k \<le> 500" "time d' = time d + of_nat (k + 1)"
    and *: "ok d'" "cmp d' = cmp d" "t = cmp d" by blast
  have "unat (time d') = unat (time d) + (k + 1)"
    unfolding k(2) using k(1) by (intro advance [OF assms(3)]) simp
  then show "between d d' 1" using k(1) by (simp add: between_def)
qed (use read_cmp [OF assms(1,2)] in blast)+

lemma cmp_write:
  assumes "ok d" "unat (time d) + 501 < 2 ^ 64"
  shows "ok (csp_wr_mtimecmp m v d)" "cmp (csp_wr_mtimecmp m v d) = v"
    "between d (csp_wr_mtimecmp m v d) 1"
proof -
  from write_cmp [OF assms(1)] obtain k where k: "k \<le> 500"
    "time (csp_wr_mtimecmp m v d) = time d + of_nat (k + 1)" by blast
  have "unat (time (csp_wr_mtimecmp m v d)) = unat (time d) + (k + 1)"
    unfolding k(2) using k(1) by (intro advance [OF assms(2)]) simp
  then show "between d (csp_wr_mtimecmp m v d) 1" using k(1) by (simp add: between_def)
qed (use write_cmp [OF assms(1)] in blast)+

lemma read_passes:
  assumes "ok d" "unat (time d) + 4000 < 2 ^ 64"
  shows "fst (mtime_read_main m d) = 0"
proof -
  obtain t1 d1 where 1: "csp_rd_mtime m d = (t1, d1)" by fastforce
  obtain c1 d2 where 2: "csp_rd_mtimecmp m d1 = (c1, d2)" by fastforce
  obtain t2 d3 where 3: "csp_rd_mtime m d2 = (t2, d3)" by fastforce
  obtain c2 d4 where 4: "csp_rd_mtimecmp m d3 = (c2, d4)" by fastforce
  obtain a d5 where 5: "csp_rd_mtimecmp m d4 = (a, d5)" by fastforce
  obtain b d6 where 6: "csp_rd_mtimecmp m d5 = (b, d6)" by fastforce
  note r1 = time_read [OF assms(1) 1]
  have b1: "between d d1 1" "unat t1 \<le> unat (time d1)" using r1 assms(2) by simp_all
  have o1: "ok d1" "cmp d1 = cmp d" using r1 assms(2) by simp_all
  note r2 = cmp_read [OF o1(1) 2]
  have b2: "between d1 d2 1" "ok d2" "cmp d2 = cmp d1" "c1 = cmp d1"
    using r2 b1 assms(2) by (simp_all add: between_def)
  note r3 = time_read [OF b2(2) 3]
  have b3: "between d2 d3 1" "ok d3" "cmp d3 = cmp d2" "unat (time d2) \<le> unat t2"
    using r3 b1 b2 assms(2) by (simp_all add: between_def)
  have b4: "between d3 d4 1" "ok d4" "cmp d4 = cmp d3" "c2 = cmp d3"
    using cmp_read [OF b3(2) 4] b1 b2 b3 assms(2) by (simp_all add: between_def)
  have b5: "ok d5" "cmp d5 = cmp d4" "a = cmp d4" "between d4 d5 1"
    using cmp_read [OF b4(2) 5] b1 b2 b3 b4 assms(2) by (simp_all add: between_def)
  have b6: "b = cmp d5"
    using cmp_read [OF b5(1) 6] b1 b2 b3 b4 b5(4) assms(2) by (simp_all add: between_def)
  have "t1 \<le> t2" using b1 b2 b3 by (simp add: between_def word_le_nat_alt)
  then show ?thesis
    using b2 b3 b4 b5 b6 by (simp add: mtime_read_main_def 1 2 3 4 5 6)
qed

lemma loop_passes:
  assumes "ok d" "unat (time d) + 2000 * (n + 1) < 2 ^ 58"
  shows "\<exists>v' d'. mtime_write_loop m n v d = (Some v', d') \<and> ok d' \<and>
    unat (time d') \<le> unat (time d) + 1503 * n \<and>
    (v' = v \<and> n = 0 \<or> 20 * unat (time d) \<le> unat v')"
  using assms
proof (induction n arbitrary: v d)
  case (Suc n)
  obtain t d1 where 1: "csp_rd_mtime m d = (t, d1)" by fastforce
  have r1: "ok d1" "between d d1 1" "unat (time d) \<le> unat t" "unat t \<le> unat (time d) + 500"
    using time_read [OF Suc.prems(1) 1] Suc.prems(2) by simp_all
  define d2 where "d2 = csp_wr_mtimecmp m (t * 20) d1"
  have r2: "ok d2" "cmp d2 = t * 20" "between d1 d2 1"
    using cmp_write [OF r1(1), of "t * 20"] r1(2) Suc.prems(2) by (simp_all add: d2_def between_def)
  obtain c d3 where 3: "csp_rd_mtimecmp m d2 = (c, d3)" by fastforce
  have r3: "ok d3" "c = t * 20" "between d2 d3 1"
    using cmp_read [OF r2(1) 3] r1(2) r2 Suc.prems(2) by (simp_all add: between_def)
  have u: "unat (t * 20) = unat t * 20"
    using r1(4) Suc.prems(2) by (simp add: unat_word_ariths)
  have b: "unat (time d3) \<le> unat (time d) + 1503" "unat (time d) \<le> unat (time d3)"
    using r1(2) r2(3) r3(3) by (simp_all add: between_def)
  obtain v' d' where i: "mtime_write_loop m n (t * 20) d3 = (Some v', d')" "ok d'"
    "unat (time d') \<le> unat (time d3) + 1503 * n" "v' = t * 20 \<and> n = 0 \<or> 20 * unat (time d3) \<le> unat v'"
    using Suc.IH [OF r3(1), of "t * 20"] b(1) Suc.prems(2) by auto
  have "mtime_write_loop m (Suc n) v d = (Some v', d')"
    using i(1) r3(2) 3 by (simp add: 1 Let_def d2_def [symmetric])
  moreover have "20 * unat (time d) \<le> unat v'"
    using i(4) r1(3) b(2) u by auto
  ultimately show ?case using i(2,3) b(1) by auto
qed auto

lemma write_passes:
  assumes "ok d" "25 \<le> unat (time d)" "unat (time d) < 2 ^ 57"
  shows "fst (mtime_write_main m d) = 0"
proof -
  let ?v = "0xABCD000012340000 :: u64" and ?n = "0xF000000000000000 :: u64"
  have r1: "ok (csp_wr_mtimecmp m ?v d)" "cmp (csp_wr_mtimecmp m ?v d) = ?v"
    "between d (csp_wr_mtimecmp m ?v d) 1"
    using cmp_write [OF assms(1), of ?v] assms(3) by simp_all
  obtain c d1 where 1: "csp_rd_mtimecmp m (csp_wr_mtimecmp m ?v d) = (c, d1)" by fastforce
  have r2: "ok d1" "c = ?v" "between (csp_wr_mtimecmp m ?v d) d1 1"
    using cmp_read [OF r1(1) 1] r1 assms(3) by (simp_all add: between_def)
  have b: "unat (time d) \<le> unat (time d1)" "unat (time d1) \<le> unat (time d) + 1002"
    using r1(3) r2(3) by (simp_all add: between_def)
  obtain v' d2 where l: "mtime_write_loop m 10 ?v d1 = (Some v', d2)" "ok d2"
    "unat (time d2) \<le> unat (time d1) + 15030" "20 * unat (time d1) \<le> unat v'"
    using loop_passes [OF r2(1), of 10 ?v] b(2) assms(3) by auto
  have w: "ok (csp_wr_mtimecmp m (- 1) d2)" using cmp_write [OF l(2)] l(3) b(2) assms(3) by simp
  let ?e = "csp_wr_mtime m ?n (csp_wr_mtimecmp m (- 1) d2)"
  have e: "ok ?e" "time ?e = ?n" using write_time [OF w] by simp_all
  obtain t d3 where 3: "csp_rd_mtime m ?e = (t, d3)" by fastforce
  obtain k where k: "k \<le> 500" "t = ?n + of_nat k" using read_time [OF e(1) 3] e(2) by auto
  have "unat (of_nat k :: u64) = k" using k(1) by (intro unat_of_nat_id) simp
  then have "t - ?n \<le> v'"
    unfolding k(2) using k(1) l(4) b(1) assms(2) by (simp add: word_le_nat_alt)
  then show ?thesis
    by (simp add: mtime_write_main_def Let_def 1 r2(2) l(1) 3 not_less)
qed

end

section \<open>The modelled timers keep the contract\<close>

definition td_ok :: "ctr_in \<Rightarrow> timer_dev \<Rightarrow> bool" where
  "td_ok x d \<longleftrightarrow> ctr_resetn x \<and> \<not> inhibit_tm x \<and> (\<forall>k. td_wait d k \<le> 500)"

lemma timer_step:
  assumes "td_ok x d" "region (br_addr q) = Some Mmio" "br_req q" "br_addr q \<in> {0x20000, 0x20008}"
    "core_mode_m q" "\<not> core_mode_u q"
  shows "td_time (td_access x q d) =
      (if br_wen q \<and> br_addr q = 0x20000 then br_wdata q
       else td_time d + of_nat (td_wait d (td_next d) + 1))"
    and "td_cmp (td_access x q d) = (if br_wen q \<and> br_addr q = 0x20008 then br_wdata q else td_cmp d)"
    and "\<not> br_wen q \<Longrightarrow> mmio_rdata (td_ctr (td_access x q d)) =
      (if br_addr q = 0x20000 then td_time d + of_nat (td_wait d (td_next d)) else td_cmp d)"
    and "td_ok x (td_access x q d)"
  using assms mmio_step [OF assms(3,2), of x "(counters_step ccx_map x idle_req ^^ td_wait d (td_next d)) (td_ctr d)"]
  by (auto simp: td_ok_def td_access_def idle_cycles next_mtime_def)

lemma csp_bus:
  "region (br_addr (bus_read 0x20000)) = Some Mmio" "region (br_addr (bus_read 0x20008)) = Some Mmio"
  "br_req (bus_read a)" "br_addr (bus_read a) = a" "core_mode_m (bus_read a)" "\<not> core_mode_u (bus_read a)"
  "\<not> br_wen (bus_read a)" "br_req (bus_write a v)" "br_addr (bus_write a v) = a"
  "core_mode_m (bus_write a v)" "\<not> core_mode_u (bus_write a v)" "br_wen (bus_write a v)"
  "br_wdata (bus_write a v) = v"
  by (simp_all add: bus_read_def bus_write_def idle_req_def region_def core_mode_m_def core_mode_u_def)

lemma mmio_regions: "region 0x20000 = Some Mmio" "region 0x20008 = Some Mmio"
  by (simp_all add: region_def)

interpretation ccx_timers: timers "timer_soc m0 x" "\<lambda>d. td_time d" "\<lambda>d. td_cmp d" "td_ok x" for m0 x
proof
  fix d t d'
  assume ok: "td_ok x d" and r: "csp_rd_mtime (timer_soc m0 x) d = (t, d')"
  have "d' = td_access x (bus_read 0x20000) d" "t = mmio_rdata (td_ctr d')"
    using r by (auto simp: csp_rd_mtime_def csp_mtime_def timer_soc_def lsu_addr_def Let_def)
  then show "td_ok x d' \<and> td_cmp d' = td_cmp d \<and>
      (\<exists>k\<le>500. t = td_time d + of_nat k \<and> td_time d' = td_time d + of_nat (k + 1))"
    using timer_step [OF ok, of "bus_read 0x20000"] ok
    by (auto simp: csp_bus mmio_regions td_ok_def intro!: exI [of _ "td_wait d (td_next d)"])
next
  fix d t d'
  assume ok: "td_ok x d" and r: "csp_rd_mtimecmp (timer_soc m0 x) d = (t, d')"
  have "d' = td_access x (bus_read 0x20008) d" "t = mmio_rdata (td_ctr d')"
    using r by (auto simp: csp_rd_mtimecmp_def csp_mtimecmp_def timer_soc_def lsu_addr_def Let_def)
  then show "td_ok x d' \<and> td_cmp d' = td_cmp d \<and> t = td_cmp d \<and>
      (\<exists>k\<le>500. td_time d' = td_time d + of_nat (k + 1))"
    using timer_step [OF ok, of "bus_read 0x20008"] ok
    by (auto simp: csp_bus mmio_regions td_ok_def intro!: exI [of _ "td_wait d (td_next d)"])
next
  fix d v
  assume ok: "td_ok x d"
  have w: "csp_wr_mtime (timer_soc m0 x) v d = td_access x (bus_write 0x20000 v) d"
    "csp_wr_mtimecmp (timer_soc m0 x) v d = td_access x (bus_write 0x20008 v) d"
    by (simp_all add: csp_wr_mtime_def csp_wr_mtimecmp_def csp_mtime_def csp_mtimecmp_def
        timer_soc_def lsu_addr_def)
  show "td_ok x (csp_wr_mtime (timer_soc m0 x) v d) \<and>
      td_time (csp_wr_mtime (timer_soc m0 x) v d) = v \<and>
      td_cmp (csp_wr_mtime (timer_soc m0 x) v d) = td_cmp d"
    using timer_step [OF ok, of "bus_write 0x20000 v"] unfolding w by (simp add: csp_bus mmio_regions)
  show "td_ok x (csp_wr_mtimecmp (timer_soc m0 x) v d) \<and>
      td_cmp (csp_wr_mtimecmp (timer_soc m0 x) v d) = v \<and>
      (\<exists>k\<le>500. td_time (csp_wr_mtimecmp (timer_soc m0 x) v d) = td_time d + of_nat (k + 1))"
    using timer_step [OF ok, of "bus_write 0x20008 v"] ok unfolding w
    by (auto simp: csp_bus mmio_regions td_ok_def intro!: exI [of _ "td_wait d (td_next d)"])
qed

text \<open>The two timer tests pass on the modelled timers, however the program's accesses are spread in
  time, up to 500 cycles apart: the read test from any mtime that does not wrap during it, the
  write test from any mtime from 25 to 2 to the power of 57 (its last check compares the cycles
  of one access with twenty times an earlier reading of mtime).\<close>

lemma timer_tests_pass:
  assumes "ctr_resetn x" "\<not> inhibit_tm x" "\<And>k. td_wait d k \<le> 500"
  shows "(unat (mapped_mtime (td_ctr d)) + 4000 < 2 ^ 64 \<longrightarrow>
      fst (mtime_read_main (timer_soc m0 x) d) = 0) \<and>
    (25 \<le> unat (mapped_mtime (td_ctr d)) \<and> unat (mapped_mtime (td_ctr d)) < 2 ^ 57 \<longrightarrow>
      fst (mtime_write_main (timer_soc m0 x) d) = 0)"
proof -
  have "td_ok x d" using assms by (simp add: td_ok_def)
  then show ?thesis
    using ccx_timers.read_passes [of x d m0] ccx_timers.write_passes [of x d m0] by simp
qed

end
