(* ===== verification/Csrs.thy ===== *)
theory Csrs
  imports Prelude
begin

text \<open>
  The control and status registers of the core (\<open>rtl/core/core_csrs.sv\<close>) and its interrupt
  controller (\<open>rtl/core/core_interrupts.sv\<close>). \<open>csrs\<close> holds every register of the module, with the
  names of the source; fields that the source ties to a constant are not part of the state.
  \<open>csr_op\<close> is the access of the instruction in writeback, \<open>csr_trap\<close> the trap and return
  requests of the same cycle. \<open>csrs_step\<close> is a rising clock edge.
\<close>

section \<open>State and inputs\<close>

record csrs =
  mode_m :: bool
  mode_u :: bool
  mie_meie :: bool
  mie_mtie :: bool
  mie_msie :: bool
  reg_mstatus_wpri1 :: "8 word"
  reg_mstatus_tw :: bool
  reg_mstatus_mprv :: bool
  reg_mstatus_mpp :: "2 word"
  reg_mstatus_wpri2 :: "2 word"
  reg_mstatus_mpie :: bool
  reg_mstatus_wpri3 :: bool
  reg_mstatus_mie :: bool
  reg_mstatus_wpri4 :: bool
  reg_mtvec_base :: "62 word"
  reg_mtvec_mode :: "2 word"
  reg_mscratch :: u64
  reg_mtval :: u64
  reg_mepc_mepc :: "63 word"
  reg_mcause_interrupt :: bool
  reg_mcause_cause :: "63 word"
  mcountin_ir :: bool
  mcountin_cy :: bool

record csr_op =
  csr_en :: bool
  csr_wr :: bool
  csr_wr_set :: bool
  csr_wr_clr :: bool
  csr_addr :: "12 word"
  csr_wdata :: u64

record csr_trap =
  exec_mret :: bool
  trap_cpu :: bool
  trap_int :: bool
  trap_cause :: "7 word"
  trap_mtval :: u64
  trap_pc :: u64

section \<open>Addresses\<close>

definition ADDR_CYCLE :: "12 word" where "ADDR_CYCLE = 0xC00"
definition ADDR_TIME :: "12 word" where "ADDR_TIME = 0xC01"
definition ADDR_INSTRET :: "12 word" where "ADDR_INSTRET = 0xC02"
definition ADDR_MCYCLE :: "12 word" where "ADDR_MCYCLE = 0xB00"
definition ADDR_MINSTRET :: "12 word" where "ADDR_MINSTRET = 0xB02"
definition ADDR_MCOUNTIN :: "12 word" where "ADDR_MCOUNTIN = 0x320"
definition ADDR_MSTATUS :: "12 word" where "ADDR_MSTATUS = 0x300"
definition ADDR_MISA :: "12 word" where "ADDR_MISA = 0x301"
definition ADDR_MEDELEG :: "12 word" where "ADDR_MEDELEG = 0x302"
definition ADDR_MIDELEG :: "12 word" where "ADDR_MIDELEG = 0x303"
definition ADDR_MIE :: "12 word" where "ADDR_MIE = 0x304"
definition ADDR_MTVEC :: "12 word" where "ADDR_MTVEC = 0x305"
definition ADDR_MSCRATCH :: "12 word" where "ADDR_MSCRATCH = 0x340"
definition ADDR_MEPC :: "12 word" where "ADDR_MEPC = 0x341"
definition ADDR_MCAUSE :: "12 word" where "ADDR_MCAUSE = 0x342"
definition ADDR_MTVAL :: "12 word" where "ADDR_MTVAL = 0x343"
definition ADDR_MIP :: "12 word" where "ADDR_MIP = 0x344"
definition ADDR_MVENDORID :: "12 word" where "ADDR_MVENDORID = 0xF11"
definition ADDR_MARCHID :: "12 word" where "ADDR_MARCHID = 0xF12"
definition ADDR_MIMPID :: "12 word" where "ADDR_MIMPID = 0xF13"
definition ADDR_MHARTID :: "12 word" where "ADDR_MHARTID = 0xF14"

lemmas csr_addrs = ADDR_CYCLE_def ADDR_TIME_def ADDR_INSTRET_def ADDR_MCYCLE_def
  ADDR_MINSTRET_def ADDR_MCOUNTIN_def ADDR_MSTATUS_def ADDR_MISA_def ADDR_MEDELEG_def
  ADDR_MIDELEG_def ADDR_MIE_def ADDR_MTVEC_def ADDR_MSCRATCH_def ADDR_MEPC_def ADDR_MCAUSE_def
  ADDR_MTVAL_def ADDR_MIP_def ADDR_MVENDORID_def ADDR_MARCHID_def ADDR_MIMPID_def ADDR_MHARTID_def

section \<open>Writes\<close>

text \<open>
  The new value of a register or of a single bit: set, clear, or replace. \<open>wen\<close> is the write
  enable; of all registers only \<open>mie\<close> also looks at \<open>csr_en\<close>.
\<close>

definition csr_new :: "csr_op \<Rightarrow> 'a::len word \<Rightarrow> 'a word \<Rightarrow> 'a word" where
  "csr_new x old w =
     (if csr_wr_set x then old OR w else if csr_wr_clr x then old AND NOT w else w)"

definition csr_new_bit :: "csr_op \<Rightarrow> bool \<Rightarrow> bool \<Rightarrow> bool" where
  "csr_new_bit x old w =
     (if csr_wr_set x then old \<or> w else if csr_wr_clr x then old \<and> \<not> w else w)"

definition wen :: "csr_op \<Rightarrow> csrs \<Rightarrow> 12 word \<Rightarrow> bool" where
  "wen x s a \<longleftrightarrow> mode_m s \<and> csr_wr x \<and> csr_addr x = a"

text \<open>\<open>mie\<close>\<close>

definition reg_mie :: "csrs \<Rightarrow> u64" where
  "reg_mie s = push_bit 11 (of_bool (mie_meie s)) OR push_bit 7 (of_bool (mie_mtie s)) OR
     push_bit 3 (of_bool (mie_msie s))"

definition wen_mie :: "csr_op \<Rightarrow> csrs \<Rightarrow> bool" where
  "wen_mie x s \<longleftrightarrow> csr_en x \<and> wen x s ADDR_MIE"

definition n_reg_mie :: "csr_op \<Rightarrow> csrs \<Rightarrow> u64" where
  "n_reg_mie x s = csr_new x (reg_mie s) (csr_wdata x)"

text \<open>Privilege modes\<close>

definition MPP_M :: "2 word" where "MPP_M = 3"
definition MPP_U :: "2 word" where "MPP_U = 0"

definition mstatus_mpp_m :: "csrs \<Rightarrow> bool" where "mstatus_mpp_m s \<longleftrightarrow> reg_mstatus_mpp s = MPP_M"
definition mstatus_mpp_u :: "csrs \<Rightarrow> bool" where "mstatus_mpp_u s \<longleftrightarrow> reg_mstatus_mpp s = MPP_U"

definition mstatus_mprv_m :: "csrs \<Rightarrow> bool" where
  "mstatus_mprv_m s \<longleftrightarrow> \<not> reg_mstatus_mprv s \<or> reg_mstatus_mprv s \<and> mstatus_mpp_m s"

definition mstatus_mprv_u :: "csrs \<Rightarrow> bool" where
  "mstatus_mprv_u s \<longleftrightarrow> reg_mstatus_mprv s \<and> mstatus_mpp_u s"

definition n_mode_m :: "csr_trap \<Rightarrow> csrs \<Rightarrow> bool" where
  "n_mode_m t s \<longleftrightarrow> trap_cpu t \<or> trap_int t \<or> exec_mret t \<and> mstatus_mpp_m s"

definition n_mode_u :: "csr_trap \<Rightarrow> csrs \<Rightarrow> bool" where
  "n_mode_u t s \<longleftrightarrow> \<not> trap_cpu t \<and> \<not> trap_int t \<and> exec_mret t \<and> mstatus_mpp_u s"

definition update_mode :: "csr_trap \<Rightarrow> bool" where
  "update_mode t \<longleftrightarrow> exec_mret t \<or> trap_cpu t \<or> trap_int t"

text \<open>\<open>mstatus\<close>\<close>

definition reg_mstatus :: "csrs \<Rightarrow> u64" where
  "reg_mstatus s =
     push_bit 31 2 OR push_bit 23 (ucast (reg_mstatus_wpri1 s)) OR
     push_bit 21 (of_bool (reg_mstatus_tw s)) OR push_bit 17 (of_bool (reg_mstatus_mprv s)) OR
     push_bit 11 (ucast (reg_mstatus_mpp s)) OR push_bit 9 (ucast (reg_mstatus_wpri2 s)) OR
     push_bit 7 (of_bool (reg_mstatus_mpie s)) OR push_bit 6 (of_bool (reg_mstatus_wpri3 s)) OR
     push_bit 3 (of_bool (reg_mstatus_mie s)) OR push_bit 2 (of_bool (reg_mstatus_wpri4 s))"

definition n_mstatus_mie :: "csr_op \<Rightarrow> csr_trap \<Rightarrow> csrs \<Rightarrow> bool" where
  "n_mstatus_mie x t s =
     (if trap_int t then False else if trap_cpu t then False
      else if exec_mret t then reg_mstatus_mpie s
      else csr_new_bit x (reg_mstatus_mie s) (bit (csr_wdata x) 3))"

definition n_mstatus_mpie :: "csr_op \<Rightarrow> csr_trap \<Rightarrow> csrs \<Rightarrow> bool" where
  "n_mstatus_mpie x t s =
     (if trap_int t then reg_mstatus_mie s else if trap_cpu t then reg_mstatus_mie s
      else if exec_mret t then False
      else csr_new_bit x (reg_mstatus_mie s) (bit (csr_wdata x) 7))"

definition n_mstatus_tw :: "csr_op \<Rightarrow> csrs \<Rightarrow> bool" where
  "n_mstatus_tw x s = csr_new_bit x (reg_mstatus_mie s) (bit (csr_wdata x) 21)"

definition n_mstatus_mprv :: "csr_op \<Rightarrow> csr_trap \<Rightarrow> csrs \<Rightarrow> bool" where
  "n_mstatus_mprv x t s =
     (if exec_mret t \<and> \<not> n_mode_m t s then False
      else csr_new_bit x (reg_mstatus_mie s) (bit (csr_wdata x) 17))"

definition n_mstatus_mpp :: "csr_trap \<Rightarrow> csrs \<Rightarrow> 2 word" where
  "n_mstatus_mpp t s = of_bits (\<lambda>_. n_mode_m t s)"

definition wen_mstatus_mie :: "csr_op \<Rightarrow> csr_trap \<Rightarrow> csrs \<Rightarrow> bool" where
  "wen_mstatus_mie x t s \<longleftrightarrow> wen x s ADDR_MSTATUS \<or> trap_cpu t \<or> trap_int t \<or> exec_mret t"

text \<open>\<open>mtvec\<close>\<close>

definition MTVEC_BASE_RESET :: u64 where "MTVEC_BASE_RESET = 0xC0000000"
definition MTVEC_VECT_BASE_MASK :: u64 where "MTVEC_VECT_BASE_MASK = 0xFFFFFFFFFFFFFF80"

definition mtvec_base :: "csrs \<Rightarrow> u64" where "mtvec_base s = push_bit 2 (ucast (reg_mtvec_base s))"

definition reg_mtvec :: "csrs \<Rightarrow> u64" where
  "reg_mtvec s = mtvec_base s OR ucast (reg_mtvec_mode s)"

definition n_mtvec_base :: "csr_op \<Rightarrow> csrs \<Rightarrow> 62 word" where
  "n_mtvec_base x s = csr_new x (reg_mtvec_base s) (ucast (drop_bit 2 (csr_wdata x)))"

definition n_mtvec_mode :: "csr_op \<Rightarrow> csrs \<Rightarrow> 2 word" where
  "n_mtvec_mode x s = csr_new x (reg_mtvec_mode s) (ucast (csr_wdata x))"

definition bad_mtvec_val :: "csr_op \<Rightarrow> csrs \<Rightarrow> bool" where
  "bad_mtvec_val x s \<longleftrightarrow>
     bit (n_mtvec_mode x s) 1 \<or>
     bit (n_mtvec_mode x s) 0 \<and>
       push_bit 2 (ucast (n_mtvec_base x s)) AND NOT MTVEC_VECT_BASE_MASK \<noteq> 0"

definition csr_error_mtvec :: "csr_op \<Rightarrow> csrs \<Rightarrow> bool" where
  "csr_error_mtvec x s \<longleftrightarrow> bad_mtvec_val x s \<and> wen x s ADDR_MTVEC"

text \<open>\<open>mtval\<close>, \<open>mepc\<close> and \<open>mcause\<close>\<close>

definition n_reg_mtval :: "csr_op \<Rightarrow> csr_trap \<Rightarrow> csrs \<Rightarrow> u64" where
  "n_reg_mtval x t s = (if trap_cpu t then trap_mtval t else csr_new x (reg_mtval s) (csr_wdata x))"

definition reg_mepc :: "csrs \<Rightarrow> u64" where "reg_mepc s = push_bit 1 (ucast (reg_mepc_mepc s))"

definition wen_mepc :: "csr_op \<Rightarrow> csr_trap \<Rightarrow> csrs \<Rightarrow> bool" where
  "wen_mepc x t s \<longleftrightarrow> wen x s ADDR_MEPC \<or> trap_cpu t \<or> trap_int t"

definition n_mepc :: "csr_op \<Rightarrow> csr_trap \<Rightarrow> csrs \<Rightarrow> 63 word" where
  "n_mepc x t s =
     (if trap_int t \<or> trap_cpu t then ucast (drop_bit 1 (trap_pc t))
      else csr_new x (reg_mepc_mepc s) (ucast (drop_bit 1 (csr_wdata x))))"

definition csr_mepc :: "csr_op \<Rightarrow> csr_trap \<Rightarrow> csrs \<Rightarrow> u64" where
  "csr_mepc x t s = push_bit 1 (ucast (if wen_mepc x t s then n_mepc x t s else reg_mepc_mepc s))"

definition reg_mcause :: "csrs \<Rightarrow> u64" where
  "reg_mcause s = push_bit 63 (of_bool (reg_mcause_interrupt s)) OR ucast (reg_mcause_cause s)"

definition wen_mcause :: "csr_op \<Rightarrow> csr_trap \<Rightarrow> csrs \<Rightarrow> bool" where
  "wen_mcause x t s \<longleftrightarrow> wen x s ADDR_MCAUSE \<or> trap_cpu t \<or> trap_int t"

definition n_mcause_cause :: "csr_op \<Rightarrow> csr_trap \<Rightarrow> csrs \<Rightarrow> 63 word" where
  "n_mcause_cause x t s =
     (if trap_int t \<or> trap_cpu t then ucast (trap_cause t)
      else csr_new x (reg_mcause_cause s) (ucast (csr_wdata x)))"

definition wen_valid_mcause :: "csr_op \<Rightarrow> bool" where
  "wen_valid_mcause x \<longleftrightarrow>
     csr_wdata x \<in> {0, 1, 2, 3, 4, 5, 6, 7, 11} \<or> csr_addr x \<noteq> ADDR_MCAUSE"

section \<open>Reads\<close>

record csr_ext =
  mip_meip :: bool
  mip_mtip :: bool
  mip_msip :: bool
  ctr_time_in :: u64
  ctr_cycle_in :: u64
  ctr_instret_in :: u64

definition reg_mip :: "csr_ext \<Rightarrow> u64" where
  "reg_mip e = push_bit 11 (of_bool (mip_meip e)) OR push_bit 7 (of_bool (mip_mtip e)) OR
     push_bit 3 (of_bool (mip_msip e))"

definition reg_misa :: u64 where "reg_misa = push_bit 62 2 OR 0b100000101"

definition mcountin_tm :: bool where "mcountin_tm = False"

definition reg_mcountin :: "csrs \<Rightarrow> u64" where
  "reg_mcountin s = push_bit 2 (of_bool (mcountin_ir s)) OR push_bit 1 (of_bool mcountin_tm) OR
     of_bool (mcountin_cy s)"

text \<open>The read select of an address: the counters can be read in every mode.\<close>

definition read_en :: "csr_op \<Rightarrow> csrs \<Rightarrow> 12 word \<Rightarrow> bool" where
  "read_en x s a \<longleftrightarrow>
     (mode_m s \<or> a \<in> {ADDR_CYCLE, ADDR_TIME, ADDR_INSTRET}) \<and> csr_en x \<and> csr_addr x = a"

definition valid_addr :: "csr_op \<Rightarrow> csrs \<Rightarrow> bool" where
  "valid_addr x s \<longleftrightarrow>
     list_ex (read_en x s)
       [ADDR_MSTATUS, ADDR_MISA, ADDR_MEDELEG, ADDR_MIDELEG, ADDR_MIE, ADDR_MTVEC, ADDR_MSCRATCH,
        ADDR_MEPC, ADDR_MCAUSE, ADDR_MTVAL, ADDR_MIP, ADDR_MVENDORID, ADDR_MARCHID, ADDR_MIMPID,
        ADDR_MHARTID, ADDR_CYCLE, ADDR_TIME, ADDR_INSTRET, ADDR_MCYCLE, ADDR_MINSTRET,
        ADDR_MCOUNTIN]"

definition csr_error :: "csr_op \<Rightarrow> csrs \<Rightarrow> bool" where
  "csr_error x s \<longleftrightarrow> \<not> valid_addr x s \<and> csr_wr x \<or> csr_error_mtvec x s"

definition csr_rdata :: "csr_op \<Rightarrow> csr_ext \<Rightarrow> csrs \<Rightarrow> u64" where
  "csr_rdata x e s =
     foldr (\<lambda>(a, v) r. (if read_en x s a then v else 0) OR r)
       [(ADDR_MSTATUS, reg_mstatus s), (ADDR_MISA, reg_misa), (ADDR_MEDELEG, 0),
        (ADDR_MIDELEG, 0), (ADDR_MIE, reg_mie s), (ADDR_MTVEC, reg_mtvec s),
        (ADDR_MSCRATCH, reg_mscratch s), (ADDR_MEPC, reg_mepc s), (ADDR_MCAUSE, reg_mcause s),
        (ADDR_MTVAL, reg_mtval s), (ADDR_MIP, reg_mip e), (ADDR_MVENDORID, 0), (ADDR_MARCHID, 0),
        (ADDR_MIMPID, 0), (ADDR_MHARTID, 0), (ADDR_CYCLE, ctr_cycle_in e),
        (ADDR_TIME, ctr_time_in e), (ADDR_INSTRET, ctr_instret_in e),
        (ADDR_MCYCLE, ctr_cycle_in e), (ADDR_MINSTRET, ctr_instret_in e),
        (ADDR_MCOUNTIN, reg_mcountin s)] 0"

section \<open>Clock edge\<close>

definition csrs_reset :: csrs where
  "csrs_reset =
     \<lparr>mode_m = True, mode_u = False, mie_meie = False, mie_mtie = False, mie_msie = False,
      reg_mstatus_wpri1 = 0, reg_mstatus_tw = False, reg_mstatus_mprv = False,
      reg_mstatus_mpp = MPP_M, reg_mstatus_wpri2 = 0, reg_mstatus_mpie = False,
      reg_mstatus_wpri3 = False, reg_mstatus_mie = False, reg_mstatus_wpri4 = False,
      reg_mtvec_base = ucast (drop_bit 2 MTVEC_BASE_RESET), reg_mtvec_mode = 0,
      reg_mscratch = 0, reg_mtval = 0, reg_mepc_mepc = 0, reg_mcause_interrupt = False,
      reg_mcause_cause = 0, mcountin_ir = False, mcountin_cy = False\<rparr>"

definition csrs_next :: "csr_op \<Rightarrow> csr_trap \<Rightarrow> csrs \<Rightarrow> csrs" where
  "csrs_next x t s =
     (let ms = wen x s ADDR_MSTATUS; tv = wen x s ADDR_MTVEC \<and> \<not> bad_mtvec_val x s;
          mc = wen_mcause x t s \<and> wen_valid_mcause x; ci = wen x s ADDR_MCOUNTIN;
          w = csr_wdata x
      in
      \<lparr>mode_m = (if update_mode t then n_mode_m t s else mode_m s),
       mode_u = (if update_mode t then n_mode_u t s else mode_u s),
       mie_meie = (if wen_mie x s then bit (n_reg_mie x s) 11 else mie_meie s),
       mie_mtie = (if wen_mie x s then bit (n_reg_mie x s) 7 else mie_mtie s),
       mie_msie = (if wen_mie x s then bit (n_reg_mie x s) 3 else mie_msie s),
       reg_mstatus_wpri1 = (if ms then ucast (drop_bit 23 w) else reg_mstatus_wpri1 s),
       reg_mstatus_tw = (if ms then n_mstatus_tw x s else reg_mstatus_tw s),
       reg_mstatus_mprv = n_mstatus_mprv x t s,
       reg_mstatus_mpp = (if update_mode t then n_mstatus_mpp t s else reg_mstatus_mpp s),
       reg_mstatus_wpri2 = (if ms then ucast (drop_bit 9 w) else reg_mstatus_wpri2 s),
       reg_mstatus_mpie = (if wen_mstatus_mie x t s then n_mstatus_mpie x t s else reg_mstatus_mpie s),
       reg_mstatus_wpri3 = (if ms then bit w 6 else reg_mstatus_wpri3 s),
       reg_mstatus_mie = (if wen_mstatus_mie x t s then n_mstatus_mie x t s else reg_mstatus_mie s),
       reg_mstatus_wpri4 = (if ms then bit w 2 else reg_mstatus_wpri4 s),
       reg_mtvec_base = (if tv then n_mtvec_base x s else reg_mtvec_base s),
       reg_mtvec_mode = (if tv then n_mtvec_mode x s else reg_mtvec_mode s),
       reg_mscratch = (if wen x s ADDR_MSCRATCH then csr_new x (reg_mscratch s) w else reg_mscratch s),
       reg_mtval = (if wen x s ADDR_MTVAL \<or> trap_cpu t then n_reg_mtval x t s else reg_mtval s),
       reg_mepc_mepc = (if wen_mepc x t s then n_mepc x t s else reg_mepc_mepc s),
       reg_mcause_interrupt = (if mc then trap_int t else reg_mcause_interrupt s),
       reg_mcause_cause = (if mc then n_mcause_cause x t s else reg_mcause_cause s),
       mcountin_ir = (if ci then bit w 2 else mcountin_ir s),
       mcountin_cy = (if ci then bit w 0 else mcountin_cy s)\<rparr>)"

definition csrs_step :: "bool \<Rightarrow> csr_op \<Rightarrow> csr_trap \<Rightarrow> csrs \<Rightarrow> csrs" where
  "csrs_step resetn x t s = (if \<not> resetn then csrs_reset else csrs_next x t s)"

section \<open>Interrupts\<close>

record int_in =
  int_sw :: bool
  int_ext :: bool
  int_ti :: bool

definition int_pend_ext :: "int_in \<Rightarrow> csrs \<Rightarrow> bool" where "int_pend_ext i s \<longleftrightarrow> int_ext i \<and> mie_meie s"
definition int_pend_ti :: "int_in \<Rightarrow> csrs \<Rightarrow> bool" where "int_pend_ti i s \<longleftrightarrow> int_ti i \<and> mie_mtie s"
definition int_pend_sw :: "int_in \<Rightarrow> csrs \<Rightarrow> bool" where "int_pend_sw i s \<longleftrightarrow> int_sw i \<and> mie_msie s"

definition int_pending :: "int_in \<Rightarrow> bool" where
  "int_pending i \<longleftrightarrow> int_ext i \<or> int_ti i \<or> int_sw i"

definition int_request :: "int_in \<Rightarrow> csrs \<Rightarrow> bool" where
  "int_request i s \<longleftrightarrow>
     reg_mstatus_mie s \<and> (int_pend_ext i s \<or> int_pend_ti i s \<or> int_pend_sw i s)"

definition TRAP_INT_MSI :: "7 word" where "TRAP_INT_MSI = 3"
definition TRAP_INT_MTI :: "7 word" where "TRAP_INT_MTI = 7"
definition TRAP_INT_MEI :: "7 word" where "TRAP_INT_MEI = 11"

definition int_cause :: "int_in \<Rightarrow> csrs \<Rightarrow> 7 word" where
  "int_cause i s =
     (if int_pend_ext i s then TRAP_INT_MEI else if int_pend_sw i s then TRAP_INT_MSI
      else if int_pend_ti i s then TRAP_INT_MTI else 0)"

definition mtvec_offset :: "int_in \<Rightarrow> csrs \<Rightarrow> u64" where
  "mtvec_offset i s = (if bit (reg_mtvec_mode s) 0 then push_bit 2 (ucast (int_cause i s)) else 0)"

definition int_tvec :: "int_in \<Rightarrow> csrs \<Rightarrow> u64" where
  "int_tvec i s = mtvec_base s OR mtvec_offset i s"

end
