(* ===== verification/Hart.thy ===== *)
theory Hart
  imports Lsu Csrs
begin

text \<open>
  The writeback stage (\<open>rtl/core/core_pipe_wb.sv\<close>) joined with the control and status registers
  and the interrupt controller as in \<open>core_top.sv\<close>: CSR instructions, traps, interrupts, return
  from a trap, wait-for-interrupt and the retirement of instructions. \<open>wb\<close> holds the registers of
  the stage, \<open>s3\<close> the pipeline registers in front of it (\<open>core_pipe_exec.sv\<close>), with the load and
  store part of \<open>Lsu\<close> in \<open>s3_ls\<close>. The execute and fetch stages are inputs: \<open>s3_next\<close> is the
  instruction that execute offers when \<open>s3_valid\<close>, \<open>cf_ack\<close> the acknowledge of fetch.
\<close>

section \<open>State and inputs\<close>

datatype cfu_op = CFU_NOP | CFU_TAKEN | CFU_IGNORE | CFU_MRET | CFU_WFI | CFU_TRAP

datatype wb_op = WB_NONE | WB_WDATA | WB_LSU | WB_CSR

record s3 =
  s3_full :: bool
  s3_pc :: u64
  s3_ls :: lsu_wb
  s3_csr_rd :: bool
  s3_csr_wr :: bool
  s3_csr_set :: bool
  s3_csr_clr :: bool
  s3_csr_addr :: "12 word"
  s3_cfu_op :: cfu_op
  s3_wb_op :: wb_op

record wb =
  rd_wen_enable :: bool
  csr_op_error :: bool
  csr_op_done :: bool
  cf_done :: bool
  wfi_woken :: bool
  r_trapped :: bool
  delay_int_request :: bool

record hart =
  h_csrs :: csrs
  h_wb :: wb
  h_s3 :: s3

record hart_in =
  h_resetn :: bool
  s3_valid :: bool
  s3_next :: s3
  s3_n_pc :: u64
  cf_ack :: bool
  h_int :: int_in
  dmem_req_w :: bool
  dmem_gnt_w :: bool
  dmem_err_w :: bool
  dmem_rdata_w :: u64
  h_ctr :: csr_ext

section \<open>CSR access\<close>

definition csr_op_any :: "s3 \<Rightarrow> bool" where
  "csr_op_any i \<longleftrightarrow>
     s3_full i \<and> (s3_csr_rd i \<or> s3_csr_wr i \<or> s3_csr_set i \<or> s3_csr_clr i)"

definition wb_csr :: "hart \<Rightarrow> csr_op" where
  "wb_csr h =
     (let i = h_s3 h in
      \<lparr>csr_en = (\<not> csr_op_done (h_wb h) \<and> csr_op_any i), csr_wr = (s3_full i \<and> s3_csr_wr i),
       csr_wr_set = (s3_full i \<and> s3_csr_set i), csr_wr_clr = (s3_full i \<and> s3_csr_clr i),
       csr_addr = s3_csr_addr i, csr_wdata = s3_wdata (s3_ls i)\<rparr>)"

definition h_csr_error :: "hart \<Rightarrow> bool" where
  "h_csr_error h = csr_error (wb_csr h) (h_csrs h)"

definition trap_csr :: "hart \<Rightarrow> bool" where
  "trap_csr h \<longleftrightarrow>
     csr_en (wb_csr h) \<and> h_csr_error h \<or> csr_op_done (h_wb h) \<and> csr_op_error (h_wb h)"

section \<open>Wait for interrupt\<close>

definition cfu_wfi :: "hart \<Rightarrow> bool" where
  "cfu_wfi h \<longleftrightarrow> s3_cfu_op (h_s3 h) = CFU_WFI \<and> s3_full (h_s3 h)"

definition cfu_wfi_trap :: "hart \<Rightarrow> bool" where
  "cfu_wfi_trap h \<longleftrightarrow> cfu_wfi h \<and> \<not> mode_m (h_csrs h) \<and> reg_mstatus_tw (h_csrs h)"

definition cfu_wfi_ex :: "hart \<Rightarrow> bool" where
  "cfu_wfi_ex h \<longleftrightarrow> cfu_wfi h \<and> (mode_m (h_csrs h) \<or> \<not> reg_mstatus_tw (h_csrs h))"

definition wfi_sleep :: "hart_in \<Rightarrow> hart \<Rightarrow> bool" where
  "wfi_sleep x h \<longleftrightarrow> cfu_wfi_ex h \<and> \<not> int_pending (h_int x) \<and> \<not> wfi_woken (h_wb h)"

definition wfi_wakeup :: "hart_in \<Rightarrow> hart \<Rightarrow> bool" where
  "wfi_wakeup x h \<longleftrightarrow> cfu_wfi_ex h \<and> int_pending (h_int x)"

section \<open>Traps and control flow changes\<close>

definition raise_int :: "hart_in \<Rightarrow> hart \<Rightarrow> bool" where
  "raise_int x h \<longleftrightarrow> int_request (h_int x) (h_csrs h) \<and> \<not> delay_int_request (h_wb h)"

definition wb_trap_cpu :: "hart_in \<Rightarrow> hart \<Rightarrow> bool" where
  "wb_trap_cpu x h \<longleftrightarrow>
     s3_full (h_s3 h) \<and> \<not> raise_int x h \<and>
     (s3_trap (s3_ls (h_s3 h)) \<or> s3_cfu_op (h_s3 h) = CFU_TRAP \<or> trap_csr h \<or>
      lsu_trap_load (s3_ls (h_s3 h)) (dmem_err_w x) \<or>
      lsu_trap_store (s3_ls (h_s3 h)) (dmem_err_w x) \<or> cfu_wfi_trap h)"

definition trapped :: "hart_in \<Rightarrow> hart \<Rightarrow> bool" where
  "trapped x h \<longleftrightarrow> wb_trap_cpu x h \<or> r_trapped (h_wb h)"

definition cfu_mret :: "hart \<Rightarrow> bool" where
  "cfu_mret h \<longleftrightarrow> s3_cfu_op (h_s3 h) = CFU_MRET \<and> s3_full (h_s3 h)"

definition s3_cf_valid :: "hart_in \<Rightarrow> hart \<Rightarrow> bool" where
  "s3_cf_valid x h \<longleftrightarrow>
     \<not> cf_done (h_wb h) \<and> (r_trapped (h_wb h) \<or> wb_trap_cpu x h \<or> raise_int x h \<or> cfu_mret h)"

definition e_cf_change :: "hart_in \<Rightarrow> hart \<Rightarrow> bool" where
  "e_cf_change x h \<longleftrightarrow> s3_cf_valid x h \<and> cf_ack x"

definition cfu_wait :: "hart_in \<Rightarrow> hart \<Rightarrow> bool" where
  "cfu_wait x h \<longleftrightarrow> s3_cf_valid x h \<and> \<not> cf_ack x \<or> wfi_sleep x h"

definition s3_ready :: "hart_in \<Rightarrow> hart \<Rightarrow> bool" where
  "s3_ready x h \<longleftrightarrow> \<not> s3_full (h_s3 h) \<or> s3_full (h_s3 h) \<and> \<not> cfu_wait x h"

definition e_new_instr :: "hart_in \<Rightarrow> hart \<Rightarrow> bool" where
  "e_new_instr x h \<longleftrightarrow> s3_valid x \<and> s3_ready x h"

definition e_instr_ret :: "hart_in \<Rightarrow> hart \<Rightarrow> bool" where
  "e_instr_ret x h \<longleftrightarrow>
     e_new_instr x h \<and> s3_full (h_s3 h) \<or> s3_full (h_s3 h) \<and> trapped x h \<and> e_cf_change x h"

definition int_ack :: "hart_in \<Rightarrow> hart \<Rightarrow> bool" where
  "int_ack x h \<longleftrightarrow> raise_int x h \<and> e_cf_change x h"

definition TRAP_IOPCODE :: "7 word" where "TRAP_IOPCODE = 2"

definition wb_trap_cause :: "hart_in \<Rightarrow> hart \<Rightarrow> 7 word" where
  "wb_trap_cause x h =
     (if raise_int x h then int_cause (h_int x) (h_csrs h)
      else if s3_trap (s3_ls (h_s3 h)) then ucast (s3_rd (s3_ls (h_s3 h)))
      else if lsu_trap_load (s3_ls (h_s3 h)) (dmem_err_w x) then TRAP_LDACCESS
      else if lsu_trap_store (s3_ls (h_s3 h)) (dmem_err_w x) then TRAP_STACCESS
      else if h_csr_error h \<or> cfu_wfi_trap h then TRAP_IOPCODE else 0)"

definition wb_trap :: "hart_in \<Rightarrow> hart \<Rightarrow> csr_trap" where
  "wb_trap x h =
     \<lparr>exec_mret = (cfu_mret h \<and> e_instr_ret x h), trap_cpu = wb_trap_cpu x h,
      trap_int = int_ack x h, trap_cause = wb_trap_cause x h, trap_mtval = 0,
      trap_pc = (if int_ack x h then s3_n_pc x else s3_pc (h_s3 h))\<rparr>"

definition s3_cf_target :: "hart_in \<Rightarrow> hart \<Rightarrow> u64" where
  "s3_cf_target x h =
     (if cfu_mret h then csr_mepc (wb_csr h) (wb_trap x h) (h_csrs h)
      else if raise_int x h then int_tvec (h_int x) (h_csrs h) else mtvec_base (h_csrs h))"

section \<open>Register writeback\<close>

definition s3_fwd_rd_wen :: "hart \<Rightarrow> bool" where
  "s3_fwd_rd_wen h \<longleftrightarrow>
     rd_wen_enable (h_wb h) \<and> s3_full (h_s3 h) \<and>
     (s3_wb_op (h_s3 h) = WB_WDATA \<or> s3_load (s3_ls (h_s3 h)) \<or> s3_wb_op (h_s3 h) = WB_CSR)"

definition s3_rd_wen :: "hart_in \<Rightarrow> hart \<Rightarrow> bool" where
  "s3_rd_wen x h \<longleftrightarrow> s3_fwd_rd_wen h \<and> \<not> wb_trap_cpu x h \<and> \<not> trapped x h"

definition s3_rd_wdata :: "hart_in \<Rightarrow> hart \<Rightarrow> u64" where
  "s3_rd_wdata x h =
     (case s3_wb_op (h_s3 h) of
        WB_WDATA \<Rightarrow> s3_wdata (s3_ls (h_s3 h))
      | WB_LSU \<Rightarrow> lsu_rdata (s3_ls (h_s3 h)) (dmem_rdata_w x)
      | WB_CSR \<Rightarrow> csr_rdata (wb_csr h) (h_ctr x) (h_csrs h)
      | WB_NONE \<Rightarrow> 0)"

section \<open>Clock edge\<close>

definition wb_reg_step :: "hart_in \<Rightarrow> hart \<Rightarrow> wb" where
  "wb_reg_step x h =
     (let w = h_wb h; new = e_new_instr x h; r = h_resetn x in
      \<lparr>rd_wen_enable =
         (if \<not> r then False else if new then True else if s3_rd_wen x h then False
          else rd_wen_enable w),
       csr_op_error =
         (if \<not> r \<or> new then False else if csr_en (wb_csr h) then h_csr_error h
          else csr_op_error w),
       csr_op_done = (if \<not> r \<or> new then False else if csr_en (wb_csr h) then True else csr_op_done w),
       cf_done = (if \<not> r \<or> new then False else cf_done w \<or> s3_cf_valid x h \<and> cf_ack x),
       wfi_woken =
         (if \<not> r then False
          else if wfi_woken w then \<not> new else wfi_wakeup x h \<and> \<not> new),
       r_trapped = (if \<not> r \<or> new then False else trapped x h),
       delay_int_request = (r \<and> dmem_req_w x \<and> \<not> dmem_gnt_w x)\<rparr>)"

text \<open>
  The pipeline registers: a control flow change of this stage flushes them, and an instruction
  that execute offers is taken when the stage is ready.
\<close>

definition s3_step :: "hart_in \<Rightarrow> hart \<Rightarrow> s3" where
  "s3_step x h =
     (let i = h_s3 h; req = h_resetn x \<and> dmem_req_w x \<and> dmem_gnt_w x;
          i' = (if \<not> h_resetn x \<or> e_cf_change x h
                then i\<lparr>s3_full := False, s3_ls := (s3_ls i)\<lparr>s3_trap := False\<rparr>\<rparr>
                else if e_new_instr x h then (s3_next x)\<lparr>s3_full := True\<rparr> else i)
      in i'\<lparr>s3_ls := (s3_ls i')\<lparr>p_lsu_req := req\<rparr>\<rparr>)"

definition hart_step :: "hart_in \<Rightarrow> hart \<Rightarrow> hart" where
  "hart_step x h =
     \<lparr>h_csrs = csrs_step (h_resetn x) (wb_csr h) (wb_trap x h) (h_csrs h),
      h_wb = wb_reg_step x h, h_s3 = s3_step x h\<rparr>"

text \<open>A run over a list of clock cycles.\<close>

definition hart_run :: "hart_in list \<Rightarrow> hart \<Rightarrow> hart" where
  "hart_run xs h = fold hart_step xs h"

end
