(* ===== verification/Hart_Regs.thy ===== *)
theory Hart_Regs
  imports Hart
begin

text \<open>
  Proofs about the control and status registers. \<open>csrs_wf\<close> is the
  invariant of the registers; it implies the designer's assertions of \<open>core_csrs.sv\<close> and
  \<open>core_interrupts.sv\<close>. \<open>csr_view\<close> is the register map that software sees, \<open>legal\<close> what a
  register keeps of a value written to it.
\<close>

section \<open>The invariant of the registers\<close>

definition mtvec_ok :: "csrs \<Rightarrow> bool" where
  "mtvec_ok s \<longleftrightarrow>
     \<not> bit (reg_mtvec_mode s) 1 \<and> (bit (reg_mtvec_mode s) 0 \<longrightarrow> take_bit 7 (mtvec_base s) = 0)"

definition csrs_wf :: "csrs \<Rightarrow> bool" where
  "csrs_wf s \<longleftrightarrow> mode_m s \<and> \<not> mode_u s \<and> reg_mstatus_mpp s = MPP_M \<and> mtvec_ok s"

lemma and_not_vect_mask: "w AND NOT MTVEC_VECT_BASE_MASK = take_bit 7 w"
proof -
  have "NOT MTVEC_VECT_BASE_MASK = mask 7" by (simp add: MTVEC_VECT_BASE_MASK_def mask_eq_exp_minus_1 not_eq_complement)
  then show ?thesis by (simp add: take_bit_eq_mask)
qed

lemma of_bits_True: "(of_bits (\<lambda>_. True) :: 2 word) = MPP_M"
  by (simp add: of_bits_def MPP_M_def upt_rec)

lemma csrs_reset_wf: "csrs_wf csrs_reset"
  by (simp add: csrs_wf_def csrs_reset_def mtvec_ok_def)

lemma csrs_next_mtvec_ok:
  assumes "mtvec_ok s" shows "mtvec_ok (csrs_next x t s)"
  using assms
  by (auto simp: mtvec_ok_def csrs_next_def Let_def bad_mtvec_val_def mtvec_base_def and_not_vect_mask)

lemma csrs_next_wf: "csrs_wf s \<Longrightarrow> csrs_wf (csrs_next x t s)"
  using csrs_next_mtvec_ok [of s x t]
  by (auto simp: csrs_wf_def csrs_next_def Let_def n_mode_m_def n_mode_u_def n_mstatus_mpp_def
      update_mode_def of_bits_True mstatus_mpp_m_def mstatus_mpp_u_def MPP_M_def MPP_U_def)

lemma csrs_step_wf: "csrs_wf s \<or> \<not> r \<Longrightarrow> csrs_wf (csrs_step r x t s)"
  by (auto simp: csrs_step_def csrs_reset_wf csrs_next_wf)

lemma hart_run_wf: "csrs_wf (h_csrs h) \<Longrightarrow> csrs_wf (h_csrs (hart_run xs h))"
  by (induction xs arbitrary: h) (simp_all add: hart_run_def hart_step_def csrs_step_wf)

lemma hart_reset_wf: "\<not> h_resetn x \<Longrightarrow> csrs_wf (h_csrs (hart_run (x # xs) h))"
  using hart_run_wf [of "hart_step x h" xs]
  by (simp add: hart_run_def hart_step_def csrs_step_wf)

section \<open>Interrupt vectors\<close>

lemma int_cause_cases: "int_cause i s \<in> {0, 3, 7, 11}"
  by (simp add: int_cause_def TRAP_INT_MEI_def TRAP_INT_MSI_def TRAP_INT_MTI_def)

lemma mtvec_offset_small: "mtvec_offset i s = take_bit 7 (mtvec_offset i s)"
  using int_cause_cases [of i s] by (auto simp: mtvec_offset_def)

lemma mtvec_disjoint: "mtvec_ok s \<Longrightarrow> mtvec_base s AND mtvec_offset i s = 0"
  using and_low_zero [OF _ mtvec_offset_small, of "mtvec_base s" i s]
  by (cases "bit (reg_mtvec_mode s) 0") (auto simp: mtvec_ok_def mtvec_offset_def)

lemma int_tvec_plus: "mtvec_ok s \<Longrightarrow> int_tvec i s = mtvec_base s + mtvec_offset i s"
  using mtvec_disjoint [of s i] by (simp add: int_tvec_def disjunctive_add_eq_or)

section \<open>The register map\<close>

definition csr_writable :: "12 word list" where
  "csr_writable = [ADDR_MIE, ADDR_MTVEC, ADDR_MSCRATCH, ADDR_MEPC, ADDR_MCAUSE, ADDR_MTVAL, ADDR_MCOUNTIN]"

definition csr_view :: "csrs \<Rightarrow> 12 word \<Rightarrow> u64" where
  "csr_view s a =
     (if a = ADDR_MIE then reg_mie s else if a = ADDR_MTVEC then reg_mtvec s
      else if a = ADDR_MSCRATCH then reg_mscratch s else if a = ADDR_MEPC then reg_mepc s
      else if a = ADDR_MCAUSE then reg_mcause s else if a = ADDR_MTVAL then reg_mtval s
      else if a = ADDR_MCOUNTIN then reg_mcountin s else 0)"

definition bad_mtvec :: "u64 \<Rightarrow> bool" where
  "bad_mtvec w \<longleftrightarrow> bit w 1 \<or> bit w 0 \<and> (\<exists>n\<in>{2..<7}. bit w n)"

definition mie_bits :: u64 where
  "mie_bits = push_bit 11 (of_bool True) OR push_bit 7 (of_bool True) OR push_bit 3 (of_bool True)"

definition countin_bits :: u64 where
  "countin_bits = push_bit 2 (of_bool True) OR push_bit 0 (of_bool True)"

text \<open>What a write leaves in the register: \<open>new\<close> is the written, set or cleared value.\<close>

definition legal :: "12 word \<Rightarrow> u64 \<Rightarrow> u64 \<Rightarrow> u64 \<Rightarrow> u64" where
  "legal a old w new =
     (if a = ADDR_MIE then new AND mie_bits
      else if a = ADDR_MTVEC then (if bad_mtvec new then old else new)
      else if a = ADDR_MEPC then new AND NOT 1
      else if a = ADDR_MCAUSE then (if w \<in> {0, 1, 2, 3, 4, 5, 6, 7, 11} then take_bit 63 new else old)
      else if a = ADDR_MCOUNTIN then w AND countin_bits else new)"

text \<open>The registers bit by bit.\<close>

named_theorems csr_bits \<open>bits of the registers that software sees\<close>

lemma bit_push_bool [csr_bits]:
  "bit (push_bit k (of_bool b) :: u64) n \<longleftrightarrow> b \<and> n = k \<and> k < 64"
  by (auto simp: bit_push_bit_iff bit_of_bool_iff bit_1_iff)

lemma bit_reg_mie [csr_bits]:
  "bit (reg_mie s) n \<longleftrightarrow> n = 11 \<and> mie_meie s \<or> n = 7 \<and> mie_mtie s \<or> n = 3 \<and> mie_msie s"
  by (simp only: reg_mie_def bit_or_iff bit_push_bool) auto

lemma bit_reg_mepc [csr_bits]:
  "bit (reg_mepc s) n \<longleftrightarrow> 0 < n \<and> n < 64 \<and> bit (reg_mepc_mepc s) (n - 1)"
  by (simp only: reg_mepc_def bit_push_bit_iff bit_ucast_iff) auto

lemma bit_mtvec_base [csr_bits]:
  "bit (mtvec_base s) n \<longleftrightarrow> 2 \<le> n \<and> n < 64 \<and> bit (reg_mtvec_base s) (n - 2)"
  by (simp only: mtvec_base_def bit_push_bit_iff bit_ucast_iff) auto

lemma bit_reg_mtvec [csr_bits]:
  "bit (reg_mtvec s) n \<longleftrightarrow>
     (if n < 2 then bit (reg_mtvec_mode s) n else n < 64 \<and> bit (reg_mtvec_base s) (n - 2))"
  by (simp only: reg_mtvec_def bit_or_iff bit_mtvec_base bit_ucast_iff)
    (auto dest: bit_imp_le_length)

lemma bit_reg_mcause [csr_bits]:
  "bit (reg_mcause s) n \<longleftrightarrow>
     (if n = 63 then reg_mcause_interrupt s else bit (reg_mcause_cause s) n)"
  by (simp only: reg_mcause_def bit_or_iff bit_push_bool bit_ucast_iff)
    (auto dest: bit_imp_le_length)

lemma bit_csr_new [csr_bits]:
  "bit (csr_new x a b) n \<longleftrightarrow> csr_new_bit x (bit a n) (bit b n) \<and> n < LENGTH('a)"
  for a :: "'a::len word"
  by (auto simp: csr_new_def csr_new_bit_def bit_simps dest: bit_imp_le_length)

lemma bit_mie_bits [csr_bits]: "bit mie_bits n \<longleftrightarrow> n = 11 \<or> n = 7 \<or> n = 3"
  by (simp only: mie_bits_def bit_or_iff bit_push_bool) auto

lemma bit_countin_bits [csr_bits]: "bit countin_bits n \<longleftrightarrow> n = 2 \<or> n = 0"
  by (simp only: countin_bits_def bit_or_iff bit_push_bool) auto

lemma minus_2: "\<not> n < 2 \<Longrightarrow> Suc (Suc (n - 2)) = n" "n < 64 \<Longrightarrow> n - 2 < (62 :: nat)"
  by simp_all

lemma csrs_mie: "reg_mie (csrs_next x t s) =
    (if wen_mie x s then csr_new x (reg_mie s) (csr_wdata x) AND mie_bits else reg_mie s)"
  by (rule bit_word_eqI) (auto simp: csr_bits csrs_next_def Let_def n_reg_mie_def bit_and_iff)

lemma csrs_mepc: "\<not> trap_cpu t \<Longrightarrow> \<not> trap_int t \<Longrightarrow> reg_mepc (csrs_next x t s) =
    (if wen x s ADDR_MEPC then csr_new x (reg_mepc s) (csr_wdata x) AND NOT 1 else reg_mepc s)"
  by (rule bit_word_eqI)
    (auto simp: csr_bits csrs_next_def Let_def n_mepc_def wen_mepc_def bit_simps csr_new_bit_def
      split: if_splits)

lemma csrs_mtvec: "reg_mtvec (csrs_next x t s) =
    (if wen x s ADDR_MTVEC \<and> \<not> bad_mtvec_val x s then csr_new x (reg_mtvec s) (csr_wdata x)
     else reg_mtvec s)"
  by (rule bit_word_eqI)
    (auto simp: csr_bits csrs_next_def Let_def n_mtvec_base_def n_mtvec_mode_def bit_simps
      minus_2 split: if_splits)

lemma csrs_mcause: "\<not> trap_cpu t \<Longrightarrow> \<not> trap_int t \<Longrightarrow> reg_mcause (csrs_next x t s) =
    (if wen x s ADDR_MCAUSE \<and> wen_valid_mcause x
     then take_bit 63 (csr_new x (reg_mcause s) (csr_wdata x)) else reg_mcause s)"
  by (rule bit_word_eqI)
    (auto simp: csr_bits csrs_next_def Let_def n_mcause_cause_def wen_mcause_def bit_simps
      dest: bit_imp_le_length split: if_splits)

lemma csrs_mcountin: "reg_mcountin (csrs_next x t s) =
    (if wen x s ADDR_MCOUNTIN then csr_wdata x AND countin_bits else reg_mcountin s)"
proof (rule bit_word_eqI)
  fix n
  have b: "bit (reg_mcountin r) n \<longleftrightarrow> n = 2 \<and> mcountin_ir r \<or> n = 0 \<and> mcountin_cy r" for r
    using bit_push_bool [of 0 "mcountin_cy r" n]
    by (simp only: reg_mcountin_def bit_or_iff bit_push_bool mcountin_tm_def push_bit_0_id id_apply) auto
  show "bit (reg_mcountin (csrs_next x t s)) n =
      bit (if wen x s ADDR_MCOUNTIN then csr_wdata x AND countin_bits else reg_mcountin s) n"
    by (auto simp: b csrs_next_def Let_def bit_and_iff csr_bits)
qed

lemma csrs_mscratch: "reg_mscratch (csrs_next x t s) =
    (if wen x s ADDR_MSCRATCH then csr_new x (reg_mscratch s) (csr_wdata x) else reg_mscratch s)"
  by (simp add: csrs_next_def Let_def)

lemma csrs_mtval: "\<not> trap_cpu t \<Longrightarrow> reg_mtval (csrs_next x t s) =
    (if wen x s ADDR_MTVAL then csr_new x (reg_mtval s) (csr_wdata x) else reg_mtval s)"
  by (simp add: csrs_next_def Let_def n_reg_mtval_def)

lemmas csrs_next_views = csrs_mie csrs_mepc csrs_mtvec csrs_mcause csrs_mcountin csrs_mscratch csrs_mtval

lemma bad_mtvec_new: "bad_mtvec_val x s = bad_mtvec (csr_new x (reg_mtvec s) (csr_wdata x))"
proof -
  let ?new = "csr_new x (reg_mtvec s) (csr_wdata x)"
  have base: "bit (push_bit 2 (ucast (n_mtvec_base x s)) :: u64) k \<longleftrightarrow> 2 \<le> k \<and> bit ?new k" for k
    by (simp only: bit_push_bit_iff bit_ucast_iff)
      (auto simp: n_mtvec_base_def csr_bits bit_simps minus_2 dest: bit_imp_le_length)
  have mode: "bit (n_mtvec_mode x s) k = bit ?new k" if "k < 2" for k
    using that by (auto simp: n_mtvec_mode_def csr_bits bit_simps)
  show ?thesis
    unfolding bad_mtvec_val_def bad_mtvec_def and_not_vect_mask take_bit_0_iff base
    using mode [of 0] mode [of 1] by auto
qed

lemma view_sel:
  "csr_view s ADDR_MIE = reg_mie s" "csr_view s ADDR_MTVEC = reg_mtvec s"
  "csr_view s ADDR_MSCRATCH = reg_mscratch s" "csr_view s ADDR_MEPC = reg_mepc s"
  "csr_view s ADDR_MCAUSE = reg_mcause s" "csr_view s ADDR_MTVAL = reg_mtval s"
  "csr_view s ADDR_MCOUNTIN = reg_mcountin s"
  by (simp_all add: csr_view_def csr_addrs)

lemma not_mie:
  "ADDR_MTVEC \<noteq> ADDR_MIE" "ADDR_MSCRATCH \<noteq> ADDR_MIE" "ADDR_MEPC \<noteq> ADDR_MIE"
  "ADDR_MCAUSE \<noteq> ADDR_MIE" "ADDR_MTVAL \<noteq> ADDR_MIE" "ADDR_MCOUNTIN \<noteq> ADDR_MIE"
  by (simp_all add: csr_addrs)

lemma legal_sel:
  "legal ADDR_MIE old w new = new AND mie_bits"
  "legal ADDR_MTVEC old w new = (if bad_mtvec new then old else new)"
  "legal ADDR_MSCRATCH old w new = new"
  "legal ADDR_MEPC old w new = new AND NOT 1"
  "legal ADDR_MCAUSE old w new =
     (if w \<in> {0, 1, 2, 3, 4, 5, 6, 7, 11} then take_bit 63 new else old)"
  "legal ADDR_MTVAL old w new = new"
  "legal ADDR_MCOUNTIN old w new = w AND countin_bits"
  by (simp_all add: legal_def csr_addrs)

lemma csrs_next_view:
  assumes "mode_m s" "\<not> trap_cpu t" "\<not> trap_int t"
  shows "csr_view (csrs_next x t s) a =
    (if csr_wr x \<and> csr_addr x = a \<and> a \<in> set csr_writable \<and> (a = ADDR_MIE \<longrightarrow> csr_en x)
     then legal a (csr_view s a) (csr_wdata x) (csr_new x (csr_view s a) (csr_wdata x))
     else csr_view s a)"
proof (cases "a \<in> set csr_writable")
  case True
  then consider "a = ADDR_MIE" | "a = ADDR_MTVEC" | "a = ADDR_MSCRATCH" | "a = ADDR_MEPC" |
      "a = ADDR_MCAUSE" | "a = ADDR_MTVAL" | "a = ADDR_MCOUNTIN"
    by (auto simp: csr_writable_def)
  then show ?thesis
    by cases (use assms in \<open>simp_all add: view_sel not_mie legal_sel csrs_next_views wen_def wen_mie_def
      wen_valid_mcause_def bad_mtvec_new csr_writable_def\<close>)
next
  case False
  then show ?thesis by (simp add: csr_view_def csr_writable_def)
qed

section \<open>Taking a trap\<close>

lemma trap_epc:
  assumes "trap_cpu t \<or> trap_int t"
  shows "reg_mepc (csrs_next x t s) = trap_pc t AND NOT 1"
  using assms
  by (intro bit_word_eqI)
    (auto simp: csr_bits csrs_next_def Let_def n_mepc_def wen_mepc_def bit_simps)

lemma trap_mcause:
  assumes "trap_cpu t \<or> trap_int t" "wen_valid_mcause x"
  shows "reg_mcause (csrs_next x t s) =
    push_bit 63 (of_bool (trap_int t)) OR ucast (trap_cause t)"
  using assms
  by (intro bit_word_eqI)
    (auto simp: csr_bits csrs_next_def Let_def n_mcause_cause_def wen_mcause_def bit_or_iff
      bit_ucast_iff dest: bit_imp_le_length)

lemma trap_mcause_kept:
  "\<not> wen_valid_mcause x \<Longrightarrow> reg_mcause (csrs_next x t s) = reg_mcause s"
  by (simp add: reg_mcause_def csrs_next_def Let_def)

text \<open>The return address that the registers offer is the one they are about to hold.\<close>

lemma csr_mepc_next: "csr_mepc x t s = reg_mepc (csrs_next x t s)"
  by (simp add: csr_mepc_def reg_mepc_def csrs_next_def Let_def)

lemma trap_enables:
  assumes "trap_cpu t \<or> trap_int t"
  shows "\<not> reg_mstatus_mie (csrs_next x t s)"
    "reg_mstatus_mpie (csrs_next x t s) = reg_mstatus_mie s"
  using assms
  by (auto simp: csrs_next_def Let_def wen_mstatus_mie_def n_mstatus_mie_def n_mstatus_mpie_def)

text \<open>What the instruction in writeback does to the other registers while it traps.\<close>

lemma no_csr_views:
  assumes "\<not> csr_wr x \<or> csr_addr x \<notin> set csr_writable \<or> csr_addr x = ADDR_MTVEC \<and> bad_mtvec_val x s"
    "b \<notin> {ADDR_MCAUSE, ADDR_MEPC, ADDR_MTVAL}"
  shows "csr_view (csrs_next x t s) b = csr_view s b"
  using assms
  by (auto simp: csr_view_def csrs_next_views wen_def wen_mie_def csr_writable_def
      not_mie not_mie [symmetric])

lemma mstatus_enables_next:
  assumes "\<not> wen x s ADDR_MSTATUS" "\<not> trap_cpu t" "\<not> trap_int t" "\<not> exec_mret t"
  shows "reg_mstatus_mie (csrs_next x t s) = reg_mstatus_mie s"
    "reg_mstatus_mpie (csrs_next x t s) = reg_mstatus_mpie s"
  using assms by (simp_all add: csrs_next_def Let_def wen_mstatus_mie_def)

end
