(* ===== verification/Hart_Props.thy ===== *)
theory Hart_Props
  imports Hart_Regs
begin

text \<open>
  What the writeback stage and the control and status registers promise together: CSR
  instructions, exceptions, interrupts, return from a trap and wait-for-interrupt, cycle by cycle.
  Each property with hypotheses is followed by a concrete instance.
\<close>

section \<open>Concrete harts\<close>

text \<open>
  An instruction, a hart and the inputs of a cycle, for the concrete instances of the properties.
\<close>

definition demo_instr :: "cfu_op \<Rightarrow> wb_op \<Rightarrow> bool \<Rightarrow> 12 word \<Rightarrow> u64 \<Rightarrow> bool \<Rightarrow> s3" where
  "demo_instr c w csr a v trap =
     \<lparr>s3_full = True, s3_pc = 0x1000,
      s3_ls = \<lparr>s3_load = False, s3_store = False, s3_byte = False, s3_half = False, s3_word = False,
        s3_sext = False, s3_wdata = v, s3_trap = trap, s3_rd = 11, p_lsu_req = False\<rparr>,
      s3_csr_rd = csr, s3_csr_wr = csr, s3_csr_set = csr, s3_csr_clr = False, s3_csr_addr = a,
      s3_cfu_op = c, s3_wb_op = w\<rparr>"

definition demo_hart :: "csrs \<Rightarrow> s3 \<Rightarrow> hart" where
  "demo_hart s i =
     \<lparr>h_csrs = s,
      h_wb = \<lparr>rd_wen_enable = True, csr_op_error = False, csr_op_done = False, cf_done = False,
        wfi_woken = False, r_trapped = False, delay_int_request = False\<rparr>,
      h_s3 = i\<rparr>"

definition demo_in :: "bool \<Rightarrow> bool \<Rightarrow> s3 \<Rightarrow> bool \<Rightarrow> bool \<Rightarrow> hart_in" where
  "demo_in r v i ack ti =
     \<lparr>h_resetn = r, s3_valid = v, s3_next = i, s3_n_pc = 0x1004, cf_ack = ack,
      h_int = \<lparr>int_sw = False, int_ext = False, int_ti = ti\<rparr>, dmem_req_w = False,
      dmem_gnt_w = False, dmem_err_w = False, dmem_rdata_w = 0,
      h_ctr = \<lparr>mip_meip = False, mip_mtip = False, mip_msip = False, ctr_time_in = 0,
        ctr_cycle_in = 0, ctr_instret_in = 0\<rparr>\<rparr>"

definition demo_csrs :: csrs where
  "demo_csrs = csrs_reset\<lparr>mie_mtie := True, reg_mstatus_mie := True, reg_mtvec_mode := 1\<rparr>"

abbreviation "demo_scratch \<equiv> demo_instr CFU_NOP WB_CSR True ADDR_MSCRATCH 5 False"
abbreviation "demo_unknown \<equiv> demo_instr CFU_NOP WB_CSR True 0x7C0 5 False"
abbreviation "demo_ecall \<equiv> demo_instr CFU_NOP WB_NONE False 0 0 True"
abbreviation "demo_mret \<equiv> demo_instr CFU_MRET WB_NONE False 0 0 False"
abbreviation "demo_wfi \<equiv> demo_instr CFU_WFI WB_NONE False 0 0 False"

section \<open>CSR instructions\<close>

text \<open>
  A CSR instruction in its first cycle in writeback, with nothing else going on: no trap from an
  earlier stage, no interrupt. The decoder gives the two clear instructions no destination.
\<close>

definition csr_first :: "hart_in \<Rightarrow> hart \<Rightarrow> bool" where
  "csr_first x h \<longleftrightarrow>
     h_resetn x \<and> s3_full (h_s3 h) \<and> s3_csr_wr (h_s3 h) \<and>
     s3_wb_op (h_s3 h) = (if s3_csr_clr (h_s3 h) then WB_NONE else WB_CSR) \<and>
     s3_cfu_op (h_s3 h) = CFU_NOP \<and> \<not> s3_load (s3_ls (h_s3 h)) \<and> \<not> s3_store (s3_ls (h_s3 h)) \<and>
     \<not> s3_trap (s3_ls (h_s3 h)) \<and> rd_wen_enable (h_wb h) \<and> \<not> csr_op_done (h_wb h) \<and>
     \<not> r_trapped (h_wb h) \<and> \<not> raise_int x h"

definition csr_implemented :: "12 word list" where
  "csr_implemented =
     csr_writable @ [ADDR_MSTATUS, ADDR_MISA, ADDR_MEDELEG, ADDR_MIDELEG, ADDR_MIP, ADDR_MVENDORID,
       ADDR_MARCHID, ADDR_MIMPID, ADDR_MHARTID, ADDR_CYCLE, ADDR_TIME, ADDR_INSTRET, ADDR_MCYCLE,
       ADDR_MINSTRET]"

lemma wb_csr_first:
  assumes "csr_first x h"
  shows "csr_en (wb_csr h)" "csr_wr (wb_csr h)" "csr_addr (wb_csr h) = s3_csr_addr (h_s3 h)"
    "csr_wdata (wb_csr h) = s3_wdata (s3_ls (h_s3 h))"
  using assms by (simp_all add: csr_first_def wb_csr_def Let_def csr_op_any_def)

lemma csr_first_new:
  "csr_first x h \<Longrightarrow> csr_new (wb_csr h) old w =
    (if s3_csr_set (h_s3 h) then old OR w else if s3_csr_clr (h_s3 h) then old AND NOT w else w)"
  by (simp add: csr_new_def wb_csr_def Let_def csr_first_def)

lemma valid_addr_iff:
  assumes "mode_m s" "csr_en x"
  shows "valid_addr x s \<longleftrightarrow> csr_addr x \<in> set csr_implemented"
  using assms by (auto simp: valid_addr_def read_en_def csr_implemented_def csr_writable_def)

lemma csr_error_iff:
  assumes "mode_m s" "csr_en x" "csr_wr x"
  shows "csr_error x s \<longleftrightarrow> csr_addr x \<notin> set csr_implemented \<or>
    csr_addr x = ADDR_MTVEC \<and> bad_mtvec (csr_new x (reg_mtvec s) (csr_wdata x))"
  using assms
  by (auto simp: csr_error_def valid_addr_iff csr_error_mtvec_def bad_mtvec_new wen_def)

lemma first_trap:
  assumes "csr_first x h"
  shows "wb_trap_cpu x h = h_csr_error h"
  using assms
  by (auto simp: wb_trap_cpu_def trap_csr_def csr_first_def lsu_trap_load_def lsu_trap_store_def
      cfu_wfi_trap_def cfu_wfi_def wb_csr_def Let_def csr_op_any_def)

lemma no_raise_no_int: "\<not> raise_int x h \<Longrightarrow> \<not> int_ack x h"
  by (simp add: int_ack_def)

lemma wb_trap_sel [simp]:
  "trap_cpu (wb_trap x h) = wb_trap_cpu x h" "trap_int (wb_trap x h) = int_ack x h"
  "exec_mret (wb_trap x h) = (cfu_mret h \<and> e_instr_ret x h)"
  "trap_cause (wb_trap x h) = wb_trap_cause x h" "trap_mtval (wb_trap x h) = 0"
  "trap_pc (wb_trap x h) = (if int_ack x h then s3_n_pc x else s3_pc (h_s3 h))"
  by (simp_all add: wb_trap_def)

lemma csr_rdata_view:
  assumes "mode_m s" "csr_en x" "csr_addr x \<in> set csr_writable"
  shows "csr_rdata x e s = csr_view s (csr_addr x)"
  using assms
  by (auto simp: csr_rdata_def read_en_def csr_view_def csr_writable_def csr_addrs)

lemma h_csrs_step: "h_resetn x \<Longrightarrow>
    h_csrs (hart_step x h) = csrs_next (wb_csr h) (wb_trap x h) (h_csrs h)"
  by (simp add: hart_step_def csrs_step_def)

lemma trap_flushes: "e_cf_change x h \<Longrightarrow> \<not> s3_full (h_s3 (hart_step x h))"
  by (simp add: hart_step_def s3_step_def Let_def)

lemma trap_cpu_cf:
  assumes "wb_trap_cpu x h" "\<not> cf_done (h_wb h)"
  shows "s3_cf_valid x h" "\<not> s3_rd_wen x h" "\<not> raise_int x h" "\<not> int_ack x h"
    "cf_ack x \<Longrightarrow> e_cf_change x h" "cf_ack x \<Longrightarrow> e_instr_ret x h"
  using assms
  by (auto simp: e_cf_change_def s3_cf_valid_def e_instr_ret_def trapped_def s3_rd_wen_def
      wb_trap_cpu_def int_ack_def)

text \<open>C25: A CSR instruction, in its first cycle and with no trap or interrupt, on one of the writable registers
  other than \<open>mstatus\<close> leaves in it what \<open>legal\<close> makes of the set, cleared or replaced value: \<open>mie\<close> keeps
  three bits, \<open>mepc\<close> clears bit 0, \<open>mscratch\<close> and \<open>mtval\<close> keep everything, \<open>mtvec\<close> takes any value that is
  not reserved, \<open>mcause\<close> changes only if the operand (not the result) is one of nine exception codes and
  never takes the interrupt bit, and \<open>mcountinhibit\<close> takes two bits of the operand itself, whether it is to be
  set, cleared or written. Set and write instructions write the old value to their destination, clear
  instructions write no destination. Every other writable register and the interrupt enables are left alone,
  and the instruction does not trap.\<close>

theorem csr_instruction_exact:
  assumes "csrs_wf (h_csrs h)" "csr_first x h"
    "a = s3_csr_addr (h_s3 h)" "a \<in> set csr_writable"
    "s = h_csrs h" "w = s3_wdata (s3_ls (h_s3 h))" "new = (if s3_csr_set (h_s3 h) then csr_view s a OR w
       else if s3_csr_clr (h_s3 h) then csr_view s a AND NOT w else w)"
    "a = ADDR_MTVEC \<longrightarrow> \<not> bad_mtvec new"
    "s' = h_csrs (hart_step x h)"
  shows "(s3_rd_wen x h \<longleftrightarrow> \<not> s3_csr_clr (h_s3 h)) \<and>
    (s3_rd_wen x h \<longrightarrow> s3_rd_wdata x h = csr_view s a) \<and> \<not> wb_trap_cpu x h \<and>
    csr_view s' a = legal a (csr_view s a) w new \<and>
    (\<forall>b. b \<noteq> a \<longrightarrow> csr_view s' b = csr_view s b) \<and>
    reg_mstatus_mie s' = reg_mstatus_mie s \<and> reg_mstatus_mpie s' = reg_mstatus_mpie s"
proof -
  note first = wb_csr_first [OF assms(2)]
  have new: "new = csr_new (wb_csr h) (csr_view s a) w" by (simp only: csr_first_new [OF assms(2)] assms(7))
  have m: "mode_m s" using assms(1,5) by (simp add: csrs_wf_def)
  have impl: "a \<in> set csr_implemented" using assms(4) by (simp add: csr_implemented_def)
  have err: "\<not> h_csr_error h"
    using csr_error_iff [of s "wb_csr h"] m first assms(3,5,6,8) new impl
    by (auto simp: h_csr_error_def view_sel)
  have int: "\<not> int_ack x h" using assms(2) by (simp add: csr_first_def int_ack_def)
  have mret: "\<not> cfu_mret h" using assms(2) by (simp add: csr_first_def cfu_mret_def)
  have trap: "\<not> wb_trap_cpu x h" using first_trap [OF assms(2)] err by simp
  have step: "s' = csrs_next (wb_csr h) (wb_trap x h) s"
    using assms(2,5,9) by (simp add: csr_first_def h_csrs_step)
  note view = csrs_next_view [OF m, of "wb_trap x h" "wb_csr h", unfolded wb_trap_sel, OF trap int,
      folded step]
  have "a \<noteq> ADDR_MSTATUS" using assms(4) by (auto simp: csr_writable_def csr_addrs)
  then have "\<not> wen (wb_csr h) s ADDR_MSTATUS" using first assms(3) by (auto simp: wen_def)
  note enables = mstatus_enables_next [OF this, of "wb_trap x h", unfolded wb_trap_sel,
      OF trap int, folded step]
  have "s3_rd_wen x h \<longleftrightarrow> \<not> s3_csr_clr (h_s3 h)" and "\<not> s3_csr_clr (h_s3 h) \<longrightarrow> s3_rd_wdata x h = csr_view s a"
    using assms(2,3,4,5) trap first m
    by (auto simp: csr_first_def s3_rd_wen_def s3_fwd_rd_wen_def trapped_def s3_rd_wdata_def
        csr_rdata_view)
  then show ?thesis
    using trap view enables mret first assms(3,4,6) new by simp
qed

theorem csr_instruction_exact_witness:
  "csr_view (h_csrs (hart_step (demo_in True False demo_scratch False False)
     (demo_hart csrs_reset demo_scratch))) ADDR_MSCRATCH = 5"
proof -
  let ?x = "demo_in True False demo_scratch False False" and ?h = "demo_hart csrs_reset demo_scratch"
  let ?old = "csr_view (h_csrs ?h) ADDR_MSCRATCH" and ?w = "s3_wdata (s3_ls (h_s3 ?h))"
  have "csrs_wf (h_csrs ?h)" "csr_first ?x ?h" "ADDR_MSCRATCH \<in> set csr_writable"
    "ADDR_MSCRATCH = s3_csr_addr (h_s3 ?h)" "ADDR_MSCRATCH \<noteq> ADDR_MTVEC"
    "legal ADDR_MSCRATCH ?old ?w (if s3_csr_set (h_s3 ?h) then ?old OR ?w
       else if s3_csr_clr (h_s3 ?h) then ?old AND NOT ?w else ?w) = 5"
    by code_simp+
  then show ?thesis
    using csr_instruction_exact [of ?h ?x ADDR_MSCRATCH "h_csrs ?h" _ _ "h_csrs (hart_step ?x ?h)",
        OF _ _ _ _ refl refl refl _ refl] by simp
qed

text \<open>C34: A CSR instruction in its first cycle on an address without a register, or one that would leave a
  reserved value in \<open>mtvec\<close>, raises an illegal instruction exception at once: no destination and no other
  register is written, the cause, the address of the instruction and the enables are saved, and fetch is sent
  to the trap vector; when it acknowledges, the instruction has left the stage. The addresses with a register
  are the 21 of \<open>csr_implemented\<close>; \<open>mcounteren\<close> is not among them, though the requirements list it as
  hard wired to zero, so accessing it traps.\<close>

theorem illegal_csr_access_traps:
  assumes "csrs_wf (h_csrs h)" "csr_first x h" "\<not> cf_done (h_wb h)"
    "a = s3_csr_addr (h_s3 h)" "s = h_csrs h"
    "a \<notin> set csr_implemented \<or>
       a = ADDR_MTVEC \<and> bad_mtvec (csr_new (wb_csr h) (csr_view s a) (s3_wdata (s3_ls (h_s3 h))))"
    "s' = h_csrs (hart_step x h)"
  shows "\<not> s3_rd_wen x h \<and> s3_cf_valid x h \<and> s3_cf_target x h = mtvec_base s \<and>
    (cf_ack x \<longrightarrow> \<not> s3_full (h_s3 (hart_step x h))) \<and> 0x306 \<notin> set csr_implemented \<and>
    csr_view s' ADDR_MCAUSE = 2 \<and> csr_view s' ADDR_MEPC = s3_pc (h_s3 h) AND NOT 1 \<and>
    \<not> reg_mstatus_mie s' \<and> reg_mstatus_mpie s' = reg_mstatus_mie s \<and>
    (\<forall>b. b \<notin> {ADDR_MCAUSE, ADDR_MEPC, ADDR_MTVAL} \<longrightarrow> csr_view s' b = csr_view s b)"
proof -
  note first = wb_csr_first [OF assms(2)]
  have m: "mode_m s" using assms(1,5) by (simp add: csrs_wf_def)
  have err: "h_csr_error h"
    using csr_error_iff [of s "wb_csr h"] m first assms(4-6) by (auto simp: h_csr_error_def view_sel)
  then have trap: "wb_trap_cpu x h" using first_trap [OF assms(2)] by simp
  note cf = trap_cpu_cf [OF trap assms(3)]
  have not_mcause: "a \<noteq> ADDR_MCAUSE"
    using assms(6) by (auto simp: csr_implemented_def csr_writable_def csr_addrs)
  have valid: "wen_valid_mcause (wb_csr h)" using not_mcause first assms(4) by (simp add: wen_valid_mcause_def)
  have step: "s' = csrs_next (wb_csr h) (wb_trap x h) s"
    using assms(2,5,7) by (simp add: csr_first_def h_csrs_step)
  have cause: "wb_trap_cause x h = 2"
    using assms(2) cf(3) err
    by (simp add: wb_trap_cause_def csr_first_def lsu_trap_load_def lsu_trap_store_def TRAP_IOPCODE_def)
  have target: "s3_cf_target x h = mtvec_base s"
    using assms(2,5) by (simp add: s3_cf_target_def csr_first_def cfu_mret_def)
  have quiet: "\<not> csr_wr (wb_csr h) \<or> csr_addr (wb_csr h) \<notin> set csr_writable \<or>
      csr_addr (wb_csr h) = ADDR_MTVEC \<and> bad_mtvec_val (wb_csr h) s"
    using assms(4-6) first by (auto simp: csr_implemented_def bad_mtvec_new view_sel)
  have t: "trap_cpu (wb_trap x h) \<or> trap_int (wb_trap x h)" using trap by simp
  have "0x306 \<notin> set csr_implemented" by (simp add: csr_implemented_def csr_writable_def csr_addrs)
  moreover have "cf_ack x \<longrightarrow> \<not> s3_full (h_s3 (hart_step x h))"
    using trap_flushes [of x h] cf(1) by (simp add: e_cf_change_def)
  ultimately show ?thesis
    using cf target trap_epc [OF t, of "wb_csr h" s]
      trap_mcause [OF t valid, of s] trap_enables [OF t, of "wb_csr h" s] cause
      no_csr_views [OF quiet, of _ "wb_trap x h"]
    by (simp add: step view_sel)
qed

theorem illegal_csr_access_traps_witness:
  "csr_view (h_csrs (hart_step (demo_in True False demo_unknown True False)
     (demo_hart csrs_reset demo_unknown))) ADDR_MCAUSE = 2"
proof -
  let ?x = "demo_in True False demo_unknown True False" and ?h = "demo_hart csrs_reset demo_unknown"
  have "csrs_wf (h_csrs ?h)" "\<not> cf_done (h_wb ?h)"
    "0x7C0 = s3_csr_addr (h_s3 ?h)" "0x7C0 \<notin> set csr_implemented"
    by code_simp+
  moreover have "csr_first ?x ?h" by code_simp
  ultimately show ?thesis
    using illegal_csr_access_traps [of ?h ?x "0x7C0" "h_csrs ?h" "h_csrs (hart_step ?x ?h)",
        OF _ _ _ _ refl _ refl] by simp
qed

section \<open>Exceptions and interrupts\<close>

text \<open>
  The check of written causes looks at every instruction: \<open>mcause\<close> is left alone by a trap when the
  instruction in writeback has its address in the CSR field and another operand than the nine listed causes.
\<close>

definition mcause_kept :: "hart \<Rightarrow> bool" where
  "mcause_kept h \<longleftrightarrow>
     s3_csr_addr (h_s3 h) = ADDR_MCAUSE \<and> s3_wdata (s3_ls (h_s3 h)) \<notin> {0, 1, 2, 3, 4, 5, 6, 7, 11}"

lemma trap_mcause_exact:
  assumes "trap_cpu t \<or> trap_int t"
  shows "reg_mcause (csrs_next (wb_csr h) t s) =
    (if mcause_kept h then reg_mcause s else push_bit 63 (of_bool (trap_int t)) OR ucast (trap_cause t))"
proof -
  have "wen_valid_mcause (wb_csr h) \<longleftrightarrow> \<not> mcause_kept h"
    by (auto simp: wen_valid_mcause_def wb_csr_def Let_def mcause_kept_def)
  then show ?thesis using trap_mcause [OF assms] trap_mcause_kept by auto
qed

lemma trap_target:
  assumes "cfu_mret h" "trap_cpu (wb_trap x h) \<or> trap_int (wb_trap x h)"
  shows "s3_cf_target x h = trap_pc (wb_trap x h) AND NOT 1"
  using assms trap_epc [OF assms(2)] by (simp add: s3_cf_target_def csr_mepc_next del: wb_trap_sel)

text \<open>C13: An exception that fetch acknowledges at once writes no register, saves its cause, the
  address of the instruction and the interrupt enable, clears \<open>mtval\<close>, disables interrupts and goes to the trap
  vector, with two exceptions. The cause is not recorded if the instruction has the address of \<open>mcause\<close> in its
  CSR field and an operand that is not a listed cause. A return instruction that raises an exception (its fetch
  failed, say) goes not to the vector but to the address just saved, which is its own.\<close>

theorem exception_entry_exact:
  assumes "csrs_wf (h_csrs h)" "h_resetn x" "wb_trap_cpu x h" "cf_ack x" "\<not> cf_done (h_wb h)"
    "i = s3_ls (h_s3 h)" "s = h_csrs h" "s' = h_csrs (hart_step x h)"
  shows "\<not> s3_rd_wen x h \<and> e_cf_change x h \<and>
    s3_cf_target x h = (if cfu_mret h then s3_pc (h_s3 h) AND NOT 1 else mtvec_base s) \<and>
    \<not> s3_full (h_s3 (hart_step x h)) \<and>
    csr_view s' ADDR_MCAUSE =
      (if mcause_kept h then csr_view s ADDR_MCAUSE
       else if s3_trap i then ucast (s3_rd i)
       else if s3_load i \<and> dmem_err_w x \<and> p_lsu_req i then 5
       else if s3_store i \<and> dmem_err_w x \<and> p_lsu_req i then 7
       else if h_csr_error h then 2 else 0) \<and>
    csr_view s' ADDR_MEPC = s3_pc (h_s3 h) AND NOT 1 \<and> csr_view s' ADDR_MTVAL = 0 \<and>
    mode_m s' \<and> \<not> reg_mstatus_mie s' \<and> reg_mstatus_mpie s' = reg_mstatus_mie s"
proof -
  note cf = trap_cpu_cf [OF assms(3,5)] and ack = trap_cpu_cf(5,6) [OF assms(3,5,4)]
  have m: "mode_m s" using assms(1,7) by (simp add: csrs_wf_def)
  have step: "s' = csrs_next (wb_csr h) (wb_trap x h) s" using assms(2,7,8) by (simp add: h_csrs_step)
  have t: "trap_cpu (wb_trap x h) \<or> trap_int (wb_trap x h)" using assms(3) by simp
  have cause: "wb_trap_cause x h =
      (if s3_trap i then ucast (s3_rd i)
       else if s3_load i \<and> dmem_err_w x \<and> p_lsu_req i then 5
       else if s3_store i \<and> dmem_err_w x \<and> p_lsu_req i then 7
       else if h_csr_error h then 2 else 0)"
    using cf(3) m assms(6,7)
    by (simp add: wb_trap_cause_def lsu_trap_load_def lsu_trap_store_def TRAP_LDACCESS_def
        TRAP_STACCESS_def TRAP_IOPCODE_def cfu_wfi_trap_def)
  have ext: "(ucast (wb_trap_cause x h) :: u64) =
      (if s3_trap i then ucast (s3_rd i)
       else if s3_load i \<and> dmem_err_w x \<and> p_lsu_req i then 5
       else if s3_store i \<and> dmem_err_w x \<and> p_lsu_req i then 7
       else if h_csr_error h then 2 else 0)"
    unfolding cause by (simp add: ucast_up_ucast is_up)
  have "csr_view s' ADDR_MTVAL = 0"
    using assms(3) by (simp add: step view_sel csrs_next_def Let_def n_reg_mtval_def)
  moreover have "mode_m s'" using assms(3) by (simp add: step csrs_next_def Let_def n_mode_m_def update_mode_def)
  moreover have "s3_cf_target x h = (if cfu_mret h then s3_pc (h_s3 h) AND NOT 1 else mtvec_base s)"
    using assms(7) cf(3,4) trap_target [OF _ t] by (simp add: s3_cf_target_def)
  ultimately show ?thesis
    using cf ack trap_flushes [OF ack(1)] trap_epc [OF t, of "wb_csr h" s]
      trap_mcause_exact [OF t, of h s] trap_enables [OF t, of "wb_csr h" s] ext
    by (simp add: step view_sel)
qed

theorem exception_entry_exact_witness:
  "csr_view (h_csrs (hart_step (demo_in True False demo_ecall True False)
     (demo_hart demo_csrs demo_ecall))) ADDR_MCAUSE = 11"
proof -
  let ?x = "demo_in True False demo_ecall True False" and ?h = "demo_hart demo_csrs demo_ecall"
  have "csrs_wf (h_csrs ?h)" "h_resetn ?x" "wb_trap_cpu ?x ?h" "cf_ack ?x" "\<not> cf_done (h_wb ?h)"
    "\<not> mcause_kept ?h" "s3_trap (s3_ls (h_s3 ?h))"
    "(ucast (s3_rd (s3_ls (h_s3 ?h))) :: u64) = 11"
    by code_simp+
  then show ?thesis
    using exception_entry_exact [of ?h ?x "s3_ls (h_s3 ?h)" "h_csrs ?h" "h_csrs (hart_step ?x ?h)",
        OF _ _ _ _ _ refl refl refl] by simp
qed

text \<open>C14: An interrupt that is pending, enabled for its source and globally, and not held back by a
  stalled data access is taken as soon as fetch acknowledges: external before software before timer;
  the address of the next instruction and the enable are saved, interrupts are disabled, the cause with the
  interrupt bit is recorded (unless the instruction in writeback has the address of \<open>mcause\<close> in its CSR field
  and an operand that is not a listed cause), and fetch goes to the vector, in vectored mode of the cause.
  If a return is in writeback, fetch goes to the address just saved instead, with interrupts disabled. The
  instruction in writeback writes its register unless it has trapped in an earlier cycle.\<close>

theorem interrupt_entry_exact:
  assumes "csrs_wf (h_csrs h)" "h_resetn x" "raise_int x h" "cf_ack x" "\<not> cf_done (h_wb h)"
    "s = h_csrs h" "s' = h_csrs (hart_step x h)"
    "c = (if int_ext (h_int x) \<and> mie_meie s then 11
          else if int_sw (h_int x) \<and> mie_msie s then 3 else (7 :: u64))"
  shows "s3_cf_target x h =
      (if cfu_mret h then s3_n_pc x AND NOT 1
       else mtvec_base s + (if bit (reg_mtvec_mode s) 0 then 4 * c else 0)) \<and>
    csr_view s' ADDR_MCAUSE = (if mcause_kept h then csr_view s ADDR_MCAUSE else push_bit 63 1 OR c) \<and>
    csr_view s' ADDR_MEPC = s3_n_pc x AND NOT 1 \<and>
    mode_m s' \<and> \<not> reg_mstatus_mie s' \<and> reg_mstatus_mpie s' \<and>
    (s3_rd_wen x h \<longleftrightarrow> s3_fwd_rd_wen h \<and> \<not> r_trapped (h_wb h)) \<and> \<not> s3_full (h_s3 (hart_step x h))"
proof -
  have ack: "e_cf_change x h" "int_ack x h"
    using assms(3-5) by (simp_all add: e_cf_change_def s3_cf_valid_def int_ack_def)
  have no_trap: "\<not> wb_trap_cpu x h" using assms(3) by (simp add: wb_trap_cpu_def)
  have step: "s' = csrs_next (wb_csr h) (wb_trap x h) s" using assms(2,6,7) by (simp add: h_csrs_step)
  have t: "trap_cpu (wb_trap x h) \<or> trap_int (wb_trap x h)" using ack by simp
  have req: "reg_mstatus_mie s" "int_pend_ext (h_int x) s \<or> int_pend_ti (h_int x) s \<or> int_pend_sw (h_int x) s"
    using assms(3,6) by (auto simp: raise_int_def int_request_def)
  have cause: "(ucast (int_cause (h_int x) s) :: u64) = c"
    using req(2) unfolding assms(8)
    by (auto simp: int_cause_def int_pend_ext_def int_pend_sw_def int_pend_ti_def TRAP_INT_MEI_def
        TRAP_INT_MSI_def TRAP_INT_MTI_def)
  have off: "mtvec_offset (h_int x) s = (if bit (reg_mtvec_mode s) 0 then 4 * c else 0)"
    by (simp add: mtvec_offset_def cause push_bit_eq_mult)
  have ok: "mtvec_ok s" using assms(1,6) by (simp add: csrs_wf_def)
  have target: "s3_cf_target x h = (if cfu_mret h then s3_n_pc x AND NOT 1
      else mtvec_base s + (if bit (reg_mtvec_mode s) 0 then 4 * c else 0))"
    using int_tvec_plus [OF ok, of "h_int x"] off assms(3) trap_target [OF _ t] ack(2) unfolding assms(6)
    by (simp add: s3_cf_target_def)
  have tc: "wb_trap_cause x h = int_cause (h_int x) s"
    using assms(3,6) by (simp add: wb_trap_cause_def)
  have "mode_m s'" using ack by (simp add: step csrs_next_def Let_def n_mode_m_def update_mode_def)
  moreover have "s3_rd_wen x h \<longleftrightarrow> s3_fwd_rd_wen h \<and> \<not> r_trapped (h_wb h)"
    using no_trap by (simp add: s3_rd_wen_def trapped_def)
  ultimately show ?thesis
    using target trap_flushes [OF ack(1)] trap_epc [OF t, of "wb_csr h" s] ack
      trap_mcause_exact [OF t, of h s] trap_enables [OF t, of "wb_csr h" s] tc cause req
    by (simp add: step view_sel)
qed

theorem interrupt_entry_exact_witness:
  "s3_cf_target (demo_in True False demo_scratch True True) (demo_hart demo_csrs demo_scratch) =
     0xC000001C"
proof -
  let ?x = "demo_in True False demo_scratch True True" and ?h = "demo_hart demo_csrs demo_scratch"
  have "csrs_wf (h_csrs ?h)" "h_resetn ?x" "raise_int ?x ?h" "cf_ack ?x" "\<not> cf_done (h_wb ?h)"
    "\<not> cfu_mret ?h"
    "\<not> int_ext (h_int ?x)" "\<not> int_sw (h_int ?x)" "bit (reg_mtvec_mode (h_csrs ?h)) 0"
    "mtvec_base (h_csrs ?h) = 0xC0000000"
    by code_simp+
  then show ?thesis
    using interrupt_entry_exact [of ?h ?x "h_csrs ?h" "h_csrs (hart_step ?x ?h)" 7,
        OF _ _ _ _ _ refl refl] by simp
qed

section \<open>Returning from a trap\<close>

text \<open>
  The cycles of a handler that takes no exception, returns nowhere and does not write
  \<open>mstatus\<close> or \<open>mepc\<close>. An exception that is still waiting for fetch is an exception of these cycles.
\<close>

fun undisturbed :: "hart_in list \<Rightarrow> hart \<Rightarrow> bool" where
  "undisturbed [] h \<longleftrightarrow> True"
| "undisturbed (x # xs) h \<longleftrightarrow>
     h_resetn x \<and> \<not> wb_trap_cpu x h \<and> \<not> (cfu_mret h \<and> e_instr_ret x h) \<and>
     \<not> wen (wb_csr h) (h_csrs h) ADDR_MSTATUS \<and> \<not> wen (wb_csr h) (h_csrs h) ADDR_MEPC \<and>
     undisturbed xs (hart_step x h)"

lemma masked: "\<not> reg_mstatus_mie (h_csrs h) \<Longrightarrow> \<not> raise_int x h \<and> \<not> int_ack x h"
  by (simp add: raise_int_def int_request_def int_ack_def)

lemma quiet_step:
  assumes "h_resetn x" "\<not> wb_trap_cpu x h" "\<not> int_ack x h" "\<not> (cfu_mret h \<and> e_instr_ret x h)"
    "\<not> wen (wb_csr h) (h_csrs h) ADDR_MSTATUS" "\<not> wen (wb_csr h) (h_csrs h) ADDR_MEPC"
  shows "reg_mstatus_mie (h_csrs (hart_step x h)) = reg_mstatus_mie (h_csrs h)"
    "reg_mstatus_mpie (h_csrs (hart_step x h)) = reg_mstatus_mpie (h_csrs h)"
    "reg_mepc (h_csrs (hart_step x h)) = reg_mepc (h_csrs h)"
  using assms mstatus_enables_next [of "wb_csr h" "h_csrs h" "wb_trap x h"]
  by (simp_all add: h_csrs_step csrs_mepc)

lemma undisturbed_keeps:
  assumes "undisturbed xs h" "\<not> reg_mstatus_mie (h_csrs h)"
  shows "\<not> reg_mstatus_mie (h_csrs (hart_run xs h)) \<and>
    reg_mstatus_mpie (h_csrs (hart_run xs h)) = reg_mstatus_mpie (h_csrs h) \<and>
    reg_mepc (h_csrs (hart_run xs h)) = reg_mepc (h_csrs h)"
  using assms
proof (induction xs arbitrary: h)
  case (Cons x xs)
  have "\<not> int_ack x h" using Cons.prems(2) masked by simp
  with Cons.prems(1) have "h_resetn x" "\<not> wb_trap_cpu x h" "\<not> int_ack x h"
    "\<not> (cfu_mret h \<and> e_instr_ret x h)" "\<not> wen (wb_csr h) (h_csrs h) ADDR_MSTATUS"
    "\<not> wen (wb_csr h) (h_csrs h) ADDR_MEPC" "undisturbed xs (hart_step x h)" by auto
  note q = quiet_step [OF this(1-6)] this(7)
  then show ?case using Cons.IH [of "hart_step x h"] Cons.prems(2) by (simp add: hart_run_def)
qed (simp add: hart_run_def)

lemma mret_target:
  assumes "cfu_mret h" "\<not> s3_csr_wr (h_s3 h)" "\<not> wb_trap_cpu y h" "\<not> int_ack y h"
  shows "s3_cf_target y h = reg_mepc (h_csrs h)"
  using assms
  by (simp add: s3_cf_target_def csr_mepc_def wen_mepc_def reg_mepc_def wen_def wb_csr_def Let_def)

lemma mret_change:
  assumes "cfu_mret h" "cf_ack y" "\<not> cf_done (h_wb h)"
  shows "e_cf_change y h" "\<not> cfu_wait y h"
  using assms
  by (auto simp: e_cf_change_def s3_cf_valid_def cfu_wait_def wfi_sleep_def cfu_wfi_ex_def
      cfu_wfi_def cfu_mret_def)

text \<open>C28: A trap whose redirection fetch acknowledges in its first cycle, followed by a handler that takes no
  exception, returns nowhere else and writes neither \<open>mstatus\<close> nor \<open>mepc\<close>, and by a return that fetch
  acknowledges while the next instruction is waiting, resumes at the saved address (of the trapping
  instruction, or of the next one for an interrupt) with the interrupt enable it had before. (An exception
  whose redirection has to wait is raised again in every cycle and loses the enable.)\<close>

theorem trap_return_restores:
  assumes "csrs_wf (h_csrs h)" "h_resetn x" "wb_trap_cpu x h \<and> e_cf_change x h \<or> int_ack x h"
    "undisturbed xs (hart_step x h)" "h2 = hart_run (x # xs) h"
    "cfu_mret h2" "\<not> s3_csr_wr (h_s3 h2)" "\<not> cf_done (h_wb h2)"
    "h_resetn y" "cf_ack y" "s3_valid y" "\<not> wb_trap_cpu y h2"
  shows "e_cf_change y h2 \<and>
    s3_cf_target y h2 = (if int_ack x h then s3_n_pc x else s3_pc (h_s3 h)) AND NOT 1 \<and>
    reg_mstatus_mie (h_csrs (hart_step y h2)) = reg_mstatus_mie (h_csrs h) \<and>
    mode_m (h_csrs (hart_step y h2))"
proof -
  let ?h1 = "hart_step x h"
  have t: "trap_cpu (wb_trap x h) \<or> trap_int (wb_trap x h)" using assms(3) by auto
  have one: "\<not> reg_mstatus_mie (h_csrs ?h1)"
    "reg_mstatus_mpie (h_csrs ?h1) = reg_mstatus_mie (h_csrs h)"
    "reg_mepc (h_csrs ?h1) = (if int_ack x h then s3_n_pc x else s3_pc (h_s3 h)) AND NOT 1"
    using trap_enables [OF t] trap_epc [OF t] assms(2) by (simp_all add: h_csrs_step)
  have two: "h2 = hart_run xs ?h1" using assms(5) by (simp add: hart_run_def)
  note kept = undisturbed_keeps [OF assms(4) one(1), folded two]
  have no_int: "\<not> int_ack y h2" using kept masked by blast
  note change = mret_change [OF assms(6,10,8)]
  have ret: "e_instr_ret y h2"
    using change assms(6,11) by (simp add: e_instr_ret_def e_new_instr_def s3_ready_def cfu_mret_def)
  have wf: "csrs_wf (h_csrs (hart_step y h2))"
    using hart_run_wf [OF assms(1), of "x # xs @ [y]"] assms(5) by (simp add: hart_run_def)
  have "reg_mstatus_mie (h_csrs (hart_step y h2)) = reg_mstatus_mpie (h_csrs h2)"
    using assms(6,9,12) ret no_int
    by (simp add: h_csrs_step csrs_next_def Let_def wen_mstatus_mie_def n_mstatus_mie_def)
  then show ?thesis
    using change(1) mret_target [OF assms(6,7,12) no_int] kept one wf by (simp add: csrs_wf_def)
qed

theorem trap_return_restores_witness:
  "reg_mstatus_mie (h_csrs (hart_step (demo_in True True demo_scratch True False)
     (hart_run [demo_in True False demo_mret True False, demo_in True True demo_mret True False]
       (demo_hart demo_csrs demo_ecall))))"
proof -
  let ?h = "demo_hart demo_csrs demo_ecall" and ?x = "demo_in True False demo_mret True False"
  let ?z = "demo_in True True demo_mret True False" and ?y = "demo_in True True demo_scratch True False"
  let ?h2 = "hart_run [?x, ?z] ?h"
  have "csrs_wf (h_csrs ?h)" "h_resetn ?x" "wb_trap_cpu ?x ?h \<and> e_cf_change ?x ?h" "undisturbed [?z] (hart_step ?x ?h)"
    "cfu_mret ?h2" "\<not> s3_csr_wr (h_s3 ?h2)" "\<not> cf_done (h_wb ?h2)" "h_resetn ?y" "cf_ack ?y"
    "s3_valid ?y" "\<not> wb_trap_cpu ?y ?h2" "reg_mstatus_mie (h_csrs ?h)"
    by code_simp+
  then show ?thesis using trap_return_restores [of ?h ?x "[?z]" ?h2 ?y] by simp
qed

text \<open>A return that fetch acknowledges while no next instruction is waiting goes to the saved
  address and leaves the pipeline, but is not executed: interrupts stay disabled and it is not
  counted as retired.\<close>

lemma return_without_successor:
  assumes "csrs_wf (h_csrs h)" "h_resetn y" "cfu_mret h" "\<not> s3_csr_wr (h_s3 h)" "\<not> cf_done (h_wb h)"
    "cf_ack y" "\<not> s3_valid y" "\<not> wb_trap_cpu y h" "\<not> r_trapped (h_wb h)"
    "\<not> reg_mstatus_mie (h_csrs h)"
  shows "e_cf_change y h \<and> s3_cf_target y h = reg_mepc (h_csrs h) \<and>
    \<not> s3_full (h_s3 (hart_step y h)) \<and> \<not> e_instr_ret y h \<and>
    \<not> reg_mstatus_mie (h_csrs (hart_step y h)) \<and>
    reg_mstatus_mpie (h_csrs (hart_step y h)) = reg_mstatus_mpie (h_csrs h)"
proof -
  note change = mret_change [OF assms(3,6,5)]
  have no_int: "\<not> int_ack y h" using assms(10) masked by blast
  have no_ret: "\<not> e_instr_ret y h"
    using assms(7-9) by (simp add: e_instr_ret_def e_new_instr_def trapped_def)
  have no_wen: "\<not> wen (wb_csr h) (h_csrs h) a" for a
    using assms(4) by (simp add: wen_def wb_csr_def Let_def)
  show ?thesis
    using change(1) mret_target [OF assms(3,4,8) no_int] trap_flushes [OF change(1)] no_ret
      quiet_step [OF assms(2,8) no_int, of] no_wen assms(10) by simp
qed

lemma return_without_successor_witness:
  "\<not> e_instr_ret (demo_in True False demo_mret True False) (demo_hart csrs_reset demo_mret)"
proof -
  let ?h = "demo_hart csrs_reset demo_mret" and ?y = "demo_in True False demo_mret True False"
  have "csrs_wf (h_csrs ?h)" "h_resetn ?y" "cfu_mret ?h" "\<not> s3_csr_wr (h_s3 ?h)" "\<not> cf_done (h_wb ?h)"
    "cf_ack ?y" "\<not> s3_valid ?y" "\<not> wb_trap_cpu ?y ?h" "\<not> r_trapped (h_wb ?h)"
    "\<not> reg_mstatus_mie (h_csrs ?h)"
    by code_simp+
  then show ?thesis using return_without_successor [of ?h ?y] by simp
qed

section \<open>What goes wrong\<close>

text \<open>An exception whose redirection waits for the fetch stage is entered once per cycle.\<close>

definition exception_pending :: "hart \<Rightarrow> bool" where
  "exception_pending h \<longleftrightarrow>
     s3_full (h_s3 h) \<and> s3_trap (s3_ls (h_s3 h)) \<and> \<not> cf_done (h_wb h) \<and>
     \<not> reg_mstatus_mie (h_csrs h)"

lemma pending_traps: "exception_pending h \<Longrightarrow> wb_trap_cpu x h"
  using masked [of h x] by (simp add: exception_pending_def wb_trap_cpu_def)

lemma stalled_trap_step:
  assumes "wb_trap_cpu x h" "s3_trap (s3_ls (h_s3 h))" "\<not> cf_done (h_wb h)" "h_resetn x" "\<not> cf_ack x"
  shows "exception_pending (hart_step x h)"
    "reg_mstatus_mpie (h_csrs (hart_step x h)) = reg_mstatus_mie (h_csrs h)"
    "s3_pc (h_s3 (hart_step x h)) = s3_pc (h_s3 h)"
proof -
  have full: "s3_full (h_s3 h)" using assms(1) by (simp add: wb_trap_cpu_def)
  have stuck: "\<not> e_cf_change x h" "\<not> e_new_instr x h"
    using assms full
    by (auto simp: e_cf_change_def e_new_instr_def s3_ready_def cfu_wait_def s3_cf_valid_def)
  have t: "trap_cpu (wb_trap x h) \<or> trap_int (wb_trap x h)" using assms(1) by simp
  have same: "h_s3 (hart_step x h) = (h_s3 h)\<lparr>s3_ls := (s3_ls (h_s3 h))\<lparr>p_lsu_req := dmem_req_w x \<and> dmem_gnt_w x\<rparr>\<rparr>"
    using stuck assms(4) by (simp add: hart_step_def s3_step_def Let_def)
  show "exception_pending (hart_step x h)"
    using assms full stuck trap_enables(1) [OF t] same
    by (simp add: exception_pending_def h_csrs_step) (simp add: hart_step_def wb_reg_step_def Let_def)
  show "reg_mstatus_mpie (h_csrs (hart_step x h)) = reg_mstatus_mie (h_csrs h)"
    using assms(4) trap_enables(2) [OF t] by (simp add: h_csrs_step)
  show "s3_pc (h_s3 (hart_step x h)) = s3_pc (h_s3 h)" using same by simp
qed

lemma stalled_trap_run:
  assumes "exception_pending h" "\<forall>x\<in>set xs. h_resetn x \<and> \<not> cf_ack x"
  shows "exception_pending (hart_run xs h) \<and> s3_pc (h_s3 (hart_run xs h)) = s3_pc (h_s3 h)"
  using assms
proof (induction xs arbitrary: h)
  case (Cons x xs)
  have "s3_trap (s3_ls (h_s3 h))" "\<not> cf_done (h_wb h)" "h_resetn x" "\<not> cf_ack x"
    using Cons.prems by (auto simp: exception_pending_def)
  note st = stalled_trap_step [OF pending_traps [OF Cons.prems(1)] this]
  then show ?case using Cons.IH [OF st(1)] Cons.prems(2) by (simp add: hart_run_def)
qed (simp add: hart_run_def)

text \<open>If fetch does not acknowledge the redirection of an exception in its first cycle, the
  exception is entered again in the next one and the saved interrupt enable is lost: after the
  return interrupts are disabled, whatever they were before.\<close>

lemma stalled_exception_loses_enable:
  assumes "wb_trap_cpu x h" "s3_trap (s3_ls (h_s3 h))" "\<not> cf_done (h_wb h)"
    "\<forall>z\<in>set (x # xs). h_resetn z \<and> \<not> cf_ack z" "h_resetn y" "cf_ack y"
    "h2 = hart_run (x # xs) h" "s' = h_csrs (hart_step y h2)"
  shows "e_cf_change y h2 \<and> reg_mepc s' = s3_pc (h_s3 h) AND NOT 1 \<and>
    \<not> reg_mstatus_mie s' \<and> \<not> reg_mstatus_mpie s'"
proof -
  have r: "h_resetn x" "\<not> cf_ack x" using assms(4) by simp_all
  note st = stalled_trap_step [OF assms(1-3) r]
  have run: "exception_pending h2" "s3_pc (h_s3 h2) = s3_pc (h_s3 h)"
    using stalled_trap_run [OF st(1), of xs] assms(4,7) st(3) by (simp_all add: hart_run_def)
  have trap: "wb_trap_cpu y h2" by (rule pending_traps [OF run(1)])
  have t: "trap_cpu (wb_trap y h2) \<or> trap_int (wb_trap y h2)" using trap by simp
  have "\<not> reg_mstatus_mie (h_csrs h2)" "\<not> cf_done (h_wb h2)"
    using run(1) by (simp_all add: exception_pending_def)
  then show ?thesis
    using trap_cpu_cf [OF trap] assms(6) trap_enables [OF t] trap_epc [OF t] run assms(5,8)
    by (simp add: h_csrs_step)
qed

text \<open>An interrupt that is taken while an instruction with an exception is in writeback
  drops the exception: the cause is the interrupt's, execution resumes behind the instruction, and
  nothing of the exception is left in the pipeline.\<close>

lemma interrupt_drops_exception:
  assumes "csrs_wf (h_csrs h)" "h_resetn x" "raise_int x h" "cf_ack x" "\<not> cf_done (h_wb h)"
    "s3_full (h_s3 h)" "s3_trap (s3_ls (h_s3 h))" "s3_csr_addr (h_s3 h) \<noteq> ADDR_MCAUSE"
    "s' = h_csrs (hart_step x h)"
  shows "\<not> wb_trap_cpu x h \<and> bit (csr_view s' ADDR_MCAUSE) 63 \<and>
    csr_view s' ADDR_MEPC = s3_n_pc x AND NOT 1 \<and>
    \<not> s3_full (h_s3 (hart_step x h)) \<and> \<not> s3_trap (s3_ls (h_s3 (hart_step x h)))"
proof -
  have ack: "e_cf_change x h" "int_ack x h"
    using assms(3-5) by (simp_all add: e_cf_change_def s3_cf_valid_def int_ack_def)
  have t: "trap_cpu (wb_trap x h) \<or> trap_int (wb_trap x h)" using ack by simp
  have valid: "wen_valid_mcause (wb_csr h)"
    using assms(8) by (simp add: wen_valid_mcause_def wb_csr_def Let_def)
  have "\<not> wb_trap_cpu x h" using assms(3) by (simp add: wb_trap_cpu_def)
  moreover have "\<not> s3_trap (s3_ls (h_s3 (hart_step x h)))"
    using ack by (simp add: hart_step_def s3_step_def Let_def)
  moreover have "bit (reg_mcause (h_csrs (hart_step x h))) 63"
    using assms(2) ack trap_mcause [OF t valid]
    by (simp add: h_csrs_step bit_or_iff bit_push_bool)
  ultimately show ?thesis
    using ack trap_flushes [OF ack(1)] trap_epc [OF t] assms(2,9)
    by (simp add: h_csrs_step view_sel)
qed

text \<open>Reading \<open>mstatus\<close> with a set of no bits copies the interrupt enable over the saved one.\<close>

lemma reading_mstatus_loses_enable:
  assumes "csrs_wf (h_csrs h)" "csr_first x h" "s3_csr_set (h_s3 h)"
    "s3_csr_addr (h_s3 h) = ADDR_MSTATUS" "s3_wdata (s3_ls (h_s3 h)) = 0"
  shows "reg_mstatus_mpie (h_csrs (hart_step x h)) = reg_mstatus_mie (h_csrs h)"
proof -
  note first = wb_csr_first [OF assms(2)]
  have m: "mode_m (h_csrs h)" using assms(1) by (simp add: csrs_wf_def)
  have "\<not> h_csr_error h"
    using csr_error_iff [of "h_csrs h" "wb_csr h"] m first assms(4)
    by (simp add: h_csr_error_def csr_implemented_def csr_writable_def csr_addrs)
  then have trap: "\<not> wb_trap_cpu x h" using first_trap [OF assms(2)] by simp
  have int: "\<not> int_ack x h" using assms(2) by (simp add: csr_first_def int_ack_def)
  have "csr_wr_set (wb_csr h)" using assms(2,3) by (simp add: wb_csr_def Let_def csr_first_def)
  then show ?thesis
    using first m trap int assms(2,4,5)
    by (simp add: h_csrs_step csr_first_def csrs_next_def Let_def wen_mstatus_mie_def wen_def
        n_mstatus_mpie_def csr_new_bit_def cfu_mret_def)
qed

text \<open>
  A faulting load whose offset happens to be the address of \<open>mcause\<close> leaves that register alone,
  because the check of written causes looks at every instruction.
\<close>

lemma load_offset_hides_cause:
  assumes "h_resetn x" "wb_trap_cpu x h" "s3_csr_addr (h_s3 h) = ADDR_MCAUSE"
    "s3_wdata (s3_ls (h_s3 h)) = 0x12000000" "\<not> raise_int x h"
  shows "reg_mcause (h_csrs (hart_step x h)) = reg_mcause (h_csrs h)"
  using assms
  by (simp add: h_csrs_step reg_mcause_def csrs_next_def Let_def wen_valid_mcause_def wb_csr_def)

text \<open>
  An interrupt that is taken while a return is in writeback goes to the instruction after the
  return, neither to the handler nor to the saved address.
\<close>

lemma return_meets_interrupt:
  assumes "cfu_mret h" "raise_int x h" "cf_ack x" "\<not> cf_done (h_wb h)"
  shows "int_ack x h \<and> s3_cf_target x h = s3_n_pc x AND NOT 1"
proof -
  have "int_ack x h" using assms by (simp add: int_ack_def e_cf_change_def s3_cf_valid_def)
  then show ?thesis
    using assms(1) trap_epc [of "wb_trap x h"] by (simp add: s3_cf_target_def csr_mepc_next)
qed

section \<open>Wait for interrupt\<close>

definition wfi_waiting :: "hart \<Rightarrow> bool" where
  "wfi_waiting h \<longleftrightarrow>
     csrs_wf (h_csrs h) \<and> cfu_wfi h \<and> \<not> wfi_woken (h_wb h) \<and> \<not> csr_op_any (h_s3 h) \<and>
     \<not> s3_trap (s3_ls (h_s3 h)) \<and> \<not> s3_load (s3_ls (h_s3 h)) \<and> \<not> s3_store (s3_ls (h_s3 h)) \<and>
     \<not> csr_op_done (h_wb h) \<and> \<not> r_trapped (h_wb h) \<and> \<not> cf_done (h_wb h)"

lemma waiting_no_trap: "wfi_waiting h \<Longrightarrow> \<not> wb_trap_cpu x h \<and> \<not> trapped x h"
  by (auto simp: wfi_waiting_def wb_trap_cpu_def trapped_def cfu_wfi_def trap_csr_def wb_csr_def
      Let_def lsu_trap_load_def lsu_trap_store_def cfu_wfi_trap_def csrs_wf_def)

lemma waiting_ex: "wfi_waiting h \<Longrightarrow> cfu_wfi_ex h"
  by (simp add: wfi_waiting_def cfu_wfi_ex_def csrs_wf_def)

lemma not_pending: "\<not> int_pending i \<Longrightarrow> \<not> int_request i s"
  by (auto simp: int_pending_def int_request_def int_pend_ext_def int_pend_ti_def int_pend_sw_def)

lemma waiting_step:
  assumes "wfi_waiting h" "h_resetn x" "\<not> int_pending (h_int x)"
  shows "wfi_sleep x h" "\<not> s3_ready x h" "\<not> e_instr_ret x h" "wfi_waiting (hart_step x h)"
    "mie_meie (h_csrs (hart_step x h)) = mie_meie (h_csrs h)"
    "mie_mtie (h_csrs (hart_step x h)) = mie_mtie (h_csrs h)"
    "mie_msie (h_csrs (hart_step x h)) = mie_msie (h_csrs h)"
    "reg_mstatus_mie (h_csrs (hart_step x h)) = reg_mstatus_mie (h_csrs h)"
proof -
  have full: "s3_full (h_s3 h)" using assms(1) by (simp add: wfi_waiting_def cfu_wfi_def)
  show sleep: "wfi_sleep x h" using assms waiting_ex [OF assms(1)] by (simp add: wfi_sleep_def wfi_waiting_def)
  then show not_ready: "\<not> s3_ready x h" using full by (simp add: s3_ready_def cfu_wait_def)
  have no: "\<not> raise_int x h" "\<not> wb_trap_cpu x h" "\<not> trapped x h" "\<not> cfu_mret h"
    using assms not_pending waiting_no_trap
    by (auto simp: raise_int_def wfi_waiting_def cfu_wfi_def cfu_mret_def)
  then have cf: "\<not> s3_cf_valid x h" "\<not> e_new_instr x h" "\<not> int_ack x h"
    using not_ready assms(1)
    by (simp_all add: s3_cf_valid_def trapped_def e_new_instr_def int_ack_def)
  show ret: "\<not> e_instr_ret x h" using cf no by (simp add: e_instr_ret_def)
  have s3: "h_s3 (hart_step x h) = (h_s3 h)\<lparr>s3_ls := (s3_ls (h_s3 h))\<lparr>p_lsu_req := dmem_req_w x \<and> dmem_gnt_w x\<rparr>\<rparr>"
    using cf assms(2) by (simp add: hart_step_def s3_step_def Let_def e_cf_change_def)
  have wf: "csrs_wf (h_csrs (hart_step x h))"
    using assms(1) by (simp add: hart_step_def csrs_step_wf wfi_waiting_def)
  have wb: "\<not> csr_en (wb_csr h)" "\<not> csr_wr (wb_csr h)" "\<not> wfi_wakeup x h"
    using assms(1,3) by (auto simp: wb_csr_def Let_def wfi_waiting_def csr_op_any_def wfi_wakeup_def)
  then show "wfi_waiting (hart_step x h)"
    using assms(1) wf s3 cf no
    by (simp add: wfi_waiting_def cfu_wfi_def csr_op_any_def trapped_def)
      (simp add: hart_step_def wb_reg_step_def Let_def trapped_def)
  show "mie_meie (h_csrs (hart_step x h)) = mie_meie (h_csrs h)"
    "mie_mtie (h_csrs (hart_step x h)) = mie_mtie (h_csrs h)"
    "mie_msie (h_csrs (hart_step x h)) = mie_msie (h_csrs h)"
    "reg_mstatus_mie (h_csrs (hart_step x h)) = reg_mstatus_mie (h_csrs h)"
    using assms(2) wb no cf
    by (simp_all add: h_csrs_step csrs_next_def Let_def wen_mie_def wen_def wen_mstatus_mie_def)
qed

lemma waiting_run:
  assumes "wfi_waiting h" "\<forall>x\<in>set xs. h_resetn x \<and> \<not> int_pending (h_int x)"
  shows "wfi_waiting (hart_run xs h) \<and>
    int_request i (h_csrs (hart_run xs h)) = int_request i (h_csrs h) \<and>
    (\<forall>k<length xs. wfi_sleep (xs ! k) (hart_run (take k xs) h) \<and>
       \<not> s3_ready (xs ! k) (hart_run (take k xs) h) \<and> \<not> e_instr_ret (xs ! k) (hart_run (take k xs) h))"
  using assms
proof (induction xs arbitrary: h)
  case (Cons x xs)
  have "h_resetn x" "\<not> int_pending (h_int x)" using Cons.prems(2) by simp_all
  note st = waiting_step [OF Cons.prems(1) this]
  have "int_request i (h_csrs (hart_step x h)) = int_request i (h_csrs h)"
    using st(5-8) by (simp add: int_request_def int_pend_ext_def int_pend_ti_def int_pend_sw_def)
  then show ?case
    using Cons.IH [OF st(4)] Cons.prems(2) st(1-3)
    by (auto simp: hart_run_def nth_Cons less_Suc_eq_0_disj split: nat.splits)
qed (simp add: hart_run_def)

text \<open>C36: A wait-for-interrupt instruction holds the pipeline for as long as no interrupt line is
  up, and releases it in the first cycle in which one is, enabled or not: the interrupt is raised
  at once if it is enabled, otherwise execution goes on.\<close>

theorem wfi_waits_for_interrupt:
  assumes "wfi_waiting h" "\<forall>x\<in>set xs. h_resetn x \<and> \<not> int_pending (h_int x)"
    "int_pending (h_int y)" "\<not> delay_int_request (h_wb (hart_run xs h))"
  shows "(\<forall>k<length xs. wfi_sleep (xs ! k) (hart_run (take k xs) h) \<and>
      \<not> s3_ready (xs ! k) (hart_run (take k xs) h) \<and> \<not> e_instr_ret (xs ! k) (hart_run (take k xs) h)) \<and>
    \<not> wfi_sleep y (hart_run xs h) \<and>
    (if int_request (h_int y) (h_csrs h) then raise_int y (hart_run xs h)
     else s3_ready y (hart_run xs h) \<and> \<not> s3_cf_valid y (hart_run xs h))"
proof -
  note run = waiting_run [OF assms(1,2), of "h_int y"]
  let ?g = "hart_run xs h"
  have sleep: "\<not> wfi_sleep y ?g" using assms(3) by (simp add: wfi_sleep_def)
  have raise: "raise_int y ?g = int_request (h_int y) (h_csrs h)"
    using run assms(4) by (simp add: raise_int_def)
  have g: "wfi_waiting ?g" using run by simp
  have "\<not> cfu_mret ?g" using g by (auto simp: wfi_waiting_def cfu_wfi_def cfu_mret_def)
  then have "s3_cf_valid y ?g = raise_int y ?g"
    using g waiting_no_trap [OF g] by (simp add: s3_cf_valid_def wfi_waiting_def)
  then show ?thesis using run sleep raise by (simp add: s3_ready_def cfu_wait_def)
qed

theorem wfi_waits_for_interrupt_witness:
  "raise_int (demo_in True False demo_mret True True)
     (hart_run [demo_in True False demo_mret True False] (demo_hart demo_csrs demo_wfi))"
proof -
  let ?h = "demo_hart demo_csrs demo_wfi" and ?x = "demo_in True False demo_mret True False"
  let ?y = "demo_in True False demo_mret True True"
  have "wfi_waiting ?h" "h_resetn ?x" "\<not> int_pending (h_int ?x)" "int_pending (h_int ?y)"
    "\<not> delay_int_request (h_wb (hart_run [?x] ?h))" "int_request (h_int ?y) (h_csrs ?h)"
    by code_simp+
  then show ?thesis using wfi_waits_for_interrupt [of ?h "[?x]" ?y] by simp
qed

section \<open>The state of the hart\<close>

text \<open>C30: After a reset, in every cycle: the hart is in exactly one privilege mode, memory is
  accessed as exactly one mode, the previous mode is a valid one, and the vector offset of any
  pending interrupt does not overlap the vector base, so that their disjunction is their sum.\<close>

theorem hart_state_valid:
  assumes "\<not> h_resetn x" "s = h_csrs (hart_run (x # xs) h)"
  shows "mode_m s \<noteq> mode_u s \<and> mstatus_mprv_m s \<noteq> mstatus_mprv_u s \<and>
    mstatus_mpp_m s \<noteq> mstatus_mpp_u s \<and> \<not> bit (reg_mtvec_mode s) 1 \<and>
    mtvec_offset i s AND mtvec_base s = 0 \<and> int_tvec i s = mtvec_base s + mtvec_offset i s"
  using hart_reset_wf [OF assms(1), of xs h, folded assms(2)] mtvec_disjoint [of s i] int_tvec_plus [of s i]
  by (auto simp: csrs_wf_def mtvec_ok_def mstatus_mprv_m_def mstatus_mprv_u_def mstatus_mpp_m_def
      mstatus_mpp_u_def MPP_M_def MPP_U_def and.commute)

theorem hart_state_valid_witness:
  "mode_m (h_csrs (hart_run [demo_in False False demo_mret True False] (demo_hart demo_csrs demo_mret))) \<noteq>
   mode_u (h_csrs (hart_run [demo_in False False demo_mret True False] (demo_hart demo_csrs demo_mret)))"
proof -
  have "\<not> h_resetn (demo_in False False demo_mret True False)" by code_simp
  from hart_state_valid [OF this refl, of "[]" "demo_hart demo_csrs demo_mret"]
  show ?thesis by blast
qed

text \<open>C37: User mode cannot be entered: whatever runs, the hart stays in machine mode, with the
  previous mode machine mode, and accesses memory as machine mode.\<close>

theorem user_mode_unreachable:
  assumes "\<not> h_resetn x" "s = h_csrs (hart_run (x # xs) h)"
  shows "mode_m s \<and> \<not> mode_u s \<and> reg_mstatus_mpp s = MPP_M \<and> mstatus_mprv_m s"
  using hart_reset_wf [OF assms(1), of xs h, folded assms(2)]
  by (auto simp: csrs_wf_def mstatus_mprv_m_def mstatus_mpp_m_def)

theorem user_mode_unreachable_witness:
  "mode_m (h_csrs (hart_run [demo_in False False demo_mret True False, demo_in True True demo_mret True False]
     (demo_hart demo_csrs demo_mret)))"
proof -
  have "\<not> h_resetn (demo_in False False demo_mret True False)" by code_simp
  from user_mode_unreachable [OF this refl, of "[demo_in True True demo_mret True False]" "demo_hart demo_csrs demo_mret"]
  show ?thesis by blast
qed

end
