(* ===== verification/Fetch.thy ===== *)
theory Fetch
  imports Prelude
begin

text \<open>
  The fetch stage: the fetch buffer (\<open>rtl/core/core_pipe_fetch_buffer.sv\<close>), the stage that fills
  it (\<open>core_pipe_fetch.sv\<close>) and the program counter of the decode stage that drains it
  (\<open>core_pipe_decode.sv\<close>). A \<open>_step\<close> function is a rising clock edge. \<open>fsys\<close> adds the memory
  side: a request granted in one cycle is answered in the next with the doubleword at its address.
\<close>

section \<open>Fetch buffer\<close>

record fbuf =
  depth :: "5 word"
  d_buffer :: "128 word"
  e_buffer :: u8

record fbuf_in =
  buf_flush :: bool
  fill_en :: bool
  data_in :: u64
  error_in :: bool
  fill_2 :: bool
  fill_4 :: bool
  fill_6 :: bool
  fill_8 :: bool
  drain_2 :: bool
  drain_4 :: bool

definition bd_add :: "fbuf_in \<Rightarrow> 4 word" where
  "bd_add x = push_bit 3 (of_bool (fill_8 x)) OR push_bit 2 (of_bool (fill_4 x \<or> fill_6 x)) OR
     push_bit 1 (of_bool (fill_2 x \<or> fill_6 x))"

definition bd_sub :: "fbuf_in \<Rightarrow> 4 word" where
  "bd_sub x = push_bit 2 (of_bool (drain_4 x)) OR push_bit 1 (of_bool (drain_2 x))"

definition n_depth :: "fbuf_in \<Rightarrow> fbuf \<Rightarrow> 5 word" where
  "n_depth x b = (if buf_flush x then 0 else depth b + ucast (bd_add x) - ucast (bd_sub x))"

definition shf_up :: "fbuf_in \<Rightarrow> fbuf \<Rightarrow> 5 word" where
  "shf_up x b = depth b - ucast (bd_sub x)"

definition update_buffer :: "fbuf_in \<Rightarrow> bool" where
  "update_buffer x \<longleftrightarrow>
     fill_en x \<and> (fill_2 x \<or> fill_4 x \<or> fill_6 x \<or> fill_8 x) \<or> drain_2 x \<or> drain_4 x"

definition n_d_buffer_in_pre_shift :: "fbuf_in \<Rightarrow> 128 word" where
  "n_d_buffer_in_pre_shift x =
     (if fill_2 x then ucast (drop_bit 48 (data_in x))
      else if fill_4 x then ucast (drop_bit 32 (data_in x))
      else if fill_6 x then ucast (drop_bit 16 (data_in x))
      else if fill_8 x then ucast (data_in x) else 0)"

definition n_e_buffer_in_pre_shift :: "fbuf_in \<Rightarrow> u8" where
  "n_e_buffer_in_pre_shift x =
     (if \<not> error_in x then 0 else if fill_2 x then mask 1 else if fill_4 x then mask 2
      else if fill_6 x then mask 3 else if fill_8 x then mask 4 else 0)"

definition n_d_buffer :: "fbuf_in \<Rightarrow> fbuf \<Rightarrow> 128 word" where
  "n_d_buffer x b =
     push_bit (8 * unat (shf_up x b)) (n_d_buffer_in_pre_shift x) OR
     (if drain_2 x then drop_bit 16 (d_buffer b) else if drain_4 x then drop_bit 32 (d_buffer b)
      else d_buffer b)"

definition n_e_buffer :: "fbuf_in \<Rightarrow> fbuf \<Rightarrow> u8" where
  "n_e_buffer x b =
     push_bit (unat (shf_up x b)) (n_e_buffer_in_pre_shift x) OR
     (if drain_2 x then drop_bit 1 (e_buffer b) else if drain_4 x then drop_bit 2 (e_buffer b)
      else e_buffer b)"

definition fbuf_step :: "bool \<Rightarrow> fbuf_in \<Rightarrow> fbuf \<Rightarrow> fbuf" where
  "fbuf_step resetn x b =
     (if \<not> resetn \<or> buf_flush x then \<lparr>depth = 0, d_buffer = 0, e_buffer = 0\<rparr>
      else if update_buffer x
      then \<lparr>depth = n_depth x b, d_buffer = n_d_buffer x b, e_buffer = n_e_buffer x b\<rparr>
      else b)"

definition buf_data_out :: "fbuf \<Rightarrow> u32" where "buf_data_out b = ucast (d_buffer b)"
definition buf_error_out :: "fbuf \<Rightarrow> 2 word" where "buf_error_out b = ucast (e_buffer b)"

section \<open>Fetch stage\<close>

type_synonym maddr = "39 word"

record fetch =
  imem_req :: bool
  imem_recv :: bool
  imem_addr :: maddr
  rsps_ignore :: "2 word"
  reqs_outstanding :: "2 word"
  buf_fill_2 :: bool
  buf_fill_4 :: bool
  buf_fill_6 :: bool
  buf_fill_8 :: bool
  first_req_post_cf :: bool
  f_buf :: fbuf
  s2_pc_reg :: maddr

record fetch_in =
  f_resetn :: bool
  cf_valid :: bool
  cf_target :: u64
  imem_gnt :: bool
  imem_err :: bool
  imem_rdata :: u64
  s2_ready :: bool

definition s1_i16bit :: "fetch \<Rightarrow> bool" where
  "s1_i16bit s \<longleftrightarrow> depth (f_buf s) \<ge> 2 \<and> take_bit 2 (buf_data_out (f_buf s)) \<noteq> 3"

definition s1_i32bit :: "fetch \<Rightarrow> bool" where
  "s1_i32bit s \<longleftrightarrow> depth (f_buf s) \<ge> 4 \<and> take_bit 2 (buf_data_out (f_buf s)) = 3"

definition s1_instr :: "fetch \<Rightarrow> u32" where "s1_instr s = buf_data_out (f_buf s)"
definition s1_ferr :: "fetch \<Rightarrow> 2 word" where "s1_ferr s = buf_error_out (f_buf s)"

definition s1_eat_2 :: "fetch_in \<Rightarrow> fetch \<Rightarrow> bool" where "s1_eat_2 x s \<longleftrightarrow> s1_i16bit s \<and> s2_ready x"
definition s1_eat_4 :: "fetch_in \<Rightarrow> fetch \<Rightarrow> bool" where "s1_eat_4 x s \<longleftrightarrow> s1_i32bit s \<and> s2_ready x"

definition f_cf_ack :: "fetch_in \<Rightarrow> fetch \<Rightarrow> bool" where
  "f_cf_ack x s \<longleftrightarrow> imem_req s \<and> imem_gnt x \<or> \<not> imem_req s"

definition f_cf_change :: "fetch_in \<Rightarrow> fetch \<Rightarrow> bool" where
  "f_cf_change x s \<longleftrightarrow> cf_valid x \<and> f_cf_ack x s"

definition e_imem_req :: "fetch_in \<Rightarrow> fetch \<Rightarrow> bool" where
  "e_imem_req x s \<longleftrightarrow> imem_req s \<and> imem_gnt x"

definition ignore_rsp :: "fetch \<Rightarrow> bool" where "ignore_rsp s \<longleftrightarrow> rsps_ignore s \<noteq> 0"

definition f_buf_in :: "fetch_in \<Rightarrow> fetch \<Rightarrow> fbuf_in" where
  "f_buf_in x s =
     \<lparr>buf_flush = f_cf_change x s, fill_en = (imem_recv s \<and> \<not> ignore_rsp s),
      data_in = imem_rdata x, error_in = imem_err x, fill_2 = buf_fill_2 s, fill_4 = buf_fill_4 s,
      fill_6 = buf_fill_6 s, fill_8 = buf_fill_8 s, drain_2 = s1_eat_2 x s, drain_4 = s1_eat_4 x s\<rparr>"

definition buf_ready :: "fetch_in \<Rightarrow> fetch \<Rightarrow> bool" where
  "buf_ready x s \<longleftrightarrow> n_depth (f_buf_in x s) (f_buf s) \<le> 8 \<and> \<not> e_imem_req x s"

definition n_imem_req :: "fetch_in \<Rightarrow> fetch \<Rightarrow> bool" where
  "n_imem_req x s \<longleftrightarrow> buf_ready x s \<or> imem_req s \<and> \<not> imem_gnt x \<or> f_cf_change x s"

definition n_reqs_outstanding :: "fetch_in \<Rightarrow> fetch \<Rightarrow> 2 word" where
  "n_reqs_outstanding x s =
     reqs_outstanding s + of_bool (e_imem_req x s) - of_bool (imem_recv s)"

definition n_fill :: "fetch_in \<Rightarrow> fetch \<Rightarrow> bool \<Rightarrow> 3 word \<Rightarrow> bool \<Rightarrow> bool" where
  "n_fill x s old off full =
     (if f_cf_change x s then (ucast (cf_target x) :: 3 word) = off
      else if ignore_rsp s \<or> first_req_post_cf s then old
      else if e_imem_req x s then full else False)"

definition s2_npc :: "fetch \<Rightarrow> maddr" where
  "s2_npc s = s2_pc_reg s +
     (push_bit 2 (of_bool (s1_i32bit s)) OR push_bit 1 (of_bool (s1_i16bit s)))"

definition fetch_step :: "maddr \<Rightarrow> fetch_in \<Rightarrow> fetch \<Rightarrow> fetch" where
  "fetch_step PC_RESET_ADDRESS x s =
     (let r = f_resetn x; cf = f_cf_change x s in
      \<lparr>imem_req = (r \<and> n_imem_req x s),
       imem_recv = (r \<and> imem_req s \<and> imem_gnt x),
       imem_addr =
         (if \<not> r then PC_RESET_ADDRESS
          else if cf then push_bit 3 (ucast (drop_bit 3 (cf_target x)))
          else if e_imem_req x s then imem_addr s + 8 else imem_addr s),
       rsps_ignore =
         (if \<not> r then 0
          else if rsps_ignore s \<noteq> 0 then rsps_ignore s - 1 + of_bool cf
          else if cf then n_reqs_outstanding x s else rsps_ignore s),
       reqs_outstanding = (if \<not> r then 0 else n_reqs_outstanding x s),
       buf_fill_2 = (r \<and> n_fill x s (buf_fill_2 s) 6 False),
       buf_fill_4 = (r \<and> n_fill x s (buf_fill_4 s) 4 False),
       buf_fill_6 = (r \<and> n_fill x s (buf_fill_6 s) 2 False),
       buf_fill_8 = (r \<and> n_fill x s (buf_fill_8 s) 0 True),
       first_req_post_cf =
         (r \<and> (if first_req_post_cf s then \<not> e_imem_req x s else cf)),
       f_buf = fbuf_step r (f_buf_in x s) (f_buf s),
       s2_pc_reg =
         (if \<not> r then PC_RESET_ADDRESS else if cf then ucast (cf_target x)
          else if s1_eat_2 x s \<or> s1_eat_4 x s then s2_npc s else s2_pc_reg s)\<rparr>)"

section \<open>Fetching from a memory\<close>

text \<open>
  The inputs of a cycle that the rest of the core and the memory choose freely; the response data
  is what the memory holds at the address of the request granted in the cycle before.
\<close>

record fetch_env =
  fe_cf_valid :: bool
  fe_cf_target :: u64
  fe_gnt :: bool
  fe_err :: bool
  fe_ready :: bool

record fsys =
  fs_fetch :: fetch
  fs_rsp_addr :: maddr

definition fsys_in :: "(maddr \<Rightarrow> u64) \<Rightarrow> fetch_env \<Rightarrow> fsys \<Rightarrow> fetch_in" where
  "fsys_in mem e y =
     \<lparr>f_resetn = True, cf_valid = fe_cf_valid e, cf_target = fe_cf_target e, imem_gnt = fe_gnt e,
      imem_err = fe_err e, imem_rdata = mem (fs_rsp_addr y), s2_ready = fe_ready e\<rparr>"

definition fsys_step :: "(maddr \<Rightarrow> u64) \<Rightarrow> maddr \<Rightarrow> fetch_env \<Rightarrow> fsys \<Rightarrow> fsys" where
  "fsys_step mem pc0 e y =
     (let x = fsys_in mem e y in
      \<lparr>fs_fetch = fetch_step pc0 x (fs_fetch y),
       fs_rsp_addr = (if e_imem_req x (fs_fetch y) then imem_addr (fs_fetch y) else fs_rsp_addr y)\<rparr>)"

definition fetch_reset :: "maddr \<Rightarrow> fetch" where
  "fetch_reset pc0 =
     \<lparr>imem_req = False, imem_recv = False, imem_addr = pc0, rsps_ignore = 0, reqs_outstanding = 0,
      buf_fill_2 = False, buf_fill_4 = False, buf_fill_6 = False, buf_fill_8 = False,
      first_req_post_cf = False, f_buf = \<lparr>depth = 0, d_buffer = 0, e_buffer = 0\<rparr>, s2_pc_reg = pc0\<rparr>"

lemma fetch_step_reset: "\<not> f_resetn x \<Longrightarrow> fetch_step pc0 x s = fetch_reset pc0"
  by (simp add: fetch_step_def fetch_reset_def Let_def fbuf_step_def)

end
