(* ===== verification/Fetch_Buf.thy ===== *)
theory Fetch_Buf
  imports Fetch
begin

text \<open>
  The fetch buffer is a queue of halfwords: \<open>halves\<close> is the abstraction, \<open>buf_inv\<close> the invariant
  and \<open>buf_legal\<close> the contract of the stage that drives the buffer. The lemmas give depth and
  contents after a step bit by bit; the locale \<open>halfword_queue\<close> states what the fetch stage needs.
\<close>

section \<open>Contract\<close>

definition drained :: "fbuf_in \<Rightarrow> nat" where
  "drained x = (if drain_2 x then 2 else if drain_4 x then 4 else 0)"

definition filled :: "fbuf_in \<Rightarrow> nat" where
  "filled x =
     (if \<not> fill_en x then 0 else if fill_2 x then 2 else if fill_4 x then 4
      else if fill_6 x then 6 else if fill_8 x then 8 else 0)"

definition buf_inv :: "fbuf \<Rightarrow> bool" where
  "buf_inv b \<longleftrightarrow>
     even (unat (depth b)) \<and> unat (depth b) \<le> 16 \<and>
     (\<forall>n \<ge> 8 * unat (depth b). \<not> bit (d_buffer b) n)"

definition buf_legal :: "fbuf_in \<Rightarrow> fbuf \<Rightarrow> bool" where
  "buf_legal x b \<longleftrightarrow>
     of_bool (fill_2 x) + of_bool (fill_4 x) + of_bool (fill_6 x) + of_bool (fill_8 x) \<le> (1 :: nat) \<and>
     \<not> (drain_2 x \<and> drain_4 x) \<and>
     (fill_2 x \<or> fill_4 x \<or> fill_6 x \<or> fill_8 x \<longrightarrow> fill_en x \<or> \<not> drain_2 x \<and> \<not> drain_4 x) \<and>
     drained x \<le> unat (depth b) \<and> unat (depth b) + filled x \<le> 16 + drained x"

definition halves :: "fbuf \<Rightarrow> 16 word list" where
  "halves b = map (\<lambda>k. ucast (drop_bit (16 * k) (d_buffer b))) [0..<unat (depth b) div 2]"

text \<open>The last \<open>n\<close> bytes of a doubleword, as halfwords.\<close>

definition last_halves :: "u64 \<Rightarrow> nat \<Rightarrow> 16 word list" where
  "last_halves w n = map (\<lambda>k. ucast (drop_bit (16 * k) w)) [(8 - n) div 2..<4]"

section \<open>One step\<close>

definition filling :: "fbuf_in \<Rightarrow> bool" where
  "filling x \<longleftrightarrow> fill_2 x \<or> fill_4 x \<or> fill_6 x \<or> fill_8 x"

lemma unat_bd_add:
  assumes "buf_legal x b" "filling x \<longrightarrow> fill_en x"
  shows "unat (ucast (bd_add x) :: 5 word) = filled x"
  using assms by (auto simp: buf_legal_def filling_def bd_add_def filled_def of_bool_def split: if_splits)

lemma unat_bd_sub: "buf_legal x b \<Longrightarrow> unat (ucast (bd_sub x) :: 5 word) = drained x"
  by (auto simp: buf_legal_def bd_sub_def drained_def)

lemma unat_shf_up:
  assumes "buf_legal x b"
  shows "unat (shf_up x b) = unat (depth b) - drained x"
proof -
  have "ucast (bd_sub x) \<le> depth b"
    using assms unat_bd_sub [OF assms] by (simp add: word_le_nat_alt buf_legal_def)
  then show ?thesis
    using unat_bd_sub [OF assms] by (simp add: shf_up_def unat_sub)
qed

lemma unat_n_depth:
  assumes "buf_legal x b" "filling x \<longrightarrow> fill_en x" "\<not> buf_flush x" "unat (depth b) \<le> 16"
  shows "unat (n_depth x b) = unat (depth b) - drained x + filled x"
proof -
  have "filled x \<le> 8" by (simp add: filled_def)
  then have d: "unat (depth b + ucast (bd_add x)) = unat (depth b) + filled x"
    using assms(4) unat_bd_add [OF assms(1,2)] by (simp add: unat_add_lem [THEN iffD1])
  have "ucast (bd_sub x) \<le> depth b + ucast (bd_add x)"
    using assms(1) unat_bd_sub [OF assms(1)] d by (simp add: word_le_nat_alt buf_legal_def)
  then show ?thesis
    using unat_bd_sub [OF assms(1)] d assms(1,3) by (simp add: n_depth_def unat_sub buf_legal_def)
qed

lemma bit_pre_shift:
  assumes "buf_legal x b" "filling x \<longrightarrow> fill_en x"
  shows "bit (n_d_buffer_in_pre_shift x) m \<longleftrightarrow>
    m < 8 * filled x \<and> bit (data_in x) (64 - 8 * filled x + m)"
  using assms
  by (auto simp: buf_legal_def filling_def n_d_buffer_in_pre_shift_def filled_def bit_ucast_iff
      bit_drop_bit_eq add.commute split: if_splits dest: bit_imp_le_length)

lemma bit_n_d_buffer:
  assumes "buf_legal x b" "filling x \<longrightarrow> fill_en x"
  shows "bit (n_d_buffer x b) n \<longleftrightarrow>
    bit (d_buffer b) (n + 8 * drained x) \<or>
    n < 128 \<and> 8 * (unat (depth b) - drained x) \<le> n \<and>
      n - 8 * (unat (depth b) - drained x) < 8 * filled x \<and>
      bit (data_in x) (64 - 8 * filled x + (n - 8 * (unat (depth b) - drained x)))"
proof -
  have "bit (if drain_2 x then drop_bit 16 (d_buffer b) else if drain_4 x then drop_bit 32 (d_buffer b)
      else d_buffer b) n \<longleftrightarrow> bit (d_buffer b) (n + 8 * drained x)"
    by (simp add: drained_def bit_drop_bit_eq add.commute)
  then show ?thesis
    unfolding n_d_buffer_def bit_or_iff bit_push_bit_iff unat_shf_up [OF assms(1)]
      bit_pre_shift [OF assms] by auto
qed

text \<open>A step that does not flush: the buffer is updated as by its next values, even if it is idle.\<close>

lemma fbuf_step_values:
  assumes "buf_inv b" "buf_legal x b" "\<not> buf_flush x"
  shows "unat (depth (fbuf_step True x b)) = unat (depth b) - drained x + filled x"
    "bit (d_buffer (fbuf_step True x b)) n \<longleftrightarrow>
      bit (d_buffer b) (n + 8 * drained x) \<or>
      n < 128 \<and> 8 * (unat (depth b) - drained x) \<le> n \<and>
        n - 8 * (unat (depth b) - drained x) < 8 * filled x \<and>
        bit (data_in x) (64 - 8 * filled x + (n - 8 * (unat (depth b) - drained x)))"
proof -
  have le: "unat (depth b) \<le> 16" using assms(1) by (simp add: buf_inv_def)
  have idle: "drained x = 0" "filled x = 0" if "\<not> update_buffer x"
    using that by (auto simp: update_buffer_def drained_def filled_def)
  have fe: "filling x \<longrightarrow> fill_en x" if "update_buffer x"
    using that assms(2) by (auto simp: update_buffer_def filling_def buf_legal_def)
  show "unat (depth (fbuf_step True x b)) = unat (depth b) - drained x + filled x"
    using idle fe unat_n_depth [OF assms(2) _ assms(3) le] assms(3)
    by (cases "update_buffer x") (simp_all add: fbuf_step_def)
  show "bit (d_buffer (fbuf_step True x b)) n \<longleftrightarrow>
      bit (d_buffer b) (n + 8 * drained x) \<or>
      n < 128 \<and> 8 * (unat (depth b) - drained x) \<le> n \<and>
        n - 8 * (unat (depth b) - drained x) < 8 * filled x \<and>
        bit (data_in x) (64 - 8 * filled x + (n - 8 * (unat (depth b) - drained x)))"
    using idle fe bit_n_d_buffer [OF assms(2)] assms(3)
    by (cases "update_buffer x") (simp_all add: fbuf_step_def)
qed

text \<open>The same in halfwords: \<open>m\<close> are drained, \<open>f\<close> are filled in.\<close>

lemma even_moves: "even (drained x)" "even (filled x)" "filled x \<le> 8" "drained x \<le> 4"
  by (simp_all add: drained_def filled_def)

lemma fbuf_step_bits:
  assumes "buf_inv b" "buf_legal x b" "\<not> buf_flush x"
    "unat (depth b) = 2 * D" "drained x = 2 * m" "filled x = 2 * f" "j < 16"
  shows "unat (depth (fbuf_step True x b)) = 2 * (D - m + f)" "m \<le> D" "D - m + f \<le> 8" "f \<le> 4"
    "bit (d_buffer (fbuf_step True x b)) (16 * k + j) \<longleftrightarrow>
      (if k < D - m then bit (d_buffer b) (16 * (k + m) + j)
       else k < D - m + f \<and> bit (data_in x) (64 - 16 * f + 16 * (k - (D - m)) + j))"
proof -
  note v = fbuf_step_values [OF assms(1-3)]
  show m: "m \<le> D" "D - m + f \<le> 8" "f \<le> 4"
  proof -
    have "2 * m \<le> 2 * D" "2 * D + 2 * f \<le> 16 + 2 * m" using assms(2,4-6) by (simp_all add: buf_legal_def)
    then show "m \<le> D" "D - m + f \<le> 8" by linarith+
    show "f \<le> 4" using assms(6) even_moves(3) [of x] by simp
  qed
  show "unat (depth (fbuf_step True x b)) = 2 * (D - m + f)" using v(1) assms(4-6) by simp
  have above: "\<not> bit (d_buffer b) n" if "16 * D \<le> n" for n
    using that assms(1,4) by (simp add: buf_inv_def)
  show "bit (d_buffer (fbuf_step True x b)) (16 * k + j) \<longleftrightarrow>
      (if k < D - m then bit (d_buffer b) (16 * (k + m) + j)
       else k < D - m + f \<and> bit (data_in x) (64 - 16 * f + 16 * (k - (D - m)) + j))"
  proof (cases "k < D - m")
    case True
    then have "16 * k + j < 16 * (D - m)" using assms(7) by linarith
    moreover have "8 * (2 * D - 2 * m) = 16 * (D - m)" by simp
    ultimately have "\<not> 8 * (2 * D - 2 * m) \<le> 16 * k + j" by linarith
    moreover have "16 * (k + m) + j = 16 * k + j + 8 * (2 * m)" by simp
    ultimately show ?thesis using True unfolding v(2) assms(4-6) by (simp only: if_True) simp
  next
    case False
    then obtain i where i: "k = D - m + i" by (metis le_add_diff_inverse not_le)
    have old: "\<not> bit (d_buffer b) (16 * k + j + 8 * (2 * m))" using i m above by simp
    have "16 * k + j < 128" if "i < f" using that i m assms(7) by simp
    then show ?thesis
      using old i assms(7) unfolding v(2) assms(4-6) by (auto simp: algebra_simps)
  qed
qed

lemma halves_count:
  assumes "buf_inv b"
  obtains D m f where "unat (depth b) = 2 * D" "drained x = 2 * m" "filled x = 2 * f"
  using assms even_moves [of x] by (auto simp: buf_inv_def elim!: evenE)

lemma fbuf_step_inv:
  assumes "buf_inv b" "buf_legal x b"
  shows "buf_inv (fbuf_step True x b)"
proof (cases "buf_flush x")
  case False
  obtain D m f where c: "unat (depth b) = 2 * D" "drained x = 2 * m" "filled x = 2 * f"
    using halves_count [OF assms(1)] by metis
  note v = fbuf_step_bits [OF assms False c]
  have "\<not> bit (d_buffer (fbuf_step True x b)) n" if "n \<ge> 8 * unat (depth (fbuf_step True x b))" for n
  proof -
    have "n = 16 * (n div 16) + n mod 16" by simp
    moreover have "D - m + f \<le> n div 16" using that v(1) [of 0] by simp
    ultimately show ?thesis using v(5) [of "n mod 16" "n div 16"] by simp
  qed
  moreover have "2 * (D - m + f) \<le> 16" using v(3) [of 0] by simp
  ultimately show ?thesis using v(1) [of 0] by (simp add: buf_inv_def)
qed (simp add: fbuf_step_def buf_inv_def)

lemma halves_nth:
  assumes "k < length (halves b)"
  shows "bit (halves b ! k) j \<longleftrightarrow> j < 16 \<and> bit (d_buffer b) (16 * k + j)"
  using assms by (simp add: halves_def bit_ucast_iff bit_drop_bit_eq)

lemma last_halves_nth:
  assumes "f \<le> 4" "k < f"
  shows "bit (last_halves w (2 * f) ! k) j \<longleftrightarrow> j < 16 \<and> bit w (64 - 16 * f + 16 * k + j)"
proof -
  have i: "(8 - 2 * f) div 2 = 4 - f" using assms by simp
  have "16 * (4 - f + k) + j = 64 - 16 * f + 16 * k + j" using assms by (simp add: diff_mult_distrib2)
  moreover have "[4 - f..<4] ! k = 4 - f + k" using assms by simp
  ultimately show ?thesis
    using assms by (simp add: last_halves_def i bit_ucast_iff bit_drop_bit_eq del: nth_upt)
qed

lemma length_halves: "length (halves b) = unat (depth b) div 2"
  by (simp add: halves_def)

lemma length_last_halves: "f \<le> 4 \<Longrightarrow> length (last_halves w (2 * f)) = f"
  by (simp add: last_halves_def)

lemma fbuf_step_halves:
  assumes "buf_inv b" "buf_legal x b"
  shows "halves (fbuf_step True x b) =
    (if buf_flush x then [] else drop (drained x div 2) (halves b) @ last_halves (data_in x) (filled x))"
proof (cases "buf_flush x")
  case False
  obtain D m f where c: "unat (depth b) = 2 * D" "drained x = 2 * m" "filled x = 2 * f"
    using halves_count [OF assms(1)] by metis
  note v = fbuf_step_bits [OF assms False c]
  let ?b = "fbuf_step True x b"
  have len: "length (halves ?b) = D - m + f" "length (halves b) = D"
    "length (last_halves (data_in x) (2 * f)) = f"
    using v(1,4) [of 0] c by (simp_all add: length_halves length_last_halves)
  have "halves ?b = drop m (halves b) @ last_halves (data_in x) (2 * f)"
  proof (rule nth_equalityI)
    show "length (halves ?b) = length (drop m (halves b) @ last_halves (data_in x) (2 * f))"
      using len by simp
    fix k assume k: "k < length (halves ?b)"
    show "halves ?b ! k = (drop m (halves b) @ last_halves (data_in x) (2 * f)) ! k"
    proof (rule bit_word_eqI)
      fix j assume "j < LENGTH(16)"
      then have j: "j < 16" by simp
      show "bit (halves ?b ! k) j =
          bit ((drop m (halves b) @ last_halves (data_in x) (2 * f)) ! k) j"
      proof (cases "k < D - m")
        case True
        then have "bit (halves b ! (k + m)) j = bit (d_buffer b) (16 * (k + m) + j)"
          using halves_nth [of "k + m" b j] len j by simp
        then show ?thesis
          using True len k j v(5) [OF j, of k] v(2) halves_nth [OF k, of j]
          by (simp add: nth_append add.commute)
      next
        case no: False
        then have "k - (D - m) < f" using k len by simp
        then show ?thesis
          using no len k j v(4) v(5) [OF j, of k] halves_nth [OF k, of j]
            last_halves_nth [of f "k - (D - m)" "data_in x" j]
          by (simp add: nth_append)
      qed
    qed
  qed
  then show ?thesis using False c by simp
qed (simp add: fbuf_step_def halves_def)

section \<open>The interface: a queue of halfwords\<close>

text \<open>
  What the fetch stage relies on: a legal step drops a prefix and appends new elements, unless it
  flushes. Over a run without a flush the elements come out in the order in which they came in.
\<close>

locale halfword_queue =
  fixes step :: "'i \<Rightarrow> 'b \<Rightarrow> 'b"
    and inv :: "'b \<Rightarrow> bool"
    and ok :: "'i \<Rightarrow> 'b \<Rightarrow> bool"
    and view :: "'b \<Rightarrow> 'h list"
    and flushes :: "'i \<Rightarrow> bool"
    and takes :: "'i \<Rightarrow> nat"
    and gives :: "'i \<Rightarrow> 'h list"
  assumes inv_step: "inv b \<Longrightarrow> ok x b \<Longrightarrow> inv (step x b)"
    and view_step: "inv b \<Longrightarrow> ok x b \<Longrightarrow>
      view (step x b) = (if flushes x then [] else drop (takes x) (view b) @ gives x)"
    and enough: "inv b \<Longrightarrow> ok x b \<Longrightarrow> takes x \<le> length (view b)"
begin

fun ok_run :: "'i list \<Rightarrow> 'b \<Rightarrow> bool" where
  "ok_run [] b \<longleftrightarrow> True"
| "ok_run (x # xs) b \<longleftrightarrow> ok x b \<and> \<not> flushes x \<and> ok_run xs (step x b)"

lemma run_inv: "inv b \<Longrightarrow> ok_run xs b \<Longrightarrow> inv (fold step xs b)"
  by (induction xs arbitrary: b) (simp_all add: inv_step)

lemma run_fifo:
  "inv b \<Longrightarrow> ok_run xs b \<Longrightarrow>
   view (fold step xs b) = drop (sum_list (map takes xs)) (view b @ concat (map gives xs))"
proof (induction xs arbitrary: b)
  case (Cons x xs)
  have ok: "ok x b" "\<not> flushes x" "ok_run xs (step x b)" using Cons.prems(2) by simp_all
  have "view (fold step xs (step x b)) =
      drop (sum_list (map takes xs)) (view (step x b) @ concat (map gives xs))"
    using Cons.IH [OF inv_step [OF Cons.prems(1) ok(1)] ok(3)] .
  also have "view (step x b) @ concat (map gives xs) =
      drop (takes x) (view b @ concat (map gives (x # xs)))"
    using view_step [OF Cons.prems(1) ok(1)] enough [OF Cons.prems(1) ok(1)] ok(2) by simp
  finally show ?case by (simp only: fold_simps drop_drop list.map sum_list.Cons add.commute)
qed simp

end

interpretation buf: halfword_queue "fbuf_step True" buf_inv buf_legal halves buf_flush
  "\<lambda>x. drained x div 2" "\<lambda>x. last_halves (data_in x) (filled x)"
proof unfold_locales
  fix b x assume "buf_inv b" "buf_legal x b"
  then show "buf_inv (fbuf_step True x b)"
    "halves (fbuf_step True x b) = (if buf_flush x then []
      else drop (drained x div 2) (halves b) @ last_halves (data_in x) (filled x))"
    by (rule fbuf_step_inv fbuf_step_halves)+
  show "drained x div 2 \<le> length (halves b)"
    using \<open>buf_legal x b\<close> by (simp add: length_halves buf_legal_def div_le_mono)
qed

end
