(* ===== verification/Fetch_Props.thy ===== *)
theory Fetch_Props
  imports Fetch_Buf
begin

text \<open>
  What the fetch stage promises the decoder: the instruction it offers is the one that memory
  holds at the program counter, whatever the memory grants and whenever control flow changes.
  \<open>fetch_inv\<close> is the invariant, one case per phase of a fetch: waiting for the next request
  (\<open>steady\<close>), a response due (\<open>arriving\<close>), the first request after a control flow change
  (\<open>redirected\<close>), and the same when two changes meet (\<open>redirected_twice\<close>).
\<close>

section \<open>Memory by halfwords\<close>

definition half :: "(maddr \<Rightarrow> u64) \<Rightarrow> maddr \<Rightarrow> 16 word" where
  "half mem a = ucast (drop_bit (8 * unat (take_bit 3 a)) (mem (a AND NOT 7)))"

definition stream :: "(maddr \<Rightarrow> u64) \<Rightarrow> maddr \<Rightarrow> nat \<Rightarrow> 16 word list" where
  "stream mem a n = map (\<lambda>k. half mem (a + of_nat (2 * k))) [0..<n]"

lemma stream_append: "stream mem a (m + n) = stream mem a m @ stream mem (a + of_nat (2 * m)) n"
proof -
  have "[0..<m + n] = [0..<m] @ map (\<lambda>k. k + m) [0..<n]"
    using upt_add_eq_append [of 0 m n] map_add_upt [of m n] by (simp add: add.commute [of n m])
  then show ?thesis by (simp add: stream_def algebra_simps)
qed

lemma drop_stream: "m \<le> n \<Longrightarrow> drop m (stream mem a n) = stream mem (a + of_nat (2 * m)) (n - m)"
  using stream_append [of mem a m "n - m"] by (simp add: stream_def)

lemma aligned_offset:
  fixes a :: maddr
  assumes "take_bit 3 a = 0" "k < 8"
  shows "unat (take_bit 3 (a + of_nat k)) = k" "(a + of_nat k) AND NOT 7 = a"
proof -
  have k: "take_bit 3 (of_nat k :: maddr) = of_nat k"
    using assms(2) by (simp add: take_bit_of_nat take_bit_nat_eq_self)
  have "a AND of_nat k = 0"
    using and_low_zero [OF assms(1) k [symmetric]] .
  then have o: "a + of_nat k = a OR of_nat k" by (simp add: disjunctive_add_eq_or)
  have "take_bit 3 (a OR of_nat k) = of_nat k" by (simp add: assms(1) k)
  moreover have "unat (of_nat k :: maddr) = k" using assms(2) by (simp add: unat_of_nat_id)
  ultimately show "unat (take_bit 3 (a + of_nat k)) = k" using o by simp
  have m: "(7 :: maddr) = mask 3" by (simp add: mask_eq_exp_minus_1)
  have "\<not> bit a n" if "n < 3" for n using assms(1) that by (simp add: take_bit_0_iff)
  moreover have "\<not> bit (of_nat k :: maddr) n" if "3 \<le> n" for n
    using that by (subst k [symmetric]) (simp add: bit_take_bit_iff)
  ultimately show "(a + of_nat k) AND NOT 7 = a"
    unfolding o m by (intro bit_word_eqI) (auto simp: bit_and_iff bit_or_iff bit_not_iff bit_mask_iff)
qed

lemma last_halves_stream:
  fixes a :: maddr
  assumes "take_bit 3 a = 0" "f \<le> 4"
  shows "last_halves (mem a) (2 * f) = stream mem (a + of_nat (8 - 2 * f)) f"
proof (rule nth_equalityI)
  show "length (last_halves (mem a) (2 * f)) = length (stream mem (a + of_nat (8 - 2 * f)) f)"
    using assms(2) by (simp add: length_last_halves stream_def)
  fix k assume "k < length (last_halves (mem a) (2 * f))"
  then have k: "k < f" using assms(2) by (simp add: length_last_halves)
  let ?n = "8 - 2 * f + 2 * k"
  have n: "?n < 8" using k assms(2) by simp
  have "stream mem (a + of_nat (8 - 2 * f)) f ! k = half mem (a + of_nat ?n)"
    using k by (simp add: stream_def algebra_simps)
  also have "\<dots> = ucast (drop_bit (8 * ?n) (mem a))"
    using aligned_offset [OF assms(1) n] by (simp add: half_def)
  also have "\<dots> = last_halves (mem a) (2 * f) ! k"
  proof (rule bit_word_eqI)
    fix j assume "j < LENGTH(16)"
    moreover have "8 * ?n = 64 - 16 * f + 16 * k" using assms(2) by simp
    ultimately show "bit (ucast (drop_bit (8 * ?n) (mem a)) :: 16 word) j = bit (last_halves (mem a) (2 * f) ! k) j"
      using last_halves_nth [OF assms(2) k, of "mem a" j] by (simp add: bit_ucast_iff bit_drop_bit_eq)
  qed
  finally show "last_halves (mem a) (2 * f) ! k = stream mem (a + of_nat (8 - 2 * f)) f ! k" by simp
qed

section \<open>The buffer holds what memory holds at the program counter\<close>

definition holds :: "(maddr \<Rightarrow> u64) \<Rightarrow> maddr \<Rightarrow> fbuf \<Rightarrow> bool" where
  "holds mem pc b \<longleftrightarrow> buf_inv b \<and> halves b = stream mem pc (unat (depth b) div 2)"

lemma holds_step:
  assumes "holds mem pc b" "buf_legal x b" "\<not> buf_flush x"
    "filled x = 0 \<or> data_in x = mem a \<and> take_bit 3 a = 0 \<and>
       a + of_nat (8 - filled x) = pc + of_nat (unat (depth b))"
  shows "holds mem (pc + of_nat (drained x)) (fbuf_step True x b)"
    "unat (depth (fbuf_step True x b)) = unat (depth b) - drained x + filled x"
proof -
  have inv: "buf_inv b" "halves b = stream mem pc (unat (depth b) div 2)"
    using assms(1) by (simp_all add: holds_def)
  obtain D m f where c: "unat (depth b) = 2 * D" "drained x = 2 * m" "filled x = 2 * f"
    using halves_count [OF inv(1)] by metis
  note v = fbuf_step_bits [OF inv(1) assms(2,3) c]
  show "unat (depth (fbuf_step True x b)) = unat (depth b) - drained x + filled x"
    using v(1) [of 0] c by simp
  have m: "m \<le> D" "f \<le> 4" using v(2,4) [of 0] by simp_all
  have new: "last_halves (data_in x) (2 * f) = stream mem (pc + of_nat (2 * D)) f"
  proof (cases "f = 0")
    case False
    then have "data_in x = mem a" "take_bit 3 a = 0" "a + of_nat (8 - 2 * f) = pc + of_nat (2 * D)"
      using assms(4) c by simp_all
    then show ?thesis using last_halves_stream [of a f mem] m by simp
  qed (simp add: last_halves_def stream_def)
  have "halves (fbuf_step True x b) = drop m (stream mem pc D) @ stream mem (pc + of_nat (2 * D)) f"
    using buf.view_step [OF inv(1) assms(2)] assms(3) c inv(2) new by simp
  also have "\<dots> = stream mem (pc + of_nat (2 * m)) (D - m + f)"
    using stream_append [of mem "pc + of_nat (2 * m)" "D - m" f] drop_stream [OF m(1), of mem pc] m(1)
    by (simp add: algebra_simps of_nat_diff)
  finally show "holds mem (pc + of_nat (drained x)) (fbuf_step True x b)"
    using buf.inv_step [OF inv(1) assms(2)] v(1) [of 0] c by (simp add: holds_def)
qed

section \<open>The invariant of the fetch stage\<close>

abbreviation dep :: "fetch \<Rightarrow> nat" where "dep s \<equiv> unat (depth (f_buf s))"

definition flags :: "fetch \<Rightarrow> nat \<Rightarrow> bool" where
  "flags s n \<longleftrightarrow>
     (buf_fill_2 s \<longleftrightarrow> n = 2) \<and> (buf_fill_4 s \<longleftrightarrow> n = 4) \<and>
     (buf_fill_6 s \<longleftrightarrow> n = 6) \<and> (buf_fill_8 s \<longleftrightarrow> n = 8)"

definition counted :: "(maddr \<Rightarrow> u64) \<Rightarrow> fetch \<Rightarrow> bool" where
  "counted mem s \<longleftrightarrow>
     holds mem (s2_pc_reg s) (f_buf s) \<and> reqs_outstanding s = of_bool (imem_recv s)"

definition steady :: "fetch \<Rightarrow> bool" where
  "steady s \<longleftrightarrow>
     \<not> first_req_post_cf s \<and> rsps_ignore s = 0 \<and> \<not> imem_recv s \<and>
     (flags s 0 \<or> flags s 8 \<and> dep s = 0) \<and>
     imem_addr s = s2_pc_reg s + of_nat (dep s) \<and> take_bit 3 (imem_addr s) = 0 \<and>
     (imem_req s \<longrightarrow> dep s \<le> 8)"

definition arriving :: "fsys \<Rightarrow> bool" where
  "arriving y \<longleftrightarrow>
     (let s = fs_fetch y in
      \<not> first_req_post_cf s \<and> rsps_ignore s = 0 \<and> imem_recv s \<and> \<not> imem_req s \<and> dep s \<le> 8 \<and>
      (\<exists>n\<in>{2, 4, 6, 8}. flags s n \<and>
         fs_rsp_addr y + of_nat (8 - n) = s2_pc_reg s + of_nat (dep s)) \<and>
      take_bit 3 (fs_rsp_addr y) = 0 \<and> imem_addr s = fs_rsp_addr y + 8)"

definition redirected :: "fetch \<Rightarrow> bool" where
  "redirected s \<longleftrightarrow>
     first_req_post_cf s \<and> imem_req s \<and> rsps_ignore s = of_bool (imem_recv s) \<and> dep s = 0 \<and>
     (\<exists>n\<in>{2, 4, 6, 8}. flags s n \<and> imem_addr s + of_nat (8 - n) = s2_pc_reg s) \<and>
     take_bit 3 (imem_addr s) = 0"

definition redirected_twice :: "fetch \<Rightarrow> bool" where
  "redirected_twice s \<longleftrightarrow>
     \<not> first_req_post_cf s \<and> imem_req s \<and> imem_recv s \<and> rsps_ignore s = 1 \<and> dep s = 0 \<and>
     flags s 8 \<and> imem_addr s = s2_pc_reg s \<and> take_bit 3 (imem_addr s) = 0"

definition fetch_inv :: "(maddr \<Rightarrow> u64) \<Rightarrow> fsys \<Rightarrow> bool" where
  "fetch_inv mem y \<longleftrightarrow>
     counted mem (fs_fetch y) \<and>
     (steady (fs_fetch y) \<or> arriving y \<or> redirected (fs_fetch y) \<or> redirected_twice (fs_fetch y))"

text \<open>
  What the rest of the core must respect: targets are even, and a change that meets the first
  request after another one goes to an aligned address.
\<close>

definition env_ok :: "fetch_env \<Rightarrow> fsys \<Rightarrow> bool" where
  "env_ok e y \<longleftrightarrow>
     (fe_cf_valid e \<longrightarrow> \<not> bit (fe_cf_target e) 0 \<and>
        (first_req_post_cf (fs_fetch y) \<longrightarrow> take_bit 3 (fe_cf_target e) = 0))"

section \<open>Control flow changes\<close>

lemma split_target:
  "(ucast (t :: u64) :: maddr) = push_bit 3 (ucast (drop_bit 3 t)) + of_nat (unat (take_bit 3 t))"
proof -
  have low: "(of_nat (unat (take_bit 3 t)) :: maddr) = take_bit 3 (ucast t)"
    by (rule bit_word_eqI) (auto simp: bit_take_bit_iff bit_ucast_iff)
  have high: "push_bit 3 (ucast (drop_bit 3 t)) = (ucast t :: maddr) AND NOT (mask 3)"
    by (rule bit_word_eqI)
      (auto simp: bit_push_bit_iff bit_ucast_iff bit_drop_bit_eq bit_and_iff bit_not_iff bit_mask_iff)
  show ?thesis
    unfolding low high by (subst disjunctive_add_eq_or)
      (auto intro!: bit_word_eqI simp: bit_and_iff bit_or_iff bit_not_iff bit_mask_iff bit_take_bit_iff)
qed

lemma target_low: "unat (take_bit 3 t) = unat t mod 8" for t :: u64
  by (simp add: take_bit_eq_mod unat_mod)

lemma addr_low: "unat (take_bit 3 a) = unat a mod 8" for a :: maddr
  by (simp add: take_bit_eq_mod unat_mod)

lemma low_bits_even:
  assumes "\<not> bit (t :: u64) 0"
  obtains n where "n \<in> {2, 4, 6, 8}" "unat t mod 8 = 8 - n"
proof -
  have "\<not> bit (unat t) 0" using assms by (simp add: bit_unsigned_iff)
  then have "even (unat t)" by (simp add: bit_0)
  then obtain m where "unat t = 2 * m" by (auto elim: evenE)
  then have m: "unat t mod 8 = 2 * (m mod 4)" by presburger
  have "m mod 4 \<in> {0, 1, 2, 3}" by auto
  then have "8 - unat t mod 8 \<in> {2, 4, 6, 8}" "unat t mod 8 = 8 - (8 - unat t mod 8)"
    unfolding m by auto
  then show thesis using that by blast
qed

lemma low_offset: "(ucast (t :: u64) :: 3 word) = off \<longleftrightarrow> unat t mod 8 = unat off"
  unfolding word_unat_eq_iff by (simp add: unsigned_ucast_eq take_bit_eq_mod)

lemma cf_step:
  assumes "counted mem s" "f_resetn x" "f_cf_change x s" "\<not> bit (cf_target x) 0"
    "rsps_ignore s = 0 \<or> rsps_ignore s = 1 \<and> imem_req s" "s' = fetch_step pc0 x s"
  shows "counted mem s'" "dep s' = 0" "imem_req s'" "rsps_ignore s' = of_bool (imem_recv s')"
    "imem_recv s' = e_imem_req x s" "take_bit 3 (imem_addr s') = 0"
    "first_req_post_cf s' = (first_req_post_cf s \<longrightarrow> \<not> e_imem_req x s)"
    "\<exists>n\<in>{2, 4, 6, 8}. flags s' n \<and> imem_addr s' + of_nat (8 - n) = s2_pc_reg s' \<and>
       (take_bit 3 (cf_target x) = 0 \<longrightarrow> n = 8)"
proof -
  let ?t = "cf_target x"
  have buf: "f_buf s' = \<lparr>depth = 0, d_buffer = 0, e_buffer = 0\<rparr>"
    using assms by (simp add: fetch_step_def Let_def fbuf_step_def f_buf_in_def)
  show "dep s' = 0" using buf by simp
  show "imem_req s'" using assms by (simp add: fetch_step_def Let_def n_imem_req_def)
  show recv: "imem_recv s' = e_imem_req x s"
    using assms by (simp add: fetch_step_def Let_def e_imem_req_def)
  have ack: "imem_req s \<Longrightarrow> e_imem_req x s"
    using assms(3) by (simp add: f_cf_change_def f_cf_ack_def e_imem_req_def)
  have out: "n_reqs_outstanding x s = of_bool (e_imem_req x s)"
    using assms(1) by (simp add: n_reqs_outstanding_def counted_def)
  show "rsps_ignore s' = of_bool (imem_recv s')"
    using assms ack recv out by (auto simp: fetch_step_def Let_def)
  show "counted mem s'"
    using recv out assms(2,6) unfolding counted_def holds_def buf
    by (simp add: buf_inv_def halves_def stream_def) (simp add: fetch_step_def Let_def)
  show "take_bit 3 (imem_addr s') = 0"
    using assms(2,3,6) by (simp add: fetch_step_def Let_def take_bit_push_bit)
  show "first_req_post_cf s' = (first_req_post_cf s \<longrightarrow> \<not> e_imem_req x s)"
    using assms(2,3,6) by (simp add: fetch_step_def Let_def)
  obtain n where n: "n \<in> {2, 4, 6, 8}" "unat ?t mod 8 = 8 - n"
    using low_bits_even [OF assms(4)] by blast
  have "flags s' n"
    using assms(2,3,6) n by (auto simp: flags_def fetch_step_def Let_def n_fill_def low_offset)
  moreover have "imem_addr s' + of_nat (8 - n) = s2_pc_reg s'"
    using assms(2,3,6) n(2) split_target [of ?t] by (simp add: fetch_step_def Let_def target_low)
  moreover have "take_bit 3 ?t = 0 \<longrightarrow> n = 8"
  proof
    assume "take_bit 3 ?t = 0"
    then have "unat ?t mod 8 = 0" using target_low [of ?t] by simp
    then show "n = 8" using n by auto
  qed
  ultimately show "\<exists>n\<in>{2, 4, 6, 8}. flags s' n \<and> imem_addr s' + of_nat (8 - n) = s2_pc_reg s' \<and>
       (take_bit 3 (cf_target x) = 0 \<longrightarrow> n = 8)" using n(1) by blast
qed

section \<open>Cycles without a control flow change\<close>

definition eaten :: "fetch_in \<Rightarrow> fetch \<Rightarrow> nat" where "eaten x s = drained (f_buf_in x s)"

lemma eaten_cases: "eaten x s = (if s1_eat_2 x s then 2 else if s1_eat_4 x s then 4 else 0)"
  by (simp add: eaten_def drained_def f_buf_in_def)

lemma eaten_le: "eaten x s \<le> dep s"
  by (auto simp: eaten_cases s1_eat_2_def s1_eat_4_def s1_i16bit_def s1_i32bit_def word_le_nat_alt)

lemma not_both: "\<not> (s1_i16bit s \<and> s1_i32bit s)"
  by (simp add: s1_i16bit_def s1_i32bit_def)

definition arrival :: "fetch \<Rightarrow> nat \<Rightarrow> nat" where
  "arrival s n = (if imem_recv s \<and> \<not> ignore_rsp s then n else 0)"

lemma legal_input:
  assumes "flags s n" "n \<in> {0, 2, 4, 6, 8}" "n \<noteq> 0 \<and> arrival s n = 0 \<longrightarrow> dep s = 0" "dep s \<le> 16"
    "arrival s n \<noteq> 0 \<longrightarrow> dep s \<le> 8"
  shows "buf_legal (f_buf_in x s) (f_buf s)" "filled (f_buf_in x s) = arrival s n"
proof -
  show fl: "filled (f_buf_in x s) = arrival s n"
    using assms(1,2) by (auto simp: filled_def f_buf_in_def arrival_def flags_def)
  have "\<not> (s1_eat_2 x s \<and> s1_eat_4 x s)" using not_both by (auto simp: s1_eat_2_def s1_eat_4_def)
  moreover have "n \<noteq> 0 \<and> arrival s n = 0 \<longrightarrow> \<not> s1_eat_2 x s \<and> \<not> s1_eat_4 x s"
    using assms(3) eaten_le [of x s] by (auto simp: eaten_cases split: if_splits)
  moreover have "arrival s n \<le> 8" using assms(2) by (auto simp: arrival_def)
  moreover have "of_bool (buf_fill_2 s) + of_bool (buf_fill_4 s) + of_bool (buf_fill_6 s) +
      of_bool (buf_fill_8 s) \<le> (1 :: nat)"
    using assms(1,2) by (auto simp: flags_def)
  moreover have "(buf_fill_2 s \<or> buf_fill_4 s \<or> buf_fill_6 s \<or> buf_fill_8 s) = (n \<noteq> 0)"
    using assms(1,2) by (auto simp: flags_def)
  ultimately show "buf_legal (f_buf_in x s) (f_buf s)"
    using eaten_le [of x s] assms(4,5) unfolding buf_legal_def fl
    by (auto simp: eaten_def f_buf_in_def arrival_def)
qed

lemma next_pc:
  assumes "f_resetn x" "\<not> f_cf_change x s"
  shows "s2_pc_reg (fetch_step pc0 x s) = s2_pc_reg s + of_nat (eaten x s)"
  using assms not_both [of s]
  by (auto simp: fetch_step_def Let_def eaten_cases s2_npc_def s1_eat_2_def s1_eat_4_def)

lemma nocf_buffer:
  assumes "counted mem s" "f_resetn x" "\<not> f_cf_change x s" "flags s n" "n \<in> {0, 2, 4, 6, 8}"
    "n \<noteq> 0 \<and> arrival s n = 0 \<longrightarrow> dep s = 0" "arrival s n \<noteq> 0 \<longrightarrow> dep s \<le> 8 \<and>
      imem_rdata x = mem a \<and> take_bit 3 a = 0 \<and> a + of_nat (8 - n) = s2_pc_reg s + of_nat (dep s)"
    "s' = fetch_step pc0 x s"
  shows "counted mem s'" "dep s' = dep s - eaten x s + arrival s n"
    "s2_pc_reg s' + of_nat (dep s') = s2_pc_reg s + of_nat (dep s) + of_nat (arrival s n)"
    "buf_ready x s \<longrightarrow> dep s' \<le> 8" "dep s' \<le> dep s + arrival s n"
proof -
  let ?i = "f_buf_in x s"
  have b: "f_buf s' = fbuf_step True ?i (f_buf s)"
    using assms(2,8) by (simp add: fetch_step_def Let_def)
  have h: "holds mem (s2_pc_reg s) (f_buf s)" using assms(1) by (simp add: counted_def)
  then have le: "dep s \<le> 16" by (simp add: holds_def buf_inv_def)
  have ar: "arrival s n \<noteq> 0 \<longrightarrow> dep s \<le> 8" using assms(7) by simp
  note legal = legal_input [OF assms(4,5,6) le ar, of x]
  have nf: "\<not> buf_flush ?i" using assms(3) by (simp add: f_buf_in_def)
  have data: "filled ?i = 0 \<or> data_in ?i = mem a \<and> take_bit 3 a = 0 \<and>
      a + of_nat (8 - filled ?i) = s2_pc_reg s + of_nat (dep s)"
    using assms(7) legal(2) by (auto simp: f_buf_in_def arrival_def split: if_splits)
  note st = holds_step [OF h legal(1) nf data]
  show d: "dep s' = dep s - eaten x s + arrival s n"
    using st(2) legal(2) by (simp add: b eaten_def)
  then show "dep s' \<le> dep s + arrival s n" by simp
  have pc: "s2_pc_reg s' = s2_pc_reg s + of_nat (eaten x s)"
    using next_pc [OF assms(2,3)] assms(8) by simp
  have out: "reqs_outstanding s' = of_bool (imem_recv s')"
    using assms(1,2,8)
    by (simp add: fetch_step_def Let_def n_reqs_outstanding_def e_imem_req_def counted_def)
  show "counted mem s'" using st(1) out unfolding counted_def b pc eaten_def by simp
  show "s2_pc_reg s' + of_nat (dep s') = s2_pc_reg s + of_nat (dep s) + of_nat (arrival s n)"
    using eaten_le [of x s] unfolding pc d by (simp add: of_nat_diff)
  show "buf_ready x s \<longrightarrow> dep s' \<le> 8"
  proof (cases "n \<noteq> 0 \<and> arrival s n = 0")
    case True
    then show ?thesis using d assms(6) by simp
  next
    case False
    then have "filling ?i \<longrightarrow> fill_en ?i"
      using assms(4,5) by (auto simp: filling_def f_buf_in_def arrival_def flags_def split: if_splits)
    from unat_n_depth [OF legal(1) this nf le]
    have "unat (n_depth ?i (f_buf s)) = dep s'" using d legal(2) by (simp add: eaten_def)
    then show ?thesis by (simp add: buf_ready_def word_le_nat_alt)
  qed
qed

section \<open>The invariant is kept\<close>

text \<open>The registers of the stage in a cycle without a control flow change.\<close>

lemma nocf_regs:
  assumes "f_resetn x" "\<not> f_cf_change x s" "s' = fetch_step pc0 x s"
  shows "imem_req s' = (buf_ready x s \<or> imem_req s \<and> \<not> imem_gnt x)"
    "imem_recv s' = e_imem_req x s"
    "imem_addr s' = (if e_imem_req x s then imem_addr s + 8 else imem_addr s)"
    "rsps_ignore s' = (if rsps_ignore s \<noteq> 0 then rsps_ignore s - 1 else 0)"
    "first_req_post_cf s' = (first_req_post_cf s \<and> \<not> e_imem_req x s)"
    "ignore_rsp s \<or> first_req_post_cf s \<Longrightarrow> flags s' n = flags s n"
    "\<not> ignore_rsp s \<Longrightarrow> \<not> first_req_post_cf s \<Longrightarrow> flags s' (if e_imem_req x s then 8 else 0)"
  using assms
  by (auto simp: fetch_step_def Let_def n_imem_req_def e_imem_req_def n_fill_def flags_def)

lemma aligned_plus_8: "take_bit 3 (a :: maddr) = 0 \<Longrightarrow> take_bit 3 (a + 8) = 0"
proof -
  assume "take_bit 3 a = 0"
  then have "unat a mod 8 = 0" using addr_low [of a] by simp
  then have "unat (a + 8) mod 8 = 0" by (simp add: unat_word_ariths mod_mod_cancel)
  then show ?thesis using addr_low [of "a + 8"] by (simp add: unat_eq_zero)
qed


lemma steady_step:
  assumes "counted mem s" "steady s" "f_resetn x" "\<not> f_cf_change x s" "s' = fetch_step pc0 x s"
    "ra = (if e_imem_req x s then imem_addr s else ra0)"
  shows "counted mem s' \<and> (steady s' \<or> arriving \<lparr>fs_fetch = s', fs_rsp_addr = ra\<rparr>)"
proof -
  note reg = nocf_regs [OF assms(3-5)]
  have ph: "\<not> first_req_post_cf s" "rsps_ignore s = 0" "\<not> imem_recv s" "take_bit 3 (imem_addr s) = 0"
    "imem_addr s = s2_pc_reg s + of_nat (dep s)" "imem_req s \<longrightarrow> dep s \<le> 8"
    using assms(2) unfolding steady_def by blast+
  obtain n where n: "flags s n" "n \<in> {0, 2, 4, 6, 8}" "n \<noteq> 0 \<longrightarrow> dep s = 0"
    using assms(2) by (auto simp: steady_def)
  have ar: "arrival s n = 0" using ph(3) by (simp add: arrival_def)
  have pre: "n \<noteq> 0 \<and> arrival s n = 0 \<longrightarrow> dep s = 0" "arrival s n \<noteq> 0 \<longrightarrow> dep s \<le> 8 \<and>
      imem_rdata x = mem 0 \<and> take_bit 3 (0 :: maddr) = 0 \<and> 0 + of_nat (8 - n) = s2_pc_reg s + of_nat (dep s)"
    using n(3) ar by auto
  note nb = nocf_buffer [OF assms(1,3,4) n(1,2) pre assms(5), unfolded ar]
  have fl: "flags s' (if e_imem_req x s then 8 else 0)"
    using reg(7) ph(1,2) by (simp add: ignore_rsp_def)
  show ?thesis
  proof (cases "e_imem_req x s")
    case True
    then have "imem_req s" "imem_gnt x" by (simp_all add: e_imem_req_def)
    then have "arriving \<lparr>fs_fetch = s', fs_rsp_addr = ra\<rparr>"
      using True reg(1-5) fl ph nb(3,5) assms(6) by (simp add: arriving_def buf_ready_def)
    then show ?thesis using nb(1) by simp
  next
    case False
    then have "steady s'"
      using reg(1-5) fl ph nb(3-5) by (auto simp: steady_def e_imem_req_def)
    then show ?thesis using nb(1) by simp
  qed
qed

lemma arriving_step:
  assumes "counted mem s" "arriving \<lparr>fs_fetch = s, fs_rsp_addr = ra\<rparr>" "f_resetn x"
    "\<not> f_cf_change x s" "imem_rdata x = mem ra" "s' = fetch_step pc0 x s"
  shows "counted mem s' \<and> steady s' \<and> \<not> e_imem_req x s"
proof -
  note reg = nocf_regs [OF assms(3,4,6)]
  note arr = assms(2) [unfolded arriving_def Let_def fsys.select_convs]
  have ph: "\<not> first_req_post_cf s" "rsps_ignore s = 0" "imem_recv s" "\<not> imem_req s" "dep s \<le> 8"
    "take_bit 3 ra = 0" "imem_addr s = ra + 8"
    using arr by blast+
  obtain n where n: "n \<in> {2, 4, 6, 8}" "flags s n" "ra + of_nat (8 - n) = s2_pc_reg s + of_nat (dep s)"
    using arr by blast
  have ar: "arrival s n = n" using ph(2,3) by (simp add: arrival_def ignore_rsp_def)
  have idle: "\<not> e_imem_req x s" using ph(4) by (simp add: e_imem_req_def)
  have "counted mem s'" and sum: "s2_pc_reg s' + of_nat (dep s') = s2_pc_reg s + of_nat (dep s) + of_nat n"
    and rdy: "buf_ready x s \<longrightarrow> dep s' \<le> 8"
  proof -
    have n0: "n \<in> {0, 2, 4, 6, 8}" "n \<noteq> 0 \<and> arrival s n = 0 \<longrightarrow> dep s = 0" using n(1) ar by auto
    have "arrival s n \<noteq> 0 \<longrightarrow> dep s \<le> 8 \<and> imem_rdata x = mem ra \<and> take_bit 3 ra = 0 \<and>
        ra + of_nat (8 - n) = s2_pc_reg s + of_nat (dep s)"
      using n(3) ph(5,6) assms(5) by blast
    note nb = nocf_buffer [OF assms(1,3,4) n(2) n0 this assms(6), unfolded ar]
    show "counted mem s'" "s2_pc_reg s' + of_nat (dep s') = s2_pc_reg s + of_nat (dep s) + of_nat n"
      "buf_ready x s \<longrightarrow> dep s' \<le> 8" by (rule nb(1), rule nb(3), rule nb(4))
  qed
  have "ra + 8 = s2_pc_reg s' + of_nat (dep s')"
  proof -
    have "of_nat (8 - n) + of_nat n = (8 :: maddr)" using n(1) by auto
    then show ?thesis unfolding sum n(3) [symmetric] by (simp only: add.assoc)
  qed
  moreover have "flags s' 0" using reg(7) ph(1,2) idle by (simp add: ignore_rsp_def)
  ultimately have "steady s'"
    using reg(1-5) idle ph rdy aligned_plus_8 [OF ph(6)] unfolding steady_def by auto
  with \<open>counted mem s'\<close> idle show ?thesis by simp
qed

lemma redirected_step:
  assumes "counted mem s" "redirected s \<or> redirected_twice s" "f_resetn x"
    "\<not> f_cf_change x s" "s' = fetch_step pc0 x s"
    "ra = (if e_imem_req x s then imem_addr s else ra0)"
  shows "counted mem s' \<and> (steady s' \<or> redirected s' \<or> arriving \<lparr>fs_fetch = s', fs_rsp_addr = ra\<rparr>)"
proof -
  note reg = nocf_regs [OF assms(3-5)]
  have ph: "imem_req s" "dep s = 0" "take_bit 3 (imem_addr s) = 0"
    "rsps_ignore s = of_bool (imem_recv s)" "first_req_post_cf s \<or> ignore_rsp s"
    using assms(2) unfolding redirected_def redirected_twice_def ignore_rsp_def by auto
  obtain n where n: "n \<in> {2, 4, 6, 8}" "flags s n" "imem_addr s + of_nat (8 - n) = s2_pc_reg s"
    and n8: "\<not> first_req_post_cf s \<longrightarrow> n = 8"
    using assms(2) unfolding redirected_def redirected_twice_def by fastforce
  have ar: "arrival s n = 0" using ph(4) by (simp add: arrival_def ignore_rsp_def)
  have eaten0: "eaten x s = 0" using eaten_le [of x s] ph(2) by simp
  have nb: "counted mem s'" "dep s' = 0"
  proof -
    have n0: "n \<in> {0, 2, 4, 6, 8}" "n \<noteq> 0 \<and> arrival s n = 0 \<longrightarrow> dep s = 0" using n(1) ph(2) by auto
    have "arrival s n \<noteq> 0 \<longrightarrow> dep s \<le> 8 \<and> imem_rdata x = mem 0 \<and> take_bit 3 (0 :: maddr) = 0 \<and>
        0 + of_nat (8 - n) = s2_pc_reg s + of_nat (dep s)"
      using ar by simp
    note nb = nocf_buffer [OF assms(1,3,4) n(2) n0 this assms(5), unfolded ar]
    show "counted mem s'" "dep s' = 0" using nb(1,2) ph(2) by simp_all
  qed
  have pc: "s2_pc_reg s' = s2_pc_reg s" using next_pc [OF assms(3,4)] assms(5) eaten0 by simp
  have fl: "flags s' n" using reg(6) n(2) ph(5) by auto
  show ?thesis
  proof (cases "e_imem_req x s")
    case True
    then have "imem_gnt x" by (simp add: e_imem_req_def)
    then have "arriving \<lparr>fs_fetch = s', fs_rsp_addr = ra\<rparr>"
      using True reg(1-5) fl ph nb pc n assms(6) unfolding arriving_def Let_def
      by (auto simp: buf_ready_def)
    then show ?thesis using nb(1) by simp
  next
    case no: False
    then have g: "\<not> imem_gnt x" using ph(1) by (simp add: e_imem_req_def)
    have ig: "rsps_ignore s' = 0" using reg(4) ph(4) by simp
    show ?thesis
    proof (cases "first_req_post_cf s")
      case True
      then have "redirected s'"
        using no g ig reg(1-5) fl ph nb(2) pc n unfolding redirected_def by auto
      then show ?thesis using nb(1) by simp
    next
      case False
      then have "n = 8" using n8 by simp
      then have "steady s'"
        using no g ig False reg(1-5) fl ph nb(2) pc n unfolding steady_def by simp
      then show ?thesis using nb(1) by simp
    qed
  qed
qed

lemma cf_inv:
  assumes "fetch_inv mem y" "f_resetn x" "f_cf_change x (fs_fetch y)" "\<not> bit (cf_target x) 0"
    "first_req_post_cf (fs_fetch y) \<longrightarrow> take_bit 3 (cf_target x) = 0"
    "s' = fetch_step pc0 x (fs_fetch y)"
  shows "counted mem s' \<and> (redirected s' \<or> redirected_twice s')"
proof -
  let ?s = "fs_fetch y"
  have ph: "rsps_ignore ?s = 0 \<or> rsps_ignore ?s = 1 \<and> imem_req ?s" "counted mem ?s"
    "first_req_post_cf ?s \<longrightarrow> imem_req ?s"
    using assms(1) unfolding fetch_inv_def steady_def arriving_def redirected_def redirected_twice_def Let_def
    by auto
  note st = cf_step [OF ph(2) assms(2-4) ph(1) assms(6)]
  obtain n where n: "n \<in> {2, 4, 6, 8}" "flags s' n" "imem_addr s' + of_nat (8 - n) = s2_pc_reg s'"
    "take_bit 3 (cf_target x) = 0 \<longrightarrow> n = 8" using st(8) by blast
  show ?thesis
  proof (cases "first_req_post_cf ?s")
    case True
    then have "e_imem_req x ?s" using ph(3) assms(3) by (simp add: f_cf_change_def f_cf_ack_def e_imem_req_def)
    moreover have "n = 8" using True assms(5) n(4) by simp
    ultimately have "redirected_twice s'" using True st n unfolding redirected_twice_def by simp
    then show ?thesis using st(1) by simp
  next
    case False
    then have "redirected s'" using st n unfolding redirected_def by blast
    then show ?thesis using st(1) by simp
  qed
qed

lemma fsys_step_inv:
  assumes "fetch_inv mem y" "env_ok e y"
  shows "fetch_inv mem (fsys_step mem pc0 e y)"
proof -
  let ?x = "fsys_in mem e y" and ?s = "fs_fetch y"
  have x: "f_resetn ?x" "imem_rdata ?x = mem (fs_rsp_addr y)" "cf_target ?x = fe_cf_target e"
    "cf_valid ?x = fe_cf_valid e" by (simp_all add: fsys_in_def)
  define s' where "s' = fetch_step pc0 ?x ?s"
  define ra where "ra = (if e_imem_req ?x ?s then imem_addr ?s else fs_rsp_addr y)"
  have y': "fsys_step mem pc0 e y = \<lparr>fs_fetch = s', fs_rsp_addr = ra\<rparr>"
    by (simp add: fsys_step_def Let_def s'_def ra_def)
  have c: "counted mem ?s" using assms(1) by (simp add: fetch_inv_def)
  show ?thesis
  proof (cases "f_cf_change ?x ?s")
    case True
    then have "fe_cf_valid e" using x(4) by (simp add: f_cf_change_def)
    then show ?thesis
      using cf_inv [OF assms(1) x(1) True _ _ s'_def] assms(2) x(3)
      unfolding y' fetch_inv_def by (simp add: env_ok_def)
  next
    case False
    have "arriving y \<Longrightarrow> arriving \<lparr>fs_fetch = ?s, fs_rsp_addr = fs_rsp_addr y\<rparr>" by (simp add: arriving_def)
    then show ?thesis
      using assms(1) steady_step [OF c _ x(1) False s'_def ra_def]
        arriving_step [OF c _ x(1) False x(2) s'_def] redirected_step [OF c _ x(1) False s'_def ra_def]
      unfolding y' fetch_inv_def by (metis (full_types) fsys.select_convs(1))
  qed
qed

section \<open>Runs\<close>

fun run_ok :: "(maddr \<Rightarrow> u64) \<Rightarrow> maddr \<Rightarrow> fetch_env list \<Rightarrow> fsys \<Rightarrow> bool" where
  "run_ok mem pc0 [] y \<longleftrightarrow> True"
| "run_ok mem pc0 (e # es) y \<longleftrightarrow> env_ok e y \<and> run_ok mem pc0 es (fsys_step mem pc0 e y)"

definition fsys_reset :: "maddr \<Rightarrow> fsys" where
  "fsys_reset pc0 = \<lparr>fs_fetch = fetch_reset pc0, fs_rsp_addr = 0\<rparr>"

lemma fsys_reset_inv: "take_bit 3 pc0 = 0 \<Longrightarrow> fetch_inv mem (fsys_reset pc0)"
  by (simp add: fsys_reset_def fetch_inv_def counted_def holds_def buf_inv_def halves_def stream_def
      steady_def flags_def fetch_reset_def)

lemma fsys_run_inv: "fetch_inv mem y \<Longrightarrow> run_ok mem pc0 es y \<Longrightarrow> fetch_inv mem (fold (fsys_step mem pc0) es y)"
  by (induction es arbitrary: y) (simp_all add: fsys_step_inv)

lemma inv_head:
  assumes "fetch_inv mem y" "s = fs_fetch y" "2 * k < dep s"
  shows "ucast (drop_bit (16 * k) (d_buffer (f_buf s))) = half mem (s2_pc_reg s + of_nat (2 * k))"
proof -
  have h: "buf_inv (f_buf s)" "halves (f_buf s) = stream mem (s2_pc_reg s) (dep s div 2)"
    using assms(1,2) by (simp_all add: fetch_inv_def counted_def holds_def)
  have "even (dep s)" using h(1) by (simp add: buf_inv_def)
  then have k: "k < dep s div 2" using assms(3) by (auto elim!: evenE)
  then have "halves (f_buf s) ! k = half mem (s2_pc_reg s + of_nat (2 * k))"
    using h(2) by (simp add: stream_def)
  then show ?thesis using k by (simp add: halves_def)
qed

lemma instr_half:
  assumes "k < 2"
  shows "(ucast (drop_bit (16 * k) (s1_instr s)) :: 16 word) = ucast (drop_bit (16 * k) (d_buffer (f_buf s)))"
  using assms
  by (intro bit_word_eqI) (auto simp: s1_instr_def buf_data_out_def bit_ucast_iff bit_drop_bit_eq)

definition calm :: "bool \<Rightarrow> fetch_env" where
  "calm g = \<lparr>fe_cf_valid = False, fe_cf_target = 0, fe_gnt = g, fe_err = False, fe_ready = False\<rparr>"

definition jump_to :: "u64 \<Rightarrow> fetch_env" where
  "jump_to t = \<lparr>fe_cf_valid = True, fe_cf_target = t, fe_gnt = True, fe_err = False, fe_ready = False\<rparr>"

text \<open>A granted request after a control flow change, and the response to it.\<close>

lemma redirected_granted:
  assumes "fetch_inv mem y" "redirected (fs_fetch y)" "y' = fold (fsys_step mem pc0) [calm True, calm True] y"
    "s = fs_fetch y'"
  shows "s2_pc_reg s = s2_pc_reg (fs_fetch y)" "dep s = 8 - unat (s2_pc_reg s) mod 8"
    "halves (f_buf s) = stream mem (s2_pc_reg s) (dep s div 2)"
proof -
  let ?x = "fsys_in mem (calm True) y" and ?s = "fs_fetch y"
  define y1 where "y1 = fsys_step mem pc0 (calm True) y"
  let ?x1 = "fsys_in mem (calm True) y1" and ?s1 = "fs_fetch y1"
  have calm: "f_resetn (fsys_in mem (calm True) z)" "\<not> f_cf_change (fsys_in mem (calm True) z) r"
    "imem_gnt (fsys_in mem (calm True) z)" "imem_rdata (fsys_in mem (calm True) z) = mem (fs_rsp_addr z)"
    for z r by (simp_all add: fsys_in_def calm_def f_cf_change_def)
  have s1: "?s1 = fetch_step pc0 ?x ?s" by (simp add: y1_def fsys_step_def Let_def)
  have s: "s = fetch_step pc0 ?x1 ?s1"
    unfolding assms(3,4) by (simp add: y1_def [symmetric]) (simp add: fsys_step_def Let_def)
  have ph: "imem_req ?s" "dep ?s = 0" "take_bit 3 (imem_addr ?s) = 0" "first_req_post_cf ?s"
    "rsps_ignore ?s = of_bool (imem_recv ?s)"
    using assms(2) by (simp_all add: redirected_def)
  obtain n where n: "n \<in> {2, 4, 6, 8}" "flags ?s n" "imem_addr ?s + of_nat (8 - n) = s2_pc_reg ?s"
    using assms(2) unfolding redirected_def by blast
  have req: "e_imem_req ?x ?s" using ph(1) calm(3) by (simp add: e_imem_req_def)
  have a1: "fs_rsp_addr y1 = imem_addr ?s" using req by (simp add: y1_def fsys_step_def Let_def)
  note reg = nocf_regs [OF calm(1,2) s1]
  have zero: "eaten x r = 0" if "dep r = 0" for x r using eaten_le [of x r] that by simp
  have ar0: "arrival ?s n = 0" using ph(5) by (simp add: arrival_def ignore_rsp_def)
  have n0: "n \<in> {0, 2, 4, 6, 8}" using n(1) by auto
  have nb: "counted mem ?s1" "dep ?s1 = 0" "s2_pc_reg ?s1 = s2_pc_reg ?s"
  proof -
    have c: "counted mem ?s" using assms(1) by (simp add: fetch_inv_def)
    have p: "n \<noteq> 0 \<and> arrival ?s n = 0 \<longrightarrow> dep ?s = 0" "arrival ?s n \<noteq> 0 \<longrightarrow> dep ?s \<le> 8 \<and>
        imem_rdata ?x = mem 0 \<and> take_bit 3 (0 :: maddr) = 0 \<and> 0 + of_nat (8 - n) = s2_pc_reg ?s + of_nat (dep ?s)"
      using ph(2) ar0 by simp_all
    note nb = nocf_buffer [OF c calm(1,2) n(2) n0 p s1, unfolded ar0]
    show "counted mem ?s1" "dep ?s1 = 0" using nb(1,2) ph(2) by simp_all
    show "s2_pc_reg ?s1 = s2_pc_reg ?s" using next_pc [OF calm(1,2)] s1 zero [OF ph(2)] by simp
  qed
  have ig: "rsps_ignore ?s1 = 0" using reg(4) ph(5) by simp
  have fl: "flags ?s1 n" using reg(6) n(2) ph(4) by simp
  have ar: "arrival ?s1 n = n" using reg(2) req ig by (simp add: arrival_def ignore_rsp_def)
  have p: "n \<noteq> 0 \<and> arrival ?s1 n = 0 \<longrightarrow> dep ?s1 = 0" "arrival ?s1 n \<noteq> 0 \<longrightarrow> dep ?s1 \<le> 8 \<and>
      imem_rdata ?x1 = mem (imem_addr ?s) \<and> take_bit 3 (imem_addr ?s) = 0 \<and>
      imem_addr ?s + of_nat (8 - n) = s2_pc_reg ?s1 + of_nat (dep ?s1)"
    using nb(2,3) n(3) calm(4) a1 ph(3) by simp_all
  note st = nocf_buffer [OF nb(1) calm(1,2) fl n0 p s, unfolded ar]
  show pc: "s2_pc_reg s = s2_pc_reg ?s" using next_pc [OF calm(1,2)] s zero [OF nb(2)] nb(3) by simp
  have "unat (s2_pc_reg s) mod 8 = 8 - n"
    using aligned_offset(1) [OF ph(3), of "8 - n"] n(1,3) addr_low [of "s2_pc_reg s"] pc by fastforce
  then show "dep s = 8 - unat (s2_pc_reg s) mod 8"
    using st(2) zero [OF nb(2)] nb(2) n(1) by fastforce
  show "halves (f_buf s) = stream mem (s2_pc_reg s) (dep s div 2)"
    using st(1) by (simp add: counted_def holds_def)
qed

text \<open>An empty buffer stays empty until a response arrives, and then holds exactly that.\<close>

lemma empty_idle:
  assumes "f_resetn x" "\<not> f_cf_change x s" "dep s = 0" "\<not> imem_recv s \<or> ignore_rsp s"
  shows "f_buf (fetch_step pc0 x s) = f_buf s" "s2_pc_reg (fetch_step pc0 x s) = s2_pc_reg s"
proof -
  have "\<not> s1_eat_2 x s" "\<not> s1_eat_4 x s"
    using eaten_le [of x s] assms(3) by (auto simp: eaten_cases split: if_splits)
  then show "f_buf (fetch_step pc0 x s) = f_buf s" "s2_pc_reg (fetch_step pc0 x s) = s2_pc_reg s"
    using assms by (auto simp: fetch_step_def Let_def fbuf_step_def f_buf_in_def update_buffer_def)
qed

lemma empty_filled:
  assumes "f_resetn x" "\<not> f_cf_change x s" "f_buf s = \<lparr>depth = 0, d_buffer = 0, e_buffer = 0\<rparr>"
    "imem_recv s" "\<not> ignore_rsp s" "flags s 8" "imem_rdata x = mem a" "take_bit 3 a = 0"
  shows "halves (f_buf (fetch_step pc0 x s)) = stream mem a 4" "s2_pc_reg (fetch_step pc0 x s) = s2_pc_reg s"
proof -
  have d: "dep s = 0" using assms(3) by simp
  have "buf_legal (f_buf_in x s) (f_buf s)" "filled (f_buf_in x s) = 8"
    using legal_input [of s 8 x] assms(4-6) d by (simp_all add: arrival_def)
  moreover have "buf_inv (f_buf s)" "halves (f_buf s) = []" using assms(3) by (simp_all add: buf_inv_def halves_def)
  ultimately have "halves (fbuf_step True (f_buf_in x s) (f_buf s)) = last_halves (mem a) (2 * 4)"
    using buf.view_step [of "f_buf s" "f_buf_in x s"] assms(2,7) by (simp add: f_buf_in_def)
  then show "halves (f_buf (fetch_step pc0 x s)) = stream mem a 4"
    using last_halves_stream [OF assms(8), of 4] assms(1) by (simp add: fetch_step_def Let_def)
  have "eaten x s = 0" using eaten_le [of x s] d by simp
  then show "s2_pc_reg (fetch_step pc0 x s) = s2_pc_reg s" using next_pc [OF assms(1,2)] by simp
qed

lemma fsys_calm:
  "f_resetn (fsys_in mem (calm g) z)" "\<not> f_cf_change (fsys_in mem (calm g) z) r"
  "imem_gnt (fsys_in mem (calm g) z) = g" "imem_rdata (fsys_in mem (calm g) z) = mem (fs_rsp_addr z)"
  "e_imem_req (fsys_in mem (calm g) z) r = (imem_req r \<and> g)"
  by (simp_all add: fsys_in_def calm_def f_cf_change_def e_imem_req_def)

lemma fs_step:
  "fs_fetch (fsys_step mem pc0 e z) = fetch_step pc0 (fsys_in mem e z) (fs_fetch z)"
  "fs_rsp_addr (fsys_step mem pc0 e z) =
    (if e_imem_req (fsys_in mem e z) (fs_fetch z) then imem_addr (fs_fetch z) else fs_rsp_addr z)"
  by (simp_all add: fsys_step_def Let_def)

text \<open>A run of the buffer that keeps its contract and does not flush.\<close>

fun buf_run_ok :: "fbuf_in list \<Rightarrow> fbuf \<Rightarrow> bool" where
  "buf_run_ok [] b \<longleftrightarrow> True"
| "buf_run_ok (x # xs) b \<longleftrightarrow> buf_legal x b \<and> \<not> buf_flush x \<and> buf_run_ok xs (fbuf_step True x b)"

lemma buf_run_ok: "buf_run_ok xs b = buf.ok_run xs b"
  by (induction xs arbitrary: b) simp_all

definition fill_8_in :: "u64 \<Rightarrow> bool \<Rightarrow> fbuf_in" where
  "fill_8_in w err =
     \<lparr>buf_flush = False, fill_en = True, data_in = w, error_in = err, fill_2 = False,
      fill_4 = False, fill_6 = False, fill_8 = True, drain_2 = False, drain_4 = False\<rparr>"

definition drain_in :: "bool \<Rightarrow> bool \<Rightarrow> fbuf_in" where
  "drain_in d2 d4 =
     \<lparr>buf_flush = False, fill_en = False, data_in = 0, error_in = False, fill_2 = False,
      fill_4 = False, fill_6 = False, fill_8 = False, drain_2 = d2, drain_4 = d4\<rparr>"

definition demo_buf :: fbuf where "demo_buf = \<lparr>depth = 4, d_buffer = 0, e_buffer = 0\<rparr>"

definition demo_mem :: "maddr \<Rightarrow> u64" where
  "demo_mem a = (if a = 0x10000000 then 0x4501 else if a = 0x10000008 then 0x0073000045850513 else 0)"

definition demo_run :: "fetch_env list" where
  "demo_run = [calm True, jump_to 0x1000000A, calm False, calm True, calm True, calm True, calm True]"

section \<open>Properties\<close>

text \<open>C7: Whenever the fetch stage offers an instruction to the decoder, it is the one that memory holds at the
  program counter, both halves of it if it has two, and the buffer never holds more than 16 bytes: after any
  sequence since reset of grants, stalls, consumed instructions and control flow changes to even addresses,
  from an aligned reset address and a memory that answers a granted request in the next cycle, in which no
  control flow change to an address that is not doubleword aligned is accepted while the first request of the
  one before it has not been granted yet. (One that is can fetch the wrong instruction,
  \<open>second_redirect_misfetches\<close>.)\<close>

theorem fetched_instruction_exact:
  assumes "take_bit 3 pc0 = 0" "run_ok mem pc0 es (fsys_reset pc0)"
    "s = fs_fetch (fold (fsys_step mem pc0) es (fsys_reset pc0))"
  shows "(s1_i16bit s \<or> s1_i32bit s \<longrightarrow> ucast (s1_instr s) = half mem (s2_pc_reg s)) \<and>
    (s1_i32bit s \<longrightarrow> ucast (drop_bit 16 (s1_instr s)) = half mem (s2_pc_reg s + 2)) \<and>
    depth (f_buf s) \<le> 16"
proof -
  have inv: "fetch_inv mem (fold (fsys_step mem pc0) es (fsys_reset pc0))"
    using fsys_run_inv [OF fsys_reset_inv [OF assms(1)] assms(2)] .
  note head = inv_head [OF inv assms(3)]
  have "ucast (s1_instr s) = half mem (s2_pc_reg s)" if "s1_i16bit s \<or> s1_i32bit s"
    using head [of 0] instr_half [of 0 s] that
    by (auto simp: s1_i16bit_def s1_i32bit_def word_le_nat_alt)
  moreover have "ucast (drop_bit 16 (s1_instr s)) = half mem (s2_pc_reg s + 2)" if "s1_i32bit s"
    using head [of 1] instr_half [of 1 s] that by (simp add: s1_i32bit_def word_le_nat_alt)
  moreover have "depth (f_buf s) \<le> 16"
    using inv assms(3) by (simp add: fetch_inv_def counted_def holds_def buf_inv_def word_le_nat_alt)
  ultimately show ?thesis by blast
qed

theorem fetched_instruction_exact_witness:
  "s1_i16bit (fs_fetch (fold (fsys_step demo_mem 0x10000000) demo_run (fsys_reset 0x10000000))) \<and>
   s1_instr (fs_fetch (fold (fsys_step demo_mem 0x10000000) demo_run (fsys_reset 0x10000000))) = 0x4585 \<and>
   half demo_mem 0x1000000A = 0x4585 \<and>
   depth (f_buf (fs_fetch (fold (fsys_step demo_mem 0x10000000) demo_run (fsys_reset 0x10000000)))) \<le> 16"
proof -
  let ?s = "fs_fetch (fold (fsys_step demo_mem 0x10000000) demo_run (fsys_reset 0x10000000))"
  have pre: "take_bit 3 (0x10000000 :: maddr) = 0" by code_simp
  have run: "run_ok demo_mem 0x10000000 demo_run (fsys_reset 0x10000000)" by code_simp
  have at: "s1_i16bit ?s" "s1_instr ?s = 0x4585" "s2_pc_reg ?s = 0x1000000A" by code_simp+
  have "ucast (s1_instr ?s) = half demo_mem (s2_pc_reg ?s)" "depth (f_buf ?s) \<le> 16"
    using fetched_instruction_exact [OF pre run refl] at(1) by blast+
  moreover have "(ucast (0x4585 :: u32) :: 16 word) = 0x4585" by code_simp
  ultimately show ?thesis unfolding at(2,3) using at(1) by simp
qed

text \<open>C20: The fetch buffer is a queue of halfwords: over any legal run without a flush the
  halfwords come out in the order in which the memory delivered them, and none is lost.\<close>

theorem fetch_buffer_is_fifo:
  assumes "buf_inv b" "buf_run_ok xs b"
  shows "halves (fold (fbuf_step True) xs b) =
    drop (sum_list (map (\<lambda>x. drained x div 2) xs))
      (halves b @ concat (map (\<lambda>x. last_halves (data_in x) (filled x)) xs))"
  using buf.run_fifo [OF assms(1)] assms(2) by (simp add: buf_run_ok)

theorem fetch_buffer_is_fifo_witness:
  "halves (fold (fbuf_step True) [fill_8_in 0x0004000300020001 False, drain_in False True, drain_in True False] demo_buf) =
    [2, 3, 4]"
proof -
  let ?xs = "[fill_8_in 0x0004000300020001 False, drain_in False True, drain_in True False]"
  have inv: "buf_inv demo_buf" by (simp add: buf_inv_def demo_buf_def)
  have ok: "buf_run_ok ?xs demo_buf" by code_simp
  have "drop (sum_list (map (\<lambda>x. drained x div 2) ?xs))
      (halves demo_buf @ concat (map (\<lambda>x. last_halves (data_in x) (filled x)) ?xs)) = [2, 3, 4]"
    by code_simp
  then show ?thesis using fetch_buffer_is_fifo [OF inv ok] by simp
qed

text \<open>C31: A control flow change to an even address, accepted when the first request of any earlier one has been
  granted, takes effect exactly: if memory grants the request that follows it at once and the decoder consumes
  nothing, then two cycles later the buffer holds the rest of the doubleword of the target, fetched from
  there, and the program counter is the target.\<close>

theorem redirect_latency_exact:
  assumes "fetch_inv mem y" "e = jump_to t" "env_ok e y" "\<not> first_req_post_cf (fs_fetch y)"
    "s = fs_fetch (fold (fsys_step mem pc0) [e, calm True, calm True] y)"
  shows "s2_pc_reg s = ucast t \<and> unat (depth (f_buf s)) = 8 - unat t mod 8 \<and>
    halves (f_buf s) = stream mem (ucast t) (4 - unat t mod 8 div 2)"
proof -
  let ?y = "fsys_step mem pc0 e y" and ?x = "fsys_in mem e y"
  have x: "f_resetn ?x" "f_cf_change ?x (fs_fetch y)" "cf_target ?x = t" "\<not> bit (cf_target ?x) 0"
    using assms(3) unfolding assms(2)
    by (simp_all add: fsys_in_def jump_to_def f_cf_change_def f_cf_ack_def env_ok_def)
  have y: "fs_fetch ?y = fetch_step pc0 ?x (fs_fetch y)" by (simp add: fsys_step_def Let_def)
  have inv: "fetch_inv mem ?y" using fsys_step_inv [OF assms(1,3)] .
  have "rsps_ignore (fs_fetch y) = 0 \<or> rsps_ignore (fs_fetch y) = 1 \<and> imem_req (fs_fetch y)"
    "counted mem (fs_fetch y)"
    using assms(1) unfolding fetch_inv_def steady_def arriving_def redirected_def redirected_twice_def Let_def
    by auto
  note st = cf_step [OF this(2) x(1,2,4) this(1) y]
  have red: "redirected (fs_fetch ?y)" using st assms(4) unfolding redirected_def by blast
  have pc: "s2_pc_reg (fs_fetch ?y) = ucast t" using x by (simp add: y fetch_step_def Let_def)
  have s: "s = fs_fetch (fold (fsys_step mem pc0) [calm True, calm True] ?y)" using assms(5) by simp
  note g = redirected_granted [OF inv red refl s]
  have low: "unat (ucast t :: maddr) mod 8 = unat t mod 8"
    by (simp add: unsigned_ucast_eq take_bit_eq_mod mod_mod_cancel)
  have "(8 - m) div 2 = 4 - m div 2" if "even m" "m < 8" for m :: nat using that by (auto elim!: evenE)
  moreover have "even (unat t mod 8)"
  proof -
    obtain n where "n \<in> {2, 4, 6, 8}" "unat t mod 8 = 8 - n" using low_bits_even [of t] x(3,4) by metis
    then show ?thesis by auto
  qed
  ultimately show ?thesis using g pc low by simp
qed

theorem redirect_latency_exact_witness:
  "halves (f_buf (fs_fetch (fold (fsys_step demo_mem 0x10000000)
     [jump_to 0x1000000A, calm True, calm True] (fsys_reset 0x10000000)))) = [0x4585, 0, 0x73] \<and>
   s2_pc_reg (fs_fetch (fold (fsys_step demo_mem 0x10000000)
     [jump_to 0x1000000A, calm True, calm True] (fsys_reset 0x10000000))) = 0x1000000A"
proof -
  let ?y = "fsys_reset 0x10000000 :: fsys"
  have inv: "fetch_inv demo_mem ?y" by (rule fsys_reset_inv) code_simp
  have env: "env_ok (jump_to 0x1000000A) ?y" "\<not> first_req_post_cf (fs_fetch ?y)" by code_simp+
  have at: "unat (0x1000000A :: u64) mod 8 = 2" "(ucast (0x1000000A :: u64) :: maddr) = 0x1000000A" by simp_all
  have "stream demo_mem 0x1000000A 3 = [0x4585, 0, 0x73]" by code_simp
  then show ?thesis using redirect_latency_exact [OF inv refl env refl] at by simp
qed

text \<open>A second control flow change that meets the grant of the first request after another
  one is not honoured if its target is not doubleword aligned and the next grant is late: the
  program counter is the target, but the instruction offered for it is the one at the start
  of the target's doubleword.\<close>

lemma second_redirect_misfetches:
  assumes "fetch_inv mem y" "redirected (fs_fetch y)" "\<not> bit t 0" "unat t mod 8 \<noteq> 0"
    "s = fs_fetch (fold (fsys_step mem pc0) [jump_to t, calm False, calm True, calm True] y)"
  shows "s2_pc_reg s = ucast t \<and> halves (f_buf s) = stream mem (push_bit 3 (ucast (drop_bit 3 t))) 4 \<and>
    push_bit 3 (ucast (drop_bit 3 t)) \<noteq> s2_pc_reg s"
proof -
  let ?a = "push_bit 3 (ucast (drop_bit 3 t)) :: maddr" and ?x = "fsys_in mem (jump_to t) y"
  define y1 where "y1 = fsys_step mem pc0 (jump_to t) y"
  define y2 where "y2 = fsys_step mem pc0 (calm False) y1"
  define y3 where "y3 = fsys_step mem pc0 (calm True) y2"
  have s: "s = fs_fetch (fsys_step mem pc0 (calm True) y3)"
    unfolding assms(5) by (simp add: y1_def y2_def y3_def)
  have x: "f_resetn ?x" "f_cf_change ?x (fs_fetch y)" "cf_target ?x = t" "imem_gnt ?x"
    by (simp_all add: fsys_in_def jump_to_def f_cf_change_def f_cf_ack_def)
  have ph: "imem_req (fs_fetch y)" "first_req_post_cf (fs_fetch y)"
    "rsps_ignore (fs_fetch y) = of_bool (imem_recv (fs_fetch y))" "counted mem (fs_fetch y)"
    using assms(1,2) by (simp_all add: redirected_def fetch_inv_def)
  note st = cf_step [OF ph(4) x(1,2) _ _ fs_step(1), unfolded x(3), OF assms(3), folded y1_def]
  have ig: "rsps_ignore (fs_fetch y) = 0 \<or> rsps_ignore (fs_fetch y) = 1 \<and> imem_req (fs_fetch y)"
    using ph(1,3) by simp
  have req: "e_imem_req ?x (fs_fetch y)" using ph(1) x(4) by (simp add: e_imem_req_def)
  have r1: "imem_req (fs_fetch y1)" "rsps_ignore (fs_fetch y1) = 1" "\<not> first_req_post_cf (fs_fetch y1)"
    "imem_addr (fs_fetch y1) = ?a" "s2_pc_reg (fs_fetch y1) = ucast t"
    "f_buf (fs_fetch y1) = \<lparr>depth = 0, d_buffer = 0, e_buffer = 0\<rparr>"
    using st(3-5,7) [OF ig] req ph(2) x
    by (simp_all add: y1_def fs_step fetch_step_def Let_def fbuf_step_def f_buf_in_def)
  note reg2 = nocf_regs [OF fsys_calm(1,2) fs_step(1) [of mem pc0 "calm False" y1], folded y2_def]
  have r2: "imem_req (fs_fetch y2)" "rsps_ignore (fs_fetch y2) = 0" "\<not> first_req_post_cf (fs_fetch y2)"
    "imem_addr (fs_fetch y2) = ?a" "\<not> imem_recv (fs_fetch y2)"
    using reg2(1-5) r1 by (simp_all add: fsys_calm)
  have b2: "f_buf (fs_fetch y2) = f_buf (fs_fetch y1)" "s2_pc_reg (fs_fetch y2) = s2_pc_reg (fs_fetch y1)"
    using r1 by (simp_all add: y2_def fs_step empty_idle fsys_calm ignore_rsp_def)
  note reg3 = nocf_regs [OF fsys_calm(1,2) fs_step(1) [of mem pc0 "calm True" y2], folded y3_def]
  have r3: "rsps_ignore (fs_fetch y3) = 0" "imem_recv (fs_fetch y3)" "fs_rsp_addr y3 = ?a"
    "flags (fs_fetch y3) 8"
    using reg3(2,4,7) r2 by (simp_all add: fsys_calm y3_def fs_step ignore_rsp_def)
  have b3: "f_buf (fs_fetch y3) = f_buf (fs_fetch y1)" "s2_pc_reg (fs_fetch y3) = ucast t"
    using r1 r2 b2 by (simp_all add: y3_def fs_step empty_idle fsys_calm)
  have al: "take_bit 3 ?a = 0" by (simp add: take_bit_push_bit)
  have e3: "f_buf (fs_fetch y3) = \<lparr>depth = 0, d_buffer = 0, e_buffer = 0\<rparr>" using b3(1) r1(6) by simp
  have "halves (f_buf s) = stream mem ?a 4" "s2_pc_reg s = ucast t"
    using empty_filled [of "fsys_in mem (calm True) y3" "fs_fetch y3" mem ?a pc0, OF fsys_calm(1,2) e3 r3(2) _ r3(4)]
      r3(1,3) al b3(2) by (simp_all add: s fs_step ignore_rsp_def fsys_calm)
  moreover have "?a \<noteq> ucast t"
  proof
    assume "?a = ucast t"
    then have "unat (ucast t :: maddr) mod 8 = 0" using al addr_low [of ?a] by simp
    then show False using assms(4) by (simp add: unsigned_ucast_eq take_bit_eq_mod mod_mod_cancel)
  qed
  ultimately show ?thesis by simp
qed

text \<open>An access error reported for a doubleword that arrives behind \<open>d\<close> buffered bytes is
  attached to the wrong halfwords: the first \<open>d div 2\<close> halfwords of the doubleword are in the
  buffer without their error, since the error bits move by the bytes of data ahead of them.\<close>

lemma fetch_error_misplaced:
  assumes "buf_inv b" "e_buffer b = 0" "unat (depth b) = d" "d \<in> {2, 4, 6, 8}"
    "x = fill_8_in w True" "b' = fbuf_step True x b"
  shows "halves b' = halves b @ last_halves w 8 \<and>
    (\<forall>k. bit (e_buffer b') k \<longleftrightarrow> d \<le> k \<and> k < d + 4 \<and> k < 8)"
proof -
  have x: "buf_legal x b" "\<not> buf_flush x" "drained x = 0" "filled x = 8" "data_in x = w" "bd_sub x = 0"
    using assms(3,4) unfolding assms(5) by (auto simp: fill_8_in_def buf_legal_def drained_def filled_def bd_sub_def)
  have "halves b' = halves b @ last_halves w 8"
    using buf.view_step [OF assms(1) x(1)] x by (simp add: assms(6))
  moreover have "e_buffer b' = push_bit d (mask 4)"
    using assms(2,3) x(6) unfolding assms(6)
    by (simp add: fbuf_step_def update_buffer_def n_e_buffer_def n_e_buffer_in_pre_shift_def shf_up_def assms(5) fill_8_in_def)
  ultimately show ?thesis
    by (auto simp: bit_push_bit_iff bit_mask_iff)
qed

end
