(* ===== verification/Mdu.thy ===== *)
theory Mdu
  imports Prelude
begin

text \<open>
  The multiply/divide unit of the core (\<open>rtl/core/core_pipe_exec_mdu.sv\<close>): a sequential
  multiplier retiring four bits of \<open>rs2\<close> per cycle, a carry-less multiplier retiring eight,
  and a restoring divider producing one quotient bit per cycle. The ports are the record
  \<open>mdu_in\<close>, the registers the record \<open>mdu\<close>, every wire a definition over both, and a rising
  clock edge the function \<open>mdu_step\<close>. An \<open>n\<close>-bit vector is an \<open>n word\<close>. Clock gating
  (\<open>g_clk_req\<close>) is left out: every edge is taken.
\<close>

record mdu_in =
  mdu_resetn :: bool
  mdu_flush :: bool
  mdu_valid :: bool
  op_word :: bool
  op_mul :: bool
  op_mulh :: bool
  op_mulhu :: bool
  op_mulhsu :: bool
  op_clmul :: bool
  op_clmulh :: bool
  op_div :: bool
  op_divu :: bool
  op_rem :: bool
  op_remu :: bool
  mdu_rs1 :: u64
  mdu_rs2 :: u64

record mdu =
  s_rs1 :: u64
  s_rs2 :: u64
  mdu_state :: "128 word"
  mdu_ctr :: "7 word"
  mdu_done :: bool
  mdu_run :: bool
  clmul_run :: bool
  clmul_done :: bool
  mul_run :: bool
  mul_done :: bool
  div_run :: bool
  div_done :: bool
  div_start :: bool

definition any_div :: "mdu_in \<Rightarrow> bool" where
  "any_div x \<longleftrightarrow> op_div x \<or> op_divu x \<or> op_rem x \<or> op_remu x"

definition any_mul :: "mdu_in \<Rightarrow> bool" where
  "any_mul x \<longleftrightarrow> op_mul x \<or> op_mulh x \<or> op_mulhu x \<or> op_mulhsu x"

definition any_clmul :: "mdu_in \<Rightarrow> bool" where
  "any_clmul x \<longleftrightarrow> op_clmul x \<or> op_clmulh x"

text \<open>Slices of the accumulator and sign extension of the low half of a register.\<close>

definition hi64 :: "128 word \<Rightarrow> u64" where "hi64 w = ucast (drop_bit 64 w)"
definition lo64 :: "128 word \<Rightarrow> u64" where "lo64 w = ucast w"
definition sext32 :: "u64 \<Rightarrow> u64" where "sext32 w = scast (ucast w :: u32)"
definition zext32 :: "u64 \<Rightarrow> u64" where "zext32 w = ucast (ucast w :: u32)"

section \<open>The carry-less multiplier\<close>

definition CLMUL_UNROLL :: nat where "CLMUL_UNROLL = 8"
definition CLMUL_END :: "7 word" where "CLMUL_END = 0"

definition clmul_start :: "mdu_in \<Rightarrow> mdu \<Rightarrow> bool" where
  "clmul_start x s \<longleftrightarrow> mdu_valid x \<and> any_clmul x \<and> \<not> clmul_run s \<and> \<not> clmul_done s"

definition n_clmul_done :: "mdu \<Rightarrow> bool" where
  "n_clmul_done s \<longleftrightarrow> mdu_ctr s = CLMUL_END \<and> clmul_run s"

definition result_clmul :: "mdu_in \<Rightarrow> mdu \<Rightarrow> u64" where
  "result_clmul x s = (if op_clmulh x then hi64 (mdu_state s) else lo64 (mdu_state s))"

text \<open>One unrolled iteration: \<open>{1'b0, acc[127:64] ^ clmul_rhs, acc[63:1]}\<close>.\<close>

definition clmul_iter :: "u64 \<Rightarrow> u64 \<Rightarrow> nat \<Rightarrow> 128 word \<Rightarrow> 128 word" where
  "clmul_iter a b j acc =
     (let clmul_rhs = (if bit b j then a else 0)
      in push_bit 63 (ucast (hi64 acc XOR clmul_rhs)) OR ucast (drop_bit 1 (lo64 acc)))"

definition n_clmul_state :: "mdu \<Rightarrow> 128 word" where
  "n_clmul_state s = fold (clmul_iter (s_rs1 s) (s_rs2 s)) [0..<CLMUL_UNROLL] (mdu_state s)"

section \<open>The multiplier\<close>

definition MUL_UNROLL :: nat where "MUL_UNROLL = 4"
definition MUL_END :: "7 word" where "MUL_END = (if even MUL_UNROLL then 0 else 1)"

definition mul_start :: "mdu_in \<Rightarrow> mdu \<Rightarrow> bool" where
  "mul_start x s \<longleftrightarrow> mdu_valid x \<and> any_mul x \<and> \<not> mul_run s \<and> \<not> mul_done s"

definition mul_hi :: "mdu_in \<Rightarrow> bool" where
  "mul_hi x \<longleftrightarrow> op_mulh x \<or> op_mulhu x \<or> op_mulhsu x"

text \<open>\<open>{{32{acc[63]}}, acc[63:32]}\<close> for a word operation.\<close>

definition result_mul :: "mdu_in \<Rightarrow> mdu \<Rightarrow> u64" where
  "result_mul x s =
     (if op_word x then sext32 (drop_bit 32 (lo64 (mdu_state s)))
      else if mul_hi x then hi64 (mdu_state s)
      else lo64 (mdu_state s))"

definition n_mul_done :: "mdu \<Rightarrow> bool" where
  "n_mul_done s \<longleftrightarrow> mdu_ctr s = MUL_END \<and> mul_run s"

definition lhs_signed :: "mdu_in \<Rightarrow> bool" where
  "lhs_signed x \<longleftrightarrow> op_mulh x \<or> op_mulhsu x"

definition rhs_signed :: "mdu_in \<Rightarrow> bool" where
  "rhs_signed x \<longleftrightarrow> op_mulh x"

definition cat65 :: "bool \<Rightarrow> u64 \<Rightarrow> 65 word" where
  "cat65 b w = push_bit 64 (of_bool b) OR ucast w"

text \<open>One unrolled iteration: add or, in the last signed one, subtract; then shift right.\<close>

definition mul_iter :: "mdu_in \<Rightarrow> mdu \<Rightarrow> nat \<Rightarrow> 128 word \<Rightarrow> 128 word" where
  "mul_iter x s i acc =
     (let sub_last = (i = MUL_UNROLL - 1 \<and> mdu_ctr s = of_nat MUL_UNROLL \<and>
                      rhs_signed x \<and> bit (s_rs2 s) (MUL_UNROLL - 1));
          to_add = (if bit (s_rs2 s) i then s_rs1 s else 0);
          to_add_sign = (if op_word x then bit to_add 31 else bit to_add 63);
          mul_l_sign = (lhs_signed x \<and> bit acc 127);
          mul_r_sign = (lhs_signed x \<and> to_add_sign);
          mul_add_l = cat65 mul_l_sign (hi64 acc);
          mul_add_r = cat65 mul_r_sign to_add;
          mul_add_r' = (if sub_last then NOT mul_add_r else mul_add_r);
          mul_sum = mul_add_l + mul_add_r' + of_bool sub_last
      in push_bit 63 (ucast mul_sum) OR ucast (drop_bit 1 (lo64 acc)))"

definition n_mul_state :: "mdu_in \<Rightarrow> mdu \<Rightarrow> 128 word" where
  "n_mul_state x s = fold (mul_iter x s) [0..<MUL_UNROLL] (mdu_state s)"

section \<open>The divider\<close>

definition n_div_done :: "mdu \<Rightarrow> bool" where
  "n_div_done s \<longleftrightarrow> div_run s \<and> mdu_ctr s = 0"

definition n_div_start :: "mdu_in \<Rightarrow> mdu \<Rightarrow> bool" where
  "n_div_start x s \<longleftrightarrow> mdu_valid x \<and> any_div x \<and> \<not> div_run s \<and> \<not> div_done s \<and> \<not> div_start s"

definition div_signed :: "mdu_in \<Rightarrow> bool" where
  "div_signed x \<longleftrightarrow> op_div x \<or> op_rem x"

definition div_sign_lhs :: "mdu_in \<Rightarrow> bool" where
  "div_sign_lhs x \<longleftrightarrow> div_signed x \<and> (if op_word x then bit (mdu_rs1 x) 31 else bit (mdu_rs1 x) 63)"

definition div_sign_rhs :: "mdu_in \<Rightarrow> bool" where
  "div_sign_rhs x \<longleftrightarrow> div_signed x \<and> (if op_word x then bit (mdu_rs2 x) 31 else bit (mdu_rs2 x) 63)"

definition div_div :: "mdu_in \<Rightarrow> bool" where
  "div_div x \<longleftrightarrow> op_div x \<or> op_divu x"

definition div_less :: "mdu \<Rightarrow> bool" where
  "div_less s \<longleftrightarrow> mdu_state s \<le> ucast (s_rs1 s)"

text \<open>\<open>64'b1 << (mdu_ctr-1)\<close>: the shift amount is a 32-bit subtraction.\<close>

definition qmask :: "mdu \<Rightarrow> u64" where
  "qmask s = push_bit (unat (ucast (mdu_ctr s) - 1 :: u32)) 1"

definition div_rs2_nz :: "mdu_in \<Rightarrow> bool" where
  "div_rs2_nz x \<longleftrightarrow>
     (let div_rs2_nzw = (ucast (mdu_rs2 x) :: u32) \<noteq> 0
      in if op_word x then div_rs2_nzw
         else div_rs2_nzw \<or> (ucast (drop_bit 32 (mdu_rs2 x)) :: u32) \<noteq> 0)"

definition div_outsign :: "mdu_in \<Rightarrow> bool" where
  "div_outsign x \<longleftrightarrow>
     (if div_div x then div_sign_lhs x \<noteq> div_sign_rhs x \<and> div_rs2_nz x else div_sign_lhs x)"

definition neg_rs1 :: "mdu_in \<Rightarrow> mdu \<Rightarrow> u64" where
  "neg_rs1 x s = - (if op_word x then sext32 (s_rs1 s) else s_rs1 s)"

definition neg_rs2 :: "mdu_in \<Rightarrow> mdu \<Rightarrow> u64" where
  "neg_rs2 x s = - (if op_word x then sext32 (s_rs2 s) else s_rs2 s)"

definition result_div :: "mdu_in \<Rightarrow> mdu \<Rightarrow> u64" where
  "result_div x s =
     (let div_out = (if div_div x then s_rs2 s else s_rs1 s);
          div_pre_sext = (if div_outsign x then - div_out else div_out)
      in if op_word x then sext32 div_pre_sext else div_pre_sext)"

text \<open>\<open>s_rs1 & {{32{!op_word}}, {32{1'b1}}}\<close>\<close>

definition div_lhs_mask :: "mdu_in \<Rightarrow> u64" where
  "div_lhs_mask x = (if op_word x then 0xFFFFFFFF else - 1)"

text \<open>\<open>{{96{b}}, w[31:0]}\<close> and \<open>{{64{b}}, w}\<close>\<close>

definition rep96 :: "bool \<Rightarrow> u64 \<Rightarrow> 128 word" where
  "rep96 b w = (if b then push_bit 32 (- 1) else 0) OR ucast (ucast w :: u32)"

definition rep64 :: "bool \<Rightarrow> u64 \<Rightarrow> 128 word" where
  "rep64 b w = (if b then push_bit 64 (- 1) else 0) OR ucast w"

definition n_divisor :: "mdu_in \<Rightarrow> mdu \<Rightarrow> 128 word" where
  "n_divisor x s =
     (if n_div_start x s then 0
      else if div_start s then
        (if op_word x
         then push_bit 31 (if div_sign_rhs x then rep96 (bit (neg_rs2 x s) 32) (neg_rs2 x s)
                           else rep96 False (s_rs2 s))
         else push_bit 63 (if div_sign_rhs x then - rep64 (div_sign_rhs x) (s_rs2 s)
                           else rep64 False (s_rs2 s)))
      else drop_bit 1 (mdu_state s))"

definition n_dividend :: "mdu_in \<Rightarrow> mdu \<Rightarrow> u64" where
  "n_dividend x s =
     (if n_div_start x s then mdu_rs1 x
      else if div_start s then
        (if div_sign_lhs x then neg_rs1 x s else s_rs1 s AND div_lhs_mask x)
      else if div_run s \<and> div_less s \<and> \<not> n_div_done s then s_rs1 s - lo64 (mdu_state s)
      else s_rs1 s)"

definition n_quotient :: "mdu_in \<Rightarrow> mdu \<Rightarrow> u64" where
  "n_quotient x s =
     (if n_div_start x s then mdu_rs2 x
      else if div_start s then 0
      else if div_run s \<and> div_less s \<and> \<not> n_div_done s then s_rs2 s OR qmask s
      else s_rs2 s)"

section \<open>The clock edge\<close>

definition mdu_start :: "mdu_in \<Rightarrow> mdu \<Rightarrow> bool" where
  "mdu_start x s \<longleftrightarrow> mul_start x s \<or> div_start s \<or> clmul_start x s"

definition mdu_clear :: "mdu_in \<Rightarrow> bool" where
  "mdu_clear x \<longleftrightarrow> \<not> mdu_resetn x \<or> mdu_flush x"

text \<open>The operand and accumulator registers.\<close>

definition step_args :: "mdu_in \<Rightarrow> mdu \<Rightarrow> u64 \<times> u64 \<times> 128 word" where
  "step_args x s =
     (if mdu_clear x then (0, 0, mdu_state s)
      else if n_div_start x s \<or> div_start s \<or> div_run s then
        (n_dividend x s, n_quotient x s, n_divisor x s)
      else if mul_start x s \<or> clmul_start x s then (mdu_rs1 x, mdu_rs2 x, 0)
      else if mul_run s then
        (s_rs1 s, drop_bit MUL_UNROLL (s_rs2 s),
         if \<not> n_mul_done s \<or> MUL_UNROLL = 1 then n_mul_state x s else mdu_state s)
      else if clmul_run s then
        (s_rs1 s, drop_bit CLMUL_UNROLL (s_rs2 s),
         if \<not> n_clmul_done s \<or> CLMUL_UNROLL = 1 then n_clmul_state s else mdu_state s)
      else (s_rs1 s, s_rs2 s, mdu_state s))"

text \<open>The operation counter with its run and done flags.\<close>

definition step_ctr :: "mdu_in \<Rightarrow> mdu \<Rightarrow> bool \<times> bool \<times> 7 word" where
  "step_ctr x s =
     (if mdu_clear x then (False, False, 0)
      else if mdu_start x s then (True, False, if op_word x then 32 else 64)
      else if mdu_run s then
        (if any_mul x \<and> mdu_ctr s = MUL_END \<or> any_clmul x \<and> mdu_ctr s = CLMUL_END \<or>
            any_div x \<and> mdu_ctr s = 0
         then (False, n_mul_done s \<or> n_div_done s \<or> n_clmul_done s, mdu_ctr s)
         else (True, mdu_done s,
               mdu_ctr s - (if any_mul x then of_nat MUL_UNROLL
                            else if any_clmul x then of_nat CLMUL_UNROLL else 1)))
      else (mdu_run s, mdu_done s, mdu_ctr s))"

text \<open>The run and done flags of the three units.\<close>

definition step_clmul :: "mdu_in \<Rightarrow> mdu \<Rightarrow> bool \<times> bool" where
  "step_clmul x s =
     (if mdu_clear x then (False, False)
      else if clmul_start x s then (True, False)
      else if clmul_run s \<and> mdu_ctr s = CLMUL_END then (False, n_clmul_done s)
      else (clmul_run s, clmul_done s))"

definition step_mul :: "mdu_in \<Rightarrow> mdu \<Rightarrow> bool \<times> bool" where
  "step_mul x s =
     (if mdu_clear x then (False, False)
      else if mul_start x s then (True, False)
      else if mul_run s \<and> mdu_ctr s = MUL_END then (False, n_mul_done s)
      else (mul_run s, mul_done s))"

definition step_div :: "mdu_in \<Rightarrow> mdu \<Rightarrow> bool \<times> bool" where
  "step_div x s =
     (if mdu_clear x then (False, False)
      else if div_start s then (True, div_done s)
      else if div_run s \<and> mdu_ctr s = 0 then (False, n_div_done s)
      else (div_run s, div_done s))"

definition mdu_step :: "mdu_in \<Rightarrow> mdu \<Rightarrow> mdu" where
  "mdu_step x s =
     (case step_args x s of (a, b, acc) \<Rightarrow>
      case step_ctr x s of (run, dn, ctr) \<Rightarrow>
      case step_clmul x s of (crun, cdone) \<Rightarrow>
      case step_mul x s of (mrun, mdone) \<Rightarrow>
      case step_div x s of (drun, ddone) \<Rightarrow>
        \<lparr>s_rs1 = a, s_rs2 = b, mdu_state = acc, mdu_ctr = ctr, mdu_done = dn, mdu_run = run,
         clmul_run = crun, clmul_done = cdone, mul_run = mrun, mul_done = mdone,
         div_run = drun, div_done = ddone, div_start = (\<not> mdu_clear x \<and> n_div_start x s)\<rparr>)"

section \<open>The outputs\<close>

definition mdu_rd :: "mdu_in \<Rightarrow> mdu \<Rightarrow> u64" where
  "mdu_rd x s =
     (if any_mul x then result_mul x s else if any_clmul x then result_clmul x s
      else result_div x s)"

definition mdu_ready :: "mdu_in \<Rightarrow> mdu \<Rightarrow> bool" where
  "mdu_ready x s =
     (if any_mul x then mul_done s else if any_div x then div_done s
      else if any_clmul x then clmul_done s else False)"

text \<open>When the unit asks for its clock.\<close>

definition mdu_clk_req :: "mdu_in \<Rightarrow> bool" where
  "mdu_clk_req x \<longleftrightarrow> mdu_valid x \<or> mdu_flush x"

text \<open>Clocking the unit with the inputs held until the result is ready.\<close>

definition mdu_cycles :: "nat \<Rightarrow> mdu_in \<Rightarrow> mdu \<Rightarrow> mdu" where
  "mdu_cycles n x s = (mdu_step x ^^ n) s"

text \<open>No operation is in flight: the state after reset, a flush, or power-up.\<close>

definition mdu_idle :: "mdu \<Rightarrow> bool" where
  "mdu_idle s \<longleftrightarrow> \<not> mdu_run s \<and> \<not> clmul_run s \<and> \<not> clmul_done s \<and> \<not> mul_run s \<and> \<not> mul_done s \<and>
     \<not> div_run s \<and> \<not> div_done s \<and> \<not> div_start s"

text \<open>
  The handshake: no result before cycle \<open>n\<close>, and from then on \<open>ready\<close> with the result \<open>v\<close>
  for as long as the request is held.
\<close>

definition mdu_delivers :: "mdu_in \<Rightarrow> mdu \<Rightarrow> nat \<Rightarrow> u64 \<Rightarrow> bool" where
  "mdu_delivers x s n v \<longleftrightarrow>
     (\<forall>j<n. \<not> mdu_ready x (mdu_cycles j x s)) \<and>
     (\<forall>j\<ge>n. mdu_ready x (mdu_cycles j x s) \<and> mdu_rd x (mdu_cycles j x s) = v)"

datatype mdu_op = MUL | MULH | MULHU | MULHSU | CLMUL | CLMULH | DIV | DIVU | REM | REMU

definition mdu_request :: "mdu_op \<Rightarrow> bool \<Rightarrow> u64 \<Rightarrow> u64 \<Rightarrow> mdu_in" where
  "mdu_request opr word a b =
     \<lparr>mdu_resetn = True, mdu_flush = False, mdu_valid = True, op_word = word,
      op_mul = (opr = MUL), op_mulh = (opr = MULH), op_mulhu = (opr = MULHU),
      op_mulhsu = (opr = MULHSU), op_clmul = (opr = CLMUL), op_clmulh = (opr = CLMULH),
      op_div = (opr = DIV), op_divu = (opr = DIVU), op_rem = (opr = REM), op_remu = (opr = REMU),
      mdu_rs1 = a, mdu_rs2 = b\<rparr>"

lemma mdu_request_fields [simp]:
  "mdu_clear (mdu_request opr w a b) = False"
  "mdu_valid (mdu_request opr w a b)"
  "op_word (mdu_request opr w a b) = w"
  "mdu_rs1 (mdu_request opr w a b) = a"
  "mdu_rs2 (mdu_request opr w a b) = b"
  "any_mul (mdu_request opr w a b) = (opr \<in> {MUL, MULH, MULHU, MULHSU})"
  "any_div (mdu_request opr w a b) = (opr \<in> {DIV, DIVU, REM, REMU})"
  "any_clmul (mdu_request opr w a b) = (opr \<in> {CLMUL, CLMULH})"
  "mul_hi (mdu_request opr w a b) = (opr \<in> {MULH, MULHU, MULHSU})"
  "lhs_signed (mdu_request opr w a b) = (opr \<in> {MULH, MULHSU})"
  "rhs_signed (mdu_request opr w a b) = (opr = MULH)"
  "op_clmulh (mdu_request opr w a b) = (opr = CLMULH)"
  "div_signed (mdu_request opr w a b) = (opr \<in> {DIV, REM})"
  "div_div (mdu_request opr w a b) = (opr \<in> {DIV, DIVU})"
  by (auto simp: mdu_request_def mdu_clear_def any_mul_def any_div_def any_clmul_def mul_hi_def
      lhs_signed_def rhs_signed_def div_signed_def div_div_def)

lemma mdu_clear_idle: "mdu_clear x \<Longrightarrow> mdu_idle (mdu_step x s)"
  by (simp add: mdu_step_def mdu_idle_def step_args_def step_ctr_def step_clmul_def step_mul_def
      step_div_def)

lemma mdu_step_fields [simp]:
  "s_rs1 (mdu_step x s) = fst (step_args x s)"
  "s_rs2 (mdu_step x s) = fst (snd (step_args x s))"
  "mdu_state (mdu_step x s) = snd (snd (step_args x s))"
  "mdu_run (mdu_step x s) = fst (step_ctr x s)"
  "mdu_ctr (mdu_step x s) = snd (snd (step_ctr x s))"
  "clmul_run (mdu_step x s) = fst (step_clmul x s)"
  "clmul_done (mdu_step x s) = snd (step_clmul x s)"
  "mul_run (mdu_step x s) = fst (step_mul x s)"
  "mul_done (mdu_step x s) = snd (step_mul x s)"
  "div_run (mdu_step x s) = fst (step_div x s)"
  "div_done (mdu_step x s) = snd (step_div x s)"
  "div_start (mdu_step x s) = (\<not> mdu_clear x \<and> n_div_start x s)"
  by (simp_all add: mdu_step_def case_prod_unfold)

lemma mdu_cycles_Suc: "mdu_cycles (Suc n) x s = mdu_cycles n x (mdu_step x s)"
  by (simp add: mdu_cycles_def funpow_Suc_right del: funpow.simps)

lemma mdu_cycles_step: "mdu_cycles (Suc n) x s = mdu_step x (mdu_cycles n x s)"
  by (simp add: mdu_cycles_def)

lemma mdu_cycles_0 [simp]: "mdu_cycles 0 x s = s"
  by (simp add: mdu_cycles_def)

lemma mdu_cycles_add: "mdu_cycles (m + n) x s = mdu_cycles n x (mdu_cycles m x s)"
  by (simp add: mdu_cycles_def add.commute [of m n] funpow_add)

lemma mdu_cycles_fixed:
  assumes "mdu_step x t = t" "t = mdu_cycles n x s" "n \<le> j"
  shows "mdu_cycles j x s = t"
proof -
  have "mdu_cycles k x t = t" for k by (induction k) (simp_all add: mdu_cycles_Suc assms(1))
  then show ?thesis using mdu_cycles_add [of n "j - n" x s] assms by simp
qed

lemma mdu_deliversI:
  assumes "\<And>j. j < n \<Longrightarrow> \<not> mdu_ready x (mdu_cycles j x s)"
    and "mdu_step x (mdu_cycles n x s) = mdu_cycles n x s"
    and "mdu_ready x (mdu_cycles n x s)" "mdu_rd x (mdu_cycles n x s) = v"
  shows "mdu_delivers x s n v"
  unfolding mdu_delivers_def
proof (intro conjI allI impI)
  fix j
  show "\<not> mdu_ready x (mdu_cycles j x s)" if "j < n" using assms(1) that .
  assume "n \<le> j"
  from mdu_cycles_fixed [OF assms(2) refl this]
  show "mdu_ready x (mdu_cycles j x s)" "mdu_rd x (mdu_cycles j x s) = v"
    using assms(3,4) by simp_all
qed

section \<open>The instruction set\<close>

text \<open>The RISC-V M and B multiplication and division operations on 64-bit registers.\<close>

definition isa_clmul :: "u64 \<Rightarrow> u64 \<Rightarrow> 128 word" where
  "isa_clmul a b = fold (\<lambda>i acc. if bit b i then acc XOR push_bit i (ucast a) else acc) [0..<64] 0"

definition quot :: "int \<Rightarrow> int \<Rightarrow> int" where
  "quot m n = sgn m * sgn n * (\<bar>m\<bar> div \<bar>n\<bar>)"

definition isa_mul :: "mdu_op \<Rightarrow> bool \<Rightarrow> u64 \<Rightarrow> u64 \<Rightarrow> u64" where
  "isa_mul opr word a b =
     (case opr of
        MUL \<Rightarrow> if word then scast (ucast a * ucast b :: u32) else a * b
      | MULH \<Rightarrow> word_of_int ((sint a * sint b) div 2 ^ 64)
      | MULHU \<Rightarrow> word_of_int ((uint a * uint b) div 2 ^ 64)
      | MULHSU \<Rightarrow> word_of_int ((sint a * uint b) div 2 ^ 64)
      | CLMUL \<Rightarrow> lo64 (isa_clmul a b)
      | CLMULH \<Rightarrow> hi64 (isa_clmul a b)
      | _ \<Rightarrow> 0)"

definition isa_quot :: "'a::len word \<Rightarrow> 'a word \<Rightarrow> 'a word" where
  "isa_quot a b = (if b = 0 then - 1 else word_of_int (quot (sint a) (sint b)))"

definition isa_rem :: "'a::len word \<Rightarrow> 'a word \<Rightarrow> 'a word" where
  "isa_rem a b = (if b = 0 then a else word_of_int (sint a - sint b * quot (sint a) (sint b)))"

definition isa_quotu :: "'a::len word \<Rightarrow> 'a word \<Rightarrow> 'a word" where
  "isa_quotu a b = (if b = 0 then - 1 else a div b)"

definition isa_remu :: "'a::len word \<Rightarrow> 'a word \<Rightarrow> 'a word" where
  "isa_remu a b = (if b = 0 then a else a mod b)"

definition isa_div_at :: "mdu_op \<Rightarrow> 'a::len word \<Rightarrow> 'a word \<Rightarrow> 'a word" where
  "isa_div_at opr a b =
     (case opr of DIV \<Rightarrow> isa_quot a b | DIVU \<Rightarrow> isa_quotu a b | REM \<Rightarrow> isa_rem a b
      | _ \<Rightarrow> isa_remu a b)"

definition isa_div :: "mdu_op \<Rightarrow> bool \<Rightarrow> u64 \<Rightarrow> u64 \<Rightarrow> u64" where
  "isa_div opr word a b =
     (if word then scast (isa_div_at opr (ucast a :: u32) (ucast b)) else isa_div_at opr a b)"

end
