(* ===== verification/Alu.thy ===== *)
theory Alu
  imports Mdu
begin

text \<open>
  The integer ALU of the core (\<open>rtl/core/core_pipe_exec_alu.sv\<close>), a combinational unit: the
  ports are the record \<open>alu_in\<close> and every wire is a definition over it. A left shift is a right
  shift of the reversed operand, and the two reversals select bits outside their vector, at
  negative indices. What such a select reads is the parameter \<open>sel\<close>: a tool that truncates the
  index to the seven bits of a 128-bit vector satisfies \<open>sel_wraps\<close>; the language makes it
  unknown. The section on the instruction set says what each operation is to compute.
\<close>

section \<open>Ports and vectors\<close>

record alu_in =
  alu_a :: u64
  alu_b :: u64
  alu_shamt :: "6 word"
  alu_word :: bool
  alu_add :: bool
  alu_sub :: bool
  alu_xor :: bool
  alu_or :: bool
  alu_and :: bool
  alu_slt :: bool
  alu_sltu :: bool
  alu_srl :: bool
  alu_sll :: bool
  alu_sra :: bool
  alu_xorn :: bool
  alu_andn :: bool
  alu_orn :: bool
  alu_ror :: bool
  alu_rol :: bool
  alu_pack :: bool
  alu_packh :: bool
  alu_packu :: bool
  alu_grev :: bool
  alu_gorc :: bool
  alu_xpermn :: bool
  alu_xpermb :: bool

text \<open>Concatenation and replication of a bit.\<close>

definition cat64 :: "u64 \<Rightarrow> u64 \<Rightarrow> 128 word" where
  "cat64 h l = push_bit 64 (ucast h) OR ucast l"

definition cat32 :: "u32 \<Rightarrow> u32 \<Rightarrow> u64" where
  "cat32 h l = push_bit 32 (ucast h) OR ucast l"

definition rep :: "bool \<Rightarrow> 'a::len word" where
  "rep b = (if b then - 1 else 0)"

definition gate :: "bool \<Rightarrow> 'a::len word \<Rightarrow> 'a word" where
  "gate b w = rep b AND w"

definition lo32 :: "u64 \<Rightarrow> u32" where "lo32 w = ucast w"
definition hi32 :: "u64 \<Rightarrow> u32" where "hi32 w = ucast (drop_bit 32 w)"

lemma bit_cat64 [bit_simps]: "bit (cat64 h l) n = (if n < 64 then bit l n else bit h (n - 64))"
  by (auto simp: cat64_def bit_simps dest: bit_imp_le_length)

lemma bit_cat32 [bit_simps]: "bit (cat32 h l) n = (if n < 32 then bit l n else bit h (n - 32))"
  by (auto simp: cat32_def bit_simps dest: bit_imp_le_length)

lemma bit_rep [bit_simps]: "bit (rep b :: 'a::len word) n \<longleftrightarrow> b \<and> n < LENGTH('a)"
  by (simp add: rep_def)

lemma gate_simps [simp]: "gate True w = w" "gate False w = 0"
  by (simp_all add: gate_def rep_def)

lemma bit_lo32 [bit_simps]: "bit (lo32 w) n \<longleftrightarrow> n < 32 \<and> bit w n"
  by (auto simp: lo32_def bit_simps)

lemma bit_hi32 [bit_simps]: "bit (hi32 w) n \<longleftrightarrow> n < 32 \<and> bit w (n + 32)"
  by (auto simp: hi32_def bit_simps add.commute)

section \<open>Adder and comparisons\<close>

definition neg_opr_b :: "alu_in \<Rightarrow> bool" where
  "neg_opr_b x \<longleftrightarrow> alu_sub x \<or> alu_xorn x \<or> alu_orn x \<or> alu_andn x"

definition opr_b_n :: "alu_in \<Rightarrow> u64" where
  "opr_b_n x = (if neg_opr_b x then NOT (alu_b x) else alu_b x)"

definition addsub_output :: "alu_in \<Rightarrow> u64" where
  "addsub_output x = alu_a x + opr_b_n x + of_bool (alu_sub x)"

definition addsub_result :: "alu_in \<Rightarrow> u64" where
  "addsub_result x =
     cat32 (if alu_word x then rep (bit (addsub_output x) 31) else hi32 (addsub_output x))
       (lo32 (addsub_output x))"

definition cmp_eq :: "alu_in \<Rightarrow> bool" where
  "cmp_eq x \<longleftrightarrow> alu_a x = alu_b x"

definition cmp_lt :: "alu_in \<Rightarrow> bool" where
  "cmp_lt x \<longleftrightarrow>
     (if alu_word x then sint (lo32 (alu_a x)) < sint (lo32 (alu_b x))
      else sint (alu_a x) < sint (alu_b x))"

definition cmp_ltu :: "alu_in \<Rightarrow> bool" where
  "cmp_ltu x \<longleftrightarrow>
     (if alu_word x then lo32 (alu_a x) < lo32 (alu_b x) else alu_a x < alu_b x)"

definition slt_result :: "alu_in \<Rightarrow> u64" where
  "slt_result x = of_bool (if alu_slt x then cmp_lt x else cmp_ltu x)"

definition bitwise_result :: "alu_in \<Rightarrow> u64" where
  "bitwise_result x =
     gate (alu_xor x \<or> alu_xorn x) (alu_a x XOR opr_b_n x) OR
     gate (alu_or x \<or> alu_orn x) (alu_a x OR opr_b_n x) OR
     gate (alu_and x \<or> alu_andn x) (alu_a x AND opr_b_n x)"

section \<open>Shifts and rotations\<close>

definition select :: "(128 word \<Rightarrow> int \<Rightarrow> bool) \<Rightarrow> 128 word \<Rightarrow> int \<Rightarrow> bool" where
  "select sel w k = (if 0 \<le> k \<and> k < 128 then bit w (nat k) else sel w k)"

definition sbit :: "alu_in \<Rightarrow> bool" where
  "sbit x \<longleftrightarrow> alu_sra x \<and> (if alu_word x then bit (alu_a x) 31 else bit (alu_a x) 63)"

definition sh_rotate :: "alu_in \<Rightarrow> bool" where
  "sh_rotate x \<longleftrightarrow> alu_ror x \<or> alu_rol x"

definition sh_left :: "alu_in \<Rightarrow> bool" where
  "sh_left x \<longleftrightarrow> alu_rol x \<or> alu_sll x"

definition sh_right :: "alu_in \<Rightarrow> bool" where
  "sh_right x \<longleftrightarrow> alu_ror x \<or> alu_srl x \<or> alu_sra x"

definition shift_in_r :: "alu_in \<Rightarrow> 128 word" where
  "shift_in_r x =
     (if \<not> sh_rotate x \<and> alu_word x then cat64 0 (cat32 (rep (sbit x)) (lo32 (alu_a x)))
      else if \<not> sh_rotate x \<and> \<not> alu_word x then cat64 (rep (sbit x)) (alu_a x)
      else if sh_rotate x \<and> \<not> alu_word x then cat64 (alu_a x) (alu_a x)
      else if sh_rotate x \<and> alu_word x then cat64 0 (cat32 (lo32 (alu_a x)) (lo32 (alu_a x)))
      else 0)"

definition shift_in_l :: "(128 word \<Rightarrow> int \<Rightarrow> bool) \<Rightarrow> alu_in \<Rightarrow> 128 word" where
  "shift_in_l sel x = of_bits (\<lambda>i. select sel (shift_in_r x) (63 - int i))"

definition shift_in :: "(128 word \<Rightarrow> int \<Rightarrow> bool) \<Rightarrow> alu_in \<Rightarrow> 128 word" where
  "shift_in sel x = (if sh_left x then shift_in_l sel x else shift_in_r x)"

definition shift_amnt :: "alu_in \<Rightarrow> nat" where
  "shift_amnt x =
     (if \<not> alu_word x \<and> bit (alu_shamt x) 5 then 32 else 0) + unat (take_bit 5 (alu_shamt x))"

definition shift_out_r :: "(128 word \<Rightarrow> int \<Rightarrow> bool) \<Rightarrow> alu_in \<Rightarrow> 128 word" where
  "shift_out_r sel x = drop_bit (shift_amnt x) (shift_in sel x)"

definition shift_out_l :: "(128 word \<Rightarrow> int \<Rightarrow> bool) \<Rightarrow> alu_in \<Rightarrow> 128 word" where
  "shift_out_l sel x = of_bits (\<lambda>i. select sel (shift_out_r sel x) (63 - int i))"

definition shift_result :: "(128 word \<Rightarrow> int \<Rightarrow> bool) \<Rightarrow> alu_in \<Rightarrow> u64" where
  "shift_result sel x =
     (let l = lo64 (shift_out_l sel x); r = lo64 (shift_out_r sel x) in
      gate (sh_left x \<and> alu_word x \<and> alu_rol x) (cat32 (rep (bit l 31)) (hi32 l)) OR
      gate (sh_left x \<and> alu_word x \<and> \<not> alu_rol x) (cat32 (rep (bit l 31)) (lo32 l)) OR
      gate (sh_right x \<and> alu_word x) (cat32 (rep (bit r 31)) (lo32 r)) OR
      gate (sh_left x \<and> \<not> alu_word x) l OR
      gate (sh_right x \<and> \<not> alu_word x) r)"

section \<open>Packing and permutations\<close>

definition pack_result :: "alu_in \<Rightarrow> u64" where
  "pack_result x =
     (let a = alu_a x; b = alu_b x in
      if alu_pack x \<and> \<not> alu_word x then cat32 (lo32 b) (lo32 a)
      else if alu_pack x \<and> alu_word x then ucast (push_bit 16 (b AND 0xffff) OR (a AND 0xffff))
      else if alu_packu x \<and> \<not> alu_word x then cat32 (hi32 b) (hi32 a)
      else if alu_packu x \<and> alu_word x then
        push_bit 16 (drop_bit 16 b AND 0xffff) OR (drop_bit 16 a AND 0xffff)
      else if alu_packh x then push_bit 8 (b AND 0xff) OR (a AND 0xff)
      else 0)"

definition rev_bits_in_byte :: "u8 \<Rightarrow> u8" where
  "rev_bits_in_byte i = of_bits (\<lambda>k. bit i (7 - k))"

definition grev_7 :: "u64 \<Rightarrow> u64" where
  "grev_7 a = or_bytes (\<lambda>i. rev_bits_in_byte (byte_of a i)) 8"

definition grev_56 :: "u64 \<Rightarrow> u64" where
  "grev_56 a = or_bytes (\<lambda>i. byte_of a ([7, 6, 5, 4, 3, 2, 1, 0] ! i)) 8"

definition grev_24 :: "u64 \<Rightarrow> u64" where
  "grev_24 a = or_bytes (\<lambda>i. byte_of a ([3, 2, 1, 0, 7, 6, 5, 4] ! i)) 8"

definition grev_result :: "alu_in \<Rightarrow> u64" where
  "grev_result x =
     (if alu_shamt x = 7 then grev_7 (alu_a x)
      else if alu_shamt x = 56 then grev_56 (alu_a x)
      else if alu_shamt x = 24 then grev_24 (alu_a x)
      else 0)"

text \<open>The OR-combine unit is a stub: all three of its vectors are zero.\<close>

definition gorc_result :: "alu_in \<Rightarrow> u64" where
  "gorc_result x =
     (if alu_shamt x = 3 then 0 else if alu_shamt x = 4 then 0 else if alu_shamt x = 7 then 0
      else 0)"

definition nibble :: "u64 \<Rightarrow> nat \<Rightarrow> 4 word" where
  "nibble w n = ucast (drop_bit (4 * n) w)"

definition xperm_n_lut :: "alu_in \<Rightarrow> nat \<Rightarrow> 4 word" where
  "xperm_n_lut x n = gate (alu_xpermn x) (nibble (alu_a x) n)"

definition xperm_n_result :: "alu_in \<Rightarrow> u64" where
  "xperm_n_result x =
     of_bits (\<lambda>k. bit (xperm_n_lut x (unat (nibble (alu_b x) (k div 4)))) (k mod 4))"

definition xperm_b_lut :: "alu_in \<Rightarrow> nat \<Rightarrow> u8" where
  "xperm_b_lut x n = gate (alu_xpermb x) (byte_of (alu_a x) n)"

definition xperm_b_result :: "alu_in \<Rightarrow> u64" where
  "xperm_b_result x =
     or_bytes (\<lambda>b. let i = byte_of (alu_b x) b in
       if drop_bit 3 i \<noteq> 0 then 0 else xperm_b_lut x (unat (take_bit 3 i))) 8"

section \<open>The result\<close>

definition alu_result :: "(128 word \<Rightarrow> int \<Rightarrow> bool) \<Rightarrow> alu_in \<Rightarrow> u64" where
  "alu_result sel x =
     bitwise_result x OR
     gate (alu_xpermn x) (xperm_n_result x) OR
     gate (alu_xpermb x) (xperm_b_result x) OR
     gate (alu_grev x) (grev_result x) OR
     gate (alu_gorc x) (gorc_result x) OR
     gate (alu_pack x \<or> alu_packh x \<or> alu_packu x) (pack_result x) OR
     gate (alu_add x \<or> alu_sub x) (addsub_result x) OR
     gate (alu_slt x \<or> alu_sltu x) (slt_result x) OR
     gate (alu_sll x \<or> alu_sra x \<or> alu_srl x \<or> alu_ror x \<or> alu_rol x) (shift_result sel x)"

section \<open>Instructions\<close>

datatype alu_op = Add | Sub | Xor | Or | And | Slt | Sltu | Srl | Sll | Sra | Xnor | Andn | Orn
  | Ror | Rol | Pack | Packh | Packu | Grev | Gorc | Xpermn | Xpermb

text \<open>The decoder raises one operation and gives the low six bits of \<open>rs2\<close> (or of the
  immediate) as shift amount, \<open>rtl/core/core_pipe_decode.sv\<close>.\<close>

definition alu_request :: "alu_op \<Rightarrow> bool \<Rightarrow> u64 \<Rightarrow> u64 \<Rightarrow> alu_in" where
  "alu_request opr word a b =
     \<lparr>alu_a = a, alu_b = b, alu_shamt = ucast b, alu_word = word,
      alu_add = (opr = Add), alu_sub = (opr = Sub), alu_xor = (opr = Xor), alu_or = (opr = Or),
      alu_and = (opr = And), alu_slt = (opr = Slt), alu_sltu = (opr = Sltu),
      alu_srl = (opr = Srl), alu_sll = (opr = Sll), alu_sra = (opr = Sra),
      alu_xorn = (opr = Xnor), alu_andn = (opr = Andn), alu_orn = (opr = Orn),
      alu_ror = (opr = Ror), alu_rol = (opr = Rol), alu_pack = (opr = Pack),
      alu_packh = (opr = Packh), alu_packu = (opr = Packu), alu_grev = (opr = Grev),
      alu_gorc = (opr = Gorc), alu_xpermn = (opr = Xpermn), alu_xpermb = (opr = Xpermb)\<rparr>"

definition alu_instr :: "(128 word \<Rightarrow> int \<Rightarrow> bool) \<Rightarrow> alu_op \<Rightarrow> bool \<Rightarrow> u64 \<Rightarrow> u64 \<Rightarrow> u64" where
  "alu_instr sel opr word a b = alu_result sel (alu_request opr word a b)"

text \<open>
  The instruction set: \<open>at\<close> gives an operation at the width of its operands, and a word
  operation sign-extends the result at 32 bits.
\<close>

definition isa_shift :: "alu_op \<Rightarrow> nat \<Rightarrow> 'a::len word \<Rightarrow> 'a word" where
  "isa_shift opr n a =
     (case opr of Srl \<Rightarrow> drop_bit n a | Sll \<Rightarrow> push_bit n a | Sra \<Rightarrow> signed_drop_bit n a
      | Ror \<Rightarrow> word_rotr n a | _ \<Rightarrow> word_rotl n a)"

definition isa_grev :: "nat \<Rightarrow> u64 \<Rightarrow> u64" where
  "isa_grev k a = of_bits (\<lambda>i. bit a (unat (of_nat i XOR of_nat k :: 6 word)))"

definition isa_xperm :: "nat \<Rightarrow> u64 \<Rightarrow> u64 \<Rightarrow> u64" where
  "isa_xperm w a b =
     of_bits (\<lambda>k. bit a (w * unat (take_bit w (drop_bit (w * (k div w)) b)) + k mod w))"

definition isa_alu :: "alu_op \<Rightarrow> bool \<Rightarrow> u64 \<Rightarrow> u64 \<Rightarrow> u64" where
  "isa_alu opr word a b =
     (case opr of
        Add \<Rightarrow> if word then sext32 (a + b) else a + b
      | Sub \<Rightarrow> if word then sext32 (a - b) else a - b
      | Xor \<Rightarrow> a XOR b | Or \<Rightarrow> a OR b | And \<Rightarrow> a AND b
      | Xnor \<Rightarrow> NOT (a XOR b) | Orn \<Rightarrow> a OR NOT b | Andn \<Rightarrow> a AND NOT b
      | Slt \<Rightarrow> of_bool (sint a < sint b) | Sltu \<Rightarrow> of_bool (a < b)
      | Pack \<Rightarrow> push_bit 32 b OR take_bit 32 a
      | Packu \<Rightarrow> push_bit 32 (drop_bit 32 b) OR drop_bit 32 a
      | Packh \<Rightarrow> push_bit 8 (take_bit 8 b) OR take_bit 8 a
      | Grev \<Rightarrow> isa_grev (unat (take_bit 6 b)) a
      | Xpermn \<Rightarrow> isa_xperm 4 a b | Xpermb \<Rightarrow> isa_xperm 8 a b
      | Gorc \<Rightarrow> 0
      | _ \<Rightarrow> if word then scast (isa_shift opr (unat (take_bit 5 b)) (lo32 a))
            else isa_shift opr (unat (take_bit 6 b)) a)"

end
