(* ===== verification/Decode.thy ===== *)
theory Decode
  imports Alu
begin

text \<open>
  The instruction decoder (\<open>rtl/core/core_pipe_decode.sv\<close>, the generated \<open>core_pipe_decode.svh\<close> and
  \<open>core_pipe_decode_immediates.sv\<close>), a combinational function of the halfwords at the head of the fetch
  buffer: one \<open>dec_\<close> wire per instruction, the immediates of every format, and the \<open>s2_\<close> signals that
  drive the execute stage. Every feature parameter is 1, as in \<open>core_top.sv\<close>.
\<close>

section \<open>Fields\<close>

definition field :: "nat \<Rightarrow> nat \<Rightarrow> u32 \<Rightarrow> 'a::len word" where
  "field hi lo i = ucast (take_bit (Suc hi - lo) (drop_bit lo i))"

text \<open>Bits and their concatenation, the highest first.\<close>

definition bits_of :: "nat \<Rightarrow> nat \<Rightarrow> u32 \<Rightarrow> bool list" where
  "bits_of hi lo i = map (bit i) (rev [lo..<Suc hi])"

definition cat_bits :: "bool list \<Rightarrow> 'a::len word" where
  "cat_bits bs = horner_sum of_bool 2 (rev bs)"

section \<open>One wire per instruction\<close>

definition dec_beq :: "u32 \<Rightarrow> bool" where "dec_beq i \<longleftrightarrow> i AND 0x707f = 0x63"
definition dec_bne :: "u32 \<Rightarrow> bool" where "dec_bne i \<longleftrightarrow> i AND 0x707f = 0x1063"
definition dec_blt :: "u32 \<Rightarrow> bool" where "dec_blt i \<longleftrightarrow> i AND 0x707f = 0x4063"
definition dec_bge :: "u32 \<Rightarrow> bool" where "dec_bge i \<longleftrightarrow> i AND 0x707f = 0x5063"
definition dec_bltu :: "u32 \<Rightarrow> bool" where "dec_bltu i \<longleftrightarrow> i AND 0x707f = 0x6063"
definition dec_bgeu :: "u32 \<Rightarrow> bool" where "dec_bgeu i \<longleftrightarrow> i AND 0x707f = 0x7063"
definition dec_jalr :: "u32 \<Rightarrow> bool" where "dec_jalr i \<longleftrightarrow> i AND 0x707f = 0x67"
definition dec_jal :: "u32 \<Rightarrow> bool" where "dec_jal i \<longleftrightarrow> i AND 0x7f = 0x6f"
definition dec_lui :: "u32 \<Rightarrow> bool" where "dec_lui i \<longleftrightarrow> i AND 0x7f = 0x37"
definition dec_auipc :: "u32 \<Rightarrow> bool" where "dec_auipc i \<longleftrightarrow> i AND 0x7f = 0x17"
definition dec_addi :: "u32 \<Rightarrow> bool" where "dec_addi i \<longleftrightarrow> i AND 0x707f = 0x13"
definition dec_slli :: "u32 \<Rightarrow> bool" where "dec_slli i \<longleftrightarrow> i AND 0xfc00707f = 0x1013"
definition dec_slti :: "u32 \<Rightarrow> bool" where "dec_slti i \<longleftrightarrow> i AND 0x707f = 0x2013"
definition dec_sltiu :: "u32 \<Rightarrow> bool" where "dec_sltiu i \<longleftrightarrow> i AND 0x707f = 0x3013"
definition dec_xori :: "u32 \<Rightarrow> bool" where "dec_xori i \<longleftrightarrow> i AND 0x707f = 0x4013"
definition dec_srli :: "u32 \<Rightarrow> bool" where "dec_srli i \<longleftrightarrow> i AND 0xfc00707f = 0x5013"
definition dec_srai :: "u32 \<Rightarrow> bool" where "dec_srai i \<longleftrightarrow> i AND 0xfc00707f = 0x40005013"
definition dec_ori :: "u32 \<Rightarrow> bool" where "dec_ori i \<longleftrightarrow> i AND 0x707f = 0x6013"
definition dec_andi :: "u32 \<Rightarrow> bool" where "dec_andi i \<longleftrightarrow> i AND 0x707f = 0x7013"
definition dec_add :: "u32 \<Rightarrow> bool" where "dec_add i \<longleftrightarrow> i AND 0xfe00707f = 0x33"
definition dec_sub :: "u32 \<Rightarrow> bool" where "dec_sub i \<longleftrightarrow> i AND 0xfe00707f = 0x40000033"
definition dec_sll :: "u32 \<Rightarrow> bool" where "dec_sll i \<longleftrightarrow> i AND 0xfe00707f = 0x1033"
definition dec_slt :: "u32 \<Rightarrow> bool" where "dec_slt i \<longleftrightarrow> i AND 0xfe00707f = 0x2033"
definition dec_sltu :: "u32 \<Rightarrow> bool" where "dec_sltu i \<longleftrightarrow> i AND 0xfe00707f = 0x3033"
definition dec_xor :: "u32 \<Rightarrow> bool" where "dec_xor i \<longleftrightarrow> i AND 0xfe00707f = 0x4033"
definition dec_srl :: "u32 \<Rightarrow> bool" where "dec_srl i \<longleftrightarrow> i AND 0xfe00707f = 0x5033"
definition dec_sra :: "u32 \<Rightarrow> bool" where "dec_sra i \<longleftrightarrow> i AND 0xfe00707f = 0x40005033"
definition dec_or :: "u32 \<Rightarrow> bool" where "dec_or i \<longleftrightarrow> i AND 0xfe00707f = 0x6033"
definition dec_and :: "u32 \<Rightarrow> bool" where "dec_and i \<longleftrightarrow> i AND 0xfe00707f = 0x7033"
definition dec_addiw :: "u32 \<Rightarrow> bool" where "dec_addiw i \<longleftrightarrow> i AND 0x707f = 0x1b"
definition dec_slliw :: "u32 \<Rightarrow> bool" where "dec_slliw i \<longleftrightarrow> i AND 0xfe00707f = 0x101b"
definition dec_srliw :: "u32 \<Rightarrow> bool" where "dec_srliw i \<longleftrightarrow> i AND 0xfe00707f = 0x501b"
definition dec_sraiw :: "u32 \<Rightarrow> bool" where
  "dec_sraiw i \<longleftrightarrow> i AND 0xfe00707f = 0x4000501b"
definition dec_addw :: "u32 \<Rightarrow> bool" where "dec_addw i \<longleftrightarrow> i AND 0xfe00707f = 0x3b"
definition dec_subw :: "u32 \<Rightarrow> bool" where "dec_subw i \<longleftrightarrow> i AND 0xfe00707f = 0x4000003b"
definition dec_sllw :: "u32 \<Rightarrow> bool" where "dec_sllw i \<longleftrightarrow> i AND 0xfe00707f = 0x103b"
definition dec_srlw :: "u32 \<Rightarrow> bool" where "dec_srlw i \<longleftrightarrow> i AND 0xfe00707f = 0x503b"
definition dec_sraw :: "u32 \<Rightarrow> bool" where "dec_sraw i \<longleftrightarrow> i AND 0xfe00707f = 0x4000503b"
definition dec_lb :: "u32 \<Rightarrow> bool" where "dec_lb i \<longleftrightarrow> i AND 0x707f = 0x3"
definition dec_lh :: "u32 \<Rightarrow> bool" where "dec_lh i \<longleftrightarrow> i AND 0x707f = 0x1003"
definition dec_lw :: "u32 \<Rightarrow> bool" where "dec_lw i \<longleftrightarrow> i AND 0x707f = 0x2003"
definition dec_ld :: "u32 \<Rightarrow> bool" where "dec_ld i \<longleftrightarrow> i AND 0x707f = 0x3003"
definition dec_lbu :: "u32 \<Rightarrow> bool" where "dec_lbu i \<longleftrightarrow> i AND 0x707f = 0x4003"
definition dec_lhu :: "u32 \<Rightarrow> bool" where "dec_lhu i \<longleftrightarrow> i AND 0x707f = 0x5003"
definition dec_lwu :: "u32 \<Rightarrow> bool" where "dec_lwu i \<longleftrightarrow> i AND 0x707f = 0x6003"
definition dec_sb :: "u32 \<Rightarrow> bool" where "dec_sb i \<longleftrightarrow> i AND 0x707f = 0x23"
definition dec_sh :: "u32 \<Rightarrow> bool" where "dec_sh i \<longleftrightarrow> i AND 0x707f = 0x1023"
definition dec_sw :: "u32 \<Rightarrow> bool" where "dec_sw i \<longleftrightarrow> i AND 0x707f = 0x2023"
definition dec_sd :: "u32 \<Rightarrow> bool" where "dec_sd i \<longleftrightarrow> i AND 0x707f = 0x3023"
definition dec_fence :: "u32 \<Rightarrow> bool" where "dec_fence i \<longleftrightarrow> i AND 0x707f = 0xf"
definition dec_fence_i :: "u32 \<Rightarrow> bool" where "dec_fence_i i \<longleftrightarrow> i AND 0x707f = 0x100f"
definition dec_mul :: "u32 \<Rightarrow> bool" where "dec_mul i \<longleftrightarrow> i AND 0xfe00707f = 0x2000033"
definition dec_mulh :: "u32 \<Rightarrow> bool" where "dec_mulh i \<longleftrightarrow> i AND 0xfe00707f = 0x2001033"
definition dec_mulhsu :: "u32 \<Rightarrow> bool" where
  "dec_mulhsu i \<longleftrightarrow> i AND 0xfe00707f = 0x2002033"
definition dec_mulhu :: "u32 \<Rightarrow> bool" where
  "dec_mulhu i \<longleftrightarrow> i AND 0xfe00707f = 0x2003033"
definition dec_div :: "u32 \<Rightarrow> bool" where "dec_div i \<longleftrightarrow> i AND 0xfe00707f = 0x2004033"
definition dec_divu :: "u32 \<Rightarrow> bool" where "dec_divu i \<longleftrightarrow> i AND 0xfe00707f = 0x2005033"
definition dec_rem :: "u32 \<Rightarrow> bool" where "dec_rem i \<longleftrightarrow> i AND 0xfe00707f = 0x2006033"
definition dec_remu :: "u32 \<Rightarrow> bool" where "dec_remu i \<longleftrightarrow> i AND 0xfe00707f = 0x2007033"
definition dec_mulw :: "u32 \<Rightarrow> bool" where "dec_mulw i \<longleftrightarrow> i AND 0xfe00707f = 0x200003b"
definition dec_divw :: "u32 \<Rightarrow> bool" where "dec_divw i \<longleftrightarrow> i AND 0xfe00707f = 0x200403b"
definition dec_divuw :: "u32 \<Rightarrow> bool" where
  "dec_divuw i \<longleftrightarrow> i AND 0xfe00707f = 0x200503b"
definition dec_remw :: "u32 \<Rightarrow> bool" where "dec_remw i \<longleftrightarrow> i AND 0xfe00707f = 0x200603b"
definition dec_remuw :: "u32 \<Rightarrow> bool" where
  "dec_remuw i \<longleftrightarrow> i AND 0xfe00707f = 0x200703b"
definition dec_andn :: "u32 \<Rightarrow> bool" where "dec_andn i \<longleftrightarrow> i AND 0xfe00707f = 0x40007033"
definition dec_orn :: "u32 \<Rightarrow> bool" where "dec_orn i \<longleftrightarrow> i AND 0xfe00707f = 0x40006033"
definition dec_xnor :: "u32 \<Rightarrow> bool" where "dec_xnor i \<longleftrightarrow> i AND 0xfe00707f = 0x40004033"
definition dec_rol :: "u32 \<Rightarrow> bool" where "dec_rol i \<longleftrightarrow> i AND 0xfe00707f = 0x60001033"
definition dec_ror :: "u32 \<Rightarrow> bool" where "dec_ror i \<longleftrightarrow> i AND 0xfe00707f = 0x60005033"
definition dec_rori :: "u32 \<Rightarrow> bool" where "dec_rori i \<longleftrightarrow> i AND 0xfc00707f = 0x60005013"
definition dec_gorci :: "u32 \<Rightarrow> bool" where
  "dec_gorci i \<longleftrightarrow> i AND 0xfc00707f = 0x28005013"
definition dec_grevi :: "u32 \<Rightarrow> bool" where
  "dec_grevi i \<longleftrightarrow> i AND 0xfc00707f = 0x68005013"
definition dec_clmul :: "u32 \<Rightarrow> bool" where
  "dec_clmul i \<longleftrightarrow> i AND 0xfe00707f = 0xa001033"
definition dec_clmulh :: "u32 \<Rightarrow> bool" where
  "dec_clmulh i \<longleftrightarrow> i AND 0xfe00707f = 0xa003033"
definition dec_pack :: "u32 \<Rightarrow> bool" where "dec_pack i \<longleftrightarrow> i AND 0xfe00707f = 0x8004033"
definition dec_packu :: "u32 \<Rightarrow> bool" where
  "dec_packu i \<longleftrightarrow> i AND 0xfe00707f = 0x48004033"
definition dec_packh :: "u32 \<Rightarrow> bool" where
  "dec_packh i \<longleftrightarrow> i AND 0xfe00707f = 0x8007033"
definition dec_xperm_n :: "u32 \<Rightarrow> bool" where
  "dec_xperm_n i \<longleftrightarrow> i AND 0xfe00707f = 0x28002033"
definition dec_xperm_b :: "u32 \<Rightarrow> bool" where
  "dec_xperm_b i \<longleftrightarrow> i AND 0xfe00707f = 0x28004033"
definition dec_rolw :: "u32 \<Rightarrow> bool" where "dec_rolw i \<longleftrightarrow> i AND 0xfe00707f = 0x6000103b"
definition dec_rorw :: "u32 \<Rightarrow> bool" where "dec_rorw i \<longleftrightarrow> i AND 0xfe00707f = 0x6000503b"
definition dec_roriw :: "u32 \<Rightarrow> bool" where
  "dec_roriw i \<longleftrightarrow> i AND 0xfe00707f = 0x6000501b"
definition dec_packw :: "u32 \<Rightarrow> bool" where
  "dec_packw i \<longleftrightarrow> i AND 0xfe00707f = 0x800403b"
definition dec_packuw :: "u32 \<Rightarrow> bool" where
  "dec_packuw i \<longleftrightarrow> i AND 0xfe00707f = 0x4800403b"
definition dec_sm4ed :: "u32 \<Rightarrow> bool" where
  "dec_sm4ed i \<longleftrightarrow> i AND 0x3e007fff = 0x30000033"
definition dec_sm4ks :: "u32 \<Rightarrow> bool" where
  "dec_sm4ks i \<longleftrightarrow> i AND 0x3e007fff = 0x34000033"
definition dec_sm3p0 :: "u32 \<Rightarrow> bool" where
  "dec_sm3p0 i \<longleftrightarrow> i AND 0xfff0707f = 0x10801013"
definition dec_sm3p1 :: "u32 \<Rightarrow> bool" where
  "dec_sm3p1 i \<longleftrightarrow> i AND 0xfff0707f = 0x10901013"
definition dec_sha256sum0 :: "u32 \<Rightarrow> bool" where
  "dec_sha256sum0 i \<longleftrightarrow> i AND 0xfff0707f = 0x10001013"
definition dec_sha256sum1 :: "u32 \<Rightarrow> bool" where
  "dec_sha256sum1 i \<longleftrightarrow> i AND 0xfff0707f = 0x10101013"
definition dec_sha256sig0 :: "u32 \<Rightarrow> bool" where
  "dec_sha256sig0 i \<longleftrightarrow> i AND 0xfff0707f = 0x10201013"
definition dec_sha256sig1 :: "u32 \<Rightarrow> bool" where
  "dec_sha256sig1 i \<longleftrightarrow> i AND 0xfff0707f = 0x10301013"
definition dec_aes64ks1i :: "u32 \<Rightarrow> bool" where
  "dec_aes64ks1i i \<longleftrightarrow> i AND 0xff00707f = 0x31001013"
definition dec_aes64im :: "u32 \<Rightarrow> bool" where
  "dec_aes64im i \<longleftrightarrow> i AND 0xfff0707f = 0x30001013"
definition dec_aes64ks2 :: "u32 \<Rightarrow> bool" where
  "dec_aes64ks2 i \<longleftrightarrow> i AND 0xfe00707f = 0x7e000033"
definition dec_aes64esm :: "u32 \<Rightarrow> bool" where
  "dec_aes64esm i \<longleftrightarrow> i AND 0xfe00707f = 0x36000033"
definition dec_aes64es :: "u32 \<Rightarrow> bool" where
  "dec_aes64es i \<longleftrightarrow> i AND 0xfe00707f = 0x32000033"
definition dec_aes64dsm :: "u32 \<Rightarrow> bool" where
  "dec_aes64dsm i \<longleftrightarrow> i AND 0xfe00707f = 0x3e000033"
definition dec_aes64ds :: "u32 \<Rightarrow> bool" where
  "dec_aes64ds i \<longleftrightarrow> i AND 0xfe00707f = 0x3a000033"
definition dec_sha512sum0 :: "u32 \<Rightarrow> bool" where
  "dec_sha512sum0 i \<longleftrightarrow> i AND 0xfff0707f = 0x10401013"
definition dec_sha512sum1 :: "u32 \<Rightarrow> bool" where
  "dec_sha512sum1 i \<longleftrightarrow> i AND 0xfff0707f = 0x10501013"
definition dec_sha512sig0 :: "u32 \<Rightarrow> bool" where
  "dec_sha512sig0 i \<longleftrightarrow> i AND 0xfff0707f = 0x10601013"
definition dec_sha512sig1 :: "u32 \<Rightarrow> bool" where
  "dec_sha512sig1 i \<longleftrightarrow> i AND 0xfff0707f = 0x10701013"
definition dec_ecall :: "u32 \<Rightarrow> bool" where "dec_ecall i \<longleftrightarrow> i AND 0xffffffff = 0x73"
definition dec_ebreak :: "u32 \<Rightarrow> bool" where
  "dec_ebreak i \<longleftrightarrow> i AND 0xffffffff = 0x100073"
definition dec_mret :: "u32 \<Rightarrow> bool" where "dec_mret i \<longleftrightarrow> i AND 0xffffffff = 0x30200073"
definition dec_wfi :: "u32 \<Rightarrow> bool" where "dec_wfi i \<longleftrightarrow> i AND 0xffffffff = 0x10500073"
definition dec_csrrw :: "u32 \<Rightarrow> bool" where "dec_csrrw i \<longleftrightarrow> i AND 0x707f = 0x1073"
definition dec_csrrs :: "u32 \<Rightarrow> bool" where "dec_csrrs i \<longleftrightarrow> i AND 0x707f = 0x2073"
definition dec_csrrc :: "u32 \<Rightarrow> bool" where "dec_csrrc i \<longleftrightarrow> i AND 0x707f = 0x3073"
definition dec_csrrwi :: "u32 \<Rightarrow> bool" where "dec_csrrwi i \<longleftrightarrow> i AND 0x707f = 0x5073"
definition dec_csrrsi :: "u32 \<Rightarrow> bool" where "dec_csrrsi i \<longleftrightarrow> i AND 0x707f = 0x6073"
definition dec_csrrci :: "u32 \<Rightarrow> bool" where "dec_csrrci i \<longleftrightarrow> i AND 0x707f = 0x7073"
definition dec_c_addi4spn :: "u32 \<Rightarrow> bool" where
  "dec_c_addi4spn i \<longleftrightarrow> i AND 0xe003 = 0x0"
definition dec_c_addi16sp :: "u32 \<Rightarrow> bool" where
  "dec_c_addi16sp i \<longleftrightarrow> field 1 0 i = (1 :: 2 word) \<and>
     field 15 13 i = (3 :: 3 word) \<and>
     field 11 7 i = (2 :: 5 word)"
definition dec_c_lw :: "u32 \<Rightarrow> bool" where "dec_c_lw i \<longleftrightarrow> i AND 0xe003 = 0x4000"
definition dec_c_ld :: "u32 \<Rightarrow> bool" where "dec_c_ld i \<longleftrightarrow> i AND 0xe003 = 0x6000"
definition dec_c_sw :: "u32 \<Rightarrow> bool" where "dec_c_sw i \<longleftrightarrow> i AND 0xe003 = 0xc000"
definition dec_c_sd :: "u32 \<Rightarrow> bool" where "dec_c_sd i \<longleftrightarrow> i AND 0xe003 = 0xe000"
definition dec_c_addi :: "u32 \<Rightarrow> bool" where "dec_c_addi i \<longleftrightarrow> i AND 0xe003 = 0x0001"
definition dec_c_addiw :: "u32 \<Rightarrow> bool" where
  "dec_c_addiw i \<longleftrightarrow> i AND 0xe003 = 0x2001 \<and> field 11 7 i \<noteq> (0 :: 5 word)"
definition dec_c_jalr :: "u32 \<Rightarrow> bool" where
  "dec_c_jalr i \<longleftrightarrow> field 1 0 i = (2 :: 2 word) \<and>
     field 15 13 i = (4 :: 3 word) \<and>
     field 12 12 i = (1 :: 1 word) \<and>
     field 6 2 i = (0 :: 5 word) \<and>
     field 11 7 i \<noteq> (0 :: 5 word)"
definition dec_c_li :: "u32 \<Rightarrow> bool" where "dec_c_li i \<longleftrightarrow> i AND 0xe003 = 0x4001"
definition dec_c_lui :: "u32 \<Rightarrow> bool" where
  "dec_c_lui i \<longleftrightarrow> i AND 0xe003 = 0x6001 \<and> field 11 7 i \<noteq> (2 :: 5 word)"
definition dec_c_srli :: "u32 \<Rightarrow> bool" where "dec_c_srli i \<longleftrightarrow> i AND 0xec03 = 0x8001"
definition dec_c_srai :: "u32 \<Rightarrow> bool" where "dec_c_srai i \<longleftrightarrow> i AND 0xec03 = 0x8401"
definition dec_c_andi :: "u32 \<Rightarrow> bool" where "dec_c_andi i \<longleftrightarrow> i AND 0xec03 = 0x8801"
definition dec_c_sub :: "u32 \<Rightarrow> bool" where "dec_c_sub i \<longleftrightarrow> i AND 0xfc63 = 0x8c01"
definition dec_c_xor :: "u32 \<Rightarrow> bool" where "dec_c_xor i \<longleftrightarrow> i AND 0xfc63 = 0x8c21"
definition dec_c_or :: "u32 \<Rightarrow> bool" where "dec_c_or i \<longleftrightarrow> i AND 0xfc63 = 0x8c41"
definition dec_c_and :: "u32 \<Rightarrow> bool" where "dec_c_and i \<longleftrightarrow> i AND 0xfc63 = 0x8c61"
definition dec_c_subw :: "u32 \<Rightarrow> bool" where "dec_c_subw i \<longleftrightarrow> i AND 0xfc63 = 0x9c01"
definition dec_c_addw :: "u32 \<Rightarrow> bool" where "dec_c_addw i \<longleftrightarrow> i AND 0xfc63 = 0x9c21"
definition dec_c_j :: "u32 \<Rightarrow> bool" where "dec_c_j i \<longleftrightarrow> i AND 0xe003 = 0xa001"
definition dec_c_jr :: "u32 \<Rightarrow> bool" where
  "dec_c_jr i \<longleftrightarrow> field 1 0 i = (2 :: 2 word) \<and>
     field 15 13 i = (4 :: 3 word) \<and>
     field 12 12 i = (0 :: 1 word) \<and>
     field 6 2 i = (0 :: 5 word) \<and>
     field 11 7 i \<noteq> (0 :: 5 word)"
definition dec_c_beqz :: "u32 \<Rightarrow> bool" where "dec_c_beqz i \<longleftrightarrow> i AND 0xe003 = 0xc001"
definition dec_c_bnez :: "u32 \<Rightarrow> bool" where "dec_c_bnez i \<longleftrightarrow> i AND 0xe003 = 0xe001"
definition dec_c_slli :: "u32 \<Rightarrow> bool" where "dec_c_slli i \<longleftrightarrow> i AND 0xe003 = 0x2"
definition dec_c_lwsp :: "u32 \<Rightarrow> bool" where "dec_c_lwsp i \<longleftrightarrow> i AND 0xe003 = 0x4002"
definition dec_c_ldsp :: "u32 \<Rightarrow> bool" where
  "dec_c_ldsp i \<longleftrightarrow> i AND 0xe003 = 0x6002 \<and> field 11 7 i \<noteq> (0 :: 5 word)"
definition dec_c_mv :: "u32 \<Rightarrow> bool" where
  "dec_c_mv i \<longleftrightarrow> i AND 0xf003 = 0x8002 \<and> field 6 2 i \<noteq> (0 :: 5 word)"
definition dec_c_add :: "u32 \<Rightarrow> bool" where
  "dec_c_add i \<longleftrightarrow> i AND 0xf003 = 0x9002 \<and> field 6 2 i \<noteq> (0 :: 5 word)"
definition dec_c_swsp :: "u32 \<Rightarrow> bool" where "dec_c_swsp i \<longleftrightarrow> i AND 0xe003 = 0xc002"
definition dec_c_sdsp :: "u32 \<Rightarrow> bool" where "dec_c_sdsp i \<longleftrightarrow> i AND 0xe003 = 0xe002"
definition dec_c_ebreak :: "u32 \<Rightarrow> bool" where "dec_c_ebreak i \<longleftrightarrow> i AND 0xffff = 0x9002"

definition dec_invalid_opcode :: "u32 \<Rightarrow> bool" where
  "dec_invalid_opcode i \<longleftrightarrow> \<not>
    (dec_beq i \<or> dec_bne i \<or> dec_blt i \<or> dec_bge i \<or> dec_bltu i \<or> dec_bgeu i \<or>
     dec_jalr i \<or> dec_jal i \<or> dec_lui i \<or> dec_auipc i \<or> dec_addi i \<or>
     dec_slli i \<or> dec_slti i \<or> dec_sltiu i \<or> dec_xori i \<or> dec_srli i \<or>
     dec_srai i \<or> dec_ori i \<or> dec_andi i \<or> dec_add i \<or> dec_sub i \<or> dec_sll i \<or>
     dec_slt i \<or> dec_sltu i \<or> dec_xor i \<or> dec_srl i \<or> dec_sra i \<or> dec_or i \<or>
     dec_and i \<or> dec_addiw i \<or> dec_slliw i \<or> dec_srliw i \<or> dec_sraiw i \<or>
     dec_addw i \<or> dec_subw i \<or> dec_sllw i \<or> dec_srlw i \<or> dec_sraw i \<or>
     dec_lb i \<or> dec_lh i \<or> dec_lw i \<or> dec_ld i \<or> dec_lbu i \<or> dec_lhu i \<or>
     dec_lwu i \<or> dec_c_ebreak i \<or> dec_sb i \<or> dec_sh i \<or> dec_sw i \<or> dec_sd i \<or>
     dec_fence i \<or> dec_fence_i i \<or> dec_mul i \<or> dec_mulh i \<or> dec_mulhsu i \<or>
     dec_mulhu i \<or> dec_div i \<or> dec_divu i \<or> dec_rem i \<or> dec_remu i \<or>
     dec_mulw i \<or> dec_divw i \<or> dec_divuw i \<or> dec_remw i \<or> dec_remuw i \<or>
     dec_ecall i \<or> dec_ebreak i \<or> dec_mret i \<or> dec_wfi i \<or> dec_csrrw i \<or>
     dec_csrrs i \<or> dec_csrrc i \<or> dec_csrrwi i \<or> dec_csrrsi i \<or> dec_csrrci i \<or>
     dec_c_addi4spn i \<or> dec_c_addi16sp i \<or> dec_c_lw i \<or> dec_c_ld i \<or> dec_c_sw i \<or>
     dec_c_sd i \<or> dec_c_addi i \<or> dec_c_addiw i \<or> dec_c_jalr i \<or> dec_c_li i \<or>
     dec_c_lui i \<or> dec_c_srli i \<or> dec_c_srai i \<or> dec_c_andi i \<or> dec_c_sub i \<or>
     dec_c_xor i \<or> dec_c_or i \<or> dec_c_and i \<or> dec_c_subw i \<or> dec_c_addw i \<or>
     dec_c_j i \<or> dec_c_jr i \<or> dec_c_beqz i \<or> dec_c_bnez i \<or> dec_c_slli i \<or>
     dec_c_lwsp i \<or> dec_c_ldsp i \<or> dec_c_mv i \<or> dec_c_add i \<or> dec_c_swsp i \<or>
     dec_c_sdsp i \<or> dec_andn i \<or> dec_orn i \<or> dec_xnor i \<or> dec_rol i \<or>
     dec_ror i \<or> dec_rori i \<or> dec_gorci i \<or> dec_grevi i \<or> dec_clmul i \<or>
     dec_clmulh i \<or> dec_pack i \<or> dec_packu i \<or> dec_packh i \<or> dec_xperm_n i \<or>
     dec_xperm_b i \<or> dec_rolw i \<or> dec_rorw i \<or> dec_roriw i \<or> dec_packw i \<or>
     dec_packuw i \<or> dec_sm4ed i \<or> dec_sm4ks i \<or> dec_sm3p0 i \<or> dec_sm3p1 i \<or>
     dec_sha256sum0 i \<or> dec_sha256sum1 i \<or> dec_sha256sig0 i \<or> dec_sha256sig1 i \<or>
     dec_aes64ks1i i \<or> dec_aes64im i \<or> dec_aes64ks2 i \<or> dec_aes64esm i \<or>
     dec_aes64es i \<or> dec_aes64dsm i \<or> dec_aes64ds i \<or> dec_sha512sum0 i \<or>
     dec_sha512sum1 i \<or> dec_sha512sig0 i \<or> dec_sha512sig1 i)"

definition dec_rd :: "u32 \<Rightarrow> 5 word" where "dec_rd i = field 11 7 i"
definition dec_rs1 :: "u32 \<Rightarrow> 5 word" where "dec_rs1 i = field 19 15 i"
definition dec_rs2 :: "u32 \<Rightarrow> 5 word" where "dec_rs2 i = field 24 20 i"
definition dec_shamt :: "u32 \<Rightarrow> 6 word" where "dec_shamt i = field 25 20 i"

section \<open>Immediates\<close>

definition imm32_i :: "u32 \<Rightarrow> u32" where
  "imm32_i i = cat_bits (replicate 20 (bit i 31) @ bits_of 31 20 i)"

definition imm_csr_addr :: "u32 \<Rightarrow> 12 word" where "imm_csr_addr i = field 31 20 i"

definition imm_csr_mask :: "u32 \<Rightarrow> 5 word" where "imm_csr_mask i = field 19 15 i"

definition imm32_s :: "u32 \<Rightarrow> u32" where
  "imm32_s i = cat_bits (replicate 20 (bit i 31) @ bits_of 31 25 i @ bits_of 11 7 i)"

definition imm32_b :: "u32 \<Rightarrow> u32" where
  "imm32_b i = cat_bits
     (replicate 19 (bit i 31) @ [bit i 31] @ [bit i 7] @
      bits_of 30 25 i @ bits_of 11 8 i @ replicate 1 False)"

definition imm32_u :: "u32 \<Rightarrow> u32" where
  "imm32_u i = cat_bits (bits_of 31 12 i @ replicate 12 False)"

definition imm32_j :: "u32 \<Rightarrow> u32" where
  "imm32_j i = cat_bits
     (replicate 11 (bit i 31) @ [bit i 31] @ bits_of 19 12 i @
      [bit i 20] @ bits_of 30 21 i @ replicate 1 False)"

definition imm_addi16sp :: "u32 \<Rightarrow> u32" where
  "imm_addi16sp i = cat_bits
     (replicate 23 (bit i 12) @ bits_of 4 3 i @ [bit i 5] @
      [bit i 2] @ [bit i 6] @ replicate 4 False)"

definition imm_addi4spn :: "u32 \<Rightarrow> u32" where
  "imm_addi4spn i = cat_bits
     (replicate 22 False @ bits_of 10 7 i @ bits_of 12 11 i @
      [bit i 5] @ [bit i 6] @ replicate 2 False)"

definition imm_c_lsw :: "u32 \<Rightarrow> u32" where
  "imm_c_lsw i = cat_bits (replicate 25 False @ [bit i 5] @ bits_of 12 10 i @ [bit i 6] @ replicate 2 False)"

definition imm_c_lsd :: "u32 \<Rightarrow> u32" where
  "imm_c_lsd i = cat_bits (replicate 24 False @ bits_of 6 5 i @ bits_of 12 10 i @ replicate 3 False)"

definition imm_c_addi :: "u32 \<Rightarrow> u32" where
  "imm_c_addi i = cat_bits (replicate 27 (bit i 12) @ bits_of 6 2 i)"

definition imm_c_lui :: "u32 \<Rightarrow> u32" where
  "imm_c_lui i = cat_bits (replicate 15 (bit i 12) @ bits_of 6 2 i @ replicate 12 False)"

definition imm_c_lwsp :: "u32 \<Rightarrow> u32" where
  "imm_c_lwsp i = cat_bits (replicate 24 False @ bits_of 3 2 i @ [bit i 12] @ bits_of 6 4 i @ replicate 2 False)"

definition imm_c_swsp :: "u32 \<Rightarrow> u32" where
  "imm_c_swsp i = cat_bits (replicate 24 False @ bits_of 8 7 i @ bits_of 12 9 i @ replicate 2 False)"

definition imm_c_ldsp :: "u32 \<Rightarrow> u32" where
  "imm_c_ldsp i = cat_bits (replicate 23 False @ bits_of 4 2 i @ [bit i 12] @ bits_of 6 5 i @ replicate 3 False)"

definition imm_c_sdsp :: "u32 \<Rightarrow> u32" where
  "imm_c_sdsp i = cat_bits (replicate 23 False @ bits_of 9 7 i @ bits_of 12 10 i @ replicate 3 False)"

definition imm_c_j :: "u32 \<Rightarrow> u32" where
  "imm_c_j i = cat_bits
     (replicate 21 (bit i 12) @ [bit i 8] @ bits_of 10 9 i @ [bit i 6] @
      [bit i 7] @ [bit i 2] @ [bit i 11] @ bits_of 5 3 i @ replicate 1 False)"

definition imm_c_bz :: "u32 \<Rightarrow> u32" where
  "imm_c_bz i = cat_bits
     (replicate 24 (bit i 12) @ bits_of 6 5 i @ [bit i 2] @
      bits_of 11 10 i @ bits_of 4 3 i @ replicate 1 False)"

section \<open>Immediate selection\<close>

text \<open>What decode sees: the head of the fetch buffer with its length and fetch errors, the program counter
  and the two operands read from the register file or forwarded.\<close>

record dec_in =
  d_instr :: u32
  d_i16 :: bool
  d_i32 :: bool
  d_ferr :: "2 word"
  d_pc :: u64
  d_rs1_data :: u64
  d_rs2_data :: u64

definition sext_imm :: "u32 \<Rightarrow> u64" where "sext_imm w = cat32 (rep (bit w 31)) w"
definition zext_imm :: "u32 \<Rightarrow> u64" where "zext_imm w = cat32 0 w"

definition major_op_load :: "u32 \<Rightarrow> bool" where "major_op_load i \<longleftrightarrow> field 6 0 i = (0x03 :: 7 word)"
definition major_op_store :: "u32 \<Rightarrow> bool" where "major_op_store i \<longleftrightarrow> field 6 0 i = (0x23 :: 7 word)"
definition major_op_branch :: "u32 \<Rightarrow> bool" where "major_op_branch i \<longleftrightarrow> field 6 0 i = (0x63 :: 7 word)"
definition major_op_imm :: "u32 \<Rightarrow> bool" where "major_op_imm i \<longleftrightarrow> field 6 0 i = (0x13 :: 7 word)"

definition cf_offset_cbeq_imm :: "u32 \<Rightarrow> bool" where
  "cf_offset_cbeq_imm i \<longleftrightarrow> dec_c_beqz i \<or> dec_c_bnez i"

definition cfu_op_conditonal :: "u32 \<Rightarrow> bool" where
  "cfu_op_conditonal i \<longleftrightarrow>
     dec_beq i \<or> dec_c_beqz i \<or> dec_bge i \<or> dec_bgeu i \<or> dec_blt i \<or>
     dec_bltu i \<or> dec_bne i \<or> dec_c_bnez i"

definition use_imm_sext_imm32_u :: "u32 \<Rightarrow> bool" where
  "use_imm_sext_imm32_u i \<longleftrightarrow> dec_lui i \<or> dec_auipc i"

definition use_imm_sext_imm32_i :: "u32 \<Rightarrow> bool" where
  "use_imm_sext_imm32_i i \<longleftrightarrow>
     dec_jalr i \<or> major_op_load i \<or> major_op_imm i \<or> dec_addiw i"

definition use_imm_shamt :: "u32 \<Rightarrow> bool" where
  "use_imm_shamt i \<longleftrightarrow>
     dec_slli i \<or> dec_srli i \<or> dec_slliw i \<or> dec_srliw i \<or> dec_srai i \<or>
     dec_sraiw i \<or> dec_c_slli i \<or> dec_c_srli i \<or> dec_c_srai i \<or> dec_roriw i \<or>
     dec_rori i \<or> dec_grevi i \<or> dec_gorci i"

definition use_imm_c_addi :: "u32 \<Rightarrow> bool" where
  "use_imm_c_addi i \<longleftrightarrow>
     dec_c_addi i \<or> dec_c_addiw i \<or> dec_c_li i \<or> dec_c_andi i"

definition use_imm_c_lsw :: "u32 \<Rightarrow> bool" where
  "use_imm_c_lsw i \<longleftrightarrow> dec_c_lw i \<or> dec_c_sw i"

definition use_imm_c_lsd :: "u32 \<Rightarrow> bool" where
  "use_imm_c_lsd i \<longleftrightarrow> dec_c_ld i \<or> dec_c_sd i"

definition use_imm_c_j :: "u32 \<Rightarrow> bool" where "use_imm_c_j i \<longleftrightarrow> dec_c_j i"

definition imm_c_shamt :: "u32 \<Rightarrow> 6 word" where "imm_c_shamt i = cat_bits ([bit i 12] @ bits_of 6 2 i)"

definition imm_shamt :: "dec_in \<Rightarrow> 6 word" where
  "imm_shamt x = (if d_i16 x then imm_c_shamt (d_instr x) else dec_shamt (d_instr x))"

definition s2_imm :: "u32 \<Rightarrow> u64" where
  "s2_imm i =
     (if cf_offset_cbeq_imm i then sext_imm (imm_c_bz i)
      else if cfu_op_conditonal i then sext_imm (imm32_b i)
      else if use_imm_sext_imm32_u i then sext_imm (imm32_u i)
      else if use_imm_sext_imm32_i i then sext_imm (imm32_i i)
      else if major_op_store i then sext_imm (imm32_s i)
      else if dec_c_lui i then sext_imm (imm_c_lui i)
      else if dec_c_addi4spn i then sext_imm (imm_addi4spn i)
      else if dec_c_addi16sp i then sext_imm (imm_addi16sp i)
      else if use_imm_c_addi i then sext_imm (imm_c_addi i)
      else if use_imm_c_j i then sext_imm (imm_c_j i)
      else if dec_c_lwsp i then zext_imm (imm_c_lwsp i)
      else if dec_c_swsp i then zext_imm (imm_c_swsp i)
      else if use_imm_c_lsw i then zext_imm (imm_c_lsw i)
      else if dec_c_ldsp i then zext_imm (imm_c_ldsp i)
      else if dec_c_sdsp i then zext_imm (imm_c_sdsp i)
      else if use_imm_c_lsd i then zext_imm (imm_c_lsd i)
      else if dec_jal i then sext_imm (imm32_j i)
      else 0)"

definition s2_csr_addr :: "u32 \<Rightarrow> 12 word" where "s2_csr_addr i = field 31 20 i"

section \<open>Register addresses\<close>

definition REG_ZERO :: "5 word" where "REG_ZERO = 0"
definition REG_RA :: "5 word" where "REG_RA = 1"
definition REG_SP :: "5 word" where "REG_SP = 2"

text \<open>The registers that three-bit fields name.\<close>

definition prime :: "nat \<Rightarrow> nat \<Rightarrow> u32 \<Rightarrow> 5 word" where
  "prime hi lo i = cat_bits ([False, True] @ bits_of hi lo i)"

definition rs1_16_prime :: "u32 \<Rightarrow> bool" where
  "rs1_16_prime i \<longleftrightarrow>
     bit i 15 \<and> field 1 0 i = (1 :: 2 word) \<or> dec_c_beqz i \<or> dec_c_bnez i \<or> dec_c_sw i \<or> dec_c_sd i \<or>
     dec_c_lw i \<or> dec_c_ld i"

definition rs1_16_sp :: "u32 \<Rightarrow> bool" where
  "rs1_16_sp i \<longleftrightarrow>
     dec_c_swsp i \<or> dec_c_sdsp i \<or> dec_c_addi16sp i \<or> dec_c_addi4spn i \<or>
     dec_c_lwsp i \<or> dec_c_ldsp i"

definition rs1_16_5bit :: "u32 \<Rightarrow> bool" where
  "rs1_16_5bit i \<longleftrightarrow>
     dec_c_add i \<or> dec_c_addi i \<or> dec_c_addiw i \<or> dec_c_jalr i \<or> dec_c_jr i \<or>
     dec_c_slli i"

definition dec_rs1_16 :: "u32 \<Rightarrow> 5 word" where
  "dec_rs1_16 i =
     gate (rs1_16_5bit i) (field 11 7 i) OR gate (rs1_16_sp i) REG_SP OR gate (rs1_16_prime i) (prime 9 7 i)"

definition rs2_16_6_2 :: "u32 \<Rightarrow> bool" where "rs2_16_6_2 i \<longleftrightarrow> field 1 0 i = (2 :: 2 word)"

definition rs2_16_4_2 :: "u32 \<Rightarrow> bool" where
  "rs2_16_4_2 i \<longleftrightarrow>
     field 1 0 i = (1 :: 2 word) \<and> field 11 10 i = (3 :: 2 word) \<and> field 15 13 i = (4 :: 3 word) \<or>
     field 1 0 i = (0 :: 2 word) \<and> bit i 15"

definition dec_rs2_16 :: "u32 \<Rightarrow> 5 word" where
  "dec_rs2_16 i =
     gate (dec_c_beqz i) REG_ZERO OR gate (dec_c_bnez i) REG_ZERO OR gate (rs2_16_6_2 i) (field 6 2 i) OR
     gate (rs2_16_4_2 i) (prime 4 2 i)"

definition dec_rd_16 :: "u32 \<Rightarrow> 5 word" where
  "dec_rd_16 i =
     gate (dec_c_addi16sp i) REG_SP OR gate (dec_c_addi4spn i) (prime 4 2 i) OR
     gate (dec_c_jalr i) REG_RA OR gate (dec_c_add i) (field 11 7 i) OR
     gate (dec_c_addi i) (field 11 7 i) OR gate (dec_c_addiw i) (field 11 7 i) OR
     gate (dec_c_li i) (field 11 7 i) OR gate (dec_c_lui i) (field 11 7 i) OR
     gate (dec_c_lwsp i) (field 11 7 i) OR gate (dec_c_ldsp i) (field 11 7 i) OR
     gate (dec_c_mv i) (field 11 7 i) OR gate (dec_c_slli i) (field 11 7 i) OR
     gate (dec_c_lw i) (prime 4 2 i) OR gate (dec_c_ld i) (prime 4 2 i) OR
     gate (dec_c_and i) (prime 9 7 i) OR gate (dec_c_andi i) (prime 9 7 i) OR
     gate (dec_c_or i) (prime 9 7 i) OR gate (dec_c_srai i) (prime 9 7 i) OR
     gate (dec_c_srli i) (prime 9 7 i) OR gate (dec_c_sub i) (prime 9 7 i) OR
     gate (dec_c_addw i) (prime 9 7 i) OR gate (dec_c_subw i) (prime 9 7 i) OR
     gate (dec_c_xor i) (prime 9 7 i)"

definition s1_rs1_addr :: "dec_in \<Rightarrow> 5 word" where
  "s1_rs1_addr x = (if d_i16 x then dec_rs1_16 (d_instr x) else dec_rs1 (d_instr x))"

definition s1_rs2_addr :: "dec_in \<Rightarrow> 5 word" where
  "s1_rs2_addr x = (if d_i16 x then dec_rs2_16 (d_instr x) else dec_rs2 (d_instr x))"

definition zero_rd :: "u32 \<Rightarrow> bool" where
  "zero_rd i \<longleftrightarrow> major_op_store i \<or> major_op_branch i"

definition rs1_as_rd :: "u32 \<Rightarrow> bool" where
  "rs1_as_rd i \<longleftrightarrow> dec_sm4ed i \<or> dec_sm4ks i"

definition s2_rd :: "dec_in \<Rightarrow> 5 word" where
  "s2_rd x =
     (if d_i16 x then dec_rd_16 (d_instr x) else if zero_rd (d_instr x) then 0
      else if rs1_as_rd (d_instr x) then s1_rs1_addr x else dec_rd (d_instr x))"

section \<open>Operands and operations\<close>

definition alu_rhs_imm :: "u32 \<Rightarrow> bool" where
  "alu_rhs_imm i \<longleftrightarrow>
     dec_addi i \<or> dec_addiw i \<or> dec_andi i \<or> dec_ori i \<or> dec_xori i \<or>
     dec_lui i \<or> dec_auipc i \<or> dec_c_addi i \<or> dec_c_addi4spn i \<or> dec_c_addiw i \<or>
     dec_c_addi16sp i \<or> dec_c_andi i \<or> dec_c_li i \<or> dec_c_lui i \<or> dec_slti i \<or>
     dec_sltiu i \<or> major_op_load i \<or> major_op_store i \<or> dec_c_lw i \<or>
     dec_c_lwsp i \<or> dec_c_ld i \<or> dec_c_ldsp i \<or> dec_c_sw i \<or> dec_c_swsp i \<or>
     dec_c_sd i \<or> dec_c_sdsp i"

definition s2_alu_lhs :: "dec_in \<Rightarrow> u64" where
  "s2_alu_lhs x =
     (if dec_auipc (d_instr x) then d_pc x else if dec_lui (d_instr x) then 0 else d_rs1_data x)"

definition s2_alu_rhs :: "dec_in \<Rightarrow> u64" where
  "s2_alu_rhs x = (if alu_rhs_imm (d_instr x) then s2_imm (d_instr x) else d_rs2_data x)"

definition s2_alu_shamt :: "dec_in \<Rightarrow> 6 word" where
  "s2_alu_shamt x = (if use_imm_shamt (d_instr x) then imm_shamt x else ucast (d_rs2_data x))"

definition s2_alu_add :: "u32 \<Rightarrow> bool" where
  "s2_alu_add i \<longleftrightarrow>
     dec_add i \<or> dec_addi i \<or> dec_addiw i \<or> dec_addw i \<or> dec_auipc i \<or>
     dec_c_add i \<or> dec_c_addi i \<or> dec_c_addi4spn i \<or> dec_c_addiw i \<or>
     dec_c_addw i \<or> dec_c_addi16sp i"

definition s2_alu_and :: "u32 \<Rightarrow> bool" where
  "s2_alu_and i \<longleftrightarrow> dec_and i \<or> dec_andi i \<or> dec_c_and i \<or> dec_c_andi i"

definition s2_alu_or :: "u32 \<Rightarrow> bool" where
  "s2_alu_or i \<longleftrightarrow>
     dec_c_li i \<or> dec_c_lui i \<or> dec_c_mv i \<or> dec_c_or i \<or> dec_lui i \<or>
     dec_or i \<or> dec_ori i"

definition s2_alu_sll :: "u32 \<Rightarrow> bool" where
  "s2_alu_sll i \<longleftrightarrow>
     dec_c_slli i \<or> dec_sll i \<or> dec_slli i \<or> dec_slliw i \<or> dec_sllw i"

definition s2_alu_ror :: "u32 \<Rightarrow> bool" where
  "s2_alu_ror i \<longleftrightarrow> dec_rorw i \<or> dec_ror i \<or> dec_roriw i \<or> dec_rori i"

definition s2_alu_rol :: "u32 \<Rightarrow> bool" where
  "s2_alu_rol i \<longleftrightarrow> dec_rolw i \<or> dec_rol i"

definition s2_alu_slt :: "u32 \<Rightarrow> bool" where
  "s2_alu_slt i \<longleftrightarrow> dec_slti i \<or> dec_slt i"

definition s2_alu_sltu :: "u32 \<Rightarrow> bool" where
  "s2_alu_sltu i \<longleftrightarrow> dec_sltiu i \<or> dec_sltu i"

definition s2_alu_sra :: "u32 \<Rightarrow> bool" where
  "s2_alu_sra i \<longleftrightarrow>
     dec_c_srai i \<or> dec_sra i \<or> dec_srai i \<or> dec_sraiw i \<or> dec_sraw i"

definition s2_alu_srl :: "u32 \<Rightarrow> bool" where
  "s2_alu_srl i \<longleftrightarrow>
     dec_c_srli i \<or> dec_srl i \<or> dec_srli i \<or> dec_srliw i \<or> dec_srlw i"

definition s2_alu_xorn :: "u32 \<Rightarrow> bool" where "s2_alu_xorn i \<longleftrightarrow> dec_xnor i"

definition s2_alu_andn :: "u32 \<Rightarrow> bool" where "s2_alu_andn i \<longleftrightarrow> dec_andn i"

definition s2_alu_orn :: "u32 \<Rightarrow> bool" where "s2_alu_orn i \<longleftrightarrow> dec_orn i"

definition s2_alu_pack :: "u32 \<Rightarrow> bool" where
  "s2_alu_pack i \<longleftrightarrow> dec_pack i \<or> dec_packw i"

definition s2_alu_packh :: "u32 \<Rightarrow> bool" where "s2_alu_packh i \<longleftrightarrow> dec_packh i"

definition s2_alu_packu :: "u32 \<Rightarrow> bool" where
  "s2_alu_packu i \<longleftrightarrow> dec_packu i \<or> dec_packuw i"

definition s2_alu_grev :: "u32 \<Rightarrow> bool" where "s2_alu_grev i \<longleftrightarrow> dec_grevi i"

definition s2_alu_gorc :: "u32 \<Rightarrow> bool" where "s2_alu_gorc i \<longleftrightarrow> dec_gorci i"

definition s2_alu_xpermn :: "u32 \<Rightarrow> bool" where "s2_alu_xpermn i \<longleftrightarrow> dec_xperm_n i"

definition s2_alu_xpermb :: "u32 \<Rightarrow> bool" where "s2_alu_xpermb i \<longleftrightarrow> dec_xperm_b i"

definition s2_alu_sub :: "u32 \<Rightarrow> bool" where
  "s2_alu_sub i \<longleftrightarrow>
     dec_beq i \<or> dec_c_beqz i \<or> dec_bge i \<or> dec_c_bnez i \<or> dec_bgeu i \<or>
     dec_c_sub i \<or> dec_blt i \<or> dec_c_subw i \<or> dec_bltu i \<or> dec_sub i \<or>
     dec_bne i \<or> dec_subw i"

definition s2_alu_xor :: "u32 \<Rightarrow> bool" where
  "s2_alu_xor i \<longleftrightarrow> dec_c_xor i \<or> dec_xor i \<or> dec_xori i"

definition s2_alu_word :: "u32 \<Rightarrow> bool" where
  "s2_alu_word i \<longleftrightarrow>
     dec_addiw i \<or> dec_addw i \<or> dec_slliw i \<or> dec_sllw i \<or> dec_srliw i \<or>
     dec_srlw i \<or> dec_sraiw i \<or> dec_sraw i \<or> dec_subw i \<or> dec_c_subw i \<or>
     dec_c_addiw i \<or> dec_c_addw i \<or> dec_rolw i \<or> dec_rorw i \<or> dec_roriw i \<or>
     dec_packw i \<or> dec_packuw i"

definition s2_cfu_beq :: "u32 \<Rightarrow> bool" where
  "s2_cfu_beq i \<longleftrightarrow> dec_beq i \<or> dec_c_beqz i"

definition s2_cfu_bge :: "u32 \<Rightarrow> bool" where "s2_cfu_bge i \<longleftrightarrow> dec_bge i"

definition s2_cfu_bgeu :: "u32 \<Rightarrow> bool" where "s2_cfu_bgeu i \<longleftrightarrow> dec_bgeu i"

definition s2_cfu_blt :: "u32 \<Rightarrow> bool" where "s2_cfu_blt i \<longleftrightarrow> dec_blt i"

definition s2_cfu_bltu :: "u32 \<Rightarrow> bool" where "s2_cfu_bltu i \<longleftrightarrow> dec_bltu i"

definition s2_cfu_bne :: "u32 \<Rightarrow> bool" where
  "s2_cfu_bne i \<longleftrightarrow> dec_bne i \<or> dec_c_bnez i"

definition s2_cfu_ebrk :: "u32 \<Rightarrow> bool" where
  "s2_cfu_ebrk i \<longleftrightarrow> dec_ebreak i \<or> dec_c_ebreak i"

definition s2_cfu_ecall :: "u32 \<Rightarrow> bool" where "s2_cfu_ecall i \<longleftrightarrow> dec_ecall i"

definition s2_cfu_j :: "u32 \<Rightarrow> bool" where "s2_cfu_j i \<longleftrightarrow> dec_c_j i"

definition s2_cfu_jal :: "u32 \<Rightarrow> bool" where "s2_cfu_jal i \<longleftrightarrow> dec_jal i"

definition s2_cfu_jalr :: "u32 \<Rightarrow> bool" where
  "s2_cfu_jalr i \<longleftrightarrow> dec_jalr i \<or> dec_c_jalr i \<or> dec_c_jr i"

definition s2_cfu_mret :: "u32 \<Rightarrow> bool" where "s2_cfu_mret i \<longleftrightarrow> dec_mret i"

definition s2_cfu_wfi :: "u32 \<Rightarrow> bool" where "s2_cfu_wfi i \<longleftrightarrow> dec_wfi i"

definition s2_lsu_byte :: "u32 \<Rightarrow> bool" where
  "s2_lsu_byte i \<longleftrightarrow> dec_lb i \<or> dec_lbu i \<or> dec_sb i"

definition s2_lsu_half :: "u32 \<Rightarrow> bool" where
  "s2_lsu_half i \<longleftrightarrow> dec_lh i \<or> dec_lhu i \<or> dec_sh i"

definition s2_lsu_word :: "u32 \<Rightarrow> bool" where
  "s2_lsu_word i \<longleftrightarrow>
     dec_lw i \<or> dec_lwu i \<or> dec_sw i \<or> dec_c_lwsp i \<or> dec_c_swsp i \<or>
     dec_c_lw i \<or> dec_c_sw i"

definition s2_lsu_dbl :: "u32 \<Rightarrow> bool" where
  "s2_lsu_dbl i \<longleftrightarrow>
     dec_ld i \<or> dec_sd i \<or> dec_c_ldsp i \<or> dec_c_sdsp i \<or> dec_c_ld i \<or> dec_c_sd i"

definition s2_lsu_sext :: "u32 \<Rightarrow> bool" where
  "s2_lsu_sext i \<longleftrightarrow>
     dec_lw i \<or> dec_lh i \<or> dec_lb i \<or> dec_c_lw i \<or> dec_c_lwsp i"

definition s2_mdu_mul :: "u32 \<Rightarrow> bool" where "s2_mdu_mul i \<longleftrightarrow> dec_mul i"

definition s2_mdu_mulh :: "u32 \<Rightarrow> bool" where "s2_mdu_mulh i \<longleftrightarrow> dec_mulh i"

definition s2_mdu_mulhsu :: "u32 \<Rightarrow> bool" where "s2_mdu_mulhsu i \<longleftrightarrow> dec_mulhsu i"

definition s2_mdu_mulhu :: "u32 \<Rightarrow> bool" where "s2_mdu_mulhu i \<longleftrightarrow> dec_mulhu i"

definition s2_mdu_clmul :: "u32 \<Rightarrow> bool" where "s2_mdu_clmul i \<longleftrightarrow> dec_clmul i"

definition s2_mdu_clmulh :: "u32 \<Rightarrow> bool" where "s2_mdu_clmulh i \<longleftrightarrow> dec_clmulh i"

definition s2_mdu_div :: "u32 \<Rightarrow> bool" where "s2_mdu_div i \<longleftrightarrow> dec_div i"

definition s2_mdu_divu :: "u32 \<Rightarrow> bool" where "s2_mdu_divu i \<longleftrightarrow> dec_divu i"

definition s2_mdu_rem :: "u32 \<Rightarrow> bool" where "s2_mdu_rem i \<longleftrightarrow> dec_rem i"

definition s2_mdu_remu :: "u32 \<Rightarrow> bool" where "s2_mdu_remu i \<longleftrightarrow> dec_remu i"

definition s2_mdu_mulw :: "u32 \<Rightarrow> bool" where "s2_mdu_mulw i \<longleftrightarrow> dec_mulw i"

definition s2_mdu_divw :: "u32 \<Rightarrow> bool" where "s2_mdu_divw i \<longleftrightarrow> dec_divw i"

definition s2_mdu_divuw :: "u32 \<Rightarrow> bool" where "s2_mdu_divuw i \<longleftrightarrow> dec_divuw i"

definition s2_mdu_remw :: "u32 \<Rightarrow> bool" where "s2_mdu_remw i \<longleftrightarrow> dec_remw i"

definition s2_mdu_remuw :: "u32 \<Rightarrow> bool" where "s2_mdu_remuw i \<longleftrightarrow> dec_remuw i"

definition s2_cry_aeses :: "u32 \<Rightarrow> bool" where "s2_cry_aeses i \<longleftrightarrow> dec_aes64es i"

definition s2_cry_aesesm :: "u32 \<Rightarrow> bool" where "s2_cry_aesesm i \<longleftrightarrow> dec_aes64esm i"

definition s2_cry_aesds :: "u32 \<Rightarrow> bool" where "s2_cry_aesds i \<longleftrightarrow> dec_aes64ds i"

definition s2_cry_aesdsm :: "u32 \<Rightarrow> bool" where "s2_cry_aesdsm i \<longleftrightarrow> dec_aes64dsm i"

definition s2_cry_aesks1 :: "u32 \<Rightarrow> bool" where "s2_cry_aesks1 i \<longleftrightarrow> dec_aes64ks1i i"

definition s2_cry_aesks2 :: "u32 \<Rightarrow> bool" where "s2_cry_aesks2 i \<longleftrightarrow> dec_aes64ks2 i"

definition s2_cry_aesimix :: "u32 \<Rightarrow> bool" where "s2_cry_aesimix i \<longleftrightarrow> dec_aes64im i"

definition s2_cry_sha256sig0 :: "u32 \<Rightarrow> bool" where "s2_cry_sha256sig0 i \<longleftrightarrow> dec_sha256sig0 i"

definition s2_cry_sha256sig1 :: "u32 \<Rightarrow> bool" where "s2_cry_sha256sig1 i \<longleftrightarrow> dec_sha256sig1 i"

definition s2_cry_sha256sum0 :: "u32 \<Rightarrow> bool" where "s2_cry_sha256sum0 i \<longleftrightarrow> dec_sha256sum0 i"

definition s2_cry_sha256sum1 :: "u32 \<Rightarrow> bool" where "s2_cry_sha256sum1 i \<longleftrightarrow> dec_sha256sum1 i"

definition s2_cry_sha512sig0 :: "u32 \<Rightarrow> bool" where "s2_cry_sha512sig0 i \<longleftrightarrow> dec_sha512sig0 i"

definition s2_cry_sha512sig1 :: "u32 \<Rightarrow> bool" where "s2_cry_sha512sig1 i \<longleftrightarrow> dec_sha512sig1 i"

definition s2_cry_sha512sum0 :: "u32 \<Rightarrow> bool" where "s2_cry_sha512sum0 i \<longleftrightarrow> dec_sha512sum0 i"

definition s2_cry_sha512sum1 :: "u32 \<Rightarrow> bool" where "s2_cry_sha512sum1 i \<longleftrightarrow> dec_sha512sum1 i"

definition s2_cry_sm4_ed :: "u32 \<Rightarrow> bool" where "s2_cry_sm4_ed i \<longleftrightarrow> dec_sm4ed i"

definition s2_cry_sm4_ks :: "u32 \<Rightarrow> bool" where "s2_cry_sm4_ks i \<longleftrightarrow> dec_sm4ks i"

definition s2_cry_sm3_p0 :: "u32 \<Rightarrow> bool" where "s2_cry_sm3_p0 i \<longleftrightarrow> dec_sm3p0 i"

definition s2_cry_sm3_p1 :: "u32 \<Rightarrow> bool" where "s2_cry_sm3_p1 i \<longleftrightarrow> dec_sm3p1 i"

definition s2_csr_set :: "u32 \<Rightarrow> bool" where
  "s2_csr_set i \<longleftrightarrow> dec_csrrsi i \<or> dec_csrrs i"

definition s2_csr_clr :: "u32 \<Rightarrow> bool" where
  "s2_csr_clr i \<longleftrightarrow> dec_csrrci i \<or> dec_csrrc i"

definition s2_csr_rd :: "u32 \<Rightarrow> bool" where
  "s2_csr_rd i \<longleftrightarrow> dec_csrrsi i \<or> dec_csrrs i \<or> dec_csrrw i \<or> dec_csrrwi i"

definition s2_csr_wr :: "u32 \<Rightarrow> bool" where
  "s2_csr_wr i \<longleftrightarrow> dec_csrrsi i \<or> dec_csrrs i \<or> dec_csrrw i \<or> dec_csrrwi i"

section \<open>Traps, loads and stores\<close>

definition s2_iaccess_trap_16 :: "dec_in \<Rightarrow> bool" where
  "s2_iaccess_trap_16 x \<longleftrightarrow> bit (d_ferr x) 0 \<and> d_i16 x"

definition s2_iaccess_trap_32 :: "dec_in \<Rightarrow> bool" where
  "s2_iaccess_trap_32 x \<longleftrightarrow> d_ferr x \<noteq> 0 \<and> d_i32 x"

definition s2_iaccess_trap :: "dec_in \<Rightarrow> bool" where
  "s2_iaccess_trap x \<longleftrightarrow> s2_iaccess_trap_16 x \<or> s2_iaccess_trap_32 x"

definition s2_trap :: "dec_in \<Rightarrow> bool" where
  "s2_trap x \<longleftrightarrow> dec_invalid_opcode (d_instr x) \<or> s2_iaccess_trap_16 x \<or> s2_iaccess_trap_32 x"

definition TRAP_IACCESS :: "7 word" where "TRAP_IACCESS = 1"

definition s2_trap_cause :: "dec_in \<Rightarrow> 7 word" where
  "s2_trap_cause x =
     (if s2_iaccess_trap_16 x then TRAP_IACCESS else if s2_iaccess_trap_32 x then TRAP_IACCESS
      else if dec_invalid_opcode (d_instr x) then 2 else 0)"

definition s2_lsu_load :: "dec_in \<Rightarrow> bool" where
  "s2_lsu_load x \<longleftrightarrow> \<not> s2_iaccess_trap x \<and>
     (let i = d_instr x in
      dec_lb i \<or> dec_lbu i \<or> dec_lh i \<or> dec_lhu i \<or> dec_lw i \<or> dec_lwu i \<or>
     dec_ld i \<or> dec_c_lwsp i \<or> dec_c_lw i \<or> dec_c_ldsp i \<or> dec_c_ld i)"

definition s2_lsu_store :: "dec_in \<Rightarrow> bool" where
  "s2_lsu_store x \<longleftrightarrow> \<not> s2_iaccess_trap x \<and>
     (let i = d_instr x in
      dec_sb i \<or> dec_sh i \<or> dec_sw i \<or> dec_sd i \<or> dec_c_swsp i \<or> dec_c_sw i \<or>
     dec_c_sdsp i \<or> dec_c_sd i)"

section \<open>Writeback selection\<close>

definition s2_wb_csr :: "dec_in \<Rightarrow> bool" where "s2_wb_csr x \<longleftrightarrow> \<not> s2_trap x \<and> s2_csr_rd (d_instr x)"
definition s2_wb_lsu :: "dec_in \<Rightarrow> bool" where "s2_wb_lsu x \<longleftrightarrow> \<not> s2_trap x \<and> s2_lsu_load x"

definition s2_wb_npc :: "dec_in \<Rightarrow> bool" where
  "s2_wb_npc x \<longleftrightarrow> \<not> s2_trap x \<and> (s2_cfu_jal (d_instr x) \<or> s2_cfu_jalr (d_instr x))"

definition s2_wb_alu :: "dec_in \<Rightarrow> bool" where
  "s2_wb_alu x \<longleftrightarrow> \<not> s2_trap x \<and> \<not> s2_wb_npc x \<and> \<not> cfu_op_conditonal (d_instr x) \<and>
     (let i = d_instr x in
      s2_alu_add i \<or> s2_alu_and i \<or> s2_alu_or i \<or> s2_alu_sll i \<or> s2_alu_srl i \<or>
     s2_alu_slt i \<or> s2_alu_sltu i \<or> s2_alu_sra i \<or> s2_alu_sub i \<or> s2_alu_xor i \<or>
     s2_alu_word i \<or> s2_alu_pack i \<or> s2_alu_packh i \<or> s2_alu_packu i \<or>
     s2_alu_andn i \<or> s2_alu_orn i \<or> s2_alu_xorn i \<or> s2_alu_ror i \<or> s2_alu_rol i \<or>
     s2_alu_grev i \<or> s2_alu_gorc i \<or> s2_alu_xpermn i \<or> s2_alu_xpermb i)"

definition s2_wb_mdu :: "dec_in \<Rightarrow> bool" where
  "s2_wb_mdu x \<longleftrightarrow> \<not> s2_trap x \<and>
     (let i = d_instr x in
      s2_mdu_mul i \<or> s2_mdu_mulh i \<or> s2_mdu_mulhsu i \<or> s2_mdu_mulhu i \<or>
     s2_mdu_div i \<or> s2_mdu_divu i \<or> s2_mdu_rem i \<or> s2_mdu_remu i \<or> s2_mdu_mulw i \<or>
     s2_mdu_divw i \<or> s2_mdu_divuw i \<or> s2_mdu_remw i \<or> s2_mdu_remuw i \<or>
     s2_mdu_clmul i \<or> s2_mdu_clmulh i)"

definition s2_wb_cry :: "dec_in \<Rightarrow> bool" where
  "s2_wb_cry x \<longleftrightarrow> \<not> s2_trap x \<and>
     (let i = d_instr x in
      s2_cry_aeses i \<or> s2_cry_aesesm i \<or> s2_cry_aesds i \<or> s2_cry_aesdsm i \<or>
     s2_cry_aesks1 i \<or> s2_cry_aesks2 i \<or> s2_cry_aesimix i \<or> s2_cry_sha256sig0 i \<or>
     s2_cry_sha256sig1 i \<or> s2_cry_sha256sum0 i \<or> s2_cry_sha256sum1 i \<or>
     s2_cry_sha512sig0 i \<or> s2_cry_sha512sig1 i \<or> s2_cry_sha512sum0 i \<or>
     s2_cry_sha512sum1 i \<or> s2_cry_sm4_ed i \<or> s2_cry_sm4_ks i \<or> s2_cry_sm3_p0 i \<or>
     s2_cry_sm3_p1 i)"

definition s2_cry_imm :: "u32 \<Rightarrow> 4 word" where
  "s2_cry_imm i = (if dec_aes64ks1i i then field 23 20 i else cat_bits ([False, False] @ bits_of 31 30 i))"

end
