(* ===== verification/Sboxes.thy ===== *)
theory Sboxes
  imports Prelude
begin

text \<open>
  The AES and SM4 S-boxes of the cryptography unit (\<open>rtl/core/core_pipe_exec_crypto_sboxes.sv\<close>): a
  nonlinear middle layer, shared by the three, between linear layers. A circuit is a function on
  words whose local names are the wires of the source. The rest of the theory compares the
  circuits with the field of 256 elements, byte by byte.
\<close>

section \<open>The circuits\<close>

text \<open>The word with the given bits, least significant first.\<close>

definition word_of :: "bool list \<Rightarrow> 'a::len word" where
  "word_of bs = of_bits ((!) bs)"

definition sbox_inv_mid :: "21 word \<Rightarrow> 18 word" where
  "sbox_inv_mid x =
    (let t0 = (bit x 3 \<noteq> bit x 12); t1 = (bit x 9 \<and> bit x 5);
         t2 = (bit x 17 \<and> bit x 6); t3 = (bit x 10 \<noteq> t1);
         t4 = (bit x 14 \<and> bit x 0); t5 = (t4 \<noteq> t1); t6 = (bit x 3 \<and> bit x 12);
         t7 = (bit x 16 \<and> bit x 7); t8 = (t0 \<noteq> t6); t9 = (bit x 15 \<and> bit x 13);
         t10 = (t9 \<noteq> t6); t11 = (bit x 1 \<and> bit x 11);
         t12 = (bit x 4 \<and> bit x 20); t13 = (t12 \<noteq> t11);
         t14 = (bit x 2 \<and> bit x 8); t15 = (t14 \<noteq> t11); t16 = (t3 \<noteq> t2);
         t17 = (t5 \<noteq> bit x 18); t18 = (t8 \<noteq> t7); t19 = (t10 \<noteq> t15);
         t20 = (t16 \<noteq> t13); t21 = (t17 \<noteq> t15); t22 = (t18 \<noteq> t13);
         t23 = (t19 \<noteq> bit x 19); t24 = (t22 \<noteq> t23); t25 = (t22 \<and> t20);
         t26 = (t21 \<noteq> t25); t27 = (t20 \<noteq> t21); t28 = (t23 \<noteq> t25);
         t29 = (t28 \<and> t27); t30 = (t26 \<and> t24); t31 = (t20 \<and> t23);
         t32 = (t27 \<and> t31); t33 = (t27 \<noteq> t25); t34 = (t21 \<and> t22);
         t35 = (t24 \<and> t34); t36 = (t24 \<noteq> t25); t37 = (t21 \<noteq> t29);
         t38 = (t32 \<noteq> t33); t39 = (t23 \<noteq> t30); t40 = (t35 \<noteq> t36);
         t41 = (t38 \<noteq> t40); t42 = (t37 \<noteq> t39); t43 = (t37 \<noteq> t38);
         t44 = (t39 \<noteq> t40); t45 = (t42 \<noteq> t41)
     in word_of [t38 \<and> bit x 7, t37 \<and> bit x 13, t42 \<and> bit x 11,
          t45 \<and> bit x 20, t41 \<and> bit x 8, t44 \<and> bit x 9, t40 \<and> bit x 17,
          t39 \<and> bit x 14, t43 \<and> bit x 3, t38 \<and> bit x 16, t37 \<and> bit x 15,
          t42 \<and> bit x 1, t45 \<and> bit x 4, t41 \<and> bit x 2, t44 \<and> bit x 5,
          t40 \<and> bit x 6, t39 \<and> bit x 0, t43 \<and> bit x 12])"

definition sbox_aes_top :: "8 word \<Rightarrow> 21 word" where
  "sbox_aes_top x =
    (let y0 = bit x 0; y1 = (bit x 7 \<noteq> bit x 4); y2 = (bit x 7 \<noteq> bit x 2);
         y3 = (bit x 7 \<noteq> bit x 1); y4 = (bit x 4 \<noteq> bit x 2);
         t0 = (bit x 3 \<noteq> bit x 1); y5 = (y1 \<noteq> t0); t1 = (bit x 6 \<noteq> bit x 5);
         y6 = (bit x 0 \<noteq> y5); y7 = (bit x 0 \<noteq> t1); y8 = (y5 \<noteq> t1);
         t2 = (bit x 6 \<noteq> bit x 2); t3 = (bit x 5 \<noteq> bit x 2); y9 = (y3 \<noteq> y4);
         y10 = (y5 \<noteq> t2); y11 = (t0 \<noteq> t2); y12 = (t0 \<noteq> t3);
         y13 = (y7 \<noteq> y12); t4 = (bit x 4 \<noteq> bit x 0); y14 = (t1 \<noteq> t4);
         y15 = (y1 \<noteq> y14); t5 = (bit x 1 \<noteq> bit x 0); y16 = (t1 \<noteq> t5);
         y17 = (y2 \<noteq> y16); y18 = (y2 \<noteq> y8); y19 = (y15 \<noteq> y13);
         y20 = (y1 \<noteq> t3)
     in word_of [y0, y1, y2, y3, y4, y5, y6, y7, y8, y9, y10, y11, y12, y13, y14, y15, y16, y17,
          y18, y19, y20])"

definition sbox_aes_out :: "18 word \<Rightarrow> 8 word" where
  "sbox_aes_out x =
    (let t0 = (bit x 11 \<noteq> bit x 12); t1 = (bit x 0 \<noteq> bit x 6);
         t2 = (bit x 14 \<noteq> bit x 16); t3 = (bit x 15 \<noteq> bit x 5);
         t4 = (bit x 4 \<noteq> bit x 8); t5 = (bit x 17 \<noteq> bit x 11);
         t6 = (bit x 12 \<noteq> t5); t7 = (bit x 14 \<noteq> t3);
         t8 = (bit x 1 \<noteq> bit x 9); t9 = (bit x 2 \<noteq> bit x 3);
         t10 = (bit x 3 \<noteq> t4); t11 = (bit x 10 \<noteq> t2);
         t12 = (bit x 16 \<noteq> bit x 1); t13 = (bit x 0 \<noteq> t0);
         t14 = (bit x 2 \<noteq> bit x 11); t15 = (bit x 5 \<noteq> t1);
         t16 = (bit x 6 \<noteq> t0); t17 = (bit x 7 \<noteq> t1); t18 = (bit x 8 \<noteq> t8);
         t19 = (bit x 13 \<noteq> t4); t20 = (t0 \<noteq> t1); t21 = (t1 \<noteq> t7);
         t22 = (t3 \<noteq> t12); t23 = (t18 \<noteq> t2); t24 = (t15 \<noteq> t9);
         t25 = (t6 \<noteq> t10); t26 = (t7 \<noteq> t9); t27 = (t8 \<noteq> t10);
         t28 = (t11 \<noteq> t14); t29 = (t11 \<noteq> t17)
     in word_of [t6 = t23, t13 = t27, t25 \<noteq> t29, t20 \<noteq> t22, t6 \<noteq> t21,
          t19 = t28, t16 = t26, t6 \<noteq> t24])"

definition sbox_aesi_top :: "8 word \<Rightarrow> 21 word" where
  "sbox_aesi_top x =
    (let y17 = (bit x 7 \<noteq> bit x 4); y16 = (bit x 6 = bit x 4); y2 = (bit x 7 = bit x 6);
         y1 = (bit x 4 \<noteq> bit x 3); y18 = (bit x 3 = bit x 0);
         t0 = (bit x 1 \<noteq> bit x 0); y6 = (bit x 6 = y17); y14 = (y16 \<noteq> t0);
         y7 = (bit x 0 = y1); y8 = (y2 \<noteq> y18); y9 = (y2 \<noteq> t0);
         y3 = (y1 \<noteq> t0); y19 = (bit x 5 = y1); t1 = (bit x 6 \<noteq> bit x 1);
         y13 = (bit x 5 = y14); y15 = (y18 \<noteq> t1); y4 = (bit x 3 \<noteq> y6);
         t2 = (bit x 5 = bit x 2); t3 = (bit x 2 = bit x 1); t4 = (bit x 5 = bit x 3);
         y5 = (y16 \<noteq> t2); y12 = (t1 \<noteq> t4); y20 = (y1 \<noteq> t3);
         y11 = (y8 \<noteq> y20); y10 = (y8 \<noteq> t3); y0 = (bit x 7 \<noteq> t2)
     in word_of [y0, y1, y2, y3, y4, y5, y6, y7, y8, y9, y10, y11, y12, y13, y14, y15, y16, y17,
          y18, y19, y20])"

definition sbox_aesi_out :: "18 word \<Rightarrow> 8 word" where
  "sbox_aesi_out x =
    (let t0 = (bit x 2 \<noteq> bit x 11); t1 = (bit x 8 \<noteq> bit x 9);
         t2 = (bit x 4 \<noteq> bit x 12); t3 = (bit x 15 \<noteq> bit x 0);
         t4 = (bit x 16 \<noteq> bit x 6); t5 = (bit x 14 \<noteq> bit x 1);
         t6 = (bit x 17 \<noteq> bit x 10); t7 = (t0 \<noteq> t1);
         t8 = (bit x 0 \<noteq> bit x 3); t9 = (bit x 5 \<noteq> bit x 13);
         t10 = (bit x 7 \<noteq> t4); t11 = (t0 \<noteq> t3); t12 = (bit x 14 \<noteq> bit x 16);
         t13 = (bit x 17 \<noteq> bit x 1); t14 = (bit x 17 \<noteq> bit x 12);
         t15 = (bit x 4 \<noteq> bit x 9); t16 = (bit x 7 \<noteq> bit x 11);
         t17 = (bit x 8 \<noteq> t2); t18 = (bit x 13 \<noteq> t5); t19 = (t2 \<noteq> t3);
         t20 = (t4 \<noteq> t6); t22 = (t2 \<noteq> t7); t23 = (t7 \<noteq> t8);
         t24 = (t5 \<noteq> t7); t25 = (t6 \<noteq> t10); t26 = (t9 \<noteq> t11);
         t27 = (t10 \<noteq> t18); t28 = (t11 \<noteq> t25); t29 = (t15 \<noteq> t20)
     in word_of [t9 \<noteq> t16, t14 \<noteq> t23, t19 \<noteq> t24, t23 \<noteq> t27,
          t12 \<noteq> t22, t17 \<noteq> t28, t26 \<noteq> t29, t13 \<noteq> t22])"

definition sbox_sm4_top :: "8 word \<Rightarrow> 21 word" where
  "sbox_sm4_top x =
    (let y18 = (bit x 2 \<noteq> bit x 6); t0 = (bit x 3 \<noteq> bit x 4);
         t1 = (bit x 2 \<noteq> bit x 7); t2 = (bit x 7 \<noteq> y18);
         t3 = (bit x 1 \<noteq> t1); t4 = (bit x 6 \<noteq> bit x 7);
         t5 = (bit x 0 \<noteq> y18); t6 = (bit x 3 \<noteq> bit x 6);
         y10 = (bit x 1 \<noteq> y18); y0 = (bit x 5 = y10); y1 = (t0 \<noteq> t3);
         y2 = (bit x 0 \<noteq> t0); y4 = (bit x 0 \<noteq> t3); y3 = (bit x 3 \<noteq> y4);
         y5 = (bit x 5 \<noteq> t5); y6 = (bit x 0 = bit x 1); y7 = (t0 = y10);
         y8 = (t0 \<noteq> t5); y9 = bit x 3; y11 = (t0 \<noteq> t4);
         y12 = (bit x 5 \<noteq> t4); y13 = (bit x 5 = y1); y14 = (bit x 4 = t2);
         y15 = (bit x 1 = t6); y16 = (bit x 0 = t2); y17 = (t0 = t2); y19 = (bit x 5 = y14);
         y20 = (bit x 0 \<noteq> t1)
     in word_of [y0, y1, y2, y3, y4, y5, y6, y7, y8, y9, y10, y11, y12, y13, y14, y15, y16, y17,
          y18, y19, y20])"

definition sbox_sm4_out :: "18 word \<Rightarrow> 8 word" where
  "sbox_sm4_out x =
    (let t0 = (bit x 4 \<noteq> bit x 7); t1 = (bit x 13 \<noteq> bit x 15);
         t2 = (bit x 2 \<noteq> bit x 16); t3 = (bit x 6 \<noteq> t0);
         t4 = (bit x 12 \<noteq> t1); t5 = (bit x 9 \<noteq> bit x 10);
         t6 = (bit x 11 \<noteq> t2); t7 = (bit x 1 \<noteq> t4);
         t8 = (bit x 0 \<noteq> bit x 17); t9 = (bit x 3 \<noteq> bit x 17);
         t10 = (bit x 8 \<noteq> t3); t11 = (t2 \<noteq> t5); t12 = (bit x 14 \<noteq> t6);
         t13 = (t7 \<noteq> t9); t14 = (bit x 0 \<noteq> bit x 6);
         t15 = (bit x 7 \<noteq> bit x 16); t16 = (bit x 5 \<noteq> bit x 13);
         t17 = (bit x 3 \<noteq> bit x 15); t18 = (bit x 10 \<noteq> bit x 12);
         t19 = (bit x 9 \<noteq> t1); t20 = (bit x 4 \<noteq> t4); t21 = (bit x 14 \<noteq> t3);
         t22 = (bit x 16 \<noteq> t5); t23 = (t7 \<noteq> t14); t24 = (t8 \<noteq> t11);
         t25 = (t0 \<noteq> t12); t26 = (t17 \<noteq> t3); t27 = (t18 \<noteq> t10);
         t28 = (t19 \<noteq> t6); t29 = (t8 \<noteq> t10)
     in word_of [t11 = t13, t15 = t23, t20 \<noteq> t24, t16 \<noteq> t25, t26 = t22,
          t21 \<noteq> t13, t27 = t12, t28 = t29])"

definition aes_fwd_sbox :: "u8 \<Rightarrow> u8" where
  "aes_fwd_sbox x = sbox_aes_out (sbox_inv_mid (sbox_aes_top x))"

definition aes_inv_sbox :: "u8 \<Rightarrow> u8" where
  "aes_inv_sbox x = sbox_aesi_out (sbox_inv_mid (sbox_aesi_top x))"

definition sm4_sbox :: "u8 \<Rightarrow> u8" where
  "sm4_sbox x = sbox_sm4_out (sbox_inv_mid (sbox_sm4_top x))"

section \<open>Bytes given by their bits\<close>

lemma bit_word_of: "bit (word_of bs :: 'a::len word) n \<longleftrightarrow> n < LENGTH('a)
    \<and> bs ! n"
  by (simp add: word_of_def bit_of_bits)

lemma less_8_cases: "n < 8 \<longleftrightarrow> n \<in> {0, 1, 2, 3, 4, 5, 6, 7 :: nat}"
  by auto

lemma byte_bits:
  obtains b0 b1 b2 b3 b4 b5 b6 b7 where "(x :: u8) = word_of [b0, b1, b2, b3, b4, b5, b6, b7]"
proof
  show "x = word_of [bit x 0, bit x 1, bit x 2, bit x 3, bit x 4, bit x 5, bit x 6, bit x 7]"
    by (rule bit_word_eqI) (auto simp: bit_word_of less_8_cases)
qed

text \<open>A property of all bytes from its 256 instances.\<close>

lemma all_bytes:
  assumes "\<And>b0 b1 b2 b3 b4 b5 b6 b7. P (word_of [b0, b1, b2, b3, b4, b5, b6, b7] :: u8)"
  shows "P x"
  using assms byte_bits [of x] by metis

text \<open>The circuits on words given bit by bit.\<close>

lemma sbox_inv_mid_bits:
  "sbox_inv_mid (word_of [x0, x1, x2, x3, x4, x5, x6, x7, x8, x9, x10, x11, x12, x13, x14, x15,
    x16, x17, x18, x19, x20]) =
    (let t0 = (x3 \<noteq> x12); t1 = (x9 \<and> x5);
         t2 = (x17 \<and> x6); t3 = (x10 \<noteq> t1);
         t4 = (x14 \<and> x0); t5 = (t4 \<noteq> t1); t6 = (x3 \<and> x12);
         t7 = (x16 \<and> x7); t8 = (t0 \<noteq> t6); t9 = (x15 \<and> x13);
         t10 = (t9 \<noteq> t6); t11 = (x1 \<and> x11);
         t12 = (x4 \<and> x20); t13 = (t12 \<noteq> t11);
         t14 = (x2 \<and> x8); t15 = (t14 \<noteq> t11); t16 = (t3 \<noteq> t2);
         t17 = (t5 \<noteq> x18); t18 = (t8 \<noteq> t7); t19 = (t10 \<noteq> t15);
         t20 = (t16 \<noteq> t13); t21 = (t17 \<noteq> t15); t22 = (t18 \<noteq> t13);
         t23 = (t19 \<noteq> x19); t24 = (t22 \<noteq> t23); t25 = (t22 \<and> t20);
         t26 = (t21 \<noteq> t25); t27 = (t20 \<noteq> t21); t28 = (t23 \<noteq> t25);
         t29 = (t28 \<and> t27); t30 = (t26 \<and> t24); t31 = (t20 \<and> t23);
         t32 = (t27 \<and> t31); t33 = (t27 \<noteq> t25); t34 = (t21 \<and> t22);
         t35 = (t24 \<and> t34); t36 = (t24 \<noteq> t25); t37 = (t21 \<noteq> t29);
         t38 = (t32 \<noteq> t33); t39 = (t23 \<noteq> t30); t40 = (t35 \<noteq> t36);
         t41 = (t38 \<noteq> t40); t42 = (t37 \<noteq> t39); t43 = (t37 \<noteq> t38);
         t44 = (t39 \<noteq> t40); t45 = (t42 \<noteq> t41)
     in word_of [t38 \<and> x7, t37 \<and> x13, t42 \<and> x11,
          t45 \<and> x20, t41 \<and> x8, t44 \<and> x9, t40 \<and> x17,
          t39 \<and> x14, t43 \<and> x3, t38 \<and> x16, t37 \<and> x15,
          t42 \<and> x1, t45 \<and> x4, t41 \<and> x2, t44 \<and> x5,
          t40 \<and> x6, t39 \<and> x0, t43 \<and> x12])"
  by (simp add: sbox_inv_mid_def bit_word_of cong: let_weak_cong)

lemma sbox_aes_top_bits:
  "sbox_aes_top (word_of [x0, x1, x2, x3, x4, x5, x6, x7]) =
    (let y0 = x0; y1 = (x7 \<noteq> x4); y2 = (x7 \<noteq> x2);
         y3 = (x7 \<noteq> x1); y4 = (x4 \<noteq> x2);
         t0 = (x3 \<noteq> x1); y5 = (y1 \<noteq> t0); t1 = (x6 \<noteq> x5);
         y6 = (x0 \<noteq> y5); y7 = (x0 \<noteq> t1); y8 = (y5 \<noteq> t1);
         t2 = (x6 \<noteq> x2); t3 = (x5 \<noteq> x2); y9 = (y3 \<noteq> y4);
         y10 = (y5 \<noteq> t2); y11 = (t0 \<noteq> t2); y12 = (t0 \<noteq> t3);
         y13 = (y7 \<noteq> y12); t4 = (x4 \<noteq> x0); y14 = (t1 \<noteq> t4);
         y15 = (y1 \<noteq> y14); t5 = (x1 \<noteq> x0); y16 = (t1 \<noteq> t5);
         y17 = (y2 \<noteq> y16); y18 = (y2 \<noteq> y8); y19 = (y15 \<noteq> y13);
         y20 = (y1 \<noteq> t3)
     in word_of [y0, y1, y2, y3, y4, y5, y6, y7, y8, y9, y10, y11, y12, y13, y14, y15, y16, y17,
          y18, y19, y20])"
  by (simp add: sbox_aes_top_def bit_word_of cong: let_weak_cong)

lemma sbox_aes_out_bits:
  "sbox_aes_out (word_of [x0, x1, x2, x3, x4, x5, x6, x7, x8, x9, x10, x11, x12, x13, x14, x15,
    x16, x17]) =
    (let t0 = (x11 \<noteq> x12); t1 = (x0 \<noteq> x6);
         t2 = (x14 \<noteq> x16); t3 = (x15 \<noteq> x5);
         t4 = (x4 \<noteq> x8); t5 = (x17 \<noteq> x11);
         t6 = (x12 \<noteq> t5); t7 = (x14 \<noteq> t3);
         t8 = (x1 \<noteq> x9); t9 = (x2 \<noteq> x3);
         t10 = (x3 \<noteq> t4); t11 = (x10 \<noteq> t2);
         t12 = (x16 \<noteq> x1); t13 = (x0 \<noteq> t0);
         t14 = (x2 \<noteq> x11); t15 = (x5 \<noteq> t1);
         t16 = (x6 \<noteq> t0); t17 = (x7 \<noteq> t1); t18 = (x8 \<noteq> t8);
         t19 = (x13 \<noteq> t4); t20 = (t0 \<noteq> t1); t21 = (t1 \<noteq> t7);
         t22 = (t3 \<noteq> t12); t23 = (t18 \<noteq> t2); t24 = (t15 \<noteq> t9);
         t25 = (t6 \<noteq> t10); t26 = (t7 \<noteq> t9); t27 = (t8 \<noteq> t10);
         t28 = (t11 \<noteq> t14); t29 = (t11 \<noteq> t17)
     in word_of [t6 = t23, t13 = t27, t25 \<noteq> t29, t20 \<noteq> t22, t6 \<noteq> t21,
          t19 = t28, t16 = t26, t6 \<noteq> t24])"
  by (simp add: sbox_aes_out_def bit_word_of cong: let_weak_cong)

lemma sbox_aesi_top_bits:
  "sbox_aesi_top (word_of [x0, x1, x2, x3, x4, x5, x6, x7]) =
    (let y17 = (x7 \<noteq> x4); y16 = (x6 = x4); y2 = (x7 = x6);
         y1 = (x4 \<noteq> x3); y18 = (x3 = x0);
         t0 = (x1 \<noteq> x0); y6 = (x6 = y17); y14 = (y16 \<noteq> t0);
         y7 = (x0 = y1); y8 = (y2 \<noteq> y18); y9 = (y2 \<noteq> t0);
         y3 = (y1 \<noteq> t0); y19 = (x5 = y1); t1 = (x6 \<noteq> x1);
         y13 = (x5 = y14); y15 = (y18 \<noteq> t1); y4 = (x3 \<noteq> y6);
         t2 = (x5 = x2); t3 = (x2 = x1); t4 = (x5 = x3);
         y5 = (y16 \<noteq> t2); y12 = (t1 \<noteq> t4); y20 = (y1 \<noteq> t3);
         y11 = (y8 \<noteq> y20); y10 = (y8 \<noteq> t3); y0 = (x7 \<noteq> t2)
     in word_of [y0, y1, y2, y3, y4, y5, y6, y7, y8, y9, y10, y11, y12, y13, y14, y15, y16, y17,
          y18, y19, y20])"
  by (simp add: sbox_aesi_top_def bit_word_of cong: let_weak_cong)

lemma sbox_aesi_out_bits:
  "sbox_aesi_out (word_of [x0, x1, x2, x3, x4, x5, x6, x7, x8, x9, x10, x11, x12, x13, x14,
    x15, x16, x17]) =
    (let t0 = (x2 \<noteq> x11); t1 = (x8 \<noteq> x9);
         t2 = (x4 \<noteq> x12); t3 = (x15 \<noteq> x0);
         t4 = (x16 \<noteq> x6); t5 = (x14 \<noteq> x1);
         t6 = (x17 \<noteq> x10); t7 = (t0 \<noteq> t1);
         t8 = (x0 \<noteq> x3); t9 = (x5 \<noteq> x13);
         t10 = (x7 \<noteq> t4); t11 = (t0 \<noteq> t3); t12 = (x14 \<noteq> x16);
         t13 = (x17 \<noteq> x1); t14 = (x17 \<noteq> x12);
         t15 = (x4 \<noteq> x9); t16 = (x7 \<noteq> x11);
         t17 = (x8 \<noteq> t2); t18 = (x13 \<noteq> t5); t19 = (t2 \<noteq> t3);
         t20 = (t4 \<noteq> t6); t22 = (t2 \<noteq> t7); t23 = (t7 \<noteq> t8);
         t24 = (t5 \<noteq> t7); t25 = (t6 \<noteq> t10); t26 = (t9 \<noteq> t11);
         t27 = (t10 \<noteq> t18); t28 = (t11 \<noteq> t25); t29 = (t15 \<noteq> t20)
     in word_of [t9 \<noteq> t16, t14 \<noteq> t23, t19 \<noteq> t24, t23 \<noteq> t27,
          t12 \<noteq> t22, t17 \<noteq> t28, t26 \<noteq> t29, t13 \<noteq> t22])"
  by (simp add: sbox_aesi_out_def bit_word_of cong: let_weak_cong)

lemma sbox_sm4_top_bits:
  "sbox_sm4_top (word_of [x0, x1, x2, x3, x4, x5, x6, x7]) =
    (let y18 = (x2 \<noteq> x6); t0 = (x3 \<noteq> x4);
         t1 = (x2 \<noteq> x7); t2 = (x7 \<noteq> y18);
         t3 = (x1 \<noteq> t1); t4 = (x6 \<noteq> x7);
         t5 = (x0 \<noteq> y18); t6 = (x3 \<noteq> x6);
         y10 = (x1 \<noteq> y18); y0 = (x5 = y10); y1 = (t0 \<noteq> t3);
         y2 = (x0 \<noteq> t0); y4 = (x0 \<noteq> t3); y3 = (x3 \<noteq> y4);
         y5 = (x5 \<noteq> t5); y6 = (x0 = x1); y7 = (t0 = y10);
         y8 = (t0 \<noteq> t5); y9 = x3; y11 = (t0 \<noteq> t4);
         y12 = (x5 \<noteq> t4); y13 = (x5 = y1); y14 = (x4 = t2);
         y15 = (x1 = t6); y16 = (x0 = t2); y17 = (t0 = t2); y19 = (x5 = y14);
         y20 = (x0 \<noteq> t1)
     in word_of [y0, y1, y2, y3, y4, y5, y6, y7, y8, y9, y10, y11, y12, y13, y14, y15, y16, y17,
          y18, y19, y20])"
  by (simp add: sbox_sm4_top_def bit_word_of cong: let_weak_cong)

lemma sbox_sm4_out_bits:
  "sbox_sm4_out (word_of [x0, x1, x2, x3, x4, x5, x6, x7, x8, x9, x10, x11, x12, x13, x14, x15,
    x16, x17]) =
    (let t0 = (x4 \<noteq> x7); t1 = (x13 \<noteq> x15);
         t2 = (x2 \<noteq> x16); t3 = (x6 \<noteq> t0);
         t4 = (x12 \<noteq> t1); t5 = (x9 \<noteq> x10);
         t6 = (x11 \<noteq> t2); t7 = (x1 \<noteq> t4);
         t8 = (x0 \<noteq> x17); t9 = (x3 \<noteq> x17);
         t10 = (x8 \<noteq> t3); t11 = (t2 \<noteq> t5); t12 = (x14 \<noteq> t6);
         t13 = (t7 \<noteq> t9); t14 = (x0 \<noteq> x6);
         t15 = (x7 \<noteq> x16); t16 = (x5 \<noteq> x13);
         t17 = (x3 \<noteq> x15); t18 = (x10 \<noteq> x12);
         t19 = (x9 \<noteq> t1); t20 = (x4 \<noteq> t4); t21 = (x14 \<noteq> t3);
         t22 = (x16 \<noteq> t5); t23 = (t7 \<noteq> t14); t24 = (t8 \<noteq> t11);
         t25 = (t0 \<noteq> t12); t26 = (t17 \<noteq> t3); t27 = (t18 \<noteq> t10);
         t28 = (t19 \<noteq> t6); t29 = (t8 \<noteq> t10)
     in word_of [t11 = t13, t15 = t23, t20 \<noteq> t24, t16 \<noteq> t25, t26 = t22,
          t21 \<noteq> t13, t27 = t12, t28 = t29])"
  by (simp add: sbox_sm4_out_def bit_word_of cong: let_weak_cong)

lemmas circuits = sbox_inv_mid_bits sbox_aes_top_bits sbox_aes_out_bits sbox_aesi_top_bits
  sbox_aesi_out_bits sbox_sm4_top_bits sbox_sm4_out_bits

lemma inv_fwd_sbox: "aes_inv_sbox (aes_fwd_sbox x) = x"
proof (rule all_bytes [of "\<lambda>x. aes_inv_sbox (aes_fwd_sbox x) = x"])
  fix b0 b1 b2 b3 b4 b5 b6 b7
  show "aes_inv_sbox (aes_fwd_sbox (word_of [b0, b1, b2, b3, b4, b5, b6, b7])) =
    word_of [b0, b1, b2, b3, b4, b5, b6, b7]"
    by (cases b0; cases b1; cases b2; cases b3; cases b4; cases b5; cases b6; cases b7)
      (simp_all add: aes_inv_sbox_def aes_fwd_sbox_def circuits cong: let_weak_cong)
qed

text \<open>The forward S-box is injective, so it is onto, and the inverse is two-sided.\<close>

lemma fwd_inv_sbox: "aes_fwd_sbox (aes_inv_sbox x) = x"
proof -
  have "inj aes_fwd_sbox" by (rule inj_on_inverseI) (rule inv_fwd_sbox)
  then have "surj aes_fwd_sbox" by (rule finite_UNIV_inj_surj [OF finite])
  then obtain y where "x = aes_fwd_sbox y" by (metis surjE)
  then show ?thesis by (simp add: inv_fwd_sbox)
qed

section \<open>The field with 256 elements\<close>

text \<open>
  Multiplication modulo an irreducible polynomial, given by its low byte \<open>p\<close>, and the two affine
  maps of the S-boxes, as sums of rotations.
\<close>

definition xtime :: "u8 \<Rightarrow> u8 \<Rightarrow> u8" where
  "xtime p a = push_bit 1 a XOR (if bit a 7 then p else 0)"

fun gf_mul_upto :: "nat \<Rightarrow> u8 \<Rightarrow> u8 \<Rightarrow> u8 \<Rightarrow> u8" where
  "gf_mul_upto 0 p a b = 0"
| "gf_mul_upto (Suc n) p a b = (if bit b (7 - n) then a else 0) XOR gf_mul_upto n p (xtime p a) b"

definition gf_mul :: "u8 \<Rightarrow> u8 \<Rightarrow> u8 \<Rightarrow> u8" where
  "gf_mul p a b = gf_mul_upto 8 p a b"

definition aes_affine :: "u8 \<Rightarrow> u8" where
  "aes_affine y =
     y XOR word_rotl 1 y XOR word_rotl 2 y XOR word_rotl 3 y XOR word_rotl 4 y XOR 0x63"

definition sm4_affine :: "u8 \<Rightarrow> u8" where
  "sm4_affine y =
     y XOR word_rotl 1 y XOR word_rotl 3 y XOR word_rotl 6 y XOR word_rotl 7 y XOR 0xd3"

text \<open>\<open>y\<close> is the inverse of \<open>x\<close>, where zero counts as its own inverse.\<close>

definition gf_inverse :: "u8 \<Rightarrow> u8 \<Rightarrow> u8 \<Rightarrow> bool" where
  "gf_inverse p x y \<longleftrightarrow> (if x = 0 then y = 0 else gf_mul p x y = 1)"

text \<open>These operations on bytes given by their bits.\<close>

lemma byte_eqI: "(\<And>n. n < 8 \<Longrightarrow> bit x n = bit y n) \<Longrightarrow> x = (y
    :: u8)"
  by (rule bit_word_eqI) simp

lemma xor_bits:
  "word_of [a0, a1, a2, a3, a4, a5, a6, a7] XOR word_of [b0, b1, b2, b3, b4, b5, b6, b7] =
    (word_of [a0 \<noteq> b0, a1 \<noteq> b1, a2 \<noteq> b2, a3 \<noteq> b3, a4 \<noteq> b4,
    a5 \<noteq> b5, a6 \<noteq> b6, a7 \<noteq> b7] :: u8)"
  by (rule byte_eqI) (auto simp: bit_xor_iff bit_word_of less_8_cases)

lemma byte_literals:
  "(0x1b :: u8) = word_of [True, True, False, True, True, False, False, False]"
  "(0xf5 :: u8) = word_of [True, False, True, False, True, True, True, True]"
  "(0x63 :: u8) = word_of [True, True, False, False, False, True, True, False]"
  "(0xd3 :: u8) = word_of [True, True, False, False, True, False, True, True]"
  "(0 :: u8) = word_of [False, False, False, False, False, False, False, False]"
  "(1 :: u8) = word_of [True, False, False, False, False, False, False, False]"
  "(5 :: u8) = word_of [True, False, True, False, False, False, False, False]"
  by (simp_all add: word_of_def of_bits_def upt_conv_Cons)

lemma bit_push_1: "bit (push_bit 1 (w :: u8)) n \<longleftrightarrow> 0 < n \<and> n < 8 \<and> bit w (n - 1)"
  unfolding bit_push_bit_iff by auto

lemma push_bits: "push_bit 1 (word_of [b0, b1, b2, b3, b4, b5, b6, b7]) = (word_of [False, b0,
    b1, b2, b3, b4, b5, b6] :: u8)"
  by (rule byte_eqI, unfold bit_push_1) (auto simp: bit_word_of less_8_cases)

lemma rotl_bits:
  "word_rotl 1 (word_of [b0, b1, b2, b3, b4, b5, b6, b7]) = (word_of [b7, b0, b1, b2, b3, b4,
    b5, b6] :: u8)"
  "word_rotl 2 (word_of [b0, b1, b2, b3, b4, b5, b6, b7]) = (word_of [b6, b7, b0, b1, b2, b3,
    b4, b5] :: u8)"
  "word_rotl 3 (word_of [b0, b1, b2, b3, b4, b5, b6, b7]) = (word_of [b5, b6, b7, b0, b1, b2,
    b3, b4] :: u8)"
  "word_rotl 4 (word_of [b0, b1, b2, b3, b4, b5, b6, b7]) = (word_of [b4, b5, b6, b7, b0, b1,
    b2, b3] :: u8)"
  "word_rotl 5 (word_of [b0, b1, b2, b3, b4, b5, b6, b7]) = (word_of [b3, b4, b5, b6, b7, b0,
    b1, b2] :: u8)"
  "word_rotl 6 (word_of [b0, b1, b2, b3, b4, b5, b6, b7]) = (word_of [b2, b3, b4, b5, b6, b7,
    b0, b1] :: u8)"
  "word_rotl 7 (word_of [b0, b1, b2, b3, b4, b5, b6, b7]) = (word_of [b1, b2, b3, b4, b5, b6,
    b7, b0] :: u8)"
  by (rule byte_eqI, auto simp: bit_word_rotl_iff bit_word_of less_8_cases numeral_2_eq_2 [symmetric])+

lemma eq_bits:
  "(word_of [a0, a1, a2, a3, a4, a5, a6, a7] :: u8) = word_of [b0, b1, b2, b3, b4, b5, b6, b7]
    \<longleftrightarrow>
    (a0 \<longleftrightarrow> b0) \<and> (a1 \<longleftrightarrow> b1) \<and> (a2
    \<longleftrightarrow> b2) \<and> (a3 \<longleftrightarrow> b3) \<and> (a4
    \<longleftrightarrow> b4) \<and> (a5 \<longleftrightarrow> b5) \<and> (a6
    \<longleftrightarrow> b6) \<and> (a7 \<longleftrightarrow> b7)"
proof -
  have "(word_of as :: u8) = word_of bs \<longleftrightarrow> (\<forall>n \<in> {0, 1, 2, 3, 4, 5, 6, 7}. as ! n = bs ! n)" for as bs
    unfolding less_8_cases [symmetric] by (auto simp: bit_eq_iff bit_word_of Ball_def less_8_cases)
  then show ?thesis by simp
qed

lemma rotl_bits_1 [simplified]:
  "word_rotl 1 (word_of [b0, b1, b2, b3, b4, b5, b6, b7]) = (word_of [b7, b0, b1, b2, b3, b4, b5, b6] :: u8)"
  by (rule rotl_bits)

lemmas byte_ops = rotl_bits_1 xor_bits push_bits rotl_bits byte_literals eq_bits

lemma xtime_bits:
  "xtime 0x1b (word_of [b0, b1, b2, b3, b4, b5, b6, b7]) =
    word_of [b7, b0 \<noteq> b7, b1, b2 \<noteq> b7, b3 \<noteq> b7, b4, b5, b6]"
  "xtime 0xf5 (word_of [b0, b1, b2, b3, b4, b5, b6, b7]) =
    word_of [b7, b0, b1 \<noteq> b7, b2, b3 \<noteq> b7, b4 \<noteq> b7, b5 \<noteq> b7, b6 \<noteq> b7]"
  unfolding xtime_def push_bits by (cases b7; simp add: byte_ops bit_word_of)+

text \<open>The inverses of the affine maps.\<close>

definition aes_unaffine :: "u8 \<Rightarrow> u8" where
  "aes_unaffine s = word_rotl 1 s XOR word_rotl 3 s XOR word_rotl 6 s XOR 5"

definition sm4_unaffine :: "u8 \<Rightarrow> u8" where
  "sm4_unaffine s = (let t = s XOR 0xd3 in t XOR word_rotl 2 t XOR word_rotl 7 t)"

lemma aes_affine_inverse: "aes_affine (aes_unaffine s) = s"
proof (rule all_bytes [of "\<lambda>s. aes_affine (aes_unaffine s) = s"])
  fix b0 b1 b2 b3 b4 b5 b6 b7
  show "aes_affine (aes_unaffine (word_of [b0, b1, b2, b3, b4, b5, b6, b7])) =
      word_of [b0, b1, b2, b3, b4, b5, b6, b7]"
    unfolding aes_affine_def aes_unaffine_def byte_ops by blast
qed

lemma sm4_affine_inverse: "sm4_affine (sm4_unaffine s) = s"
proof (rule all_bytes [of "\<lambda>s. sm4_affine (sm4_unaffine s) = s"])
  fix b0 b1 b2 b3 b4 b5 b6 b7
  show "sm4_affine (sm4_unaffine (word_of [b0, b1, b2, b3, b4, b5, b6, b7])) =
      word_of [b0, b1, b2, b3, b4, b5, b6, b7]"
    unfolding sm4_affine_def sm4_unaffine_def Let_def byte_ops by blast
qed

lemma gf_mul_unfold:
  "gf_mul p a b =
    (let a1 = xtime p a; a2 = xtime p a1; a3 = xtime p a2; a4 = xtime p a3; a5 = xtime p a4;
         a6 = xtime p a5; a7 = xtime p a6
     in (if bit b 0 then a else 0) XOR (if bit b 1 then a1 else 0) XOR (if bit b 2 then a2 else 0) XOR
       (if bit b 3 then a3 else 0) XOR (if bit b 4 then a4 else 0) XOR (if bit b 5 then a5 else 0) XOR
       (if bit b 6 then a6 else 0) XOR (if bit b 7 then a7 else 0))"
  by (simp add: gf_mul_def Let_def eval_nat_numeral del: bit_0)

lemma gf_mul_bits:
  "gf_mul p a (word_of [c0, c1, c2, c3, c4, c5, c6, c7]) =
    (if c0 then a else 0) XOR (if c1 then xtime p a else 0) XOR
    (if c2 then xtime p (xtime p a) else 0) XOR (if c3 then xtime p (xtime p (xtime p a)) else 0) XOR
    (if c4 then (xtime p ^^ 4) a else 0) XOR (if c5 then (xtime p ^^ 5) a else 0) XOR
    (if c6 then (xtime p ^^ 6) a else 0) XOR (if c7 then (xtime p ^^ 7) a else 0)"
  unfolding gf_mul_unfold Let_def bit_word_of by (simp add: eval_nat_numeral)

lemma aes_sbox_inverse: "gf_inverse 0x1b x (aes_unaffine (aes_fwd_sbox x))"
proof (rule all_bytes [of "\<lambda>x. gf_inverse 0x1b x (aes_unaffine (aes_fwd_sbox x))"])
  fix b0 b1 b2 b3 b4 b5 b6 b7
  show "gf_inverse 0x1b (word_of [b0, b1, b2, b3, b4, b5, b6, b7])
      (aes_unaffine (aes_fwd_sbox (word_of [b0, b1, b2, b3, b4, b5, b6, b7])))"
    by (cases b0; cases b1; cases b2; cases b3; cases b4; cases b5; cases b6; cases b7;
        simp only:; simp add: aes_fwd_sbox_def circuits cong: let_weak_cong;
        simp add: aes_unaffine_def byte_ops;
        simp add: gf_inverse_def gf_mul_bits byte_literals eval_nat_numeral
          xtime_bits [unfolded byte_literals] xor_bits eq_bits)
qed

lemma sm4_sbox_inverse: "gf_inverse 0xf5 (sm4_affine x) (sm4_unaffine (sm4_sbox x))"
proof (rule all_bytes [of "\<lambda>x. gf_inverse 0xf5 (sm4_affine x) (sm4_unaffine (sm4_sbox x))"])
  fix b0 b1 b2 b3 b4 b5 b6 b7
  show "gf_inverse 0xf5 (sm4_affine (word_of [b0, b1, b2, b3, b4, b5, b6, b7]))
      (sm4_unaffine (sm4_sbox (word_of [b0, b1, b2, b3, b4, b5, b6, b7])))"
    by (cases b0; cases b1; cases b2; cases b3; cases b4; cases b5; cases b6; cases b7;
        simp only:; simp add: sm4_sbox_def circuits cong: let_weak_cong;
        simp add: sm4_unaffine_def sm4_affine_def byte_ops;
        simp add: gf_inverse_def gf_mul_bits byte_literals eval_nat_numeral
          xtime_bits [unfolded byte_literals] xor_bits eq_bits)
qed

end
