(* ===== verification/Crypto.thy ===== *)
theory Crypto
  imports Sboxes
begin

text \<open>
  The cryptography unit of the execute stage (\<open>rtl/core/core_pipe_exec_crypto.sv\<close>) and its parts: the
  AES instructions (\<open>core_pipe_exec_crypto_aes64.sv\<close>, \<open>core_pipe_exec_crypto_aes_mix_columns.sv\<close>), SHA-256 and
  SHA-512 (\<open>core_pipe_exec_crypto_sha256.sv\<close>, \<open>core_pipe_exec_crypto_sha512.sv\<close>), SM3 and SM4
  (\<open>core_pipe_exec_crypto_sm3.sv\<close>, \<open>core_pipe_exec_crypto_sm4.sv\<close>). The AES part has the four S-boxes of each
  direction that \<open>core_pipe_exec.sv\<close> asks for, so it takes two cycles and has registers; the
  others are functions of their inputs. Every feature is enabled.
\<close>

section \<open>Mix columns\<close>

definition xt2 :: "u8 \<Rightarrow> u8" where
  "xt2 a = push_bit 1 a XOR (if bit a 7 then 0x1b else 0)"

definition xtN :: "u8 \<Rightarrow> 4 word \<Rightarrow> u8" where
  "xtN a b = (if bit b 0 then a else 0) XOR (if bit b 1 then xt2 a else 0) XOR
     (if bit b 2 then xt2 (xt2 a) else 0) XOR (if bit b 3 then xt2 (xt2 (xt2 a)) else 0)"

text \<open>The bytes of a column, \<open>cbyte c 0\<close> the lowest, and the column with given bytes.\<close>

definition cbyte :: "u32 \<Rightarrow> nat \<Rightarrow> u8" where
  "cbyte c i = ucast (drop_bit (8 * i) c)"

definition col_of :: "(nat \<Rightarrow> u8) \<Rightarrow> u32" where
  "col_of f = or_bytes f 4"

text \<open>One byte of a mixed column from the four bytes that enter it.\<close>

definition mixcolumn_byte_enc :: "u8 \<Rightarrow> u8 \<Rightarrow> u8 \<Rightarrow> u8 \<Rightarrow> u8" where
  "mixcolumn_byte_enc b0 b1 b2 b3 = xtN b0 2 XOR xtN b1 3 XOR b2 XOR b3"

definition mixcolumn_byte_dec :: "u8 \<Rightarrow> u8 \<Rightarrow> u8 \<Rightarrow> u8 \<Rightarrow> u8" where
  "mixcolumn_byte_dec b0 b1 b2 b3 = xtN b0 0xe XOR xtN b1 0xb XOR xtN b2 0xd XOR xtN b3 0x9"

definition mixcolumn_enc :: "u32 \<Rightarrow> u32" where
  "mixcolumn_enc c =
     (let b0 = cbyte c 0; b1 = cbyte c 1; b2 = cbyte c 2; b3 = cbyte c 3 in
      col_of ((!) [mixcolumn_byte_enc b0 b1 b2 b3, mixcolumn_byte_enc b1 b2 b3 b0,
        mixcolumn_byte_enc b2 b3 b0 b1, mixcolumn_byte_enc b3 b0 b1 b2]))"

definition mixcolumn_dec :: "u32 \<Rightarrow> u32" where
  "mixcolumn_dec c =
     (let b0 = cbyte c 0; b1 = cbyte c 1; b2 = cbyte c 2; b3 = cbyte c 3 in
      col_of ((!) [mixcolumn_byte_dec b0 b1 b2 b3, mixcolumn_byte_dec b1 b2 b3 b0,
        mixcolumn_byte_dec b2 b3 b0 b1, mixcolumn_byte_dec b3 b0 b1 b2]))"

section \<open>AES\<close>

record aes_ops =
  op_ks1 :: bool
  op_ks2 :: bool
  op_imix :: bool
  op_encs :: bool
  op_encsm :: bool
  op_decs :: bool
  op_decsm :: bool

record aes_in =
  aes_resetn :: bool
  aes_valid :: bool
  aes_rs1 :: u64
  aes_rs2 :: u64
  enc_rcon :: "4 word"
  aes_op :: aes_ops

record aes =
  sbox_hi :: bool
  sbox_regs :: "u8 list"

definition rcon :: "u8 list" where
  "rcon = [0x01, 0x02, 0x04, 0x08, 0x10, 0x20, 0x40, 0x80, 0x1b, 0x36, 0, 0, 0, 0, 0, 0]"

definition aes_row :: "aes_in \<Rightarrow> nat \<Rightarrow> u32" where
  "aes_row x r =
     col_of ((!) [byte_of (aes_rs2 x) (r + 4), byte_of (aes_rs2 x) r, byte_of (aes_rs1 x) (r + 4),
       byte_of (aes_rs1 x) r])"

definition fsh :: "aes_in \<Rightarrow> u32 list" where
  "fsh x = [aes_row x 0, word_rotl 8 (aes_row x 1), word_rotl 16 (aes_row x 2), word_rotr 8 (aes_row x 3)]"

definition ish :: "aes_in \<Rightarrow> u32 list" where
  "ish x = [aes_row x 0, word_rotr 8 (aes_row x 1), word_rotl 16 (aes_row x 2), word_rotl 8 (aes_row x 3)]"

text \<open>A column from byte \<open>j\<close> of each row; column 0 is made of the bytes 3, column 1 of the bytes 2.\<close>

definition aes_col :: "u32 list \<Rightarrow> nat \<Rightarrow> u32" where
  "aes_col rows j = col_of (\<lambda>r. cbyte (rows ! r) j)"

definition shiftrows_enc :: "aes_in \<Rightarrow> u64" where
  "shiftrows_enc x = word_cat (aes_col (fsh x) 2) (aes_col (fsh x) 3)"

definition shiftrows_dec :: "aes_in \<Rightarrow> u64" where
  "shiftrows_dec x = word_cat (aes_col (ish x) 2) (aes_col (ish x) 3)"

definition rcon_rot :: "aes_in \<Rightarrow> bool" where "rcon_rot x \<longleftrightarrow> enc_rcon x \<noteq> 0xA"

definition rconst :: "aes_in \<Rightarrow> u8" where
  "rconst x = (if rcon_rot x then rcon ! unat (enc_rcon x) else 0)"

definition ks1_sb :: "aes_in \<Rightarrow> u8 list" where
  "ks1_sb x = map (byte_of (aes_rs1 x)) (if rcon_rot x then [5, 6, 7, 4] else [4, 5, 6, 7])"

definition sb_fwd_in :: "aes_in \<Rightarrow> nat \<Rightarrow> u8" where
  "sb_fwd_in x i = (if op_ks1 (aes_op x) \<and> i < 4 then ks1_sb x ! i else byte_of (shiftrows_enc x) i)"

definition sb_inv_in :: "aes_in \<Rightarrow> nat \<Rightarrow> u8" where
  "sb_inv_in x i = byte_of (shiftrows_dec x) i"

definition n_sbox_fwd :: "aes_in \<Rightarrow> aes \<Rightarrow> nat \<Rightarrow> u8" where
  "n_sbox_fwd x s i = aes_fwd_sbox (sb_fwd_in x (i + (if sbox_hi s then 4 else 0)))"

definition n_sbox_inv :: "aes_in \<Rightarrow> aes \<Rightarrow> nat \<Rightarrow> u8" where
  "n_sbox_inv x s i = aes_inv_sbox (sb_inv_in x (i + (if sbox_hi s then 4 else 0)))"

definition e_sbout :: "aes_in \<Rightarrow> aes \<Rightarrow> u64" where
  "e_sbout x s = or_bytes (\<lambda>i. if i < 4 then sbox_regs s ! i else n_sbox_fwd x s (i - 4)) 8"

definition d_sbout :: "aes_in \<Rightarrow> aes \<Rightarrow> u64" where
  "d_sbout x s = or_bytes (\<lambda>i. if i < 4 then sbox_regs s ! i else n_sbox_inv x s (i - 4)) 8"

definition low32 :: "u64 \<Rightarrow> u32" where "low32 w = ucast w"
definition high32 :: "u64 \<Rightarrow> u32" where "high32 w = ucast (drop_bit 32 w)"

definition op_enc :: "aes_ops \<Rightarrow> bool" where "op_enc p \<longleftrightarrow> op_encs p \<or> op_encsm p"
definition op_dec :: "aes_ops \<Rightarrow> bool" where "op_dec p \<longleftrightarrow> op_decs p \<or> op_decsm p"
definition aes_mix :: "aes_ops \<Rightarrow> bool" where "aes_mix p \<longleftrightarrow> op_encsm p \<or> op_decsm p"

definition result_ks1 :: "aes_in \<Rightarrow> aes \<Rightarrow> u64" where
  "result_ks1 x s = (let k = low32 (e_sbout x s) XOR ucast (rconst x) in word_cat k k)"

definition result_ks2 :: "aes_in \<Rightarrow> u64" where
  "result_ks2 x =
     word_cat (high32 (aes_rs1 x) XOR high32 (aes_rs2 x) XOR low32 (aes_rs2 x))
       (high32 (aes_rs1 x) XOR low32 (aes_rs2 x))"

definition mix_enc_o :: "aes_in \<Rightarrow> aes \<Rightarrow> u64" where
  "mix_enc_o x s = word_cat (mixcolumn_enc (high32 (e_sbout x s))) (mixcolumn_enc (low32 (e_sbout x s)))"

definition mix_dec_o :: "aes_in \<Rightarrow> aes \<Rightarrow> u64" where
  "mix_dec_o x s =
     (let i = (if op_imix (aes_op x) then aes_rs1 x else d_sbout x s) in
      word_cat (mixcolumn_dec (high32 i)) (mixcolumn_dec (low32 i)))"

definition result_enc :: "aes_in \<Rightarrow> aes \<Rightarrow> u64" where
  "result_enc x s = (if aes_mix (aes_op x) then mix_enc_o x s else e_sbout x s)"

definition result_dec :: "aes_in \<Rightarrow> aes \<Rightarrow> u64" where
  "result_dec x s = (if aes_mix (aes_op x) then mix_dec_o x s else d_sbout x s)"

definition gated :: "bool \<Rightarrow> 'a::len word \<Rightarrow> 'a word" where "gated b w = (if b then w else 0)"

definition aes_rd :: "aes_in \<Rightarrow> aes \<Rightarrow> u64" where
  "aes_rd x s =
     gated (op_ks1 (aes_op x)) (result_ks1 x s) OR gated (op_ks2 (aes_op x)) (result_ks2 x) OR
     gated (op_enc (aes_op x)) (result_enc x s) OR gated (op_dec (aes_op x)) (result_dec x s) OR
     gated (op_imix (aes_op x)) (mix_dec_o x s)"

definition sbox_instr :: "aes_ops \<Rightarrow> bool" where
  "sbox_instr p \<longleftrightarrow> op_encs p \<or> op_encsm p \<or> op_decs p \<or> op_decsm p \<or> op_ks1 p"

definition sbox_ready :: "aes_in \<Rightarrow> aes \<Rightarrow> bool" where
  "sbox_ready x s \<longleftrightarrow> sbox_hi s \<and> sbox_instr (aes_op x) \<or> \<not> sbox_instr (aes_op x)"

definition aes_ready :: "aes_in \<Rightarrow> aes \<Rightarrow> bool" where
  "aes_ready x s \<longleftrightarrow> aes_valid x \<and> sbox_ready x s"

definition sbox_reg_ld_en :: "aes_in \<Rightarrow> aes \<Rightarrow> bool" where
  "sbox_reg_ld_en x s \<longleftrightarrow> \<not> sbox_hi s \<and> sbox_instr (aes_op x) \<and> aes_valid x"

definition aes_step :: "aes_in \<Rightarrow> aes \<Rightarrow> aes" where
  "aes_step x s =
     \<lparr>sbox_hi =
        (if \<not> aes_resetn x then False else if aes_valid x \<and> aes_ready x s then False
         else if aes_valid x \<and> sbox_instr (aes_op x) then True else sbox_hi s),
      sbox_regs =
        (if sbox_reg_ld_en x s
         then map (if op_dec (aes_op x) then n_sbox_inv x s else n_sbox_fwd x s) [0..<4]
         else sbox_regs s)\<rparr>"

section \<open>SHA-2 and SM3\<close>

definition RORN :: "'a::len word \<Rightarrow> nat \<Rightarrow> 'a word" where
  "RORN a b = drop_bit b a OR push_bit (LENGTH('a) - b) a"

definition ROL32 :: "u32 \<Rightarrow> nat \<Rightarrow> u32" where
  "ROL32 a b = push_bit b a OR drop_bit (32 - b) a"

definition ssha256_sig0 :: "u32 \<Rightarrow> u32" where
  "ssha256_sig0 a = RORN a 7 XOR RORN a 18 XOR drop_bit 3 a"
definition ssha256_sig1 :: "u32 \<Rightarrow> u32" where
  "ssha256_sig1 a = RORN a 17 XOR RORN a 19 XOR drop_bit 10 a"
definition ssha256_sum0 :: "u32 \<Rightarrow> u32" where
  "ssha256_sum0 a = RORN a 2 XOR RORN a 13 XOR RORN a 22"
definition ssha256_sum1 :: "u32 \<Rightarrow> u32" where
  "ssha256_sum1 a = RORN a 6 XOR RORN a 11 XOR RORN a 25"

definition ssha512_sig0 :: "u64 \<Rightarrow> u64" where
  "ssha512_sig0 a = RORN a 1 XOR RORN a 8 XOR drop_bit 7 a"
definition ssha512_sig1 :: "u64 \<Rightarrow> u64" where
  "ssha512_sig1 a = RORN a 19 XOR RORN a 61 XOR drop_bit 6 a"
definition ssha512_sum0 :: "u64 \<Rightarrow> u64" where
  "ssha512_sum0 a = RORN a 28 XOR RORN a 34 XOR RORN a 39"
definition ssha512_sum1 :: "u64 \<Rightarrow> u64" where
  "ssha512_sum1 a = RORN a 14 XOR RORN a 18 XOR RORN a 41"

definition ssm3_p0 :: "u32 \<Rightarrow> u32" where "ssm3_p0 a = a XOR ROL32 a 9 XOR ROL32 a 17"
definition ssm3_p1 :: "u32 \<Rightarrow> u32" where "ssm3_p1 a = a XOR ROL32 a 15 XOR ROL32 a 23"

section \<open>SM4\<close>

definition sm4_l :: "u32 \<Rightarrow> 2 word \<Rightarrow> u32" where
  "sm4_l rs2 bs = ucast (sm4_sbox (cbyte rs2 (unat bs)))"

definition l_ed2 :: "u32 \<Rightarrow> u32" where
  "l_ed2 l = l XOR push_bit 8 l XOR push_bit 2 l XOR push_bit 18 l XOR
     push_bit 26 (l AND 0x3F) XOR push_bit 10 (l AND 0xC0)"

definition l_ks2 :: "u32 \<Rightarrow> u32" where
  "l_ks2 l = l XOR push_bit 29 (l AND 0x7) XOR push_bit 7 (l AND 0xFE) XOR
     push_bit 23 (l AND 0x01) XOR push_bit 13 (l AND 0xF8)"

definition sm4_rot_out :: "2 word \<Rightarrow> u32 \<Rightarrow> u32" where
  "sm4_rot_out bs w =
     gated (bs = 0) w OR gated (bs = 1) (word_rotl 8 w) OR gated (bs = 2) (word_rotl 16 w) OR
     gated (bs = 3) (word_rotl 24 w)"

definition sm4_result :: "bool \<Rightarrow> u32 \<Rightarrow> u32 \<Rightarrow> 2 word \<Rightarrow> u32" where
  "sm4_result op_ks rs1 rs2 bs =
     sm4_rot_out bs (if op_ks then l_ks2 (sm4_l rs2 bs) else l_ed2 (sm4_l rs2 bs)) XOR rs1"

section \<open>The unit\<close>

record cry_in =
  cry_resetn :: bool
  cry_valid :: bool
  cry_rs1 :: u64
  cry_rs2 :: u64
  cry_imm :: "4 word"
  cry_aes :: aes_ops
  op_sha256_sig0 :: bool
  op_sha256_sig1 :: bool
  op_sha256_sum0 :: bool
  op_sha256_sum1 :: bool
  op_sha512_sig0 :: bool
  op_sha512_sig1 :: bool
  op_sha512_sum0 :: bool
  op_sha512_sum1 :: bool
  op_sm3_p0 :: bool
  op_sm3_p1 :: bool
  op_sm4_ks :: bool
  op_sm4_ed :: bool

definition ssha256_valid :: "cry_in \<Rightarrow> bool" where
  "ssha256_valid x \<longleftrightarrow> op_sha256_sig0 x \<or> op_sha256_sig1 x \<or> op_sha256_sum0 x \<or> op_sha256_sum1 x"

definition ssha512_valid :: "cry_in \<Rightarrow> bool" where
  "ssha512_valid x \<longleftrightarrow> op_sha512_sum0 x \<or> op_sha512_sum1 x \<or> op_sha512_sig0 x \<or> op_sha512_sig1 x"

definition ssm3_valid :: "cry_in \<Rightarrow> bool" where "ssm3_valid x \<longleftrightarrow> op_sm3_p0 x \<or> op_sm3_p1 x"
definition ssm4_valid :: "cry_in \<Rightarrow> bool" where "ssm4_valid x \<longleftrightarrow> op_sm4_ks x \<or> op_sm4_ed x"

definition saes64_valid :: "cry_in \<Rightarrow> bool" where
  "saes64_valid x \<longleftrightarrow> cry_valid x \<and>
     (op_ks1 (cry_aes x) \<or> op_ks2 (cry_aes x) \<or> op_imix (cry_aes x) \<or> op_encs (cry_aes x) \<or>
      op_encsm (cry_aes x) \<or> op_decs (cry_aes x) \<or> op_decsm (cry_aes x))"

definition cry_aes_in :: "cry_in \<Rightarrow> aes_in" where
  "cry_aes_in x =
     \<lparr>aes_resetn = cry_resetn x, aes_valid = saes64_valid x, aes_rs1 = cry_rs1 x, aes_rs2 = cry_rs2 x,
      enc_rcon = cry_imm x, aes_op = cry_aes x\<rparr>"

definition ssha256_result :: "cry_in \<Rightarrow> u64" where
  "ssha256_result x =
     (let a = low32 (cry_rs1 x) in
      ucast (gated (op_sha256_sig0 x) (ssha256_sig0 a) OR gated (op_sha256_sig1 x) (ssha256_sig1 a) OR
        gated (op_sha256_sum0 x) (ssha256_sum0 a) OR gated (op_sha256_sum1 x) (ssha256_sum1 a)))"

definition ssha512_result :: "cry_in \<Rightarrow> u64" where
  "ssha512_result x =
     (let a = cry_rs1 x in
      gated (op_sha512_sig0 x) (ssha512_sig0 a) OR gated (op_sha512_sig1 x) (ssha512_sig1 a) OR
      gated (op_sha512_sum0 x) (ssha512_sum0 a) OR gated (op_sha512_sum1 x) (ssha512_sum1 a))"

definition ssm3_result :: "cry_in \<Rightarrow> u64" where
  "ssm3_result x =
     (let a = low32 (cry_rs1 x) in
      ucast (gated (op_sm3_p0 x) (ssm3_p0 a) OR gated (op_sm3_p1 x) (ssm3_p1 a)))"

definition ssm4_result :: "cry_in \<Rightarrow> u64" where
  "ssm4_result x =
     ucast (sm4_result (op_sm4_ks x) (low32 (cry_rs1 x)) (low32 (cry_rs2 x)) (ucast (cry_imm x)))"

definition cry_ready :: "cry_in \<Rightarrow> aes \<Rightarrow> bool" where
  "cry_ready x s \<longleftrightarrow>
     ssha256_valid x \<or> ssha512_valid x \<or> aes_ready (cry_aes_in x) s \<or> ssm3_valid x \<or> ssm4_valid x"

definition cry_rd :: "cry_in \<Rightarrow> aes \<Rightarrow> u64" where
  "cry_rd x s =
     gated (ssha256_valid x) (ssha256_result x) OR gated (ssha512_valid x) (ssha512_result x) OR
     gated (saes64_valid x) (aes_rd (cry_aes_in x) s) OR gated (ssm3_valid x) (ssm3_result x) OR
     gated (ssm4_valid x) (ssm4_result x)"

definition cry_step :: "cry_in \<Rightarrow> aes \<Rightarrow> aes" where
  "cry_step x s = aes_step (cry_aes_in x) s"

end
