(* ===== verification/Execute.thy ===== *)
theory Execute
  imports Decode Hart Crypto
begin

text \<open>
  The execute stage (\<open>rtl/core/core_pipe_exec.sv\<close>): the control flow unit (\<open>core_pipe_exec_cfu.sv\<close>) and
  how the decoded instruction reaches the ALU, the multiply/divide, load/store, cryptography and
  control flow units, when the stage is ready, what it hands to writeback, and the gated clock of the multiply/divide unit. The record \<open>exec\<close>
  holds the registers of the units; the pipeline registers in front of writeback are \<open>s3\<close> of \<open>Hart\<close>.
\<close>

section \<open>The control flow unit\<close>

record cfu_in =
  c_eq :: bool
  c_lt :: bool
  c_ltu :: bool
  cfu_valid :: bool
  cfu_pc :: u64
  cfu_npc :: u64
  cfu_rs1 :: u64
  cfu_offset :: u64
  cfu_beq :: bool
  cfu_bge :: bool
  cfu_bgeu :: bool
  cfu_blt :: bool
  cfu_bltu :: bool
  cfu_bne :: bool
  cfu_ebrk :: bool
  cfu_ecall :: bool
  cfu_j :: bool
  cfu_jal :: bool
  cfu_jalr :: bool
  i_mret :: bool
  i_wfi :: bool

definition branch_conditional :: "cfu_in \<Rightarrow> bool" where
  "branch_conditional x \<longleftrightarrow> cfu_beq x \<or> cfu_bge x \<or> cfu_bgeu x \<or> cfu_blt x \<or> cfu_bltu x \<or> cfu_bne x"

definition branch_always :: "cfu_in \<Rightarrow> bool" where
  "branch_always x \<longleftrightarrow> cfu_j x \<or> cfu_jal x \<or> cfu_jalr x \<or> cfu_ebrk x \<or> cfu_ecall x"

definition target_addr :: "cfu_in \<Rightarrow> u64" where
  "target_addr x = (if cfu_jalr x then cfu_rs1 x else cfu_pc x) + cfu_offset x"

definition target_misaligned :: "cfu_in \<Rightarrow> bool" where
  "target_misaligned x \<longleftrightarrow> bit (target_addr x) 0 \<and> \<not> cfu_jalr x"

definition target_non_existant :: "cfu_in \<Rightarrow> bool" where
  "target_non_existant x \<longleftrightarrow> drop_bit 39 (target_addr x) \<noteq> 0"

definition trap_raise :: "cfu_in \<Rightarrow> bool" where
  "trap_raise x \<longleftrightarrow> (branch_conditional x \<or> branch_always x) \<and>
     (cfu_ebrk x \<or> cfu_ecall x \<or> target_misaligned x \<or> target_non_existant x)"

definition cfu_trap_cause :: "cfu_in \<Rightarrow> 7 word" where
  "cfu_trap_cause x =
     (if target_non_existant x then TRAP_IACCESS else if cfu_ecall x then 11 else if cfu_ebrk x then 3 else 0)"

definition branch_taken :: "cfu_in \<Rightarrow> bool" where
  "branch_taken x \<longleftrightarrow>
     branch_always x \<and> \<not> trap_raise x \<or> cfu_beq x \<and> c_eq x \<or> cfu_bge x \<and> (c_eq x \<or> \<not> c_lt x) \<or>
     cfu_bgeu x \<and> (c_eq x \<or> \<not> c_ltu x) \<or> cfu_blt x \<and> c_lt x \<or> cfu_bltu x \<and> c_ltu x \<or>
     cfu_bne x \<and> \<not> c_eq x"

definition branch_ignore :: "cfu_in \<Rightarrow> bool" where
  "branch_ignore x \<longleftrightarrow> branch_conditional x \<and> \<not> branch_taken x \<or> i_wfi x"

definition new_op :: "cfu_in \<Rightarrow> cfu_op" where
  "new_op x =
     (if trap_raise x then CFU_TRAP else if i_wfi x then CFU_WFI else if i_mret x then CFU_MRET
      else if branch_taken x then CFU_TAKEN else if branch_ignore x then CFU_IGNORE else CFU_NOP)"

text \<open>The register \<open>cf_change_done\<close> is the argument \<open>d\<close>.\<close>

definition cfu_cf_valid :: "cfu_in \<Rightarrow> bool \<Rightarrow> bool" where
  "cfu_cf_valid x d \<longleftrightarrow> branch_taken x \<and> \<not> d \<and> cfu_valid x"

definition n_cf_change_done :: "cfu_in \<Rightarrow> bool \<Rightarrow> bool \<Rightarrow> bool" where
  "n_cf_change_done x ack d \<longleftrightarrow> cfu_cf_valid x d \<and> ack \<or> d"

definition cfu_finished :: "cfu_in \<Rightarrow> bool \<Rightarrow> bool \<Rightarrow> bool" where
  "cfu_finished x ack d \<longleftrightarrow> n_cf_change_done x ack d \<or> trap_raise x \<or> branch_ignore x \<or> i_mret x"

definition cfu_step :: "bool \<Rightarrow> bool \<Rightarrow> cfu_in \<Rightarrow> bool \<Rightarrow> bool \<Rightarrow> bool" where
  "cfu_step resetn new x ack d =
     (if \<not> resetn \<or> new then False else if cfu_cf_valid x d \<and> ack then n_cf_change_done x ack d else d)"

section \<open>Inputs and registers of the stage\<close>

record exec_in =
  x_gate_en :: bool
  x_test_en :: bool
  x_resetn :: bool
  x_flush :: bool
  x_cancel :: bool
  x_wfi_sleep :: bool
  x_dec :: dec_in
  x_cf_ack :: bool
  x_gnt :: bool
  x_mprv_m :: bool
  x_mprv_u :: bool
  x_s3_ready :: bool
  x_s3_trap :: bool

record exec =
  cf_change_done :: bool
  ex_lsu :: lsu
  ex_mdu :: mdu
  ex_aes :: aes

definition s2_valid :: "exec_in \<Rightarrow> bool" where
  "s2_valid x \<longleftrightarrow> d_i16 (x_dec x) \<or> d_i32 (x_dec x)"

definition s2_instr :: "dec_in \<Rightarrow> u32" where
  "s2_instr y = (if d_i32 y then d_instr y else ucast (ucast (d_instr y) :: 16 word))"

definition dec_npc :: "dec_in \<Rightarrow> u64" where
  "dec_npc y = d_pc y + (if d_i32 y then 4 else 0) + (if d_i16 y then 2 else 0)"

section \<open>The units\<close>

definition ex_alu_in :: "dec_in \<Rightarrow> alu_in" where
  "ex_alu_in y =
     (let i = d_instr y in
      \<lparr>alu_a = s2_alu_lhs y, alu_b = s2_alu_rhs y, alu_shamt = s2_alu_shamt y, alu_word = s2_alu_word i,
       alu_add = s2_alu_add i, alu_sub = s2_alu_sub i, alu_xor = s2_alu_xor i, alu_or = s2_alu_or i,
       alu_and = s2_alu_and i, alu_slt = s2_alu_slt i, alu_sltu = s2_alu_sltu i, alu_srl = s2_alu_srl i,
       alu_sll = s2_alu_sll i, alu_sra = s2_alu_sra i, alu_xorn = s2_alu_xorn i, alu_andn = s2_alu_andn i,
       alu_orn = s2_alu_orn i, alu_ror = s2_alu_ror i, alu_rol = s2_alu_rol i, alu_pack = s2_alu_pack i,
       alu_packh = s2_alu_packh i, alu_packu = s2_alu_packu i, alu_grev = s2_alu_grev i,
       alu_gorc = s2_alu_gorc i, alu_xpermn = s2_alu_xpermn i, alu_xpermb = s2_alu_xpermb i\<rparr>)"

definition alu_add_out :: "dec_in \<Rightarrow> u64" where "alu_add_out y = addsub_output (ex_alu_in y)"

definition ex_mdu_valid :: "u32 \<Rightarrow> bool" where
  "ex_mdu_valid i \<longleftrightarrow>
     s2_mdu_mul i \<or> s2_mdu_mulh i \<or> s2_mdu_mulhsu i \<or> s2_mdu_mulhu i \<or> s2_mdu_div i \<or> s2_mdu_divu i \<or>
     s2_mdu_rem i \<or> s2_mdu_remu i \<or> s2_mdu_mulw i \<or> s2_mdu_divw i \<or> s2_mdu_divuw i \<or> s2_mdu_remw i \<or>
     s2_mdu_remuw i \<or> s2_mdu_clmul i \<or> s2_mdu_clmulh i"

definition ex_mdu_in :: "bool \<Rightarrow> bool \<Rightarrow> dec_in \<Rightarrow> mdu_in" where
  "ex_mdu_in resetn flush y =
     (let i = d_instr y in
      \<lparr>mdu_resetn = resetn, mdu_flush = flush, mdu_valid = ex_mdu_valid i,
       op_word = (s2_mdu_mulw i \<or> s2_mdu_divw i \<or> s2_mdu_divuw i \<or> s2_mdu_remw i \<or> s2_mdu_remuw i),
       op_mul = (s2_mdu_mulw i \<or> s2_mdu_mul i), op_mulh = s2_mdu_mulh i, op_mulhu = s2_mdu_mulhu i,
       op_mulhsu = s2_mdu_mulhsu i, op_clmul = s2_mdu_clmul i, op_clmulh = s2_mdu_clmulh i,
       op_div = (s2_mdu_div i \<or> s2_mdu_divw i), op_divu = (s2_mdu_divu i \<or> s2_mdu_divuw i),
       op_rem = (s2_mdu_rem i \<or> s2_mdu_remw i), op_remu = (s2_mdu_remu i \<or> s2_mdu_remuw i),
       mdu_rs1 = s2_alu_lhs y, mdu_rs2 = s2_alu_rhs y\<rparr>)"

definition ex_cry_valid :: "u32 \<Rightarrow> bool" where
  "ex_cry_valid i \<longleftrightarrow>
     s2_cry_aesks1 i \<or> s2_cry_aesks2 i \<or> s2_cry_aesimix i \<or> s2_cry_aeses i \<or> s2_cry_aesesm i \<or>
     s2_cry_aesds i \<or> s2_cry_aesdsm i \<or> s2_cry_sha256sig0 i \<or> s2_cry_sha256sig1 i \<or>
     s2_cry_sha256sum0 i \<or> s2_cry_sha256sum1 i \<or> s2_cry_sha512sig0 i \<or> s2_cry_sha512sig1 i \<or>
     s2_cry_sha512sum0 i \<or> s2_cry_sha512sum1 i \<or> s2_cry_sm3_p0 i \<or> s2_cry_sm3_p1 i \<or>
     s2_cry_sm4_ks i \<or> s2_cry_sm4_ed i"

definition ex_cry_in :: "bool \<Rightarrow> dec_in \<Rightarrow> cry_in" where
  "ex_cry_in resetn y =
     (let i = d_instr y in
      \<lparr>cry_resetn = resetn, cry_valid = ex_cry_valid i, cry_rs1 = d_rs1_data y, cry_rs2 = d_rs2_data y,
       cry_imm = s2_cry_imm i,
       cry_aes = \<lparr>op_ks1 = s2_cry_aesks1 i, op_ks2 = s2_cry_aesks2 i, op_imix = s2_cry_aesimix i,
         op_encs = s2_cry_aeses i, op_encsm = s2_cry_aesesm i, op_decs = s2_cry_aesds i,
         op_decsm = s2_cry_aesdsm i\<rparr>,
       op_sha256_sig0 = s2_cry_sha256sig0 i, op_sha256_sig1 = s2_cry_sha256sig1 i,
       op_sha256_sum0 = s2_cry_sha256sum0 i, op_sha256_sum1 = s2_cry_sha256sum1 i,
       op_sha512_sig0 = s2_cry_sha512sig0 i, op_sha512_sig1 = s2_cry_sha512sig1 i,
       op_sha512_sum0 = s2_cry_sha512sum0 i, op_sha512_sum1 = s2_cry_sha512sum1 i,
       op_sm3_p0 = s2_cry_sm3_p0 i, op_sm3_p1 = s2_cry_sm3_p1 i, op_sm4_ks = s2_cry_sm4_ks i,
       op_sm4_ed = s2_cry_sm4_ed i\<rparr>)"

definition cfu_op_any :: "u32 \<Rightarrow> bool" where
  "cfu_op_any i \<longleftrightarrow>
     s2_cfu_beq i \<or> s2_cfu_bge i \<or> s2_cfu_bgeu i \<or> s2_cfu_blt i \<or> s2_cfu_bltu i \<or> s2_cfu_bne i \<or>
     s2_cfu_ebrk i \<or> s2_cfu_ecall i \<or> s2_cfu_j i \<or> s2_cfu_jal i \<or> s2_cfu_jalr i \<or> s2_cfu_mret i \<or>
     s2_cfu_wfi i"

definition ex_cfu_in :: "exec_in \<Rightarrow> cfu_in" where
  "ex_cfu_in x =
     (let y = x_dec x; i = d_instr y; a = ex_alu_in y in
      \<lparr>c_eq = cmp_eq a, c_lt = cmp_lt a, c_ltu = cmp_ltu a,
       cfu_valid = (\<not> x_wfi_sleep x \<and> s2_valid x \<and> cfu_op_any i),
       cfu_pc = d_pc y, cfu_npc = dec_npc y, cfu_rs1 = s2_alu_lhs y, cfu_offset = s2_imm i,
       cfu_beq = s2_cfu_beq i, cfu_bge = s2_cfu_bge i, cfu_bgeu = s2_cfu_bgeu i, cfu_blt = s2_cfu_blt i,
       cfu_bltu = s2_cfu_bltu i, cfu_bne = s2_cfu_bne i, cfu_ebrk = s2_cfu_ebrk i,
       cfu_ecall = s2_cfu_ecall i, cfu_j = s2_cfu_j i, cfu_jal = s2_cfu_jal i, cfu_jalr = s2_cfu_jalr i,
       i_mret = s2_cfu_mret i, i_wfi = s2_cfu_wfi i\<rparr>)"

definition lsu_valid :: "exec_in \<Rightarrow> bool" where
  "lsu_valid x \<longleftrightarrow>
     s2_valid x \<and> \<not> x_s3_trap x \<and> \<not> x_cancel x \<and> \<not> x_wfi_sleep x \<and>
     (s2_lsu_load (x_dec x) \<or> s2_lsu_store (x_dec x))"

text \<open>The load/store unit, given whether a new instruction will arrive.\<close>

definition ex_lsu_in :: "bool \<Rightarrow> exec_in \<Rightarrow> lsu_in" where
  "ex_lsu_in new x =
     (let y = x_dec x; i = d_instr y in
      \<lparr>new_instr = new, ls_valid = lsu_valid x, ls_addr = lsu_addr (alu_add_out y),
       ls_wdata = d_rs2_data y, ls_load = s2_lsu_load y, ls_store = s2_lsu_store y,
       d_double = s2_lsu_dbl i, d_word = s2_lsu_word i, d_half = s2_lsu_half i, d_byte = s2_lsu_byte i,
       mprv_m = x_mprv_m x, mprv_u = x_mprv_u x\<rparr>)"

section \<open>Progress\<close>

text \<open>None of what decides progress depends on \<open>new_instr\<close>.\<close>

definition units_ready :: "exec_in \<Rightarrow> exec \<Rightarrow> bool" where
  "units_ready x s \<longleftrightarrow>
     (let y = x_dec x; i = d_instr y in
      (cfu_op_any i \<longrightarrow> cfu_finished (ex_cfu_in x) (x_cf_ack x) (cf_change_done s)) \<and>
      (lsu_valid x \<longrightarrow> lsu_ready (ex_lsu_in False x) (ex_lsu s) (x_gnt x)) \<and>
      (ex_cry_valid i \<longrightarrow> cry_ready (ex_cry_in (x_resetn x) y) (ex_aes s)) \<and>
      (ex_mdu_valid i \<longrightarrow> mdu_ready (ex_mdu_in (x_resetn x) False y) (ex_mdu s)))"

definition ex_s2_ready :: "exec_in \<Rightarrow> exec \<Rightarrow> bool" where
  "ex_s2_ready x s \<longleftrightarrow> x_s3_ready x \<and> units_ready x s"

definition ex_s3_valid :: "exec_in \<Rightarrow> exec \<Rightarrow> bool" where
  "ex_s3_valid x s \<longleftrightarrow> s2_valid x \<and> units_ready x s"

definition ex_new_instr :: "exec_in \<Rightarrow> exec \<Rightarrow> bool" where
  "ex_new_instr x s \<longleftrightarrow> s2_valid x \<and> ex_s2_ready x s"

definition n_s3_full :: "exec_in \<Rightarrow> exec \<Rightarrow> bool" where
  "n_s3_full x s \<longleftrightarrow> ex_s3_valid x s \<and> x_s3_ready x \<and> \<not> x_flush x"

section \<open>What writeback receives\<close>

definition n_s3_trap :: "exec_in \<Rightarrow> bool" where
  "n_s3_trap x \<longleftrightarrow> s2_trap (x_dec x) \<or> trap_addr (ex_lsu_in False x) \<or> trap_raise (ex_cfu_in x)"

definition n_s3_rd_field :: "exec_in \<Rightarrow> 5 word" where
  "n_s3_rd_field x =
     (if s2_trap (x_dec x) then ucast (s2_trap_cause (x_dec x))
      else if trap_raise (ex_cfu_in x) then ucast (cfu_trap_cause (ex_cfu_in x))
      else n_s3_rd (trap_addr (ex_lsu_in False x)) (s2_rd (x_dec x)))"

definition wb_code :: "2 word \<Rightarrow> wb_op" where
  "wb_code w = (if w = 0 then WB_NONE else if w = 1 then WB_WDATA else if w = 2 then WB_LSU else WB_CSR)"

definition n_s3_wb_op :: "dec_in \<Rightarrow> wb_op" where
  "n_s3_wb_op y =
     wb_code (gate (s2_wb_alu y) 1 OR gate (s2_wb_mdu y) 1 OR gate (s2_wb_npc y) 1 OR gate (s2_wb_cry y) 1 OR
       gate (s2_wb_lsu y) 2 OR gate (s2_wb_csr y) 3)"

definition n_csr_wr :: "u32 \<Rightarrow> bool" where "n_csr_wr i \<longleftrightarrow> s2_csr_wr i \<or> s2_csr_set i \<or> s2_csr_clr i"

definition wdata_csr :: "u32 \<Rightarrow> bool" where
  "wdata_csr i \<longleftrightarrow> s2_csr_rd i \<or> n_csr_wr i \<or> s2_csr_set i \<or> s2_csr_clr i"

definition n_s3_wdata :: "(128 word \<Rightarrow> int \<Rightarrow> bool) \<Rightarrow> exec_in \<Rightarrow> exec \<Rightarrow> u64" where
  "n_s3_wdata sel x s =
     (let y = x_dec x in
      gate (s2_wb_lsu y) (alu_add_out y) OR gate (s2_wb_alu y) (alu_result sel (ex_alu_in y)) OR
      gate (s2_wb_mdu y) (mdu_rd (ex_mdu_in (x_resetn x) False y) (ex_mdu s)) OR
      gate (s2_wb_npc y) (dec_npc y) OR
      gate (s2_wb_cry y) (cry_rd (ex_cry_in (x_resetn x) y) (ex_aes s)) OR
      gate (wdata_csr (d_instr y)) (d_rs1_data y))"

definition n_s3_ls :: "(128 word \<Rightarrow> int \<Rightarrow> bool) \<Rightarrow> exec_in \<Rightarrow> exec \<Rightarrow> lsu_wb" where
  "n_s3_ls sel x s =
     (let y = x_dec x; i = d_instr y in
      \<lparr>s3_load = s2_lsu_load y, s3_store = s2_lsu_store y, s3_byte = s2_lsu_byte i, s3_half = s2_lsu_half i,
       s3_word = s2_lsu_word i, s3_sext = s2_lsu_sext i, s3_wdata = n_s3_wdata sel x s,
       s3_trap = n_s3_trap x, s3_rd = n_s3_rd_field x,
       p_lsu_req = (dmem_req (ex_lsu_in False x) (ex_lsu s) \<and> x_gnt x)\<rparr>)"

definition n_s3 :: "(128 word \<Rightarrow> int \<Rightarrow> bool) \<Rightarrow> exec_in \<Rightarrow> exec \<Rightarrow> s3" where
  "n_s3 sel x s =
     (let y = x_dec x; i = d_instr y in
      \<lparr>s3_full = n_s3_full x s, s3_pc = d_pc y, s3_ls = n_s3_ls sel x s,
       s3_csr_rd = (\<not> n_s3_trap x \<and> s2_csr_rd i), s3_csr_wr = (\<not> n_s3_trap x \<and> n_csr_wr i),
       s3_csr_set = (\<not> n_s3_trap x \<and> s2_csr_set i), s3_csr_clr = (\<not> n_s3_trap x \<and> s2_csr_clr i),
       s3_csr_addr = s2_csr_addr i, s3_cfu_op = new_op (ex_cfu_in x), s3_wb_op = n_s3_wb_op y\<rparr>)"

section \<open>Clock edge\<close>

text \<open>
  Whether a gated clock (\<open>core_clock_ctrl.sv\<close>, \<open>prim_clock_gate.sv\<close>) ticks: always without gating,
  otherwise when it is requested or in test mode. The multiply/divide unit is behind one, and asks for it only
  while an instruction for it is decoded, not in reset.
\<close>

definition clock_on :: "bool \<Rightarrow> bool \<Rightarrow> bool \<Rightarrow> bool" where
  "clock_on gate_en test_en req \<longleftrightarrow> \<not> gate_en \<or> req \<or> test_en"

definition exec_step :: "exec_in \<Rightarrow> exec \<Rightarrow> exec" where
  "exec_step x s =
     (let y = x_dec x; new = ex_new_instr x s;
          m = ex_mdu_in (x_resetn x) (new \<and> ex_mdu_valid (d_instr y)) y in
      \<lparr>cf_change_done = cfu_step (x_resetn x) new (ex_cfu_in x) (x_cf_ack x) (cf_change_done s),
       ex_lsu = lsu_step (x_resetn x) (ex_lsu_in new x) (x_gnt x) (ex_lsu s),
       ex_mdu = (if clock_on (x_gate_en x) (x_test_en x) (mdu_clk_req m) then mdu_step m (ex_mdu s) else ex_mdu s),
       ex_aes = cry_step (ex_cry_in (x_resetn x) y) (ex_aes s)\<rparr>)"

end
