(* ===== verification/Core.thy ===== *)
theory Core
  imports Execute Fetch
begin

text \<open>
  The core as \<open>rtl/core/core_top.sv\<close> joins its parts: the fetch stage, the decoder and the execute stage,
  the writeback stage with the control registers, and the register file (\<open>core_regfile.sv\<close>) with the
  forwarding of a result from writeback to the operands of the next instruction. One step is one clock.
\<close>

section \<open>Register file and forwarding\<close>

type_synonym regs = "5 word \<Rightarrow> u64"

definition gpr_read :: "regs \<Rightarrow> 5 word \<Rightarrow> u64" where
  "gpr_read r a = (if a = 0 then 0 else r a)"

definition regfile_step :: "bool \<Rightarrow> 5 word \<Rightarrow> u64 \<Rightarrow> regs \<Rightarrow> regs" where
  "regfile_step rd_wen rd_addr rd_wdata r =
     (\<lambda>i. if rd_wen \<and> rd_addr = i \<and> i \<noteq> 0 then rd_wdata else r i)"

definition fwd_rs :: "bool \<Rightarrow> 5 word \<Rightarrow> 5 word \<Rightarrow> bool" where
  "fwd_rs en rd rs \<longleftrightarrow> en \<and> rd \<noteq> 0 \<and> rd = rs"

definition s1_rs_data :: "bool \<Rightarrow> 5 word \<Rightarrow> u64 \<Rightarrow> regs \<Rightarrow> 5 word \<Rightarrow> u64" where
  "s1_rs_data en rd wdata r rs = (if fwd_rs en rd rs then wdata else gpr_read r rs)"

section \<open>State and inputs\<close>

record core_pipe =
  co_fetch :: fetch
  co_exec :: exec
  co_hart :: hart
  co_gpr :: regs

text \<open>Whether clocks are gated, the clock test enable, the two memory ports, the interrupt lines and the counters.\<close>

record core_in =
  k_gate_en :: bool
  k_test_en :: bool
  k_resetn :: bool
  k_imem_gnt :: bool
  k_imem_err :: bool
  k_imem_rdata :: u64
  k_dmem_gnt :: bool
  k_dmem_err :: bool
  k_dmem_rdata :: u64
  k_int :: int_in
  k_ctr :: csr_ext

section \<open>Wires between the stages\<close>

text \<open>
  Each part sees its inputs in an order in which none depends on a later one: what fetch acknowledges and
  what writeback asks for do not depend on the execute stage.
\<close>

definition core_fetch_pre :: "core_in \<Rightarrow> fetch_in" where
  "core_fetch_pre k =
     \<lparr>f_resetn = k_resetn k, cf_valid = False, cf_target = 0, imem_gnt = k_imem_gnt k, imem_err = k_imem_err k,
      imem_rdata = k_imem_rdata k, s2_ready = False\<rparr>"

definition core_cf_ack :: "core_in \<Rightarrow> core_pipe \<Rightarrow> bool" where
  "core_cf_ack k c = f_cf_ack (core_fetch_pre k) (co_fetch c)"

definition core_pc :: "core_pipe \<Rightarrow> u64" where "core_pc c = ucast (s2_pc_reg (co_fetch c))"

definition core_hart_pre :: "core_in \<Rightarrow> core_pipe \<Rightarrow> hart_in" where
  "core_hart_pre k c =
     \<lparr>h_resetn = k_resetn k, s3_valid = False, s3_next = h_s3 (co_hart c), s3_n_pc = core_pc c,
      cf_ack = core_cf_ack k c, h_int = k_int k, dmem_req_w = False, dmem_gnt_w = k_dmem_gnt k,
      dmem_err_w = k_dmem_err k, dmem_rdata_w = k_dmem_rdata k, h_ctr = k_ctr k\<rparr>"

definition core_operand :: "core_in \<Rightarrow> core_pipe \<Rightarrow> 5 word \<Rightarrow> u64" where
  "core_operand k c =
     (let x = core_hart_pre k c; h = co_hart c in
      s1_rs_data (s3_fwd_rd_wen h) (s3_rd (s3_ls (h_s3 h))) (s3_rd_wdata x h) (co_gpr c))"

definition core_dec_in :: "core_in \<Rightarrow> core_pipe \<Rightarrow> dec_in" where
  "core_dec_in k c =
     (let f = co_fetch c;
          y = \<lparr>d_instr = s1_instr f, d_i16 = s1_i16bit f, d_i32 = s1_i32bit f, d_ferr = s1_ferr f, d_pc = core_pc c,
               d_rs1_data = 0, d_rs2_data = 0\<rparr>
      in y\<lparr>d_rs1_data := core_operand k c (s1_rs1_addr y), d_rs2_data := core_operand k c (s1_rs2_addr y)\<rparr>)"

definition core_exec_in :: "core_in \<Rightarrow> core_pipe \<Rightarrow> exec_in" where
  "core_exec_in k c =
     (let x = core_hart_pre k c; h = co_hart c in
      \<lparr>x_gate_en = k_gate_en k, x_test_en = k_test_en k, x_resetn = k_resetn k, x_flush = (s3_cf_valid x h \<and> cf_ack x), x_cancel = s3_cf_valid x h,
       x_wfi_sleep = wfi_sleep x h, x_dec = core_dec_in k c, x_cf_ack = cf_ack x, x_gnt = k_dmem_gnt k,
       x_mprv_m = mstatus_mprv_m (h_csrs h), x_mprv_u = mstatus_mprv_u (h_csrs h), x_s3_ready = s3_ready x h,
       x_s3_trap = s3_trap (s3_ls (h_s3 h))\<rparr>)"

definition core_hart_in :: "(128 word \<Rightarrow> int \<Rightarrow> bool) \<Rightarrow> core_in \<Rightarrow> core_pipe \<Rightarrow> hart_in" where
  "core_hart_in sel k c =
     (let x = core_exec_in k c; s = co_exec c in
      (core_hart_pre k c)\<lparr>s3_valid := ex_s3_valid x s, s3_next := n_s3 sel x s,
        dmem_req_w := dmem_req (ex_lsu_in False x) (ex_lsu s)\<rparr>)"

definition core_cf_valid :: "core_in \<Rightarrow> core_pipe \<Rightarrow> bool" where
  "core_cf_valid k c \<longleftrightarrow>
     cfu_cf_valid (ex_cfu_in (core_exec_in k c)) (cf_change_done (co_exec c)) \<or>
     s3_cf_valid (core_hart_pre k c) (co_hart c)"

definition core_cf_target :: "core_in \<Rightarrow> core_pipe \<Rightarrow> u64" where
  "core_cf_target k c =
     (if s3_cf_valid (core_hart_pre k c) (co_hart c) then s3_cf_target (core_hart_pre k c) (co_hart c)
      else target_addr (ex_cfu_in (core_exec_in k c)))"

definition core_fetch_in :: "core_in \<Rightarrow> core_pipe \<Rightarrow> fetch_in" where
  "core_fetch_in k c =
     (core_fetch_pre k)\<lparr>cf_valid := core_cf_valid k c, cf_target := core_cf_target k c,
        s2_ready := ex_s2_ready (core_exec_in k c) (co_exec c)\<rparr>"

section \<open>Clock edge\<close>

definition core_step :: "(128 word \<Rightarrow> int \<Rightarrow> bool) \<Rightarrow> maddr \<Rightarrow> core_in \<Rightarrow> core_pipe \<Rightarrow> core_pipe" where
  "core_step sel pc0 k c =
     (let x = core_hart_in sel k c; h = co_hart c in
      \<lparr>co_fetch = fetch_step pc0 (core_fetch_in k c) (co_fetch c),
       co_exec = exec_step (core_exec_in k c) (co_exec c),
       co_hart = hart_step x h,
       co_gpr =
         (if clock_on (k_gate_en k) (k_test_en k) (s3_rd_wen x h)
          then regfile_step (s3_rd_wen x h) (s3_rd (s3_ls (h_s3 h))) (s3_rd_wdata x h) (co_gpr c) else co_gpr c)\<rparr>)"

text \<open>Gating the clock of the register file changes nothing: it is asked for by every write.\<close>

lemma regfile_gate [simp]:
  "(if clock_on g t w then regfile_step w a v r else r) = regfile_step w a v r"
  by (auto simp: clock_on_def regfile_step_def)

end
