(* ===== verification/Isa.thy ===== *)
theory Isa
  imports Execute
begin

text \<open>
  The instructions of the base set, multiplication and bit manipulation as data, their 32-bit
  encodings, and what the decoder makes of an encoding. That a decoder wire is low is proved from a
  wire that is high: two wires whose masks and values conflict cannot both be high.
\<close>

section \<open>Encodings\<close>

text \<open>Every 32-bit format from the fields of the I format; offsets are in halfwords.\<close>

definition i_type :: "12 word \<Rightarrow> 5 word \<Rightarrow> 3 word \<Rightarrow> 5 word \<Rightarrow> 7 word \<Rightarrow> u32" where
  "i_type imm rs1 f3 rd opc =
     push_bit 20 (ucast imm) OR push_bit 15 (ucast rs1) OR push_bit 12 (ucast f3) OR
     push_bit 7 (ucast rd) OR ucast opc"

definition r_type :: "7 word \<Rightarrow> 5 word \<Rightarrow> 5 word \<Rightarrow> 3 word \<Rightarrow> 5 word \<Rightarrow> 7 word \<Rightarrow> u32" where
  "r_type f7 rs2 rs1 f3 rd opc = i_type (word_cat f7 rs2) rs1 f3 rd opc"

definition sh_type :: "6 word \<Rightarrow> 6 word \<Rightarrow> 5 word \<Rightarrow> 3 word \<Rightarrow> 5 word \<Rightarrow> 7 word \<Rightarrow> u32" where
  "sh_type f6 sh rs1 f3 rd opc = i_type (word_cat f6 sh) rs1 f3 rd opc"

definition s_type :: "12 word \<Rightarrow> 5 word \<Rightarrow> 5 word \<Rightarrow> 3 word \<Rightarrow> 7 word \<Rightarrow> u32" where
  "s_type imm rs2 rs1 f3 opc =
     r_type (ucast (drop_bit 5 imm)) rs2 rs1 f3 (ucast imm) opc"

definition b_type :: "12 word \<Rightarrow> 5 word \<Rightarrow> 5 word \<Rightarrow> 3 word \<Rightarrow> 7 word \<Rightarrow> u32" where
  "b_type off rs2 rs1 f3 opc =
     r_type (of_bits (\<lambda>k. bit off (if k = 6 then 11 else k + 4))) rs2 rs1 f3
       (of_bits (\<lambda>k. bit off (if k = 0 then 10 else k - 1))) opc"

definition u_type :: "20 word \<Rightarrow> 5 word \<Rightarrow> 7 word \<Rightarrow> u32" where
  "u_type imm rd opc = push_bit 12 (ucast imm) OR push_bit 7 (ucast rd) OR ucast opc"

definition j_type :: "20 word \<Rightarrow> 5 word \<Rightarrow> 7 word \<Rightarrow> u32" where
  "j_type off rd opc =
     u_type (of_bits (\<lambda>k. bit off (if k = 19 then 19 else if 9 \<le> k then k - 9
       else if k = 8 then 10 else k + 11))) rd opc"

lemma bit_u_type:
  "bit (u_type imm rd opc) n \<longleftrightarrow>
     (if n < 7 then bit opc n else if n < 12 then bit rd (n - 7) else n < 32 \<and> bit imm (n - 12))"
  by (auto simp: u_type_def bit_simps dest: bit_imp_le_length)

lemma bit_i_type:
  "bit (i_type imm rs1 f3 rd opc) n \<longleftrightarrow>
     (if n < 7 then bit opc n else if n < 12 then bit rd (n - 7) else if n < 15 then bit f3 (n - 12)
      else if n < 20 then bit rs1 (n - 15) else n < 32 \<and> bit imm (n - 20))"
  by (auto simp: i_type_def bit_simps dest: bit_imp_le_length)

text \<open>What is known of a word: the bits of a mask. A test of other bits is decided when its mask is covered
  or its value conflicts.\<close>

definition known :: "u32 \<Rightarrow> u32 \<Rightarrow> u32 \<Rightarrow> bool" where "known i m v \<longleftrightarrow> i AND m = v"

lemma known_conflict: "known i m v \<Longrightarrow> v AND n \<noteq> w AND m \<Longrightarrow> (i AND n = w) = False"
  by (auto simp: known_def ac_simps)

lemma known_covers: "known i m v \<Longrightarrow> m AND n = n \<Longrightarrow> (i AND n = w) = (v AND n = w)"
  by (auto simp: known_def and.assoc)

lemma i_type_mask:
  "i_type imm rs1 f3 rd opc AND 0x7f = ucast opc"
  "i_type imm rs1 f3 rd opc AND 0x707f = push_bit 12 (ucast f3) OR ucast opc"
proof -
  have c: "bit (0x7f :: u32) n \<longleftrightarrow> n < 7" "bit (0x707f :: u32) n \<longleftrightarrow> n < 7 \<or> 12 \<le> n \<and> n < 15" if "n < 32" for n
  proof -
    have "n \<in> set [0..<32]" using that by simp
    then show "bit (0x7f :: u32) n \<longleftrightarrow> n < 7" "bit (0x707f :: u32) n \<longleftrightarrow> n < 7 \<or> 12 \<le> n \<and> n < 15"
      by (auto simp: upt_rec)
  qed
  show "i_type imm rs1 f3 rd opc AND 0x7f = ucast opc"
    "i_type imm rs1 f3 rd opc AND 0x707f = push_bit 12 (ucast f3) OR ucast opc"
    by (rule bit_word_eqI; auto simp: bit_and_iff bit_or_iff bit_push_bit_iff bit_ucast_iff bit_i_type c
        simp del: bit_numeral_word_iff dest: bit_imp_le_length)+
qed


lemma less_32_split: "n < 32 \<Longrightarrow> n \<in> set [0..<32]"
  by simp

text \<open>The constants of the masks of the R format and the shifts: the fields below \<open>rs1\<close> are the same.\<close>

lemma r_type_mask:
  "r_type f7 rs2 rs1 f3 rd opc AND 0xfe00707f =
     push_bit 25 (ucast f7) OR push_bit 12 (ucast f3) OR ucast opc"
proof -
  have c: "bit (0xfe00707f :: u32) n \<longleftrightarrow> n < 7 \<or> 12 \<le> n \<and> n < 15 \<or> 25 \<le> n" if "n < 32" for n
    using less_32_split [OF that] by (auto simp: upt_rec)
  show ?thesis
    by (rule bit_word_eqI; auto simp: r_type_def bit_and_iff bit_or_iff bit_push_bit_iff bit_ucast_iff
        bit_i_type bit_word_cat_iff c simp del: bit_numeral_word_iff dest: bit_imp_le_length)
qed

lemma sh_type_mask:
  "sh_type f6 sh rs1 f3 rd opc AND 0xfc00707f =
     push_bit 26 (ucast f6) OR push_bit 12 (ucast f3) OR ucast opc"
  "\<not> bit sh 5 \<Longrightarrow> sh_type f6 sh rs1 f3 rd opc AND 0xfe00707f =
     push_bit 26 (ucast f6) OR push_bit 12 (ucast f3) OR ucast opc"
proof -
  have c: "bit (0xfc00707f :: u32) n \<longleftrightarrow> n < 7 \<or> 12 \<le> n \<and> n < 15 \<or> 26 \<le> n"
    "bit (0xfe00707f :: u32) n \<longleftrightarrow> n < 7 \<or> 12 \<le> n \<and> n < 15 \<or> 25 \<le> n" if "n < 32" for n
    using less_32_split [OF that] by (auto simp: upt_rec)
  show "sh_type f6 sh rs1 f3 rd opc AND 0xfc00707f =
      push_bit 26 (ucast f6) OR push_bit 12 (ucast f3) OR ucast opc"
    by (rule bit_word_eqI; auto simp: sh_type_def bit_and_iff bit_or_iff bit_push_bit_iff bit_ucast_iff
        bit_i_type bit_word_cat_iff c simp del: bit_numeral_word_iff dest: bit_imp_le_length)
  assume s: "\<not> bit sh 5"
  have five: "25 \<le> n \<Longrightarrow> n < 26 \<Longrightarrow> n = 25" for n :: nat by simp
  show "sh_type f6 sh rs1 f3 rd opc AND 0xfe00707f =
      push_bit 26 (ucast f6) OR push_bit 12 (ucast f3) OR ucast opc"
  proof (rule bit_word_eqI)
    fix n assume n: "n < LENGTH(32)"
    show "bit (sh_type f6 sh rs1 f3 rd opc AND 0xfe00707f) n =
        bit (push_bit 26 (ucast f6) OR push_bit 12 (ucast f3) OR ucast opc :: u32) n"
      using n s by (cases "n = 25"; auto simp: sh_type_def bit_and_iff bit_or_iff bit_push_bit_iff bit_ucast_iff
          bit_i_type bit_word_cat_iff c simp del: bit_numeral_word_iff dest: bit_imp_le_length)
  qed
qed

lemma bit_field:
  "bit (field hi lo i :: 'a::len word) n \<longleftrightarrow> n < LENGTH('a) \<and> n < Suc hi - lo \<and> bit i (lo + n)"
  by (auto simp: field_def bit_ucast_iff bit_take_bit_iff bit_drop_bit_eq)

lemma i_type_fields:
  "dec_rd (i_type imm rs1 f3 rd opc) = rd" "dec_rs1 (i_type imm rs1 f3 rd opc) = rs1"
  "field 31 20 (i_type imm rs1 f3 rd opc) = imm"
  "dec_rs2 (r_type f7 rs2 rs1 f3 rd opc) = rs2"
  "dec_shamt (sh_type f6 sh rs1 f3 rd opc) = sh"
  by (rule bit_word_eqI; auto simp: dec_rd_def dec_rs1_def dec_rs2_def dec_shamt_def bit_field bit_i_type
      r_type_def sh_type_def bit_word_cat_iff dest: bit_imp_le_length)+

lemma r_fields:
  "dec_rd (r_type f7 rs2 rs1 f3 rd opc) = rd" "dec_rs1 (r_type f7 rs2 rs1 f3 rd opc) = rs1"
  "dec_rs2 (r_type f7 rs2 rs1 f3 rd opc) = rs2"
  by (simp_all add: i_type_fields) (simp_all add: r_type_def i_type_fields)

lemma sh_fields:
  "dec_rd (sh_type f6 sh rs1 f3 rd opc) = rd" "dec_rs1 (sh_type f6 sh rs1 f3 rd opc) = rs1"
  "dec_shamt (sh_type f6 sh rs1 f3 rd opc) = sh"
  by (simp_all add: i_type_fields) (simp_all add: sh_type_def i_type_fields)


lemma u_type_mask: "u_type imm rd opc AND 0x7f = ucast opc"
proof -
  have c: "bit (0x7f :: u32) n \<longleftrightarrow> n < 7" if "n < 32" for n
    using less_32_split [OF that] by (auto simp: upt_rec)
  show ?thesis
    by (rule bit_word_eqI; auto simp: bit_and_iff bit_ucast_iff bit_u_type c
        simp del: bit_numeral_word_iff dest: bit_imp_le_length)
qed

lemma sb_type_mask:
  "s_type imm rs2 rs1 f3 opc AND 0x707f = push_bit 12 (ucast f3) OR ucast opc"
  "b_type imm rs2 rs1 f3 opc AND 0x707f = push_bit 12 (ucast f3) OR ucast opc"
  "j_type off rd opc AND 0x7f = ucast opc"
  by (simp_all add: s_type_def b_type_def r_type_def j_type_def i_type_mask u_type_mask)

lemma sb_fields:
  "dec_rs1 (s_type imm rs2 rs1 f3 opc) = rs1" "dec_rs2 (s_type imm rs2 rs1 f3 opc) = rs2"
  "dec_rs1 (b_type off rs2 rs1 f3 opc) = rs1" "dec_rs2 (b_type off rs2 rs1 f3 opc) = rs2"
  by (simp_all add: s_type_def b_type_def r_fields)

lemma u_fields: "dec_rd (u_type imm rd opc) = rd" "dec_rd (j_type off rd opc) = rd"
  by (rule bit_word_eqI; auto simp: dec_rd_def bit_field bit_u_type j_type_def dest: bit_imp_le_length)+

section \<open>Immediates\<close>

lemma bit_cat_bits:
  "bit (cat_bits bs :: 'a::len word) n \<longleftrightarrow> n < LENGTH('a) \<and> n < length bs \<and> rev bs ! n"
  by (simp add: cat_bits_def bit_horner_sum_bit_word_iff)

lemma length_bits_of [simp]: "length (bits_of hi lo i) = Suc hi - lo"
  by (simp add: bits_of_def del: upt_Suc)

lemma rev_bits_of_nth: "n < Suc hi - lo \<Longrightarrow> rev (bits_of hi lo i) ! n = bit i (lo + n)"
  by (simp add: bits_of_def rev_map del: upt_Suc)

lemmas cat_nth = bit_cat_bits nth_append rev_bits_of_nth

lemma bit_sext_imm: "bit (sext_imm w) n \<longleftrightarrow> n < 64 \<and> bit w (if n < 32 then n else 31)"
  by (auto simp: sext_imm_def bit_simps dest: bit_imp_le_length)

lemma bit_zext_imm: "bit (zext_imm w) n \<longleftrightarrow> n < 32 \<and> bit w n"
  by (auto simp: zext_imm_def bit_simps dest: bit_imp_le_length)

lemma bit_scast_12: "bit (scast (imm :: 12 word) :: u64) n \<longleftrightarrow> n < 64 \<and> bit imm (if n < 11 then n else 11)"
  by (auto simp: bit_signed_iff min_def)

lemma bit_scast_20: "bit (scast (imm :: 20 word) :: u64) n \<longleftrightarrow> n < 64 \<and> bit imm (if n < 19 then n else 19)"
  by (auto simp: bit_signed_iff min_def)

lemma word32_cases:
  assumes "n < 32"
  shows "n \<in> {0, 1, 2, 3, 4, 5, 6, 7, 8, 9, 10, 11, 12, 13, 14, 15, 16, 17, 18, 19, 20, 21, 22, 23,
     24, 25, 26, 27, 28, 29, 30, 31 :: nat}"
  using assms unfolding insert_iff empty_iff by presburger

lemma imm32_words:
  assumes "n < 32"
  shows "bit (imm32_i i) n = bit i (if n < 11 then n + 20 else 31)"
    "bit (imm32_s i) n = bit i (if n < 5 then n + 7 else if n < 11 then n + 20 else 31)"
    "bit (imm32_b i) n = (n \<noteq> 0 \<and> bit i (if n < 5 then n + 7 else if n < 11 then n + 20 else if n = 11 then 7
        else 31))"
    "bit (imm32_u i) n = (12 \<le> n \<and> bit i n)"
    "bit (imm32_j i) n = (n \<noteq> 0 \<and> bit i (if n < 11 then n + 20 else if n = 11 then 20 else if n < 20 then n else 31))"
  using word32_cases [OF assms]
  by (elim insertE emptyE; hypsubst; simp add: imm32_i_def imm32_s_def imm32_b_def imm32_u_def imm32_j_def
      cat_nth numeral_2_eq_2 [symmetric])+

lemma bit_hi5_imm: "bit (s_type imm rs2 rs1 f3 opc) n =
    (if n < 7 then bit opc n else if n < 12 then bit imm (n - 7) else if n < 15 then bit f3 (n - 12)
     else if n < 20 then bit rs1 (n - 15) else if n < 25 then bit rs2 (n - 20) else n < 32 \<and> bit imm (n - 20))"
  by (auto simp: s_type_def r_type_def bit_i_type bit_word_cat_iff bit_ucast_iff bit_drop_bit_eq
      dest: bit_imp_le_length)

lemma imm_i: "sext_imm (imm32_i (i_type imm rs1 f3 rd opc)) = scast imm"
  by (rule bit_word_eqI; auto simp: bit_sext_imm bit_scast_12 imm32_words bit_i_type)

lemma imm_s: "sext_imm (imm32_s (s_type imm rs2 rs1 f3 opc)) = scast imm"
  by (rule bit_word_eqI; auto simp: bit_sext_imm bit_scast_12 imm32_words bit_hi5_imm)

lemma bit_double: "bit (w * 2 :: 'a::len word) n \<longleftrightarrow> n < LENGTH('a) \<and> n \<noteq> 0 \<and> bit w (n - 1)"
  using bit_push_bit_iff [of 1 w n] by (auto simp: push_bit_eq_mult bit_imp_le_length) 

lemma bit_of_bits_word: "bit (of_bits p :: 'a::len word) n \<longleftrightarrow> n < LENGTH('a) \<and> p n"
  by (simp add: bit_of_bits)

lemma imm_u: "sext_imm (imm32_u (u_type imm rd opc)) = push_bit 12 (scast imm)"
proof (rule bit_word_eqI)
  fix n assume "n < LENGTH(64)"
  then have n: "n < 64" by simp
  consider "n < 12" | k where "n = k + 12" "k < 19" | k where "n = k + 12" "19 \<le> k"
    by (metis le_add_diff_inverse2 not_less)
  then show "bit (sext_imm (imm32_u (u_type imm rd opc))) n = bit (push_bit 12 (scast imm) :: u64) n"
  proof cases
    case 3
    then show ?thesis using n by (cases "k = 19") (simp_all add: bit_sext_imm bit_scast_20 imm32_words
        bit_u_type bit_push_bit_iff)
  qed (use n in \<open>simp_all add: bit_sext_imm bit_scast_20 imm32_words bit_u_type bit_push_bit_iff\<close>)
qed

lemma imm_b: "sext_imm (imm32_b (b_type off rs2 rs1 f3 opc)) = push_bit 1 (scast off)"
proof (rule bit_word_eqI)
  fix n assume "n < LENGTH(64)"
  then have n: "n < 64" by simp
  consider "n = 0" | "0 < n" "n < 5" | "5 \<le> n" "n < 11" | "n = 11" | "11 < n" by linarith
  then show "bit (sext_imm (imm32_b (b_type off rs2 rs1 f3 opc))) n = bit (push_bit 1 (scast off) :: u64) n"
    by cases (use n in \<open>auto simp: bit_sext_imm bit_scast_12 imm32_words b_type_def r_type_def bit_i_type
      bit_word_cat_iff bit_double bit_of_bits_word\<close>)
qed

lemma imm_j: "sext_imm (imm32_j (j_type off rd opc)) = push_bit 1 (scast off)"
proof (rule bit_word_eqI)
  fix n assume "n < LENGTH(64)"
  then have n: "n < 64" by simp
  consider "n = 0" | "0 < n" "n < 11" | "n = 11" | "11 < n" "n < 20" | "20 \<le> n" by linarith
  then show "bit (sext_imm (imm32_j (j_type off rd opc))) n = bit (push_bit 1 (scast off) :: u64) n"
    by cases (use n in \<open>auto simp: bit_sext_imm bit_scast_20 imm32_words j_type_def bit_u_type
      bit_double bit_of_bits_word\<close>)
qed

end
