(* ===== verification/Alu_Isa.thy ===== *)
theory Alu_Isa
  imports Alu
begin

text \<open>
  The ALU computes the instruction set. Shifts and rotations are compared bit by bit: the lemma
  \<open>bit_shift_out_l\<close> says where each bit of a left shift comes from, and shows which ones are
  read from outside the vector.
\<close>

section \<open>Requests\<close>

lemma alu_request_fields [simp]:
  "alu_a (alu_request opr w a b) = a" "alu_b (alu_request opr w a b) = b"
  "alu_shamt (alu_request opr w a b) = ucast b" "alu_word (alu_request opr w a b) = w"
  "alu_add (alu_request opr w a b) = (opr = Add)" "alu_sub (alu_request opr w a b) = (opr = Sub)"
  "alu_xor (alu_request opr w a b) = (opr = Xor)" "alu_or (alu_request opr w a b) = (opr = Or)"
  "alu_and (alu_request opr w a b) = (opr = And)" "alu_slt (alu_request opr w a b) = (opr = Slt)"
  "alu_sltu (alu_request opr w a b) = (opr = Sltu)" "alu_srl (alu_request opr w a b) = (opr = Srl)"
  "alu_sll (alu_request opr w a b) = (opr = Sll)" "alu_sra (alu_request opr w a b) = (opr = Sra)"
  "alu_xorn (alu_request opr w a b) = (opr = Xnor)" "alu_andn (alu_request opr w a b) = (opr = Andn)"
  "alu_orn (alu_request opr w a b) = (opr = Orn)" "alu_ror (alu_request opr w a b) = (opr = Ror)"
  "alu_rol (alu_request opr w a b) = (opr = Rol)" "alu_pack (alu_request opr w a b) = (opr = Pack)"
  "alu_packh (alu_request opr w a b) = (opr = Packh)"
  "alu_packu (alu_request opr w a b) = (opr = Packu)"
  "alu_grev (alu_request opr w a b) = (opr = Grev)"
  "alu_gorc (alu_request opr w a b) = (opr = Gorc)"
  "alu_xpermn (alu_request opr w a b) = (opr = Xpermn)"
  "alu_xpermb (alu_request opr w a b) = (opr = Xpermb)"
  by (simp_all add: alu_request_def)

lemma alu_instr_cases:
  "alu_instr sel opr word a b =
     (case opr of
        Add \<Rightarrow> addsub_result (alu_request Add word a b)
      | Sub \<Rightarrow> addsub_result (alu_request Sub word a b)
      | Xor \<Rightarrow> a XOR b | Or \<Rightarrow> a OR b | And \<Rightarrow> a AND b
      | Xnor \<Rightarrow> a XOR NOT b | Orn \<Rightarrow> a OR NOT b | Andn \<Rightarrow> a AND NOT b
      | Slt \<Rightarrow> slt_result (alu_request Slt word a b)
      | Sltu \<Rightarrow> slt_result (alu_request Sltu word a b)
      | Pack \<Rightarrow> pack_result (alu_request Pack word a b)
      | Packu \<Rightarrow> pack_result (alu_request Packu word a b)
      | Packh \<Rightarrow> pack_result (alu_request Packh word a b)
      | Grev \<Rightarrow> grev_result (alu_request Grev word a b)
      | Gorc \<Rightarrow> 0
      | Xpermn \<Rightarrow> xperm_n_result (alu_request Xpermn word a b)
      | Xpermb \<Rightarrow> xperm_b_result (alu_request Xpermb word a b)
      | _ \<Rightarrow> shift_result sel (alu_request opr word a b))"
  by (cases opr) (simp_all add: alu_instr_def alu_result_def bitwise_result_def opr_b_n_def
      neg_opr_b_def gorc_result_def)

section \<open>Addition, comparison, packing\<close>

lemma sext32_cat: "sext32 w = cat32 (rep (bit w 31)) (lo32 w)"
proof (rule bit_word_eqI)
  fix n assume "n < LENGTH(64)"
  moreover have "bit w n = bit w 31" if "\<not> n < 31" "n < 32"
  proof -
    have "n = 31" using that by simp
    then show ?thesis by simp
  qed
  ultimately show "bit (sext32 w) n = bit (cat32 (rep (bit w 31)) (lo32 w)) n"
    by (cases "n < 31") (auto simp: sext32_def bit_simps min_def)
qed

lemma cat32_halves: "cat32 (hi32 w) (lo32 w) = w"
  by (rule bit_word_eqI) (auto simp: bit_simps)

lemma addsub_add: "addsub_result (alu_request Add word a b) = (if word then sext32 (a + b) else a + b)"
  by (simp add: addsub_result_def addsub_output_def opr_b_n_def neg_opr_b_def sext32_cat cat32_halves)

lemma addsub_sub: "addsub_result (alu_request Sub word a b) = (if word then sext32 (a - b) else a - b)"
proof -
  have "addsub_output (alu_request Sub w a b) = a - b" for w
    by (simp add: addsub_output_def opr_b_n_def neg_opr_b_def not_eq_complement)
  then show ?thesis by (simp add: addsub_result_def sext32_cat cat32_halves)
qed

lemma pack_lemma:
  "pack_result (alu_request Pack False a b) = push_bit 32 b OR take_bit 32 a"
  "pack_result (alu_request Packu False a b) = push_bit 32 (drop_bit 32 b) OR drop_bit 32 a"
  "pack_result (alu_request Packh word a b) = push_bit 8 (take_bit 8 b) OR take_bit 8 a"
proof -
  show "pack_result (alu_request Pack False a b) = push_bit 32 b OR take_bit 32 a"
    by (rule bit_word_eqI) (auto simp: pack_result_def bit_simps)
  show "pack_result (alu_request Packu False a b) = push_bit 32 (drop_bit 32 b) OR drop_bit 32 a"
    by (rule bit_word_eqI) (auto simp: pack_result_def bit_simps add.commute dest: bit_imp_le_length)
  show "pack_result (alu_request Packh word a b) = push_bit 8 (take_bit 8 b) OR take_bit 8 a"
    by (simp add: pack_result_def and_255)
qed

section \<open>Permutations\<close>

lemma bit_rev_bits [bit_simps]: "bit (rev_bits_in_byte i) k \<longleftrightarrow> k < 8 \<and> bit i (7 - k)"
  by (simp add: rev_bits_in_byte_def bit_simps)

lemma bit_nibble [bit_simps]: "bit (nibble w n) k \<longleftrightarrow> k < 4 \<and> bit w (4 * n + k)"
  by (auto simp: nibble_def bit_simps)

lemma nibble_index: "unat (nibble b n) = unat (take_bit 4 (drop_bit (4 * n) b))"
  by (simp add: nibble_def unsigned_ucast_eq unsigned_take_bit_eq)

lemma byte_index: "unat (byte_of b n) = unat (take_bit 8 (drop_bit (8 * n) b))"
  by (simp add: byte_of_def unsigned_ucast_eq unsigned_take_bit_eq)

lemma xperm_n_lemma: "xperm_n_result (alu_request Xpermn word a b) = isa_xperm 4 a b"
  unfolding isa_xperm_def xperm_n_result_def
  by (rule bit_word_eqI) (simp add: bit_simps xperm_n_lut_def nibble_index)

text \<open>A byte index of eight or more selects no byte, on both sides.\<close>

lemma byte_lookup:
  fixes i :: u8
  shows "bit (if drop_bit 3 i \<noteq> 0 then 0 else byte_of a (unat (take_bit 3 i))) j \<longleftrightarrow>
    j < 8 \<and> bit a (8 * unat i + j)"
proof (cases "drop_bit 3 i = 0")
  case True
  then have "take_bit 3 i = i" using bits_ident [of 3 i] by simp
  then show ?thesis using True by (simp add: bit_byte_of)
next
  case False
  have "unat (drop_bit 3 i) = unat i div 8" 
    unfolding unat_drop_bit_eq by (simp add: drop_bit_eq_div)
  moreover have "unat (drop_bit 3 i) \<noteq> 0" using False by (simp add: unsigned_eq_0_iff)
  ultimately have "64 \<le> 8 * unat i + j" by linarith
  then have "\<not> bit a (8 * unat i + j)" using bit_imp_le_length [of a "8 * unat i + j"] by fastforce
  then show ?thesis using False by simp
qed

lemma xperm_b_lemma: "xperm_b_result (alu_request Xpermb word a b) = isa_xperm 8 a b"
proof (rule bit_word_eqI)
  fix n assume "n < LENGTH(64)"
  then have n: "n < 64" "n div 8 < 8" "n mod 8 < 8" by auto
  let ?i = "byte_of b (n div 8)"
  have "bit (xperm_b_result (alu_request Xpermb word a b)) n \<longleftrightarrow>
      bit (if drop_bit 3 ?i \<noteq> 0 then 0 else byte_of a (unat (take_bit 3 ?i))) (n mod 8)"
    using n by (simp add: xperm_b_result_def bit_or_bytes xperm_b_lut_def Let_def)
  also have "\<dots> \<longleftrightarrow> bit a (8 * unat ?i + n mod 8)"
    unfolding byte_lookup using n by simp
  also have "\<dots> \<longleftrightarrow> bit (isa_xperm 8 a b) n"
    unfolding byte_index using n by (simp add: isa_xperm_def bit_of_bits)
  finally show "bit (xperm_b_result (alu_request Xpermb word a b)) n = bit (isa_xperm 8 a b) n" .
qed

text \<open>The three permutations of the generalised reverse that the unit implements.\<close>

lemma grev_index:
  assumes "n < 64"
  shows "unat (of_nat n XOR of_nat 7 :: 6 word) = 8 * (n div 8) + (7 - n mod 8)"
    and "unat (of_nat n XOR of_nat 56 :: 6 word) = 8 * ([7, 6, 5, 4, 3, 2, 1, 0] ! (n div 8)) + n mod 8"
    and "unat (of_nat n XOR of_nat 24 :: 6 word) = 8 * ([3, 2, 1, 0, 7, 6, 5, 4] ! (n div 8)) + n mod 8"
proof -
  have "\<forall>n\<in>set [0..<64]. unat (of_nat n XOR of_nat 7 :: 6 word) = 8 * (n div 8) + (7 - n mod 8) \<and>
      unat (of_nat n XOR of_nat 56 :: 6 word) = 8 * ([7, 6, 5, 4, 3, 2, 1, 0] ! (n div 8)) + n mod 8 \<and>
      unat (of_nat n XOR of_nat 24 :: 6 word) = 8 * ([3, 2, 1, 0, 7, 6, 5, 4] ! (n div 8)) + n mod 8"
    by code_simp
  then show "unat (of_nat n XOR of_nat 7 :: 6 word) = 8 * (n div 8) + (7 - n mod 8)"
    "unat (of_nat n XOR of_nat 56 :: 6 word) = 8 * ([7, 6, 5, 4, 3, 2, 1, 0] ! (n div 8)) + n mod 8"
    "unat (of_nat n XOR of_nat 24 :: 6 word) = 8 * ([3, 2, 1, 0, 7, 6, 5, 4] ! (n div 8)) + n mod 8"
    using assms by simp_all
qed

lemma grev_lemma:
  "grev_7 a = isa_grev 7 a" "grev_56 a = isa_grev 56 a" "grev_24 a = isa_grev 24 a"
proof -
  have m: "n mod 8 < 8" "n div 8 < 8" "7 - n mod 8 < 8" if "n < 64" for n :: nat
    using that by auto
  show "grev_7 a = isa_grev 7 a"
    unfolding grev_7_def isa_grev_def
    by (rule bit_word_eqI)
      (simp add: bit_or_bytes bit_of_bits bit_rev_bits bit_byte_of m grev_index(1) del: of_nat_numeral)
  show "grev_56 a = isa_grev 56 a"
    unfolding grev_56_def isa_grev_def
    by (rule bit_word_eqI)
      (simp add: bit_or_bytes bit_of_bits bit_byte_of m grev_index(2) del: of_nat_numeral)
  show "grev_24 a = isa_grev 24 a"
    unfolding grev_24_def isa_grev_def
    by (rule bit_word_eqI)
      (simp add: bit_or_bytes bit_of_bits bit_byte_of m grev_index(3) del: of_nat_numeral)
qed

section \<open>Shifts and rotations\<close>

definition sel_wraps :: "(128 word \<Rightarrow> int \<Rightarrow> bool) \<Rightarrow> bool" where
  "sel_wraps sel \<longleftrightarrow> (\<forall>w k. - 64 \<le> k \<longrightarrow> k < 0 \<longrightarrow> sel w k = bit w (nat (k + 128)))"

lemma shift_amnt_request:
  "shift_amnt (alu_request opr word a b) = unat (take_bit (if word then 5 else 6) b)"
proof -
  have low: "unat (take_bit 5 (ucast b :: 6 word)) = take_bit 5 (unat b)"
    by (simp add: unsigned_take_bit_eq unsigned_ucast_eq)
  have "take_bit 6 (unat b) = take_bit 5 (unat b) + (if bit b 5 then 32 else 0)"
    using take_bit_Suc_from_most [of 5 "unat b"] by (simp add: bit_unsigned_iff)
  then show ?thesis
    unfolding shift_amnt_def alu_request_fields low by (simp add: unsigned_take_bit_eq bit_simps)
qed

lemma shift_amnt_less: "shift_amnt (alu_request opr word a b) < (if word then 32 else 64)"
  unfolding shift_amnt_request unsigned_take_bit_eq
  using take_bit_nat_less_exp [of 5 "unat b"] take_bit_nat_less_exp [of 6 "unat b"] by simp

lemma bit_shift_out_r [bit_simps]:
  "\<not> sh_left x \<Longrightarrow> bit (shift_out_r sel x) i \<longleftrightarrow> bit (shift_in_r x) (shift_amnt x + i)"
  by (simp add: shift_out_r_def shift_in_def bit_simps)

text \<open>Below the shift amount a left shift reads bits outside the vector.\<close>

lemma bit_shift_in_l:
  "bit (shift_in_l sel x) k \<longleftrightarrow>
    k < 128 \<and> (if k \<le> 63 then bit (shift_in_r x) (63 - k) else sel (shift_in_r x) (63 - int k))"
proof (cases "k \<le> 63")
  case True
  then have "nat (63 - int k) = 63 - k" by simp
  with True show ?thesis by (simp add: shift_in_l_def select_def bit_simps)
qed (simp add: shift_in_l_def select_def bit_simps)

lemma bit_shift_out_l:
  assumes "sh_left x" "i < 64" "shift_amnt x < 64"
  shows "bit (shift_out_l sel x) i \<longleftrightarrow>
    (if shift_amnt x \<le> i then bit (shift_in_r x) (i - shift_amnt x)
     else sel (shift_in_r x) (int i - int (shift_amnt x)))"
proof -
  let ?n = "shift_amnt x"
  have "nat (63 - int i) = 63 - i" using assms(2) by simp
  then have "bit (shift_out_l sel x) i \<longleftrightarrow> bit (shift_in_l sel x) (?n + (63 - i))"
    using assms by (simp add: shift_out_l_def shift_out_r_def shift_in_def select_def bit_simps)
  also have "\<dots> \<longleftrightarrow> (if ?n \<le> i then bit (shift_in_r x) (i - ?n)
      else sel (shift_in_r x) (int i - int ?n))"
  proof (cases "?n \<le> i")
    case True
    then have "?n + (63 - i) \<le> 63" "63 - (?n + (63 - i)) = i - ?n" using assms by simp_all
    moreover from this(1) have "?n + (63 - i) < 128" by simp
    ultimately show ?thesis using True by (simp only: bit_shift_in_l if_True simp_thms)
  next
    case False
    then have "\<not> ?n + (63 - i) \<le> 63" "?n + (63 - i) < 128"
      "63 - int (?n + (63 - i)) = int i - int ?n" using assms by simp_all
    with False show ?thesis by (simp only: bit_shift_in_l if_False simp_thms)
  qed
  finally show ?thesis .
qed

section \<open>The operations\<close>

lemma bit_lo64 [bit_simps]: "bit (lo64 w) i \<longleftrightarrow> i < 64 \<and> bit w i"
  by (auto simp: lo64_def bit_simps)

lemma sh_request [simp]:
  "sh_left (alu_request opr w a b) \<longleftrightarrow> opr \<in> {Rol, Sll}"
  "sh_right (alu_request opr w a b) \<longleftrightarrow> opr \<in> {Ror, Srl, Sra}"
  "sh_rotate (alu_request opr w a b) \<longleftrightarrow> opr \<in> {Ror, Rol}"
  "sbit (alu_request opr w a b) \<longleftrightarrow> opr = Sra \<and> bit a (if w then 31 else 63)"
  by (auto simp: sh_left_def sh_right_def sh_rotate_def sbit_def)

lemma shift_in_r_request:
  "shift_in_r (alu_request opr w a b) =
    (if opr \<in> {Ror, Rol} then if w then cat64 0 (cat32 (lo32 a) (lo32 a)) else cat64 a a
     else if w then cat64 0 (cat32 (rep (opr = Sra \<and> bit a 31)) (lo32 a))
     else cat64 (rep (opr = Sra \<and> bit a 63)) a)"
  by (simp add: shift_in_r_def)

text \<open>Where the bits of the instruction's result come from, at any width.\<close>

lemma bit_isa_shift:
  fixes a :: "'a::len word"
  assumes "n < LENGTH('a)" "i < LENGTH('a)"
  shows "bit (isa_shift Srl n a) i \<longleftrightarrow> n + i < LENGTH('a) \<and> bit a (n + i)"
    and "bit (isa_shift Sra n a) i \<longleftrightarrow> bit a (if n + i < LENGTH('a) then n + i else LENGTH('a) - 1)"
    and "bit (isa_shift Ror n a) i \<longleftrightarrow> bit a (if n + i < LENGTH('a) then n + i else n + i - LENGTH('a))"
    and "bit (isa_shift Sll n a) i \<longleftrightarrow> n \<le> i \<and> bit a (i - n)"
    and "bit (isa_shift Rol n a) i \<longleftrightarrow> bit a (if n \<le> i then i - n else LENGTH('a) + i - n)"
proof -
  show "bit (isa_shift Srl n a) i \<longleftrightarrow> n + i < LENGTH('a) \<and> bit a (n + i)"
    by (auto simp: isa_shift_def bit_simps dest: bit_imp_le_length)
  show "bit (isa_shift Sra n a) i \<longleftrightarrow> bit a (if n + i < LENGTH('a) then n + i else LENGTH('a) - 1)"
    using assms
    by (cases "n + i < LENGTH('a)")
      (simp_all add: isa_shift_def bit_signed_drop_bit_iff le_diff_conv add.commute)
  show "bit (isa_shift Ror n a) i \<longleftrightarrow> bit a (if n + i < LENGTH('a) then n + i else n + i - LENGTH('a))"
    using assms
    by (cases "n + i < LENGTH('a)") (simp_all add: isa_shift_def bit_word_rotr_iff add.commute mod_if)
  show "bit (isa_shift Sll n a) i \<longleftrightarrow> n \<le> i \<and> bit a (i - n)"
    using assms by (auto simp: isa_shift_def bit_simps)
  have "(i + (LENGTH('a) - n)) mod LENGTH('a) = (if n \<le> i then i - n else LENGTH('a) + i - n)"
    using assms by (auto simp: mod_if)
  then show "bit (isa_shift Rol n a) i \<longleftrightarrow> bit a (if n \<le> i then i - n else LENGTH('a) + i - n)"
    using assms by (simp add: isa_shift_def bit_word_rotl_iff)
qed

lemma shift_64_lemma:
  assumes "opr \<in> {Srl, Sra, Ror, Sll, Rol}" "opr \<in> {Sll, Rol} \<Longrightarrow> sel_wraps sel"
  shows "shift_result sel (alu_request opr False a b) = isa_shift opr (unat (take_bit 6 b)) a"
proof (rule bit_word_eqI)
  fix i assume "i < LENGTH(64)"
  then have i: "i < 64" by simp
  define x n where "x = alu_request opr False a b" and "n = unat (take_bit 6 b)"
  have amnt: "shift_amnt x = n" by (simp add: x_def n_def shift_amnt_request)
  have n: "n < 64" using shift_amnt_less [of opr False a b] amnt by (simp add: x_def)
  have isa: "n < LENGTH(64)" "i < LENGTH(64)" using n i by simp_all
  have r: "bit (shift_in_r x) k \<longleftrightarrow>
      (if k < 64 then bit a k else k < 128 \<and>
        (if opr \<in> {Ror, Rol} then bit a (k - 64) else opr = Sra \<and> bit a 63))" for k
    by (auto simp: x_def shift_in_r_request bit_cat64 bit_rep dest: bit_imp_le_length)
  show "bit (shift_result sel (alu_request opr False a b)) i = bit (isa_shift opr (unat (take_bit 6 b)) a) i"
  proof (cases "opr \<in> {Sll, Rol}")
    case True
    then have res: "shift_result sel x = lo64 (shift_out_l sel x)" and "sh_left x"
      by (auto simp: x_def shift_result_def Let_def)
    have "sel (shift_in_r x) (int i - int n) \<longleftrightarrow> bit (shift_in_r x) (128 + i - n)" if "\<not> n \<le> i"
    proof -
      have "- 64 \<le> int i - int n" "int i - int n < 0" "nat (int i - int n + 128) = 128 + i - n"
        using that n i by simp_all
      then show ?thesis using assms(2) [OF True] unfolding sel_wraps_def by metis
    qed
    then have "bit (shift_result sel x) i \<longleftrightarrow>
        (if n \<le> i then bit (shift_in_r x) (i - n) else bit (shift_in_r x) (128 + i - n))"
      using bit_shift_out_l [OF \<open>sh_left x\<close> i, of sel] i n by (simp add: res bit_lo64 amnt)
    then show ?thesis
      unfolding x_def [symmetric] n_def [symmetric] r
      using True i n by (auto simp: bit_isa_shift [OF isa])
  next
    case False
    then have res: "shift_result sel x = lo64 (shift_out_r sel x)" and "\<not> sh_left x"
      using assms(1) by (auto simp: x_def shift_result_def Let_def)
    then have "bit (shift_result sel x) i \<longleftrightarrow> bit (shift_in_r x) (n + i)"
      using i by (simp add: bit_lo64 bit_shift_out_r amnt)
    then show ?thesis
      unfolding x_def [symmetric] n_def [symmetric] r
      using assms(1) False i n by (auto simp: bit_isa_shift [OF isa])
  qed
qed

lemma shift_32_lemma:
  assumes "opr \<in> {Srl, Sra, Ror, Sll, Rol}" "opr = Sll \<Longrightarrow> sel_wraps sel"
  shows "shift_result sel (alu_request opr True a b) =
    scast (isa_shift opr (unat (take_bit 5 b)) (lo32 a))"
proof (rule bit_word_eqI)
  fix i assume "i < LENGTH(64)"
  then have i: "i < 64" by simp
  define x n j where "x = alu_request opr True a b" and "n = unat (take_bit 5 b)"
    and "j = (if i < 32 then i else 31)"
  have j: "j < 32" by (simp add: j_def)
  have amnt: "shift_amnt x = n" by (simp add: x_def n_def shift_amnt_request)
  have n: "n < 32" using shift_amnt_less [of opr True a b] amnt by (simp add: x_def)
  have isa: "n < LENGTH(32)" "j < LENGTH(32)" using n j by simp_all
  have goal: "bit (scast (w :: u32) :: u64) i \<longleftrightarrow> bit w j" for w
  proof -
    have "bit w i = bit w 31" if "\<not> i < 31" "i < 32"
    proof -
      have "i = 31" using that by simp
      then show ?thesis by simp
    qed
    then show ?thesis using i by (cases "i < 31") (auto simp: j_def bit_signed_iff min_def)
  qed
  have r: "bit (shift_in_r x) k \<longleftrightarrow>
      (if k < 32 then bit a k else k < 64 \<and>
        (if opr \<in> {Ror, Rol} then bit a (k - 32) else opr = Sra \<and> bit a 31))" for k
    by (auto simp: x_def shift_in_r_request bit_cat64 bit_cat32 bit_rep bit_lo32
        dest: bit_imp_le_length)
  show "bit (shift_result sel (alu_request opr True a b)) i =
    bit (scast (isa_shift opr (unat (take_bit 5 b)) (lo32 a)) :: u64) i"
  proof (cases "opr \<in> {Sll, Rol}")
    case True
    then have "sh_left x" by (auto simp: x_def)
    have l: "bit (shift_out_l sel x) k \<longleftrightarrow>
      (if n \<le> k then bit (shift_in_r x) (k - n) else sel (shift_in_r x) (int k - int n))" if "k < 64" for k
      using bit_shift_out_l [OF \<open>sh_left x\<close> that, of sel] n by (simp add: amnt)
    show ?thesis
    proof (cases "opr = Sll")
      case True
      have "\<not> sel (shift_in_r x) (int j - int n)" if "\<not> n \<le> j"
      proof -
        have k: "- 64 \<le> int j - int n" "int j - int n < 0" "nat (int j - int n + 128) = 128 + j - n"
          using that n by simp_all
        have "sel (shift_in_r x) (int j - int n) \<longleftrightarrow> bit (shift_in_r x) (128 + j - n)"
          using assms(2) [OF True] k unfolding sel_wraps_def by metis
        moreover have "\<not> 128 + j - n < 32" "\<not> 128 + j - n < 64" using n by simp_all
        ultimately show ?thesis unfolding r by simp
      qed
      moreover have "bit (shift_result sel x) i \<longleftrightarrow> bit (shift_out_l sel x) j"
        using True i by (auto simp: x_def shift_result_def Let_def bit_cat32 bit_rep bit_lo32 bit_lo64 j_def)
      ultimately show ?thesis
        unfolding x_def [symmetric] n_def [symmetric] goal
        using True l [of j] j n by (auto simp: bit_isa_shift [OF isa] r bit_lo32)
    next
      case False
      then have "bit (shift_result sel x) i \<longleftrightarrow>
          (if i < 32 then bit (shift_out_l sel x) (i + 32) else bit (shift_out_l sel x) 31)"
        using True i by (auto simp: x_def shift_result_def Let_def bit_cat32 bit_rep bit_hi32 bit_lo64)
      moreover have "bit (isa_shift opr n (lo32 a)) j \<longleftrightarrow> bit a (if n \<le> j then j - n else 32 + j - n)"
        using bit_isa_shift(5) [OF isa, of "lo32 a"] True False j n by (auto simp: bit_lo32)
      ultimately show ?thesis
        unfolding x_def [symmetric] n_def [symmetric] goal
        using True False l [of "i + 32"] l [of 31] i n
        by (cases "i < 32"; cases "n \<le> i") (auto simp: r j_def add.commute)
    qed
  next
    case False
    then have "shift_result sel x =
        cat32 (rep (bit (lo64 (shift_out_r sel x)) 31)) (lo32 (lo64 (shift_out_r sel x)))"
      and "\<not> sh_left x"
      using assms(1) by (auto simp: x_def shift_result_def Let_def)
    then have "bit (shift_result sel x) i \<longleftrightarrow> bit (shift_in_r x) (n + j)"
      using i by (auto simp: bit_cat32 bit_rep bit_lo32 bit_lo64 bit_shift_out_r amnt j_def)
    then show ?thesis
      unfolding x_def [symmetric] n_def [symmetric] goal
      using assms(1) False j n by (auto simp: bit_isa_shift [OF isa] r bit_lo32)
  qed
qed

section \<open>The instruction set\<close>

text \<open>The requests the unit is built for: word forms, reversals, and how left shifts select.\<close>

definition alu_supported :: "alu_op \<Rightarrow> bool \<Rightarrow> u64 \<Rightarrow> bool" where
  "alu_supported opr word b \<longleftrightarrow>
     (if word then opr \<in> {Add, Sub, Srl, Sll, Sra, Ror, Rol}
      else opr \<noteq> Gorc \<and> (opr = Grev \<longrightarrow> take_bit 6 b \<in> {7, 56, 24}))"

definition reads_outside :: "alu_op \<Rightarrow> bool \<Rightarrow> bool" where
  "reads_outside opr word \<longleftrightarrow> opr = Sll \<or> opr = Rol \<and> \<not> word"

lemma grev_request:
  assumes "take_bit 6 b \<in> {7, 56, 24}"
  shows "grev_result (alu_request Grev word a b) = isa_grev (unat (take_bit 6 b)) a"
proof -
  have "(ucast b :: 6 word) = ucast (take_bit 6 b)"
    by (rule bit_word_eqI) (simp add: bit_simps)
  then show ?thesis using assms by (auto simp: grev_result_def grev_lemma)
qed

lemma alu_isa_lemma:
  assumes "alu_supported opr word b" "reads_outside opr word \<Longrightarrow> sel_wraps sel"
  shows "alu_instr sel opr word a b = isa_alu opr word a b"
proof (cases "opr \<in> {Srl, Sra, Ror, Sll, Rol}")
  case True
  show ?thesis
  proof (cases word)
    case w: True
    have "opr = Sll \<Longrightarrow> sel_wraps sel" using assms(2) by (simp add: reads_outside_def)
    from shift_32_lemma [OF True this, of a b] show ?thesis
      using True w by (auto simp: alu_instr_cases isa_alu_def)
  next
    case w: False
    have "opr \<in> {Sll, Rol} \<Longrightarrow> sel_wraps sel" using assms(2) w by (auto simp: reads_outside_def)
    from shift_64_lemma [OF True this, of a b] show ?thesis
      using True w by (auto simp: alu_instr_cases isa_alu_def)
  qed
next
  case False
  have xnor: "a XOR NOT b = NOT (a XOR b)" by (rule bit_word_eqI) (auto simp: bit_simps)
  show ?thesis
    using False assms(1)
    by (cases opr; cases word)
      (auto simp: alu_instr_cases isa_alu_def alu_supported_def addsub_add addsub_sub pack_lemma
        xperm_n_lemma xperm_b_lemma grev_request xnor slt_result_def cmp_lt_def cmp_ltu_def)
qed

end
