(* ===== verification/Isa_Dec.thy ===== *)
theory Isa_Dec
  imports Isa Alu_Isa
begin

text \<open>
  What the decoder makes of a 32-bit word. A wire of another opcode is low (\<open>wires_\<close> lemmas); the wires of
  one opcode compare a masked word with a constant, which \<open>rk\<close>, \<open>ik\<close>, \<open>sk\<close> and \<open>hk\<close> read as a number. \<open>instr\<close>
  is the instruction set as data with its encoding; the last section decodes the ALU instructions.
\<close>

section \<open>Decoding\<close>

lemmas dec_defs =
  dec_beq_def dec_bne_def dec_blt_def dec_bge_def dec_bltu_def dec_bgeu_def dec_jalr_def dec_jal_def
  dec_lui_def dec_auipc_def dec_addi_def dec_slli_def dec_slti_def dec_sltiu_def dec_xori_def
  dec_srli_def dec_srai_def dec_ori_def dec_andi_def dec_add_def dec_sub_def dec_sll_def dec_slt_def
  dec_sltu_def dec_xor_def dec_srl_def dec_sra_def dec_or_def dec_and_def dec_addiw_def dec_slliw_def
  dec_srliw_def dec_sraiw_def dec_addw_def dec_subw_def dec_sllw_def dec_srlw_def dec_sraw_def
  dec_lb_def dec_lh_def dec_lw_def dec_ld_def dec_lbu_def dec_lhu_def dec_lwu_def dec_sb_def dec_sh_def
  dec_sw_def dec_sd_def dec_fence_def dec_fence_i_def dec_mul_def dec_mulh_def dec_mulhsu_def
  dec_mulhu_def dec_div_def dec_divu_def dec_rem_def dec_remu_def dec_mulw_def dec_divw_def
  dec_divuw_def dec_remw_def dec_remuw_def dec_andn_def dec_orn_def dec_xnor_def dec_rol_def
  dec_ror_def dec_rori_def dec_gorci_def dec_grevi_def dec_clmul_def dec_clmulh_def dec_pack_def
  dec_packu_def dec_packh_def dec_xperm_n_def dec_xperm_b_def dec_rolw_def dec_rorw_def dec_roriw_def
  dec_packw_def dec_packuw_def dec_sm4ed_def dec_sm4ks_def dec_sm3p0_def dec_sm3p1_def
  dec_sha256sum0_def dec_sha256sum1_def dec_sha256sig0_def dec_sha256sig1_def dec_aes64ks1i_def
  dec_aes64im_def dec_aes64ks2_def dec_aes64esm_def dec_aes64es_def dec_aes64dsm_def dec_aes64ds_def
  dec_sha512sum0_def dec_sha512sum1_def dec_sha512sig0_def dec_sha512sig1_def dec_ecall_def
  dec_ebreak_def dec_mret_def dec_wfi_def dec_csrrw_def dec_csrrs_def dec_csrrc_def dec_csrrwi_def
  dec_csrrsi_def dec_csrrci_def dec_c_addi4spn_def dec_c_addi16sp_def dec_c_lw_def dec_c_ld_def
  dec_c_sw_def dec_c_sd_def dec_c_addi_def dec_c_addiw_def dec_c_jalr_def dec_c_li_def dec_c_lui_def
  dec_c_srli_def dec_c_srai_def dec_c_andi_def dec_c_sub_def dec_c_xor_def dec_c_or_def dec_c_and_def
  dec_c_subw_def dec_c_addw_def dec_c_j_def dec_c_jr_def dec_c_beqz_def dec_c_bnez_def dec_c_slli_def
  dec_c_lwsp_def dec_c_ldsp_def dec_c_mv_def dec_c_add_def dec_c_swsp_def dec_c_sdsp_def
  dec_c_ebreak_def

lemmas sig_defs =
  cf_offset_cbeq_imm_def cfu_op_conditonal_def use_imm_sext_imm32_u_def use_imm_sext_imm32_i_def
  use_imm_shamt_def use_imm_c_addi_def use_imm_c_lsw_def use_imm_c_lsd_def use_imm_c_j_def
  rs1_16_sp_def rs1_16_5bit_def zero_rd_def rs1_as_rd_def alu_rhs_imm_def s2_alu_add_def s2_alu_and_def
  s2_alu_or_def s2_alu_sll_def s2_alu_ror_def s2_alu_rol_def s2_alu_slt_def s2_alu_sltu_def
  s2_alu_sra_def s2_alu_srl_def s2_alu_xorn_def s2_alu_andn_def s2_alu_orn_def s2_alu_pack_def
  s2_alu_packh_def s2_alu_packu_def s2_alu_grev_def s2_alu_gorc_def s2_alu_xpermn_def s2_alu_xpermb_def
  s2_alu_sub_def s2_alu_xor_def s2_alu_word_def s2_cfu_beq_def s2_cfu_bge_def s2_cfu_bgeu_def
  s2_cfu_blt_def s2_cfu_bltu_def s2_cfu_bne_def s2_cfu_ebrk_def s2_cfu_ecall_def s2_cfu_j_def
  s2_cfu_jal_def s2_cfu_jalr_def s2_cfu_mret_def s2_cfu_wfi_def s2_lsu_byte_def s2_lsu_half_def
  s2_lsu_word_def s2_lsu_dbl_def s2_lsu_sext_def s2_mdu_mul_def s2_mdu_mulh_def s2_mdu_mulhsu_def
  s2_mdu_mulhu_def s2_mdu_clmul_def s2_mdu_clmulh_def s2_mdu_div_def s2_mdu_divu_def s2_mdu_rem_def
  s2_mdu_remu_def s2_mdu_mulw_def s2_mdu_divw_def s2_mdu_divuw_def s2_mdu_remw_def s2_mdu_remuw_def
  s2_cry_aeses_def s2_cry_aesesm_def s2_cry_aesds_def s2_cry_aesdsm_def s2_cry_aesks1_def
  s2_cry_aesks2_def s2_cry_aesimix_def s2_cry_sha256sig0_def s2_cry_sha256sig1_def
  s2_cry_sha256sum0_def s2_cry_sha256sum1_def s2_cry_sha512sig0_def s2_cry_sha512sig1_def
  s2_cry_sha512sum0_def s2_cry_sha512sum1_def s2_cry_sm4_ed_def s2_cry_sm4_ks_def s2_cry_sm3_p0_def
  s2_cry_sm3_p1_def s2_csr_set_def s2_csr_clr_def s2_csr_rd_def s2_csr_wr_def major_op_load_def
  major_op_store_def major_op_branch_def major_op_imm_def

text \<open>Slices the decoder compares as masks.\<close>

lemma field_mask:
  assumes "Suc hi = LENGTH('a)" "LENGTH('a) \<le> 32"
  shows "(field hi 0 i = (v :: 'a::len word)) \<longleftrightarrow> i AND mask (Suc hi) = ucast v"
proof -
  have f: "field hi 0 i = (ucast i :: 'a word)"
    using assms by (intro bit_word_eqI) (auto simp: bit_field bit_ucast_iff)
  have g: "i AND mask (Suc hi) = ucast (ucast i :: 'a word)"
    using assms by (intro bit_word_eqI) (auto simp: bit_and_iff bit_mask_iff bit_ucast_iff dest: bit_imp_le_length)
  have undo: "ucast (ucast a :: u32) = a" for a :: "'a word"
    using assms(2) by (intro bit_word_eqI) (simp add: bit_ucast_iff)
  have "(ucast i :: 'a word) = v \<longleftrightarrow> ucast (ucast i :: 'a word) = (ucast v :: u32)"
    using undo [of "ucast i"] undo [of v] by metis
  then show ?thesis by (simp only: f g)
qed

lemma field_masks:
  "(field 1 0 i = (1 :: 2 word)) \<longleftrightarrow> i AND 3 = 1" "(field 1 0 i = (2 :: 2 word)) \<longleftrightarrow> i AND 3 = 2"
  "(field 1 0 i = (0 :: 2 word)) \<longleftrightarrow> i AND 3 = 0"
  "(field 6 0 i = (3 :: 7 word)) \<longleftrightarrow> i AND 0x7f = 3"
  "(field 6 0 i = (0x23 :: 7 word)) \<longleftrightarrow> i AND 0x7f = 0x23"
  "(field 6 0 i = (0x63 :: 7 word)) \<longleftrightarrow> i AND 0x7f = 0x63"
  "(field 6 0 i = (0x13 :: 7 word)) \<longleftrightarrow> i AND 0x7f = 0x13"
    using field_mask [of 1 i "1 :: 2 word"] field_mask [of 1 i "2 :: 2 word"] field_mask [of 1 i "0 :: 2 word"]
      field_mask [of 6 i "3 :: 7 word"]
      field_mask [of 6 i "0x23 :: 7 word"] field_mask [of 6 i "0x63 :: 7 word"] field_mask [of 6 i "0x13 :: 7 word"]
    by (simp_all add: mask_eq_exp_minus_1)

lemmas slices = field_masks field_masks [unfolded One_nat_def]


section \<open>Wires by opcode\<close>

definition major_opc :: "u32 \<Rightarrow> u32" where "major_opc i = i AND 0x7f"

lemma quad_known: "i AND 3 = 3 \<Longrightarrow> known i 3 3"
  by (simp add: known_def)

lemma not_opc: "major_opc i \<noteq> c \<Longrightarrow> w AND 0x7f = c \<Longrightarrow> m AND 0x7f = 0x7f \<Longrightarrow> (i AND m = w) = False"
  by (auto simp: major_opc_def and.assoc)

lemma opc_quad: "major_opc i = c \<Longrightarrow> c AND 3 = 3 \<Longrightarrow> i AND 3 = 3"
  using and.assoc [of i "0x7f" 3] by (auto simp: major_opc_def)

lemma wires_16:
  assumes "i AND 3 = 3"
  shows
    "\<not> dec_c_addi4spn i" "\<not> dec_c_addi16sp i" "\<not> dec_c_lw i" "\<not> dec_c_ld i"
    "\<not> dec_c_sw i" "\<not> dec_c_sd i" "\<not> dec_c_addi i" "\<not> dec_c_addiw i"
    "\<not> dec_c_jalr i" "\<not> dec_c_li i" "\<not> dec_c_lui i" "\<not> dec_c_srli i"
    "\<not> dec_c_srai i" "\<not> dec_c_andi i" "\<not> dec_c_sub i" "\<not> dec_c_xor i"
    "\<not> dec_c_or i" "\<not> dec_c_and i" "\<not> dec_c_subw i" "\<not> dec_c_addw i"
    "\<not> dec_c_j i" "\<not> dec_c_jr i" "\<not> dec_c_beqz i" "\<not> dec_c_bnez i"
    "\<not> dec_c_slli i" "\<not> dec_c_lwsp i" "\<not> dec_c_ldsp i" "\<not> dec_c_mv i"
    "\<not> dec_c_add i" "\<not> dec_c_swsp i" "\<not> dec_c_sdsp i" "\<not> dec_c_ebreak i"
  by (simp_all add: dec_defs slices known_conflict [OF quad_known [OF assms]])

lemma wires_03:
  assumes "major_opc i \<noteq> 0x3"
  shows
    "\<not> dec_lb i" "\<not> dec_lh i" "\<not> dec_lw i" "\<not> dec_ld i" "\<not> dec_lbu i"
    "\<not> dec_lhu i" "\<not> dec_lwu i"
  by (simp_all add: dec_defs not_opc [OF assms])

lemma wires_0f:
  assumes "major_opc i \<noteq> 0xf"
  shows
    "\<not> dec_fence i" "\<not> dec_fence_i i"
  by (simp_all add: dec_defs not_opc [OF assms])

lemma wires_13:
  assumes "major_opc i \<noteq> 0x13"
  shows
    "\<not> dec_addi i" "\<not> dec_slli i" "\<not> dec_slti i" "\<not> dec_sltiu i"
    "\<not> dec_xori i" "\<not> dec_srli i" "\<not> dec_srai i" "\<not> dec_ori i"
    "\<not> dec_andi i" "\<not> dec_rori i" "\<not> dec_gorci i" "\<not> dec_grevi i"
    "\<not> dec_sm3p0 i" "\<not> dec_sm3p1 i" "\<not> dec_sha256sum0 i" "\<not> dec_sha256sum1 i"
    "\<not> dec_sha256sig0 i" "\<not> dec_sha256sig1 i" "\<not> dec_aes64ks1i i"
    "\<not> dec_aes64im i" "\<not> dec_sha512sum0 i" "\<not> dec_sha512sum1 i"
    "\<not> dec_sha512sig0 i" "\<not> dec_sha512sig1 i"
  by (simp_all add: dec_defs not_opc [OF assms])

lemma wires_17:
  assumes "major_opc i \<noteq> 0x17"
  shows
    "\<not> dec_auipc i"
  by (simp_all add: dec_defs not_opc [OF assms])

lemma wires_1b:
  assumes "major_opc i \<noteq> 0x1b"
  shows
    "\<not> dec_addiw i" "\<not> dec_slliw i" "\<not> dec_srliw i" "\<not> dec_sraiw i"
    "\<not> dec_roriw i"
  by (simp_all add: dec_defs not_opc [OF assms])

lemma wires_23:
  assumes "major_opc i \<noteq> 0x23"
  shows
    "\<not> dec_sb i" "\<not> dec_sh i" "\<not> dec_sw i" "\<not> dec_sd i"
  by (simp_all add: dec_defs not_opc [OF assms])

lemma wires_33:
  assumes "major_opc i \<noteq> 0x33"
  shows
    "\<not> dec_add i" "\<not> dec_sub i" "\<not> dec_sll i" "\<not> dec_slt i" "\<not> dec_sltu i"
    "\<not> dec_xor i" "\<not> dec_srl i" "\<not> dec_sra i" "\<not> dec_or i" "\<not> dec_and i"
    "\<not> dec_mul i" "\<not> dec_mulh i" "\<not> dec_mulhsu i" "\<not> dec_mulhu i"
    "\<not> dec_div i" "\<not> dec_divu i" "\<not> dec_rem i" "\<not> dec_remu i"
    "\<not> dec_andn i" "\<not> dec_orn i" "\<not> dec_xnor i" "\<not> dec_rol i"
    "\<not> dec_ror i" "\<not> dec_clmul i" "\<not> dec_clmulh i" "\<not> dec_pack i"
    "\<not> dec_packu i" "\<not> dec_packh i" "\<not> dec_xperm_n i" "\<not> dec_xperm_b i"
    "\<not> dec_sm4ed i" "\<not> dec_sm4ks i" "\<not> dec_aes64ks2 i" "\<not> dec_aes64esm i"
    "\<not> dec_aes64es i" "\<not> dec_aes64dsm i" "\<not> dec_aes64ds i"
  by (simp_all add: dec_defs not_opc [OF assms])

lemma wires_37:
  assumes "major_opc i \<noteq> 0x37"
  shows
    "\<not> dec_lui i"
  by (simp_all add: dec_defs not_opc [OF assms])

lemma wires_3b:
  assumes "major_opc i \<noteq> 0x3b"
  shows
    "\<not> dec_addw i" "\<not> dec_subw i" "\<not> dec_sllw i" "\<not> dec_srlw i"
    "\<not> dec_sraw i" "\<not> dec_mulw i" "\<not> dec_divw i" "\<not> dec_divuw i"
    "\<not> dec_remw i" "\<not> dec_remuw i" "\<not> dec_rolw i" "\<not> dec_rorw i"
    "\<not> dec_packw i" "\<not> dec_packuw i"
  by (simp_all add: dec_defs not_opc [OF assms])

lemma wires_63:
  assumes "major_opc i \<noteq> 0x63"
  shows
    "\<not> dec_beq i" "\<not> dec_bne i" "\<not> dec_blt i" "\<not> dec_bge i" "\<not> dec_bltu i"
    "\<not> dec_bgeu i"
  by (simp_all add: dec_defs not_opc [OF assms])

lemma wires_67:
  assumes "major_opc i \<noteq> 0x67"
  shows
    "\<not> dec_jalr i"
  by (simp_all add: dec_defs not_opc [OF assms])

lemma wires_6f:
  assumes "major_opc i \<noteq> 0x6f"
  shows
    "\<not> dec_jal i"
  by (simp_all add: dec_defs not_opc [OF assms])

lemma wires_73:
  assumes "major_opc i \<noteq> 0x73"
  shows
    "\<not> dec_ecall i" "\<not> dec_ebreak i" "\<not> dec_mret i" "\<not> dec_wfi i"
    "\<not> dec_csrrw i" "\<not> dec_csrrs i" "\<not> dec_csrrc i" "\<not> dec_csrrwi i"
    "\<not> dec_csrrsi i" "\<not> dec_csrrci i"
  by (simp_all add: dec_defs not_opc [OF assms])


lemmas wires = wires_03 wires_0f wires_13 wires_17 wires_1b wires_23 wires_33 wires_37 wires_3b wires_63
    wires_67 wires_6f wires_73

lemma field_opc:
  "(field 6 0 i = (3 :: 7 word)) \<longleftrightarrow> major_opc i = 3"
  "(field 6 0 i = (0x23 :: 7 word)) \<longleftrightarrow> major_opc i = 0x23"
  "(field 6 0 i = (0x63 :: 7 word)) \<longleftrightarrow> major_opc i = 0x63"
  "(field 6 0 i = (0x13 :: 7 word)) \<longleftrightarrow> major_opc i = 0x13"
  by (simp_all add: major_opc_def field_masks)

section \<open>Keys\<close>

text \<open>What the decoder tests of a word of one opcode, as a number, which is faster to compare.\<close>

lemma word_eq_unat: "(i AND m = (w :: u32)) \<longleftrightarrow> unat (i AND m) = unat w"
  by (rule word_unat_eq_iff)

definition rk :: "u32 \<Rightarrow> nat" where "rk i = unat (i AND 0xfe00707f)"

lemma rk_wires:
  shows
    "dec_add i \<longleftrightarrow> rk i = 0x33"
    "dec_sub i \<longleftrightarrow> rk i = 0x40000033"
    "dec_sll i \<longleftrightarrow> rk i = 0x1033" "dec_slt i \<longleftrightarrow> rk i = 0x2033"
    "dec_sltu i \<longleftrightarrow> rk i = 0x3033"
    "dec_xor i \<longleftrightarrow> rk i = 0x4033" "dec_srl i \<longleftrightarrow> rk i = 0x5033"
    "dec_sra i \<longleftrightarrow> rk i = 0x40005033"
    "dec_or i \<longleftrightarrow> rk i = 0x6033" "dec_and i \<longleftrightarrow> rk i = 0x7033"
    "dec_slliw i \<longleftrightarrow> rk i = 0x101b"
    "dec_srliw i \<longleftrightarrow> rk i = 0x501b"
    "dec_sraiw i \<longleftrightarrow> rk i = 0x4000501b"
    "dec_addw i \<longleftrightarrow> rk i = 0x3b"
    "dec_subw i \<longleftrightarrow> rk i = 0x4000003b"
    "dec_sllw i \<longleftrightarrow> rk i = 0x103b"
    "dec_srlw i \<longleftrightarrow> rk i = 0x503b"
    "dec_sraw i \<longleftrightarrow> rk i = 0x4000503b"
    "dec_mul i \<longleftrightarrow> rk i = 0x2000033"
    "dec_mulh i \<longleftrightarrow> rk i = 0x2001033"
    "dec_mulhsu i \<longleftrightarrow> rk i = 0x2002033"
    "dec_mulhu i \<longleftrightarrow> rk i = 0x2003033"
    "dec_div i \<longleftrightarrow> rk i = 0x2004033"
    "dec_divu i \<longleftrightarrow> rk i = 0x2005033"
    "dec_rem i \<longleftrightarrow> rk i = 0x2006033"
    "dec_remu i \<longleftrightarrow> rk i = 0x2007033"
    "dec_mulw i \<longleftrightarrow> rk i = 0x200003b"
    "dec_divw i \<longleftrightarrow> rk i = 0x200403b"
    "dec_divuw i \<longleftrightarrow> rk i = 0x200503b"
    "dec_remw i \<longleftrightarrow> rk i = 0x200603b"
    "dec_remuw i \<longleftrightarrow> rk i = 0x200703b"
    "dec_andn i \<longleftrightarrow> rk i = 0x40007033"
    "dec_orn i \<longleftrightarrow> rk i = 0x40006033"
    "dec_xnor i \<longleftrightarrow> rk i = 0x40004033"
    "dec_rol i \<longleftrightarrow> rk i = 0x60001033"
    "dec_ror i \<longleftrightarrow> rk i = 0x60005033"
    "dec_clmul i \<longleftrightarrow> rk i = 0xa001033"
    "dec_clmulh i \<longleftrightarrow> rk i = 0xa003033"
    "dec_pack i \<longleftrightarrow> rk i = 0x8004033"
    "dec_packu i \<longleftrightarrow> rk i = 0x48004033"
    "dec_packh i \<longleftrightarrow> rk i = 0x8007033"
    "dec_xperm_n i \<longleftrightarrow> rk i = 0x28002033"
    "dec_xperm_b i \<longleftrightarrow> rk i = 0x28004033"
    "dec_rolw i \<longleftrightarrow> rk i = 0x6000103b"
    "dec_rorw i \<longleftrightarrow> rk i = 0x6000503b"
    "dec_roriw i \<longleftrightarrow> rk i = 0x6000501b"
    "dec_packw i \<longleftrightarrow> rk i = 0x800403b"
    "dec_packuw i \<longleftrightarrow> rk i = 0x4800403b"
    "dec_aes64ks2 i \<longleftrightarrow> rk i = 0x7e000033"
    "dec_aes64esm i \<longleftrightarrow> rk i = 0x36000033"
    "dec_aes64es i \<longleftrightarrow> rk i = 0x32000033"
    "dec_aes64dsm i \<longleftrightarrow> rk i = 0x3e000033"
    "dec_aes64ds i \<longleftrightarrow> rk i = 0x3a000033"
  by (simp_all add: dec_defs rk_def word_eq_unat)

definition ik :: "u32 \<Rightarrow> nat" where "ik i = unat (i AND 0x707f)"

lemma ik_wires:
  shows
    "dec_beq i \<longleftrightarrow> ik i = 0x63" "dec_bne i \<longleftrightarrow> ik i = 0x1063"
    "dec_blt i \<longleftrightarrow> ik i = 0x4063" "dec_bge i \<longleftrightarrow> ik i = 0x5063"
    "dec_bltu i \<longleftrightarrow> ik i = 0x6063"
    "dec_bgeu i \<longleftrightarrow> ik i = 0x7063" "dec_jalr i \<longleftrightarrow> ik i = 0x67"
    "dec_addi i \<longleftrightarrow> ik i = 0x13" "dec_slti i \<longleftrightarrow> ik i = 0x2013"
    "dec_sltiu i \<longleftrightarrow> ik i = 0x3013"
    "dec_xori i \<longleftrightarrow> ik i = 0x4013"
    "dec_ori i \<longleftrightarrow> ik i = 0x6013"
    "dec_andi i \<longleftrightarrow> ik i = 0x7013"
    "dec_addiw i \<longleftrightarrow> ik i = 0x1b" "dec_lb i \<longleftrightarrow> ik i = 0x3"
    "dec_lh i \<longleftrightarrow> ik i = 0x1003" "dec_lw i \<longleftrightarrow> ik i = 0x2003"
    "dec_ld i \<longleftrightarrow> ik i = 0x3003" "dec_lbu i \<longleftrightarrow> ik i = 0x4003"
    "dec_lhu i \<longleftrightarrow> ik i = 0x5003" "dec_lwu i \<longleftrightarrow> ik i = 0x6003"
    "dec_sb i \<longleftrightarrow> ik i = 0x23" "dec_sh i \<longleftrightarrow> ik i = 0x1023"
    "dec_sw i \<longleftrightarrow> ik i = 0x2023" "dec_sd i \<longleftrightarrow> ik i = 0x3023"
    "dec_fence i \<longleftrightarrow> ik i = 0xf"
    "dec_fence_i i \<longleftrightarrow> ik i = 0x100f"
    "dec_csrrw i \<longleftrightarrow> ik i = 0x1073"
    "dec_csrrs i \<longleftrightarrow> ik i = 0x2073"
    "dec_csrrc i \<longleftrightarrow> ik i = 0x3073"
    "dec_csrrwi i \<longleftrightarrow> ik i = 0x5073"
    "dec_csrrsi i \<longleftrightarrow> ik i = 0x6073"
    "dec_csrrci i \<longleftrightarrow> ik i = 0x7073"
  by (simp_all add: dec_defs ik_def word_eq_unat)

definition sk :: "u32 \<Rightarrow> nat" where "sk i = unat (i AND 0xfc00707f)"

lemma sk_wires:
  shows
    "dec_slli i \<longleftrightarrow> sk i = 0x1013"
    "dec_srli i \<longleftrightarrow> sk i = 0x5013"
    "dec_srai i \<longleftrightarrow> sk i = 0x40005013"
    "dec_rori i \<longleftrightarrow> sk i = 0x60005013"
    "dec_gorci i \<longleftrightarrow> sk i = 0x28005013"
    "dec_grevi i \<longleftrightarrow> sk i = 0x68005013"
  by (simp_all add: dec_defs sk_def word_eq_unat)

definition hk :: "u32 \<Rightarrow> nat" where "hk i = unat (i AND 0xfff0707f)"

lemma hk_wires:
  shows
    "dec_sm3p0 i \<longleftrightarrow> hk i = 0x10801013"
    "dec_sm3p1 i \<longleftrightarrow> hk i = 0x10901013"
    "dec_sha256sum0 i \<longleftrightarrow> hk i = 0x10001013"
    "dec_sha256sum1 i \<longleftrightarrow> hk i = 0x10101013"
    "dec_sha256sig0 i \<longleftrightarrow> hk i = 0x10201013"
    "dec_sha256sig1 i \<longleftrightarrow> hk i = 0x10301013"
    "dec_aes64im i \<longleftrightarrow> hk i = 0x30001013"
    "dec_sha512sum0 i \<longleftrightarrow> hk i = 0x10401013"
    "dec_sha512sum1 i \<longleftrightarrow> hk i = 0x10501013"
    "dec_sha512sig0 i \<longleftrightarrow> hk i = 0x10601013"
    "dec_sha512sig1 i \<longleftrightarrow> hk i = 0x10701013"
  by (simp_all add: dec_defs hk_def word_eq_unat)

lemma masked_key: "unat (i AND m) \<noteq> k \<Longrightarrow> n AND m = m \<Longrightarrow> unat (w AND m) = k \<Longrightarrow> (i AND n = (w :: u32)) = False"
  by (metis and.assoc)

lemma not_ik_1:
  assumes "ik i \<noteq> 0x1013"
  shows
    "\<not> dec_slli i" "\<not> dec_sm3p0 i" "\<not> dec_sm3p1 i" "\<not> dec_sha256sum0 i"
    "\<not> dec_sha256sum1 i" "\<not> dec_sha256sig0 i" "\<not> dec_sha256sig1 i"
    "\<not> dec_aes64ks1i i" "\<not> dec_aes64im i" "\<not> dec_sha512sum0 i"
    "\<not> dec_sha512sum1 i" "\<not> dec_sha512sig0 i" "\<not> dec_sha512sig1 i"
  by (simp_all add: dec_defs masked_key [OF assms [unfolded ik_def]])

lemma not_ik_5:
  assumes "ik i \<noteq> 0x5013"
  shows
    "\<not> dec_srli i" "\<not> dec_srai i" "\<not> dec_rori i" "\<not> dec_gorci i"
    "\<not> dec_grevi i"
  by (simp_all add: dec_defs masked_key [OF assms [unfolded ik_def]])

lemmas not_ik = not_ik_1 not_ik_5

lemma not_sk_10001:
  assumes "sk i \<noteq> 0x10001013"
  shows
    "\<not> dec_sm3p0 i" "\<not> dec_sm3p1 i" "\<not> dec_sha256sum0 i" "\<not> dec_sha256sum1 i"
    "\<not> dec_sha256sig0 i" "\<not> dec_sha256sig1 i" "\<not> dec_sha512sum0 i"
    "\<not> dec_sha512sum1 i" "\<not> dec_sha512sig0 i" "\<not> dec_sha512sig1 i"
  by (simp_all add: dec_defs masked_key [OF assms [unfolded sk_def]])

lemma not_sk_30001:
  assumes "sk i \<noteq> 0x30001013"
  shows
    "\<not> dec_aes64ks1i i" "\<not> dec_aes64im i"
  by (simp_all add: dec_defs masked_key [OF assms [unfolded sk_def]])

lemmas not_sk = not_sk_10001 not_sk_30001

section \<open>Instructions\<close>

datatype branch = BEQ | BNE | BLT | BGE | BLTU | BGEU

datatype instr =
    IOp alu_op bool "5 word" "5 word" "5 word"
  | IOpImm alu_op bool "5 word" "5 word" "12 word"
  | IShift alu_op bool "5 word" "5 word" "6 word"
  | ILui "5 word" "20 word"
  | IAuipc "5 word" "20 word"
  | IJal "5 word" "20 word"
  | IJalr "5 word" "5 word" "12 word"
  | IBranch branch "5 word" "5 word" "12 word"
  | ILoad nat bool "5 word" "5 word" "12 word"
  | IStore nat "5 word" "5 word" "12 word"
  | IMdu mdu_op bool "5 word" "5 word" "5 word"

fun op_funct :: "alu_op \<Rightarrow> 7 word \<times> 3 word" where
  "op_funct Add = (0, 0)" | "op_funct Sub = (0x20, 0)" | "op_funct Sll = (0, 1)" | "op_funct Slt = (0, 2)"
| "op_funct Sltu = (0, 3)" | "op_funct Xor = (0, 4)" | "op_funct Srl = (0, 5)" | "op_funct Sra = (0x20, 5)"
| "op_funct Or = (0, 6)" | "op_funct And = (0, 7)" | "op_funct Xnor = (0x20, 4)" | "op_funct Orn = (0x20, 6)"
| "op_funct Andn = (0x20, 7)" | "op_funct Ror = (0x30, 5)" | "op_funct Rol = (0x30, 1)"
| "op_funct Pack = (4, 4)" | "op_funct Packh = (4, 7)" | "op_funct Packu = (0x24, 4)"
| "op_funct Xpermn = (0x14, 2)" | "op_funct Xpermb = (0x14, 4)" | "op_funct Grev = (0x34, 5)"
| "op_funct Gorc = (0x14, 5)"

fun mdu_funct :: "mdu_op \<Rightarrow> 7 word \<times> 3 word" where
  "mdu_funct MUL = (1, 0)" | "mdu_funct MULH = (1, 1)" | "mdu_funct MULHSU = (1, 2)" | "mdu_funct MULHU = (1, 3)"
| "mdu_funct DIV = (1, 4)" | "mdu_funct DIVU = (1, 5)" | "mdu_funct REM = (1, 6)" | "mdu_funct REMU = (1, 7)"
| "mdu_funct CLMUL = (5, 1)" | "mdu_funct CLMULH = (5, 3)"

fun br_funct :: "branch \<Rightarrow> 3 word" where
  "br_funct BEQ = 0" | "br_funct BNE = 1" | "br_funct BLT = 4" | "br_funct BGE = 5" | "br_funct BLTU = 6"
| "br_funct BGEU = 7"

text \<open>The width field of an access of 1, 2, 4 or 8 bytes; unsigned loads set its highest bit.\<close>

definition width_funct :: "nat \<Rightarrow> 3 word" where
  "width_funct n = (if n = 1 then 0 else if n = 2 then 1 else if n = 4 then 2 else 3)"

fun encode :: "instr \<Rightarrow> u32" where
  "encode (IOp opr w rd rs1 rs2) =
     r_type (fst (op_funct opr)) rs2 rs1 (snd (op_funct opr)) rd (if w then 0x3b else 0x33)"
| "encode (IOpImm opr w rd rs1 imm) = i_type imm rs1 (snd (op_funct opr)) rd (if w then 0x1b else 0x13)"
| "encode (IShift opr w rd rs1 sh) =
     sh_type (ucast (drop_bit 1 (fst (op_funct opr)))) sh rs1 (snd (op_funct opr)) rd (if w then 0x1b else 0x13)"
| "encode (ILui rd imm) = u_type imm rd 0x37"
| "encode (IAuipc rd imm) = u_type imm rd 0x17"
| "encode (IJal rd off) = j_type off rd 0x6f"
| "encode (IJalr rd rs1 imm) = i_type imm rs1 0 rd 0x67"
| "encode (IBranch c rs1 rs2 off) = b_type off rs2 rs1 (br_funct c) 0x63"
| "encode (ILoad n sx rd rs1 imm) = i_type imm rs1 (width_funct n OR (if sx then 0 else 4)) rd 0x03"
| "encode (IStore n rs1 rs2 imm) = s_type imm rs2 rs1 (width_funct n) 0x23"
| "encode (IMdu opr w rd rs1 rs2) =
     r_type (fst (mdu_funct opr)) rs2 rs1 (snd (mdu_funct opr)) rd (if w then 0x3b else 0x33)"

text \<open>The combinations that are instructions and that the ALU supports.\<close>

fun instr_ok :: "instr \<Rightarrow> bool" where
  "instr_ok (IOp opr w rd rs1 rs2) \<longleftrightarrow>
     (if w then opr \<in> {Add, Sub, Srl, Sll, Sra, Ror, Rol} else opr \<noteq> Grev \<and> opr \<noteq> Gorc)"
| "instr_ok (IOpImm opr w rd rs1 imm) \<longleftrightarrow> opr = Add \<or> \<not> w \<and> opr \<in> {Slt, Sltu, Xor, Or, And}"
| "instr_ok (IShift opr w rd rs1 sh) \<longleftrightarrow>
     opr \<in> {Srl, Sll, Sra, Ror} \<and> (w \<longrightarrow> \<not> bit sh 5) \<or> \<not> w \<and> opr = Grev \<and> sh \<in> {7, 24, 56}"
| "instr_ok (ILoad n sx rd rs1 imm) \<longleftrightarrow> n \<in> {1, 2, 4} \<or> n = 8 \<and> sx"
| "instr_ok (IStore n rs1 rs2 imm) \<longleftrightarrow> n \<in> {1, 2, 4, 8}"
| "instr_ok (IMdu opr w rd rs1 rs2) \<longleftrightarrow> (w \<longrightarrow> opr \<in> {MUL, DIV, DIVU, REM, REMU})"
| "instr_ok _ \<longleftrightarrow> True"

text \<open>What the fetch stage offers: a word without an access error.\<close>

definition fetched :: "dec_in \<Rightarrow> u32 \<Rightarrow> bool" where
  "fetched y i \<longleftrightarrow> d_instr y = i \<and> d_i32 y \<and> \<not> d_i16 y \<and> d_ferr y = 0"

lemma fetched_instr: "fetched y i \<Longrightarrow> d_instr y = i" "fetched y i \<Longrightarrow> \<not> d_i16 y"
  by (simp_all add: fetched_def)

section \<open>Opcodes and function fields of an encoding\<close>

definition r_const :: "7 word \<Rightarrow> 3 word \<Rightarrow> 7 word \<Rightarrow> u32" where
  "r_const f7 f3 opc = push_bit 25 (ucast f7) OR push_bit 12 (ucast f3) OR ucast opc"

lemma r_known: "known (r_type f7 rs2 rs1 f3 rd opc) 0xfe00707f (r_const f7 f3 opc)"
  by (simp add: known_def r_type_mask r_const_def)

lemma r_opc: "major_opc (r_type f7 rs2 rs1 f3 rd opc) = ucast opc"
  by (simp add: major_opc_def r_type_def i_type_mask)

lemma i_known: "known (i_type imm rs1 f3 rd opc) 0x707f (push_bit 12 (ucast f3) OR ucast opc)"
  by (simp add: known_def i_type_mask)

lemma i_opc: "major_opc (i_type imm rs1 f3 rd opc) = ucast opc"
  by (simp add: major_opc_def i_type_mask)

lemma sh_known: "known (sh_type f6 sh rs1 f3 rd opc) 0xfc00707f (push_bit 26 (ucast f6) OR push_bit 12 (ucast
    f3) OR ucast opc)"
  "\<not> bit sh 5 \<Longrightarrow> known (sh_type f6 sh rs1 f3 rd opc) 0xfe00707f (push_bit 26 (ucast f6) OR push_bit 12 (ucast f3)
      OR ucast opc)"
  by (simp_all add: known_def sh_type_mask)

lemma sh_opc: "major_opc (sh_type f6 sh rs1 f3 rd opc) = ucast opc"
  by (simp add: major_opc_def sh_type_def i_type_mask)

lemma u_opc: "major_opc (u_type imm rd opc) = ucast opc"
proof -
  have m: "(0x7f :: u32) = mask 7" by (simp add: mask_eq_exp_minus_1)
  have b: "bit (0x7f :: u32) n \<longleftrightarrow> n < 7" for n
    unfolding m by (auto simp add: bit_mask_iff)
  show ?thesis
    by (intro bit_word_eqI) (auto simp: major_opc_def bit_and_iff bit_u_type bit_ucast_iff b simp del:
        bit_numeral_word_iff
      dest: bit_imp_le_length)
qed

lemma u_fields_rd: "dec_rd (u_type imm rd opc) = rd"
  by (rule bit_word_eqI) (auto simp: dec_rd_def bit_field bit_u_type dest: bit_imp_le_length)

lemma i_fields:
  "dec_rd (i_type imm rs1 f3 rd opc) = rd" "dec_rs1 (i_type imm rs1 f3 rd opc) = rs1"
  by (simp_all add: i_type_fields)

lemmas unit_defs = ex_alu_in_def s2_alu_lhs_def s2_alu_rhs_def s2_alu_shamt_def ex_mdu_valid_def
  ex_cry_valid_def cfu_op_any_def wdata_csr_def n_csr_wr_def s2_lsu_load_def s2_lsu_store_def
lemmas opcode_simps = unit_defs sig_defs wires wires_16 field_opc

section \<open>ALU instructions\<close>

text \<open>A decoded word that drives the ALU and no other unit.\<close>

definition alu_only :: "dec_in \<Rightarrow> bool" where
  "alu_only y \<longleftrightarrow>
     (let i = d_instr y in
      \<not> ex_mdu_valid i \<and> \<not> ex_cry_valid i \<and> \<not> cfu_op_any i \<and> \<not> wdata_csr i \<and>
      \<not> s2_lsu_load y \<and> \<not> s2_lsu_store y \<and> \<not> zero_rd i \<and> \<not> rs1_as_rd i \<and> \<not> cfu_op_conditonal i \<and> \<not>
          dec_invalid_opcode i)"

lemma rk_known: "known i 0xfe00707f v \<Longrightarrow> rk i = unat v"
  by (simp add: known_def rk_def)

lemma ik_known: "known i 0x707f v \<Longrightarrow> ik i = unat v"
  by (simp add: known_def ik_def)

lemma sk_known: "known i 0xfc00707f v \<Longrightarrow> sk i = unat v"
  by (simp add: known_def sk_def)

lemmas alu_unit_defs = opcode_simps alu_request_def alu_only_def dec_invalid_opcode_def


lemma op_33:
  assumes "major_opc i = 0x33" "known i 0xfe00707f (r_const (fst (op_funct opr)) (snd (op_funct opr)) 0x33)"
    "opr \<noteq> Grev \<and> opr \<noteq> Gorc" "d_instr y = i"
  shows "ex_alu_in y = alu_request opr False (d_rs1_data y) (d_rs2_data y) \<and> alu_only y"
  using opc_quad [OF assms(1)] assms rk_known [OF assms(2)]
  by (simp add: alu_unit_defs;
      cases opr; simp add: rk_wires dec_sm4ed_def dec_sm4ks_def known_conflict r_const_def)

lemma op_3b:
  assumes "major_opc i = 0x3b" "known i 0xfe00707f (r_const (fst (op_funct opr)) (snd (op_funct opr)) 0x3b)"
    "opr \<in> {Add, Sub, Srl, Sll, Sra, Ror, Rol}" "d_instr y = i"
  shows "ex_alu_in y = alu_request opr True (d_rs1_data y) (d_rs2_data y) \<and> alu_only y"
  using opc_quad [OF assms(1)] assms rk_known [OF assms(2)]
  by (simp add: alu_unit_defs;
      elim disjE; simp add: rk_wires r_const_def)

lemma hk_known: "known i 0xfff0707f v \<Longrightarrow> hk i = unat v"
  by (simp add: known_def hk_def)

lemma sk_ik: "known i 0xfc00707f v \<Longrightarrow> ik i = unat (v AND 0x707f)"
  by (auto simp: known_def ik_def and.assoc)

lemma imm_13:
  assumes "major_opc i = 0x13" "known i 0x707f (push_bit 12 (ucast (snd (op_funct opr))) OR 0x13)"
    "opr \<in> {Add, Slt, Sltu, Xor, Or, And}" "d_instr y = i"
  shows "ex_alu_in y = (alu_request opr False (d_rs1_data y) (sext_imm (imm32_i i)))\<lparr>alu_shamt := ucast
      (d_rs2_data y)\<rparr> \<and>
    alu_only y"
  using opc_quad [OF assms(1)] assms ik_known [OF assms(2)]
  by (simp add: alu_unit_defs s2_imm_def;
      elim disjE; simp add: ik_wires not_ik)

lemma imm_1b:
  assumes "major_opc i = 0x1b" "known i 0x707f 0x1b" "d_instr y = i"
  shows "ex_alu_in y = (alu_request Add True (d_rs1_data y) (sext_imm (imm32_i i)))\<lparr>alu_shamt := ucast
      (d_rs2_data y)\<rparr> \<and>
    alu_only y"
  using opc_quad [OF assms(1)] assms ik_known [OF assms(2)]
  by (simp add: alu_unit_defs s2_imm_def ik_wires; simp add: dec_defs known_conflict)

lemma ucast_shamt [simp]: "ucast (ucast (sh :: 6 word) :: u64) = sh"
  by (rule bit_word_eqI) (simp add: bit_ucast_iff)

lemma sh_13:
  assumes "major_opc i = 0x13" "known i 0xfc00707f (push_bit 26 (ucast (drop_bit 1 (fst (op_funct opr)))) OR
      push_bit 12 (ucast (snd (op_funct opr))) OR 0x13)"
    "opr \<in> {Srl, Sll, Sra, Ror, Grev}" "d_instr y = i" "\<not> d_i16 y"
  shows "ex_alu_in y = (alu_request opr False (d_rs1_data y) (ucast (dec_shamt i)))\<lparr>alu_b := d_rs2_data y\<rparr> \<and>
    alu_only y"
  using opc_quad [OF assms(1)] assms sk_known [OF assms(2)] sk_ik [OF assms(2)]
  by (simp add: alu_unit_defs imm_shamt_def;
      elim disjE; simp add: sk_wires ik_wires not_sk)

lemma sh_1b:
  assumes "major_opc i = 0x1b" "known i 0xfe00707f (push_bit 26 (ucast (drop_bit 1 (fst (op_funct opr)))) OR
      push_bit 12 (ucast (snd (op_funct opr))) OR 0x1b)"
    "opr \<in> {Srl, Sll, Sra, Ror}" "d_instr y = i" "\<not> d_i16 y"
  shows "ex_alu_in y = (alu_request opr True (d_rs1_data y) (ucast (dec_shamt i)))\<lparr>alu_b := d_rs2_data y\<rparr> \<and>
    alu_only y"
  using opc_quad [OF assms(1)] assms rk_known [OF assms(2)]
  by (simp add: alu_unit_defs imm_shamt_def;
      elim disjE; simp add: rk_wires; simp add: dec_addiw_def known_conflict)

lemma op_lui:
  assumes "major_opc i = 0x37" "d_instr y = i"
  shows "ex_alu_in y = (alu_request Or False 0 (sext_imm (imm32_u i)))\<lparr>alu_shamt := ucast (d_rs2_data y)\<rparr> \<and>
      alu_only y"
  using opc_quad [OF assms(1)] assms
  by (simp add: alu_unit_defs s2_imm_def dec_lui_def flip: major_opc_def)

lemma op_auipc:
  assumes "major_opc i = 0x17" "d_instr y = i"
  shows "ex_alu_in y = (alu_request Add False (d_pc y) (sext_imm (imm32_u i)))\<lparr>alu_shamt := ucast (d_rs2_data
      y)\<rparr> \<and> alu_only y"
  using opc_quad [OF assms(1)] assms
  by (simp add: alu_unit_defs s2_imm_def dec_auipc_def flip: major_opc_def)

end
