(* ===== verification/Crypto_Aes.thy ===== *)
theory Crypto_Aes
  imports Crypto
begin

text \<open>
  The AES part of the cryptography unit against the byte transformations of the standard: each
  instruction in its one or two cycles, and the transformations against their inverses.
\<close>

section \<open>Columns and their bytes\<close>

lemma bit_cbyte: "bit (cbyte c i) n \<longleftrightarrow> n < 8 \<and> bit c (8 * i + n)"
  by (auto simp: cbyte_def bit_ucast_iff bit_drop_bit_eq)

lemma cbyte_col_of: "i < 4 \<Longrightarrow> cbyte (col_of f) i = f i"
proof (rule byte_eqI)
  fix n :: nat assume "i < 4" "n < 8"
  moreover from this have "(8 * i + n) div 8 = i" "(8 * i + n) mod 8 = n" "8 * i + n < 32" by auto
  ultimately show "bit (cbyte (col_of f) i) n = bit (f i) n"
    by (simp add: bit_cbyte col_of_def bit_or_bytes)
qed

lemma col_eqI: "(\<And>i. i < 4 \<Longrightarrow> cbyte c i = cbyte d i) \<Longrightarrow> c = (d :: u32)"
proof (rule bit_word_eqI)
  fix n assume eq: "\<And>i. i < 4 \<Longrightarrow> cbyte c i = cbyte d i" and "n < LENGTH(32)"
  then have "cbyte c (n div 8) = cbyte d (n div 8)" by simp
  then have "bit (cbyte c (n div 8)) (n mod 8) = bit (cbyte d (n div 8)) (n mod 8)" by simp
  then show "bit c n = bit d n" by (simp add: bit_cbyte)
qed

lemma byte_of_cat:
  assumes "i < 8"
  shows "byte_of (word_cat (h :: u32) (l :: u32)) i = (if i < 4 then cbyte l i else cbyte h (i - 4))"
proof -
  have "i \<in> {0, 1, 2, 3, 4, 5, 6, 7}" using assms by auto
  then show ?thesis by (intro byte_eqI) (auto simp: bit_byte_of bit_cbyte bit_word_cat_iff)
qed

lemma cbyte_halves:
  "i < 4 \<Longrightarrow> cbyte (low32 w) i = byte_of w i" "i < 4 \<Longrightarrow> cbyte (high32 w) i = byte_of w (i + 4)"
  by (rule byte_eqI, auto simp: bit_byte_of bit_cbyte low32_def high32_def bit_ucast_iff bit_drop_bit_eq
      algebra_simps)+

lemma bit_col:
  assumes "n < 8"
  shows "bit c (8 * i + n) = bit (cbyte c i) n"
  using assms by (simp add: bit_cbyte)

lemma rot_index:
  fixes i n k :: nat
  assumes "i < 4" "n < 8" "k < 4"
  shows "(8 * i + n + 8 * k) mod 32 = 8 * ((i + k) mod 4) + n"
proof -
  have "(8 * m + n) mod (8 * 4) = 8 * (m mod 4) + n" for m
  proof -
    have "(8 * m + n) div 8 = m" "(8 * m + n) mod 8 = n" using assms(2) by simp_all
    then show ?thesis using mod_mult2_eq [of "8 * m + n" 8 4] by (simp only:)
  qed
  from this [of "i + k"] show ?thesis by (simp add: algebra_simps)
qed

lemma cbyte_rot:
  assumes "i < 4"
  shows "cbyte (word_rotl 8 c) i = cbyte c ((i + 3) mod 4)"
    "cbyte (word_rotl 16 c) i = cbyte c ((i + 2) mod 4)"
    "cbyte (word_rotr 8 c) i = cbyte c ((i + 1) mod 4)"
proof -
  have l: "8 * i + n < 32" if "n < 8" for n using assms that by simp
  show "cbyte (word_rotl 8 c) i = cbyte c ((i + 3) mod 4)"
    using l rot_index [OF assms, of _ 3]
    by (intro byte_eqI) (simp add: bit_col [symmetric] bit_cbyte [of "word_rotl 8 c"] bit_word_rotl_iff)
  show "cbyte (word_rotl 16 c) i = cbyte c ((i + 2) mod 4)"
    using l rot_index [OF assms, of _ 2]
    by (intro byte_eqI) (simp add: bit_col [symmetric] bit_cbyte [of "word_rotl 16 c"] bit_word_rotl_iff)
  show "cbyte (word_rotr 8 c) i = cbyte c ((i + 1) mod 4)"
    using l rot_index [OF assms, of _ 1]
    by (intro byte_eqI) (simp add: bit_col [symmetric] bit_cbyte [of "word_rotr 8 c"] bit_word_rotr_iff)
qed

lemma byte_of_join: "i < 8 \<Longrightarrow> byte_of (or_bytes f 8) i = f i"
  by (rule byte_of_or_bytes) simp_all

section \<open>The transformations of the standard\<close>

text \<open>
  A state has sixteen bytes, column by column; two registers hold two columns each. A shift sends
  byte \<open>i\<close> of the first two columns to the byte of the state it takes; a mix multiplies a
  column with a circulant matrix, given by its first row.
\<close>

definition aes_state :: "u64 \<Rightarrow> u64 \<Rightarrow> nat \<Rightarrow> u8" where
  "aes_state a b k = (if k < 8 then byte_of a k else byte_of b (k - 8))"

definition shift_enc :: "nat \<Rightarrow> nat" where
  "shift_enc i = 4 * ((i div 4 + i mod 4) mod 4) + i mod 4"

definition shift_dec :: "nat \<Rightarrow> nat" where
  "shift_dec i = 4 * ((i div 4 + 4 - i mod 4) mod 4) + i mod 4"

definition sub_shift_enc :: "u64 \<Rightarrow> u64 \<Rightarrow> u64" where
  "sub_shift_enc a b = or_bytes (\<lambda>i. aes_fwd_sbox (aes_state a b (shift_enc i))) 8"

definition sub_shift_dec :: "u64 \<Rightarrow> u64 \<Rightarrow> u64" where
  "sub_shift_dec a b = or_bytes (\<lambda>i. aes_inv_sbox (aes_state a b (shift_dec i))) 8"

definition mix_columns :: "u8 list \<Rightarrow> u64 \<Rightarrow> u64" where
  "mix_columns m w =
     or_bytes (\<lambda>i. let c = (\<lambda>j. byte_of w (4 * (i div 4) + (i + j) mod 4)) in
       gf_mul 0x1b (c 0) (m ! 0) XOR gf_mul 0x1b (c 1) (m ! 1) XOR gf_mul 0x1b (c 2) (m ! 2) XOR
       gf_mul 0x1b (c 3) (m ! 3)) 8"

definition mix_enc :: "u64 \<Rightarrow> u64" where "mix_enc = mix_columns [2, 3, 1, 1]"
definition mix_dec :: "u64 \<Rightarrow> u64" where "mix_dec = mix_columns [0xe, 0xb, 0xd, 0x9]"

definition sub_word :: "u32 \<Rightarrow> u32" where "sub_word c = col_of (\<lambda>i. aes_fwd_sbox (cbyte c i))"

datatype aes_kind = Ks1 | Ks2 | Imix | Encs | Encsm | Decs | Decsm

fun aes_isa :: "aes_kind \<Rightarrow> u64 \<Rightarrow> u64 \<Rightarrow> 4 word \<Rightarrow> u64" where
  "aes_isa Ks1 a b r =
     (let w = (if r = 0xA then sub_word (high32 a)
               else sub_word (word_rotr 8 (high32 a)) XOR ucast (rcon ! unat r))
      in word_cat w w)"
| "aes_isa Ks2 a b r =
     (let w = high32 a XOR low32 b in word_cat (w XOR high32 b) w)"
| "aes_isa Imix a b r = mix_dec a"
| "aes_isa Encs a b r = sub_shift_enc a b"
| "aes_isa Encsm a b r = mix_enc (sub_shift_enc a b)"
| "aes_isa Decs a b r = sub_shift_dec a b"
| "aes_isa Decsm a b r = mix_dec (sub_shift_dec a b)"

definition aes_request :: "aes_kind \<Rightarrow> u64 \<Rightarrow> u64 \<Rightarrow> 4 word \<Rightarrow> aes_in" where
  "aes_request k a b r =
     \<lparr>aes_resetn = True, aes_valid = True, aes_rs1 = a, aes_rs2 = b, enc_rcon = r,
      aes_op = \<lparr>op_ks1 = (k = Ks1), op_ks2 = (k = Ks2), op_imix = (k = Imix), op_encs = (k = Encs),
        op_encsm = (k = Encsm), op_decs = (k = Decs), op_decsm = (k = Decsm)\<rparr>\<rparr>"

section \<open>The parts of the unit\<close>

lemma xt2_xtime: "xt2 = xtime 0x1b"
  by (simp add: fun_eq_iff xt2_def xtime_def)

lemma gf_mul_small:
  "gf_mul 0x1b a 1 = a" "gf_mul 0x1b a 2 = xtN a 2" "gf_mul 0x1b a 3 = xtN a 3" "gf_mul 0x1b a 0x9 = xtN a 0x9"
  "gf_mul 0x1b a 0xb = xtN a 0xb" "gf_mul 0x1b a 0xd = xtN a 0xd" "gf_mul 0x1b a 0xe = xtN a 0xe"
  by (simp_all add: gf_mul_unfold xtN_def xt2_xtime Let_def bit_1_iff)

lemma aes_row_byte:
  assumes "r < 4" "j < 4"
  shows "cbyte (aes_row x r) j = aes_state (aes_rs1 x) (aes_rs2 x) (4 * (3 - j) + r)"
proof -
  have "j \<in> {0, 1, 2, 3}" using assms(2) by auto
  then show ?thesis
    using assms(1) by (auto simp: aes_row_def cbyte_col_of aes_state_def algebra_simps)
qed

lemma shiftrows_bytes:
  assumes "i < 8"
  shows "byte_of (shiftrows_enc x) i = aes_state (aes_rs1 x) (aes_rs2 x) (shift_enc i)"
    "byte_of (shiftrows_dec x) i = aes_state (aes_rs1 x) (aes_rs2 x) (shift_dec i)"
proof -
  have "i \<in> {0, 1, 2, 3, 4, 5, 6, 7}" using assms by auto
  then show "byte_of (shiftrows_enc x) i = aes_state (aes_rs1 x) (aes_rs2 x) (shift_enc i)"
    "byte_of (shiftrows_dec x) i = aes_state (aes_rs1 x) (aes_rs2 x) (shift_dec i)"
    by (auto simp: shiftrows_enc_def shiftrows_dec_def byte_of_cat aes_col_def cbyte_col_of fsh_def ish_def
        cbyte_rot aes_row_byte shift_enc_def shift_dec_def)
qed

lemma mix_byte:
  assumes "i < 8"
  shows "byte_of (word_cat (mixcolumn_enc (high32 w)) (mixcolumn_enc (low32 w))) i = byte_of (mix_enc w) i"
    "byte_of (word_cat (mixcolumn_dec (high32 w)) (mixcolumn_dec (low32 w))) i = byte_of (mix_dec w) i"
proof -
  have "i \<in> {0, 1, 2, 3, 4, 5, 6, 7}" using assms by auto
  then show
    "byte_of (word_cat (mixcolumn_enc (high32 w)) (mixcolumn_enc (low32 w))) i = byte_of (mix_enc w) i"
    "byte_of (word_cat (mixcolumn_dec (high32 w)) (mixcolumn_dec (low32 w))) i = byte_of (mix_dec w) i"
    by (auto simp: byte_of_cat mixcolumn_enc_def mixcolumn_dec_def cbyte_col_of Let_def cbyte_halves mix_enc_def
        mix_dec_def mix_columns_def byte_of_join gf_mul_small mixcolumn_byte_enc_def mixcolumn_byte_dec_def
        numeral_2_eq_2 [symmetric])
qed

lemma mix_eq:
  "word_cat (mixcolumn_enc (high32 w)) (mixcolumn_enc (low32 w)) = mix_enc w"
  "word_cat (mixcolumn_dec (high32 w)) (mixcolumn_dec (low32 w)) = mix_dec w"
  using mix_byte by (blast intro: u64_eq_bytes)+

section \<open>Instructions in the unit\<close>

lemma shifted_bytes:
  "sb_inv_in (aes_request k a b r) i = (if i < 8 then aes_state a b (shift_dec i) else sb_inv_in (aes_request k a b r) i)"
  "k \<noteq> Ks1 \<Longrightarrow> i < 8 \<Longrightarrow> sb_fwd_in (aes_request k a b r) i = aes_state a b (shift_enc i)"
  by (simp_all add: sb_inv_in_def sb_fwd_in_def shiftrows_bytes) (simp_all add: aes_request_def)

text \<open>The S-box outputs in the second cycle: all eight bytes, the lower half from the registers.\<close>

lemma second_cycle:
  assumes "\<not> sbox_hi s" "x = aes_request k a b r" "sbox_instr (aes_op x)" "t = aes_step x s"
  shows "sbox_hi t"
    "\<not> op_dec (aes_op x) \<Longrightarrow> e_sbout x t = or_bytes (\<lambda>i. aes_fwd_sbox (sb_fwd_in x i)) 8"
    "op_dec (aes_op x) \<Longrightarrow> d_sbout x t = or_bytes (\<lambda>i. aes_inv_sbox (sb_inv_in x i)) 8"
proof -
  have v: "aes_valid x" "aes_resetn x" by (simp_all add: assms(2) aes_request_def)
  show hi: "sbox_hi t"
    using assms(1,3,4) v by (simp add: aes_step_def aes_ready_def sbox_ready_def)
  have regs: "sbox_regs t ! i = (if op_dec (aes_op x) then n_sbox_inv x s i else n_sbox_fwd x s i)"
    if "i < 4" for i
    using that assms(1,3,4) v by (simp add: aes_step_def sbox_reg_ld_en_def)
  show "e_sbout x t = or_bytes (\<lambda>i. aes_fwd_sbox (sb_fwd_in x i)) 8" if "\<not> op_dec (aes_op x)"
    unfolding e_sbout_def
    by (rule or_bytes_cong [OF refl]) (use that hi assms(1) regs in \<open>simp add: n_sbox_fwd_def\<close>)
  show "d_sbout x t = or_bytes (\<lambda>i. aes_inv_sbox (sb_inv_in x i)) 8" if "op_dec (aes_op x)"
    unfolding d_sbout_def
    by (rule or_bytes_cong [OF refl]) (use that hi assms(1) regs in \<open>simp add: n_sbox_inv_def\<close>)
qed

definition two_cycles :: "aes_kind \<Rightarrow> bool" where
  "two_cycles k \<longleftrightarrow> k \<notin> {Ks2, Imix}"

lemma ks1_word:
  assumes "x = aes_request Ks1 a b r"
  shows "low32 (or_bytes (\<lambda>i. aes_fwd_sbox (sb_fwd_in x i)) 8) XOR ucast (rconst x) =
    (if r = 0xA then sub_word (high32 a)
     else sub_word (word_rotr 8 (high32 a)) XOR ucast (rcon ! unat r))"
proof -
  have x: "op_ks1 (aes_op x)" "rcon_rot x = (r \<noteq> 0xA)" "aes_rs1 x = a" "enc_rcon x = r"
    by (simp_all add: assms aes_request_def rcon_rot_def)
  have "low32 (or_bytes (\<lambda>i. aes_fwd_sbox (sb_fwd_in x i)) 8) =
      (if r = 0xA then sub_word (high32 a) else sub_word (word_rotr 8 (high32 a)))"
  proof (rule col_eqI)
    fix i :: nat assume "i < 4"
    then have "i \<in> {0, 1, 2, 3}" by auto
    then show "cbyte (low32 (or_bytes (\<lambda>i. aes_fwd_sbox (sb_fwd_in x i)) 8)) i =
        cbyte (if r = 0xA then sub_word (high32 a) else sub_word (word_rotr 8 (high32 a))) i"
      by (auto simp: cbyte_halves byte_of_join sb_fwd_in_def x ks1_sb_def sub_word_def cbyte_col_of cbyte_rot
          numeral_2_eq_2 [symmetric])
  qed
  then show ?thesis by (simp add: rconst_def x)
qed

lemma aes_exact:
  assumes "\<not> sbox_hi s" "x = aes_request k a b r" "t = aes_step x s"
  shows "if two_cycles k
    then \<not> aes_ready x s \<and> aes_ready x t \<and> aes_rd x t = aes_isa k a b r \<and> \<not> sbox_hi (aes_step x t)
    else aes_ready x s \<and> aes_rd x s = aes_isa k a b r \<and> \<not> sbox_hi t"
proof -
  have x: "aes_valid x" "aes_rs1 x = a" "aes_rs2 x = b" by (simp_all add: assms(2) aes_request_def)
  note op = assms(2) aes_request_def sbox_instr_def op_dec_def op_enc_def aes_mix_def
  have si: "sbox_instr (aes_op x) = two_cycles k" by (cases k) (simp_all add: op two_cycles_def)
  show ?thesis
  proof (cases "two_cycles k")
    case True
    note sc = second_cycle [OF assms(1,2) _ assms(3), unfolded si, OF True]
    have fwd: "or_bytes (\<lambda>i. aes_fwd_sbox (sb_fwd_in x i)) 8 = sub_shift_enc a b" if "k \<noteq> Ks1"
      unfolding sub_shift_enc_def assms(2)
      by (rule or_bytes_cong [OF refl]) (simp add: shifted_bytes(2) [OF that])
    have inv: "or_bytes (\<lambda>i. aes_inv_sbox (sb_inv_in x i)) 8 = sub_shift_dec a b"
      unfolding sub_shift_dec_def assms(2) by (rule or_bytes_cong [OF refl]) (subst shifted_bytes(1), simp)
    have dec: "op_dec (aes_op x) = (k \<in> {Decs, Decsm})" by (cases k) (simp_all add: op)
    have "aes_rd x t = aes_isa k a b r"
    proof (cases k)
      case Ks1
      then have "x = aes_request Ks1 a b r" using assms(2) by simp
      then show ?thesis
        using ks1_word [of x a b r] sc(2) dec Ks1
        by (simp add: aes_rd_def result_ks1_def gated_def Let_def op)
    qed (use True sc fwd inv dec in \<open>simp_all add: aes_rd_def gated_def result_enc_def result_dec_def
        mix_enc_o_def mix_dec_o_def mix_eq two_cycles_def Let_def op\<close>)
    moreover have "\<not> aes_ready x s" "aes_ready x t"
      using assms(1) True sc(1) x(1) by (simp_all add: aes_ready_def sbox_ready_def si)
    moreover from this have "\<not> sbox_hi (aes_step x t)" using x(1) by (simp add: aes_step_def)
    ultimately show ?thesis using True by simp
  next
    case False
    then have rdy: "aes_ready x s" using x(1) by (simp add: aes_ready_def sbox_ready_def si)
    have "aes_rd x s = aes_isa k a b r"
      using False by (cases k) (simp_all add: two_cycles_def aes_rd_def gated_def result_ks2_def x
          mix_dec_o_def mix_eq Let_def op xor.commute xor.left_commute)
    then show ?thesis using False rdy x(1) assms(3) by (simp add: aes_step_def)
  qed
qed

section \<open>Inverse transformations\<close>

lemma xt2_xor: "xt2 (a XOR b) = xt2 a XOR xt2 b"
  unfolding xt2_def push_bit_xor bit_xor_iff by (simp add: xor.commute xor.left_commute)

lemma mixcolumn_byte_inverse:
  "mixcolumn_byte_dec (mixcolumn_byte_enc b0 b1 b2 b3) (mixcolumn_byte_enc b1 b2 b3 b0)
     (mixcolumn_byte_enc b2 b3 b0 b1) (mixcolumn_byte_enc b3 b0 b1 b2) = b0"
  by (simp add: mixcolumn_byte_dec_def mixcolumn_byte_enc_def xtN_def xt2_xor ac_simps)

lemma mixcolumn_inverse: "mixcolumn_dec (mixcolumn_enc c) = c"
proof (rule col_eqI)
  fix i :: nat assume "i < 4"
  then have "i \<in> {0, 1, 2, 3}" by auto
  then show "cbyte (mixcolumn_dec (mixcolumn_enc c)) i = cbyte c i"
    by (auto simp: mixcolumn_dec_def mixcolumn_enc_def cbyte_col_of Let_def mixcolumn_byte_inverse
        numeral_2_eq_2 [symmetric])
qed

lemma low_high_cat [simp]: "low32 (word_cat h l) = l" "high32 (word_cat h l) = h"
  for h l :: u32
  by (rule bit_word_eqI, simp add: low32_def high32_def bit_ucast_iff bit_drop_bit_eq bit_word_cat_iff)+

lemma cat_low_high: "word_cat (high32 w) (low32 w) = w"
  by (rule bit_word_eqI) (auto simp: low32_def high32_def bit_ucast_iff bit_drop_bit_eq bit_word_cat_iff)

lemma mix_dec_enc: "mix_dec (mix_enc w) = w"
  by (simp only: mix_eq [symmetric] low_high_cat mixcolumn_inverse cat_low_high)

lemma sub_shift_inverse: "sub_shift_dec (sub_shift_enc a b) (sub_shift_enc b a) = a"
proof (rule u64_eq_bytes)
  fix i :: nat assume i: "i < 8"
  then have "i \<in> {0, 1, 2, 3, 4, 5, 6, 7}" by auto
  then show "byte_of (sub_shift_dec (sub_shift_enc a b) (sub_shift_enc b a)) i = byte_of a i"
    by (auto simp: sub_shift_dec_def sub_shift_enc_def byte_of_join aes_state_def shift_dec_def shift_enc_def
        inv_fwd_sbox numeral_2_eq_2 [symmetric])
qed

end
