(* ===== verification/Crypto_Hash.thy ===== *)
theory Crypto_Hash
  imports Crypto_Aes
begin

text \<open>
  The SHA-2, SM3 and SM4 parts of the cryptography unit against rotations and the linear maps of
  the SM4 standard.
\<close>

section \<open>Hashes and SM4\<close>

lemma RORN_rotr:
  fixes a :: "'a::len word"
  assumes "0 < b" "b < LENGTH('a)"
  shows "RORN a b = word_rotr b a"
proof (rule bit_word_eqI)
  fix n assume n: "n < LENGTH('a)"
  show "bit (RORN a b) n = bit (word_rotr b a) n"
  proof (cases "b + n < LENGTH('a)")
    case True
    then have "\<not> LENGTH('a) - b \<le> n" by arith
    then show ?thesis
      using n by (simp add: RORN_def bit_or_iff bit_push_bit_iff bit_drop_bit_eq bit_word_rotr_iff add.commute)
  next
    case False
    have "(b + n) mod LENGTH('a) = (b + n) - LENGTH('a)"
      using False n assms le_mod_geq [of "LENGTH('a)" "b + n"] by simp
    moreover have "n - (LENGTH('a) - b) = b + n - LENGTH('a)" using False assms by simp
    moreover have "\<not> bit a (b + n)" using False bit_imp_le_length [of a "b + n"] by auto
    ultimately show ?thesis
      using False n assms
      by (auto simp add: RORN_def bit_or_iff bit_push_bit_iff bit_drop_bit_eq bit_word_rotr_iff add.commute)
  qed
qed

lemma ROL32_rotl:
  assumes "0 < b" "b < 32"
  shows "ROL32 a b = word_rotl b a"
proof -
  have "ROL32 a b = RORN a (32 - b)" using assms by (simp add: ROL32_def RORN_def or.commute)
  also have "\<dots> = word_rotr (32 - b) a" using assms by (simp add: RORN_rotr)
  also have "\<dots> = word_rotl b a"
  proof (rule bit_word_eqI)
    fix n assume n: "n < LENGTH(32)"
    have "(n + (32 - b)) mod 32 = (n + (32 - b mod 32)) mod 32" using assms by simp
    then show "bit (word_rotr (32 - b) a) n = bit (word_rotl b a) n"
      using n assms by (simp add: bit_word_rotl_iff bit_word_rotr_iff)
  qed
  finally show ?thesis .
qed

text \<open>
  The linear maps of SM4 on whole words. The standard numbers the bytes of a word from the highest, the
  instructions from the lowest, so they apply the maps between two reversals of the bytes.
\<close>

definition rev_bytes :: "u32 \<Rightarrow> u32" where
  "rev_bytes w = col_of (\<lambda>i. cbyte w (3 - i))"

definition sm4_L :: "u32 \<Rightarrow> u32" where
  "sm4_L x = x XOR word_rotl 2 x XOR word_rotl 10 x XOR word_rotl 18 x XOR word_rotl 24 x"

definition sm4_L' :: "u32 \<Rightarrow> u32" where
  "sm4_L' x = x XOR word_rotl 13 x XOR word_rotl 23 x"

lemma less_32_cases:
  assumes "n < 32"
  shows "n \<in> {0, 1, 2, 3, 4, 5, 6, 7, 8, 9, 10, 11, 12, 13, 14, 15, 16, 17, 18, 19, 20, 21, 22, 23,
     24, 25, 26, 27, 28, 29, 30, 31 :: nat}"
  using assms unfolding insert_iff empty_iff by presburger

lemma bit_rev_bytes: "bit (rev_bytes w) n \<longleftrightarrow> n < 32 \<and> bit w (8 * (3 - n div 8) + n mod 8)"
  by (auto simp: rev_bytes_def col_of_def bit_or_bytes bit_cbyte)

lemma byte_high_bits: "8 \<le> m \<Longrightarrow> \<not> bit (s :: u8) m"
  using bit_imp_le_length [of s m] by auto

lemma l_ed2_L: "l_ed2 (ucast s) = rev_bytes (sm4_L (rev_bytes (ucast (s :: u8))))"
proof (rule bit_word_eqI)
  fix n assume "n < LENGTH(32)"
  then have "n \<in> {0, 1, 2, 3, 4, 5, 6, 7, 8, 9, 10, 11, 12, 13, 14, 15, 16, 17, 18, 19, 20, 21, 22, 23,
     24, 25, 26, 27, 28, 29, 30, 31 :: nat}" using less_32_cases by simp
  then show "bit (l_ed2 (ucast s)) n = bit (rev_bytes (sm4_L (rev_bytes (ucast s)))) n"
    unfolding l_ed2_def sm4_L_def
    by (elim insertE emptyE; hypsubst; auto simp: bit_xor_iff bit_and_iff bit_push_bit_iff bit_word_rotl_iff
        bit_ucast_iff bit_numeral_word_iff byte_high_bits bit_rev_bytes numeral_2_eq_2 [symmetric])
qed

lemma l_ks2_L': "l_ks2 (ucast s) = rev_bytes (sm4_L' (rev_bytes (ucast (s :: u8))))"
proof (rule bit_word_eqI)
  fix n assume "n < LENGTH(32)"
  then have "n \<in> {0, 1, 2, 3, 4, 5, 6, 7, 8, 9, 10, 11, 12, 13, 14, 15, 16, 17, 18, 19, 20, 21, 22, 23,
     24, 25, 26, 27, 28, 29, 30, 31 :: nat}" using less_32_cases by simp
  then show "bit (l_ks2 (ucast s)) n = bit (rev_bytes (sm4_L' (rev_bytes (ucast s)))) n"
    unfolding l_ks2_def sm4_L'_def
    by (elim insertE emptyE; hypsubst; auto simp: bit_xor_iff bit_and_iff bit_push_bit_iff bit_word_rotl_iff
        bit_ucast_iff bit_numeral_word_iff byte_high_bits bit_rev_bytes numeral_2_eq_2 [symmetric])
qed

datatype hash_kind = Sha256_sig0 | Sha256_sig1 | Sha256_sum0 | Sha256_sum1 | Sha512_sig0 | Sha512_sig1
  | Sha512_sum0 | Sha512_sum1 | Sm3_p0 | Sm3_p1 | Sm4_ks | Sm4_ed

fun hash_isa :: "hash_kind \<Rightarrow> u64 \<Rightarrow> u64 \<Rightarrow> 2 word \<Rightarrow> u64" where
  "hash_isa Sha256_sig0 a b s = ucast (word_rotr 7 (low32 a) XOR word_rotr 18 (low32 a) XOR drop_bit 3 (low32 a))"
| "hash_isa Sha256_sig1 a b s = ucast (word_rotr 17 (low32 a) XOR word_rotr 19 (low32 a) XOR drop_bit 10 (low32 a))"
| "hash_isa Sha256_sum0 a b s = ucast (word_rotr 2 (low32 a) XOR word_rotr 13 (low32 a) XOR word_rotr 22 (low32 a))"
| "hash_isa Sha256_sum1 a b s = ucast (word_rotr 6 (low32 a) XOR word_rotr 11 (low32 a) XOR word_rotr 25 (low32 a))"
| "hash_isa Sha512_sig0 a b s = word_rotr 1 a XOR word_rotr 8 a XOR drop_bit 7 a"
| "hash_isa Sha512_sig1 a b s = word_rotr 19 a XOR word_rotr 61 a XOR drop_bit 6 a"
| "hash_isa Sha512_sum0 a b s = word_rotr 28 a XOR word_rotr 34 a XOR word_rotr 39 a"
| "hash_isa Sha512_sum1 a b s = word_rotr 14 a XOR word_rotr 18 a XOR word_rotr 41 a"
| "hash_isa Sm3_p0 a b s = ucast (low32 a XOR word_rotl 9 (low32 a) XOR word_rotl 17 (low32 a))"
| "hash_isa Sm3_p1 a b s = ucast (low32 a XOR word_rotl 15 (low32 a) XOR word_rotl 23 (low32 a))"
| "hash_isa Sm4_ks a b s =
     ucast (word_rotl (8 * unat s) (rev_bytes (sm4_L' (rev_bytes (ucast (sm4_sbox (byte_of b (unat s))))))) XOR low32 a)"
| "hash_isa Sm4_ed a b s =
     ucast (word_rotl (8 * unat s) (rev_bytes (sm4_L (rev_bytes (ucast (sm4_sbox (byte_of b (unat s))))))) XOR low32 a)"

definition no_aes :: aes_ops where
  "no_aes = \<lparr>op_ks1 = False, op_ks2 = False, op_imix = False, op_encs = False, op_encsm = False,
     op_decs = False, op_decsm = False\<rparr>"

definition hash_request :: "hash_kind \<Rightarrow> u64 \<Rightarrow> u64 \<Rightarrow> 4 word \<Rightarrow> cry_in" where
  "hash_request k a b i =
     \<lparr>cry_resetn = True, cry_valid = True, cry_rs1 = a, cry_rs2 = b, cry_imm = i, cry_aes = no_aes,
      op_sha256_sig0 = (k = Sha256_sig0), op_sha256_sig1 = (k = Sha256_sig1),
      op_sha256_sum0 = (k = Sha256_sum0), op_sha256_sum1 = (k = Sha256_sum1),
      op_sha512_sig0 = (k = Sha512_sig0), op_sha512_sig1 = (k = Sha512_sig1),
      op_sha512_sum0 = (k = Sha512_sum0), op_sha512_sum1 = (k = Sha512_sum1),
      op_sm3_p0 = (k = Sm3_p0), op_sm3_p1 = (k = Sm3_p1), op_sm4_ks = (k = Sm4_ks), op_sm4_ed = (k = Sm4_ed)\<rparr>"

lemma unat_lt_2: "unat (b :: 2 word) < 4"
  using unsigned_less [of b] by simp

lemma rot_by_byte:
  fixes bs :: "2 word"
  shows "sm4_rot_out bs w = word_rotl (8 * unat bs) w"
proof -
  have "unat bs \<in> {0, 1, 2, 3}" using unat_lt_2 [of bs] by auto
  then have "word_of_nat (unat bs) \<in> (word_of_nat ` {0, 1, 2, 3} :: 2 word set)" by (rule imageI)
  then have "bs \<in> {0, 1, 2, 3}" by simp
  moreover have "word_rotl 0 w = w" by (rule bit_word_eqI) (simp add: bit_word_rotl_iff)
  ultimately show ?thesis by (auto simp: sm4_rot_out_def gated_def)
qed

text \<open>The hash and SM4 instructions are ready in the cycle that asks for them and leave the registers of the
  AES part alone.\<close>

lemma hash_exact:
  "cry_ready (hash_request k a b i) s \<and> cry_rd (hash_request k a b i) s = hash_isa k a b (ucast i) \<and>
   cry_step (hash_request k a b i) s = s"
proof -
  let ?x = "hash_request k a b i"
  have aes: "\<not> saes64_valid ?x" by (simp add: saes64_valid_def hash_request_def no_aes_def)
  have "unat (ucast i :: 2 word) < 4" by (rule unat_lt_2)
  note sb = cbyte_halves(1) [OF this]
  have "cry_rd ?x s = hash_isa k a b (ucast i)"
    using aes
    by (cases k) (simp_all add: cry_rd_def gated_def ssha256_valid_def ssha512_valid_def ssm3_valid_def
        ssm4_valid_def hash_request_def ssha256_result_def ssha512_result_def ssm3_result_def ssm4_result_def
        Let_def ssha256_sig0_def ssha256_sig1_def ssha256_sum0_def ssha256_sum1_def ssha512_sig0_def
        ssha512_sig1_def ssha512_sum0_def ssha512_sum1_def ssm3_p0_def ssm3_p1_def RORN_rotr ROL32_rotl
        sm4_result_def rot_by_byte sm4_l_def l_ed2_L l_ks2_L' sb)
  moreover have "cry_ready ?x s"
    by (cases k) (simp_all add: cry_ready_def ssha256_valid_def ssha512_valid_def ssm3_valid_def
        ssm4_valid_def hash_request_def)
  moreover have "cry_step ?x s = s"
    using aes by (simp add: cry_step_def aes_step_def cry_aes_in_def aes_ready_def sbox_reg_ld_en_def hash_request_def)
  ultimately show ?thesis by simp
qed

end
