(* ===== verification/Mdu_Mul.thy ===== *)
theory Mdu_Mul
  imports Mdu
begin

text \<open>
  Correctness of the multiplier of the multiply/divide unit. The accumulator after \<open>k\<close> bits
  holds the partial product scaled by \<open>2 ^ (64 - k)\<close>; the value is read as an integer, signed
  or unsigned as the operation asks, and the last bit of a signed multiplier is subtracted.
\<close>

section \<open>Words as integers\<close>

lemma div_bounds:
  assumes "m > 0"
  shows "m * l \<le> v \<Longrightarrow> l \<le> v div (m :: int)" "v < m * h \<Longrightarrow> v div m < h"
proof -
  show "l \<le> v div m" if "m * l \<le> v"
    using zdiv_mono1 [OF that assms] assms by simp
  show "v div m < h" if "v < m * h"
  proof (rule ccontr)
    assume "\<not> v div m < h"
    then have "m * h \<le> m * (v div m)" using assms by simp
    moreover have "m * (v div m) \<le> v" using pos_mod_sign [OF assms, of v] mult_div_mod_eq [of m v] by linarith
    ultimately show False using that by linarith
  qed
qed

lemma uint_hi64: "uint (hi64 w) = uint w div 2 ^ 64"
proof -
  have "uint w div 2 ^ 64 < 2 ^ 64" "0 \<le> uint w div 2 ^ 64"
    using unsigned_less [of w] div_bounds(2) [of "2 ^ 64" "uint w" "2 ^ 64"]
    by (simp_all add: pos_imp_zdiv_nonneg_iff)
  then have "(uint w div 2 ^ 64) mod 2 ^ 64 = uint w div 2 ^ 64" by (rule mod_pos_pos_trivial [rotated])
  then show ?thesis by (simp add: hi64_def unsigned_ucast_eq drop_bit_eq_div uint_div take_bit_eq_mod)
qed

lemma uint_lo64: "uint (lo64 w) = uint w mod 2 ^ 64"
  by (simp add: lo64_def unsigned_ucast_eq take_bit_eq_mod)

lemma uint_or_disjoint:
  assumes "uint (a :: 'a::len word) mod 2 ^ n = 0" "uint b < 2 ^ n" "n \<le> LENGTH('a)"
  shows "uint (a OR b) = uint a + uint b"
proof -
  have "uint a = push_bit n (uint a div 2 ^ n)"
    using assms(1) by (simp add: push_bit_eq_mult mult.commute minus_mod_eq_mult_div [symmetric])
  moreover have "uint b = take_bit n (uint b)"
    using assms(2) by (simp add: take_bit_eq_mod)
  ultimately have "uint a OR uint b = uint a + uint b"
    by (metis concat_bit_eq or.commute concat_bit_def add.commute)
  then show ?thesis by (simp add: unsigned_or_eq)
qed

lemma uint_ucast_up:
  assumes "LENGTH('a) \<le> LENGTH('b)"
  shows "uint (ucast (w :: 'a::len word) :: 'b::len word) = uint w"
proof -
  have "uint w < 2 ^ LENGTH('a)" by (rule unsigned_less)
  also have "(2 :: int) ^ LENGTH('a) \<le> 2 ^ LENGTH('b)" using assms by simp
  finally show ?thesis by (simp add: unsigned_ucast_eq take_bit_int_eq_self_iff)
qed

lemma uint_push_bit_up:
  assumes "n + LENGTH('a) \<le> LENGTH('b)"
  shows "uint (push_bit n (ucast (w :: 'a::len word)) :: 'b::len word) = uint w * 2 ^ n"
proof -
  have "uint w < 2 ^ LENGTH('a)" by (rule unsigned_less)
  then have "uint w * 2 ^ n < 2 ^ LENGTH('a) * 2 ^ n" by simp
  also have "\<dots> \<le> 2 ^ LENGTH('b)"
    using assms by (simp add: power_add [symmetric] add.commute)
  finally have "take_bit LENGTH('b) (uint w * 2 ^ n) = uint w * 2 ^ n"
    by (simp add: take_bit_int_eq_self_iff)
  moreover have "uint (ucast w :: 'b word) = uint w" using assms by (simp add: uint_ucast_up)
  ultimately show ?thesis by (subst unsigned_push_bit_eq) (simp add: push_bit_eq_mult)
qed

lemma uint_cat65: "uint (cat65 b w) = of_bool b * 2 ^ 64 + uint w"
proof -
  have w: "uint (ucast w :: 65 word) = uint w" "uint w < 2 ^ 64"
    using unsigned_less [of w] by (simp_all add: uint_ucast_up)
  have "uint (push_bit 64 (of_bool b) :: 65 word) = of_bool b * 2 ^ 64"
    by (cases b) simp_all
  with w show ?thesis unfolding cat65_def
    by (subst uint_or_disjoint [of _ 64]) simp_all
qed

lemma uint_shift_in:
  "uint (push_bit 63 (ucast (x :: 65 word)) OR ucast (drop_bit 1 (l :: u64)) :: 128 word) =
     uint x * 2 ^ 63 + uint l div 2"
proof -
  have x: "uint x < 2 ^ 65" and l: "uint l < 2 ^ 64" using unsigned_less [of x] unsigned_less [of l] by simp_all
  have a: "uint (push_bit 63 (ucast x) :: 128 word) = uint x * 2 ^ 63"
    by (rule uint_push_bit_up) simp
  have b: "uint (ucast (drop_bit 1 l) :: 128 word) = uint l div 2"
    by (simp add: uint_ucast_up drop_bit_eq_div uint_div)
  show ?thesis
    using l by (subst uint_or_disjoint [of _ 63]) (simp_all only: a b, simp_all)
qed

section \<open>One bit of the multiplier\<close>

text \<open>\<open>acc_val sg v acc\<close>: the accumulator is \<open>v\<close>, read as a signed number when \<open>sg\<close>.\<close>

definition acc_val :: "bool \<Rightarrow> int \<Rightarrow> 128 word \<Rightarrow> bool" where
  "acc_val sg v acc \<longleftrightarrow> uint acc = v mod 2 ^ 128 \<and>
     (if sg then - (2 ^ 127) \<le> v \<and> v < 2 ^ 127 else 0 \<le> v \<and> v < 2 ^ 128)"

lemma mod_below: "0 \<le> v + m \<Longrightarrow> v < 0 \<Longrightarrow> v mod m = v + (m :: int)"
  using mod_pos_pos_trivial [of "v + m" m] by simp

lemma odd_div_top:
  assumes "0 \<le> u" "u < 2 * m"
  shows "odd (u div m) \<longleftrightarrow> (m :: int) \<le> u"
proof (cases "m \<le> u")
  case True
  then have "u div m = 1 + (u - m) div m"
    using assms div_add_self1 [of m "u - m"] by simp
  with True assms show ?thesis by simp
qed (use assms in simp)

lemma bit_top:
  assumes "LENGTH('a) = Suc n"
  shows "bit (w :: 'a::len word) n \<longleftrightarrow> 2 ^ n \<le> uint w"
proof -
  have "uint w < 2 * 2 ^ n" using unsigned_less [of w] assms by simp
  moreover have "bit w n \<longleftrightarrow> odd (uint w div 2 ^ n)"
    by (simp only: bit_iff_odd [symmetric] bit_uint_iff) (simp add: assms)
  ultimately show ?thesis by (simp add: odd_div_top)
qed

lemma bit_127: "bit acc 127 \<longleftrightarrow> uint (acc :: 128 word) \<ge> 2 ^ 127"
  by (rule bit_top) simp

lemma bit_63: "bit w 63 \<longleftrightarrow> uint (w :: u64) \<ge> 2 ^ 63"
  by (rule bit_top) simp

lemma mul_left_operand:
  assumes "acc_val sg v acc"
  shows "uint (cat65 (sg \<and> bit acc 127) (hi64 acc)) = (v div 2 ^ 64) mod 2 ^ 65"
proof -
  define q where "q = v div 2 ^ 64"
  show ?thesis
  proof (cases "sg \<and> v < 0")
    case True
    then have v: "v < 0" "- (2 ^ 127) \<le> v" using assms by (simp_all add: acc_val_def)
    then have u: "uint acc = v + 2 ^ 128"
      using assms by (simp add: acc_val_def mod_below)
    have q: "q < 0" "- (2 ^ 63) \<le> q"
      using v div_bounds(1) [of "2 ^ 64" "- (2 ^ 63)" v] div_bounds(2) [of "2 ^ 64" v 0]
      unfolding q_def by simp_all
    have "(v + 2 ^ 128) div 2 ^ 64 = 2 ^ 64 + q"
      unfolding q_def using div_mult_self1 [of "2 ^ 64" v "2 ^ 64"] by simp
    then show ?thesis
      using True u v q unfolding q_def [symmetric] uint_cat65 uint_hi64 bit_127 by (simp add: mod_below)
  next
    case False
    then have v: "0 \<le> v" "v < 2 ^ 128" "sg \<Longrightarrow> v < 2 ^ 127"
      using assms by (auto simp: acc_val_def split: if_splits)
    then have u: "uint acc = v" using assms by (simp add: acc_val_def)
    have "0 \<le> q" "q < 2 ^ 64"
      using v div_bounds(1) [of "2 ^ 64" 0 v] div_bounds(2) [of "2 ^ 64" v "2 ^ 64"]
      unfolding q_def by simp_all
    moreover have "uint acc div 2 ^ 64 = q" by (simp add: u q_def)
    ultimately show ?thesis
      using u v(3) unfolding q_def [symmetric] uint_cat65 uint_hi64 bit_127 by auto
  qed
qed

text \<open>The addend: a partial product, negated in the last iteration of a signed multiplier.\<close>

lemma mul_right_operand:
  assumes "- (2 ^ 63) \<le> r" "r < 2 ^ 64" "uint w = r mod 2 ^ 64" "sg \<Longrightarrow> r < 2 ^ 63" "\<not> sg \<Longrightarrow> 0 \<le> r"
  shows "uint (cat65 (sg \<and> bit w 63) w) = r mod 2 ^ 65"
proof -
  note b = bit_63 [of w]
  show ?thesis
  proof (cases "r < 0")
    case True
    then have "uint w = r + 2 ^ 64" using assms by (simp add: mod_below)
    with True assms b show ?thesis by (auto simp: uint_cat65 mod_below)
  next
    case False
    then have "uint w = r" using assms by simp
    with False assms b show ?thesis by (auto simp: uint_cat65)
  qed
qed

lemma uint_not_plus_one: "uint (NOT w + 1 :: 65 word) = (- uint w) mod 2 ^ 65"
proof -
  have "NOT w + 1 = - w" by (simp add: minus_eq_not_plus_1)
  then show ?thesis by (simp add: uint_word_ariths)
qed

text \<open>The addend of iteration \<open>i\<close>.\<close>

definition mul_lhs :: "mdu_in \<Rightarrow> u64 \<Rightarrow> int" where
  "mul_lhs x a = (if lhs_signed x then sint a else uint a)"

definition mul_last :: "mdu_in \<Rightarrow> mdu \<Rightarrow> nat \<Rightarrow> bool" where
  "mul_last x s i \<longleftrightarrow> i = 3 \<and> mdu_ctr s = 4 \<and> rhs_signed x \<and> bit (s_rs2 s) 3"

definition mul_addend :: "mdu_in \<Rightarrow> mdu \<Rightarrow> nat \<Rightarrow> int" where
  "mul_addend x s i =
     (if bit (s_rs2 s) i
      then (if mul_last x s i then - mul_lhs x (s_rs1 s) else mul_lhs x (s_rs1 s)) else 0)"

lemma sint_bounds64: "- (2 ^ 63) \<le> sint (a :: u64)" "sint a < 2 ^ 63"
  using sint_greater_eq [of a] sint_less [of a] by simp_all

lemma mul_lhs_bounds:
  "- (2 ^ 63) \<le> mul_lhs x a" "mul_lhs x a < 2 ^ 64" "uint a = mul_lhs x a mod 2 ^ 64"
  "lhs_signed x \<Longrightarrow> mul_lhs x a < 2 ^ 63" "\<not> lhs_signed x \<Longrightarrow> 0 \<le> mul_lhs x a"
  using sint_bounds64 [of a] unsigned_less [of a] uint_sint [of a]
  by (auto simp: mul_lhs_def take_bit_eq_mod)

lemma shift_in_arith:
  fixes v c :: int
  shows "((v div 2 ^ 64 + c) mod 2 ^ 65) * 2 ^ 63 + (v mod 2 ^ 64) div 2 =
    ((v + c * 2 ^ 64) div 2) mod 2 ^ 128"
proof -
  define q l where "q = v div 2 ^ 64" and "l = v mod 2 ^ 64"
  have "v = q * 2 ^ 64 + l" and l: "0 \<le> l" "l < 2 ^ 64" by (simp_all add: q_def l_def)
  then have "(v + c * 2 ^ 64) div 2 = (l + 2 * ((q + c) * 2 ^ 63)) div 2" by (simp add: algebra_simps)
  also have "\<dots> = (q + c) * 2 ^ 63 + l div 2" by (subst div_mult_self2) simp_all
  finally have e: "(v + c * 2 ^ 64) div 2 = (q + c) * 2 ^ 63 + l div 2" .
  have h: "0 \<le> l div 2" "l div 2 < 2 ^ 63" using l div_bounds(2) [of 2 l "2 ^ 63"] by simp_all
  have "((q + c) * 2 ^ 63 + l div 2) mod (2 ^ 63 * 2 ^ 65) =
      2 ^ 63 * (((q + c) * 2 ^ 63 + l div 2) div 2 ^ 63 mod 2 ^ 65) + ((q + c) * 2 ^ 63 + l div 2) mod 2 ^ 63"
    by (rule zmod_zmult2_eq) simp
  also have "((q + c) * 2 ^ 63 + l div 2) div 2 ^ 63 = q + c" using h by simp
  also have "((q + c) * 2 ^ 63 + l div 2) mod 2 ^ 63 = l div 2"
    by (simp only: mod_mult_self3 mod_pos_pos_trivial [OF h])
  finally show ?thesis unfolding e q_def [symmetric] l_def [symmetric] by simp
qed

lemma mul_iter_val:
  assumes v: "acc_val (lhs_signed x) v acc" and w: "lhs_signed x \<Longrightarrow> \<not> op_word x"
  shows "uint (mul_iter x s i acc) = ((v + mul_addend x s i * 2 ^ 64) div 2) mod 2 ^ 128"
proof -
  let ?b = "bit (s_rs2 s) i"
  define c where "c = mul_addend x s i"
  note c_eq = c_def and c_def = c_def [unfolded mul_addend_def]
  define l r where "l = cat65 (lhs_signed x \<and> bit acc 127) (hi64 acc)"
    and "r = cat65 (lhs_signed x \<and> bit (if ?b then s_rs1 s else 0) 63) (if ?b then s_rs1 s else 0)"
  define last where "last = mul_last x s i"
  have last_b: "last \<Longrightarrow> ?b" by (auto simp: last_def mul_last_def)
  have it: "mul_iter x s i acc =
      push_bit 63 (ucast (l + (if last then NOT r else r) + of_bool last)) OR ucast (drop_bit 1 (lo64 acc))"
    using w unfolding mul_iter_def Let_def l_def r_def last_def mul_last_def
    by (cases "lhs_signed x") (auto simp: MUL_UNROLL_def)
  have ul: "uint l = (v div 2 ^ 64) mod 2 ^ 65"
    unfolding l_def by (rule mul_left_operand [OF v])
  have ur: "uint r = (if ?b then mul_lhs x (s_rs1 s) else 0) mod 2 ^ 65"
  proof (cases ?b)
    case True
    then show ?thesis unfolding r_def using mul_right_operand [OF mul_lhs_bounds] by simp
  qed (simp add: r_def uint_cat65)
  have "uint (l + (if last then NOT r else r) + of_bool last) = (v div 2 ^ 64 + c) mod 2 ^ 65"
  proof (cases last)
    case True
    then have "uint (l + (if last then NOT r else r) + of_bool last) = uint (l + (NOT r + 1))"
      by (simp add: add.assoc)
    also have "\<dots> = (uint l + uint (NOT r + 1)) mod 2 ^ 65" by (simp add: uint_word_ariths)
    also have "\<dots> = (v div 2 ^ 64 + c) mod 2 ^ 65"
      using True last_b unfolding uint_not_plus_one ul ur c_def last_def
      by (simp add: mod_simps)
    finally show ?thesis .
  next
    case False
    then show ?thesis unfolding c_def last_def
      by (simp add: uint_word_ariths ul ur mod_simps)
  qed
  moreover have "uint (lo64 acc) = v mod 2 ^ 64"
  proof -
    have "uint acc = v mod 2 ^ 128" using v by (simp only: acc_val_def)
    moreover have "(v mod 2 ^ 128) mod 2 ^ 64 = v mod 2 ^ 64"
      by (rule mod_mod_cancel) (rule le_imp_power_dvd, simp)
    ultimately show ?thesis by (simp only: uint_lo64)
  qed
  ultimately show ?thesis
    unfolding it uint_shift_in by (simp only: shift_in_arith c_eq)
qed

section \<open>Partial products\<close>

definition mul_bits :: "mdu_in \<Rightarrow> u64 \<Rightarrow> nat \<Rightarrow> int" where
  "mul_bits x b k = (if k = 64 \<and> rhs_signed x then sint b else take_bit k (uint b))"

definition mul_part :: "mdu_in \<Rightarrow> u64 \<Rightarrow> u64 \<Rightarrow> nat \<Rightarrow> int" where
  "mul_part x a b k = mul_lhs x a * mul_bits x b k * 2 ^ (64 - k)"

definition bit_addend :: "mdu_in \<Rightarrow> u64 \<Rightarrow> u64 \<Rightarrow> nat \<Rightarrow> int" where
  "bit_addend x a b k =
     (if bit b k then (if k = 63 \<and> rhs_signed x then - mul_lhs x a else mul_lhs x a) else 0)"

lemma mul_bits_Suc:
  assumes "k < 64"
  shows "mul_bits x b (Suc k) =
    mul_bits x b k + (if bit b k then (if k = 63 \<and> rhs_signed x then - (2 ^ k) else 2 ^ k) else 0)"
proof -
  have bit: "bit (uint b) k = bit b k" using assms by (simp add: bit_uint_iff)
  show ?thesis
  proof (cases "k = 63 \<and> rhs_signed x")
    case True
    have "sint b = take_bit (Suc 63) (uint b) - 2 ^ Suc 63 * of_bool (bit (uint b) 63)"
      by (simp only: sint_uint signed_take_bit_eq_take_bit_minus) simp
    with True bit show ?thesis
      by (simp only: mul_bits_def take_bit_Suc_from_most) auto
  next
    case False
    with assms bit show ?thesis by (auto simp: mul_bits_def take_bit_Suc_from_most)
  qed
qed

lemma mul_part_Suc:
  assumes "k < 64"
  shows "mul_part x a b (Suc k) = (mul_part x a b k + bit_addend x a b k * 2 ^ 64) div 2"
proof -
  have e: "(2 :: int) ^ (64 - k) = 2 * 2 ^ (63 - k)" "(2 :: int) ^ k * 2 ^ (63 - k) = 2 ^ 63"
    using assms by (simp_all add: Suc_diff_Suc [symmetric] power_Suc [symmetric] power_add [symmetric]
        del: power_Suc)
  define c where "c = (if bit b k then (if k = 63 \<and> rhs_signed x then - 1 else 1) else 0 :: int)"
  have "mul_part x a b (Suc k) = mul_lhs x a * (mul_bits x b k + c * 2 ^ k) * 2 ^ (63 - k)"
    using assms by (simp add: mul_part_def mul_bits_Suc c_def)
  also have "\<dots> = mul_lhs x a * mul_bits x b k * 2 ^ (63 - k) + c * mul_lhs x a * (2 ^ k * 2 ^ (63 - k))"
    by (simp only: algebra_simps)
  finally have "2 * mul_part x a b (Suc k) = mul_part x a b k + bit_addend x a b k * 2 ^ 64"
    unfolding e(2) by (simp add: mul_part_def e(1) bit_addend_def c_def algebra_simps)
  then show ?thesis by simp
qed

lemma mul_part_range:
  assumes "k < 64"
  shows "if lhs_signed x then - (2 ^ 127) \<le> mul_part x a b k \<and> mul_part x a b k < 2 ^ 127
    else 0 \<le> mul_part x a b k \<and> mul_part x a b k < 2 ^ 128"
proof -
  define t where "t = take_bit k (uint b) * 2 ^ (64 - k)"
  have m: "0 \<le> take_bit k (uint b)" "take_bit k (uint b) < 2 ^ k" by simp_all
  have "(2 :: int) ^ k * 2 ^ (64 - k) = 2 ^ 64" using assms by (simp add: power_add [symmetric])
  then have t: "0 \<le> t" "t < 2 ^ 64"
    unfolding t_def using m mult_strict_right_mono [OF m(2), of "2 ^ (64 - k)"] by simp_all
  have p: "mul_part x a b k = mul_lhs x a * t"
    using assms by (simp add: mul_part_def mul_bits_def t_def)
  show ?thesis
  proof (cases "lhs_signed x")
    case True
    have "- (2 ^ 63) * t \<le> mul_lhs x a * t" "mul_lhs x a * t \<le> (2 ^ 63) * t"
      using mul_lhs_bounds(1) [of x a] mul_lhs_bounds(4) [OF True, of a] t(1)
      by (intro mult_right_mono; simp)+
    with True t p show ?thesis by simp
  next
    case False
    have "0 \<le> mul_lhs x a * t" "mul_lhs x a * t \<le> (2 ^ 64 - 1) * t"
      using mul_lhs_bounds(2) [of x a] mul_lhs_bounds(5) [OF False, of a] t(1)
      by (auto intro: mult_right_mono)
    with False t p show ?thesis by simp
  qed
qed

lemma mul_part_0 [simp]: "mul_part x a b 0 = 0"
  by (simp add: mul_part_def mul_bits_def)

section \<open>The multiplier runs\<close>

text \<open>A multiplication request whose inputs are held.\<close>

definition mul_request :: "mdu_in \<Rightarrow> bool" where
  "mul_request x \<longleftrightarrow> \<not> mdu_clear x \<and> mdu_valid x \<and> any_mul x \<and> \<not> any_div x \<and> \<not> any_clmul x \<and>
     (op_word x \<longrightarrow> \<not> lhs_signed x \<and> \<not> rhs_signed x)"

definition mdu_width :: "mdu_in \<Rightarrow> nat" where
  "mdu_width x = (if op_word x then 32 else 64)"

definition mul_inv :: "mdu_in \<Rightarrow> nat \<Rightarrow> mdu \<Rightarrow> bool" where
  "mul_inv x k s \<longleftrightarrow> mul_run s \<and> mdu_run s \<and> \<not> mul_done s \<and> \<not> div_run s \<and> \<not> div_start s \<and> \<not> clmul_run s \<and>
     k \<le> mdu_width x \<and> 4 dvd k \<and> mdu_ctr s = of_nat (mdu_width x - k) \<and>
     s_rs1 s = mdu_rs1 x \<and> s_rs2 s = drop_bit k (mdu_rs2 x) \<and>
     uint (mdu_state s) = mul_part x (mdu_rs1 x) (mdu_rs2 x) k mod 2 ^ 128"

lemma rhs_lhs_signed: "rhs_signed x \<Longrightarrow> lhs_signed x"
  by (simp add: rhs_signed_def lhs_signed_def)

lemma ctr_bound: "(n :: nat) < 128 \<Longrightarrow> n < 2 ^ LENGTH(7)"
  by simp

lemma ctr_eq: "n < 128 \<Longrightarrow> m < 128 \<Longrightarrow> (of_nat n :: 7 word) = of_nat m \<longleftrightarrow> n = m"
  by (metis unat_of_nat_id ctr_bound)

lemma mul_inv_iter:
  assumes r: "mul_request x" and v: "mul_inv x k s" and k: "k < mdu_width x" and i: "i < 4"
    and acc: "uint acc = mul_part x (mdu_rs1 x) (mdu_rs2 x) (k + i) mod 2 ^ 128"
  shows "uint (mul_iter x s i acc) = mul_part x (mdu_rs1 x) (mdu_rs2 x) (k + Suc i) mod 2 ^ 128"
proof -
  let ?a = "mdu_rs1 x" and ?b = "mdu_rs2 x"
  have dv: "4 dvd mdu_width x - k" using v by (auto simp: mul_inv_def mdu_width_def)
  then have "4 \<le> mdu_width x - k" using k by (intro dvd_imp_le) simp_all
  then have ki: "k + i < mdu_width x" using i by simp
  then have ki64: "k + i < 64" by (simp add: mdu_width_def split: if_splits)
  have w: "lhs_signed x \<Longrightarrow> \<not> op_word x" using r by (auto simp: mul_request_def)
  have ctr: "mdu_ctr s = 4 \<longleftrightarrow> mdu_width x - k = 4"
    using v ctr_eq [of "mdu_width x - k" 4] by (simp add: mul_inv_def mdu_width_def split: if_splits)
  have "mul_addend x s i = bit_addend x ?a ?b (k + i)"
  proof (cases "rhs_signed x")
    case True
    then have W: "mdu_width x = 64" using w rhs_lhs_signed by (auto simp: mdu_width_def)
    have "i = 3" if "k + i = 63"
    proof -
      have "64 - k = Suc i" using that by arith
      with dv W have "4 dvd Suc i" by metis
      with i show ?thesis by presburger
    qed
    with W k have "i = 3 \<and> mdu_width x - k = 4 \<longleftrightarrow> k + i = 63" by auto
    with True v ctr show ?thesis
      by (auto simp: mul_addend_def mul_last_def bit_addend_def mul_inv_def bit_drop_bit_eq add.commute)
  next
    case False
    with v show ?thesis
      by (auto simp: mul_addend_def mul_last_def bit_addend_def mul_inv_def bit_drop_bit_eq add.commute)
  qed
  moreover have "acc_val (lhs_signed x) (mul_part x ?a ?b (k + i)) acc"
    unfolding acc_val_def using acc mul_part_range [OF ki64, of x ?a ?b] by (rule conjI)
  ultimately show ?thesis
    using mul_iter_val [of x "mul_part x ?a ?b (k + i)" acc s i] w ki64
    by (simp add: mul_part_Suc)
qed

lemma mul_state_val:
  assumes r: "mul_request x" and v: "mul_inv x k s" and k: "k < mdu_width x"
  shows "uint (n_mul_state x s) = mul_part x (mdu_rs1 x) (mdu_rs2 x) (k + 4) mod 2 ^ 128"
proof -
  have "uint (fold (mul_iter x s) [0..<n] (mdu_state s)) =
      mul_part x (mdu_rs1 x) (mdu_rs2 x) (k + n) mod 2 ^ 128" if "n \<le> 4" for n
    using that
  proof (induction n)
    case 0
    show ?case using v by (simp add: mul_inv_def)
  next
    case (Suc n)
    then show ?case using mul_inv_iter [OF r v k] by simp
  qed
  then show ?thesis by (simp add: n_mul_state_def MUL_UNROLL_def)
qed

lemma mul_inv_step:
  assumes r: "mul_request x" and v: "mul_inv x k s" and k: "k < mdu_width x"
  shows "mul_inv x (k + 4) (mdu_step x s)"
proof -
  have dv: "4 dvd mdu_width x - k" using v by (auto simp: mul_inv_def mdu_width_def)
  then have le: "k + 4 \<le> mdu_width x" using k dvd_imp_le [OF dv] by simp
  have W: "mdu_width x \<le> 64" by (simp add: mdu_width_def)
  have c: "mdu_ctr s \<noteq> 0"
    using v k W ctr_eq [of "mdu_width x - k" 0] by (simp add: mul_inv_def)
  have c4: "mdu_ctr s - 4 = of_nat (mdu_width x - (k + 4))"
  proof -
    have "(of_nat (mdu_width x - (k + 4)) :: 7 word) = of_nat (mdu_width x - k) - of_nat 4"
      using le by (simp add: of_nat_diff flip: diff_diff_left)
    then show ?thesis using v by (simp add: mul_inv_def)
  qed
  have st: "mdu_clear x = False" "any_mul x" "\<not> any_div x" "\<not> any_clmul x"
    using r by (simp_all add: mul_request_def)
  have n: "\<not> n_div_start x s" "\<not> mul_start x s" "\<not> clmul_start x s" "\<not> n_mul_done s"
    using v st c by (simp_all add: n_div_start_def mul_start_def clmul_start_def n_mul_done_def
        mul_inv_def MUL_END_def MUL_UNROLL_def)
  show ?thesis
    using v r le c st n mul_state_val [OF r v k] unfolding mul_inv_def
    by (simp add: step_args_def step_ctr_def step_mul_def step_div_def step_clmul_def mdu_start_def MUL_END_def
        MUL_UNROLL_def c4 [unfolded mul_inv_def] add.commute drop_bit_drop_bit)
qed

lemma mul_inv_start:
  assumes "mul_request x" "mdu_idle s"
  shows "mul_inv x 0 (mdu_step x s)"
  using assms
  by (simp add: mul_inv_def mul_request_def mdu_idle_def step_args_def step_ctr_def step_mul_def
      step_div_def step_clmul_def clmul_start_def mdu_start_def mul_start_def n_div_start_def mdu_width_def)

text \<open>Once the result is there, nothing moves while the request is held.\<close>

definition mul_settled :: "mdu \<Rightarrow> bool" where
  "mul_settled s \<longleftrightarrow> mul_done s \<and> \<not> mul_run s \<and> \<not> mdu_run s \<and> \<not> div_run s \<and> \<not> div_start s \<and> \<not> clmul_run s"

lemma mul_settled_step:
  assumes "mul_request x" "mul_settled s"
  shows "mdu_step x s = s"
  using assms
  by (cases s) (simp add: mul_settled_def mul_request_def mdu_step_def step_args_def step_ctr_def
      step_mul_def step_clmul_def step_div_def mdu_start_def mul_start_def clmul_start_def n_div_start_def)

lemma mul_finish:
  assumes "mul_request x" "mul_inv x (mdu_width x) s"
  shows "mul_settled (mdu_step x s)" "mdu_state (mdu_step x s) = mdu_state s"
  using assms
  by (simp_all add: mul_settled_def mul_inv_def mul_request_def step_args_def step_ctr_def step_mul_def
      step_clmul_def step_div_def mdu_start_def mul_start_def clmul_start_def n_div_start_def
      n_mul_done_def MUL_END_def MUL_UNROLL_def)

lemma mul_inv_cycles:
  assumes "mul_request x" "mdu_idle s" "4 * j \<le> mdu_width x"
  shows "mul_inv x (4 * j) (mdu_cycles (Suc j) x s)"
  using assms(3)
proof (induction j)
  case 0
  show ?case using mul_inv_start [OF assms(1,2)] by (simp add: mdu_cycles_Suc)
next
  case (Suc j)
  then have "mul_inv x (4 * j + 4) (mdu_step x (mdu_cycles (Suc j) x s))"
    by (intro mul_inv_step [OF assms(1)]) simp_all
  then show ?case by (simp add: mdu_cycles_def algebra_simps)
qed

section \<open>The product\<close>

lemma mul_request_req:
  "opr \<in> {MUL, MULH, MULHU, MULHSU} \<Longrightarrow> word \<longrightarrow> opr = MUL \<Longrightarrow> mul_request (mdu_request opr word a b)"
  by (auto simp: mul_request_def)

lemma high_part: "(p mod 2 ^ 128) div 2 ^ 64 = (p div 2 ^ 64) mod (2 ^ 64 :: int)"
proof -
  have "p mod (2 ^ 64 * 2 ^ 64) = 2 ^ 64 * (p div 2 ^ 64 mod 2 ^ 64) + p mod (2 ^ 64 :: int)"
    by (rule zmod_zmult2_eq) simp
  then have "(p mod 2 ^ 128) div 2 ^ 64 = (p mod 2 ^ 64 + 2 ^ 64 * (p div 2 ^ 64 mod 2 ^ 64)) div 2 ^ 64"
    by (simp add: add.commute)
  also have "\<dots> = (p div 2 ^ 64) mod 2 ^ 64 + (p mod 2 ^ 64) div 2 ^ 64"
    by (subst div_mult_self2) simp_all
  finally show ?thesis by simp
qed

lemma low_part: "(p mod 2 ^ 128) mod 2 ^ 64 = p mod (2 ^ 64 :: int)"
  by (rule mod_mod_cancel) (rule le_imp_power_dvd, simp)

lemma hi64_eq: "uint w = p mod 2 ^ 128 \<Longrightarrow> hi64 w = word_of_int (p div 2 ^ 64)"
proof -
  assume "uint w = p mod 2 ^ 128"
  then have "uint (hi64 w) = (p div 2 ^ 64) mod 2 ^ 64" by (simp only: uint_hi64 high_part)
  then have "uint (hi64 w) = uint (word_of_int (p div 2 ^ 64) :: u64)"
    by (simp add: uint_word_of_int take_bit_eq_mod)
  then show ?thesis by (rule word_uint_eqI)
qed

lemma lo64_eq: "uint w = p mod 2 ^ 128 \<Longrightarrow> lo64 w = word_of_int p"
proof -
  assume "uint w = p mod 2 ^ 128"
  then have "uint (lo64 w) = p mod 2 ^ 64" by (simp only: uint_lo64 low_part)
  then have "uint (lo64 w) = uint (word_of_int p :: u64)"
    by (simp add: uint_word_of_int take_bit_eq_mod)
  then show ?thesis by (rule word_uint_eqI)
qed

lemma take_bit_64_uint: "take_bit 64 (uint (b :: u64)) = uint b"
  using unsigned_less [of b] by (simp add: take_bit_int_eq_self_iff)

lemma word_product:
  fixes a b :: u64
  assumes "lo64 w = word_of_int (uint a * take_bit 32 (uint b) * 2 ^ 32)"
  shows "(ucast (drop_bit 32 (lo64 w)) :: u32) = ucast a * ucast b"
proof -
  have "lo64 w = push_bit 32 (a * take_bit 32 b)"
    unfolding assms by (simp add: push_bit_eq_mult unsigned_take_bit_eq [symmetric] mult.commute)
  then have "(ucast (drop_bit 32 (lo64 w)) :: u32) = ucast (a * take_bit 32 b)"
    by (intro bit_word_eqI) (auto simp: bit_simps)
  also have "\<dots> = ucast a * ucast (take_bit 32 b)"
    by (simp add: unsigned_ucast_eq word_uint_eq_iff uint_word_ariths take_bit_eq_mod mod_simps
        mod_mod_cancel)
  also have "(ucast (take_bit 32 b) :: u32) = ucast b"
    by (rule bit_word_eqI) (simp add: bit_simps)
  finally show ?thesis .
qed

lemma mul_result_lemma:
  assumes "opr \<in> {MUL, MULH, MULHU, MULHSU}" "word \<longrightarrow> opr = MUL"
    and "uint (mdu_state s) = mul_part (mdu_request opr word a b) a b (if word then 32 else 64) mod 2 ^ 128"
  shows "mdu_rd (mdu_request opr word a b) s = isa_mul opr word a b"
proof (cases word)
  case True
  with assms lo64_eq [OF assms(3)] have "lo64 (mdu_state s) = word_of_int (uint a * take_bit 32 (uint b) * 2 ^ 32)"
    by (simp add: mul_part_def mul_lhs_def mul_bits_def)
  from word_product [OF this] True assms show ?thesis
    by (simp add: mdu_rd_def result_mul_def isa_mul_def sext32_def)
next
  case False
  with assms hi64_eq [OF assms(3)] lo64_eq [OF assms(3)] show ?thesis
    by (auto simp: mdu_rd_def result_mul_def isa_mul_def mul_part_def mul_lhs_def mul_bits_def
        take_bit_64_uint)
qed

lemma mul_delivers_lemma:
  assumes "mdu_idle s" "opr \<in> {MUL, MULH, MULHU, MULHSU}" "word \<longrightarrow> opr = MUL"
  shows "mdu_delivers (mdu_request opr word a b) s (if word then 10 else 18) (isa_mul opr word a b)"
proof -
  let ?x = "mdu_request opr word a b"
  define n where "n = mdu_width ?x div 4"
  have w: "mdu_width ?x = 4 * n" "mdu_width ?x = (if word then 32 else 64)"
    by (simp_all add: mdu_width_def n_def)
  note req = mul_request_req [OF assms(2,3)]
  have inv: "mul_inv ?x (4 * j) (mdu_cycles (Suc j) ?x s)" if "j \<le> n" for j
    using mul_inv_cycles [OF req assms(1)] that w(1) by simp
  let ?t = "mdu_cycles (Suc n) ?x s"
  have t: "mdu_cycles (Suc (Suc n)) ?x s = mdu_step ?x ?t" by (rule mdu_cycles_step)
  have last: "mul_inv ?x (mdu_width ?x) ?t" using inv [of n] w(1) by simp
  note fin = mul_finish [OF req last]
  have "mdu_delivers ?x s (Suc (Suc n)) (isa_mul opr word a b)"
  proof (rule mdu_deliversI)
    fix j assume "j < Suc (Suc n)"
    then show "\<not> mdu_ready ?x (mdu_cycles j ?x s)"
      using inv [of "j - 1"] assms by (cases j) (auto simp: mdu_ready_def mul_inv_def mdu_idle_def)
  next
    show "mdu_step ?x (mdu_cycles (Suc (Suc n)) ?x s) = mdu_cycles (Suc (Suc n)) ?x s"
      unfolding t by (rule mul_settled_step [OF req fin(1)])
    show "mdu_ready ?x (mdu_cycles (Suc (Suc n)) ?x s)"
      unfolding t using fin(1) assms by (auto simp: mdu_ready_def mul_settled_def)
    have "uint (mdu_state ?t) = mul_part ?x a b (if word then 32 else 64) mod 2 ^ 128"
      using last unfolding w(2) mul_inv_def mdu_request_fields by blast
    then show "mdu_rd ?x (mdu_cycles (Suc (Suc n)) ?x s) = isa_mul opr word a b"
      unfolding t by (intro mul_result_lemma [OF assms(2,3)]) (simp only: fin(2))
  qed
  moreover have "Suc (Suc n) = (if word then 10 else 18)" by (simp add: n_def w(2))
  ultimately show ?thesis by simp
qed

end
