(* ===== verification/Mdu_Clmul.thy ===== *)
theory Mdu_Clmul
  imports Mdu
begin

text \<open>
  Correctness of the carry-less multiplier of the multiply/divide unit: after \<open>k\<close> bits the
  accumulator is the partial carry-less product shifted left by \<open>64 - k\<close>.
\<close>

definition clm_part :: "u64 \<Rightarrow> u64 \<Rightarrow> nat \<Rightarrow> 128 word" where
  "clm_part a b k =
     fold (\<lambda>i acc. if bit b i then acc XOR push_bit i (ucast a) else acc) [0..<k] 0"

lemma clm_part_0 [simp]: "clm_part a b 0 = 0"
  by (simp add: clm_part_def)

lemma clm_part_Suc:
  "clm_part a b (Suc k) =
     (if bit b k then clm_part a b k XOR push_bit k (ucast a) else clm_part a b k)"
  by (simp add: clm_part_def)

lemma isa_clmul_part: "isa_clmul a b = clm_part a b 64"
  by (simp add: isa_clmul_def clm_part_def)

lemma clm_part_high: "64 + k \<le> n \<Longrightarrow> \<not> bit (clm_part a b k) n"
  by (induction k) (auto simp: clm_part_Suc bit_simps dest: bit_imp_le_length)

lemma clmul_iter_shift:
  "clmul_iter a b j acc = drop_bit 1 (acc XOR push_bit 64 (ucast (if bit b j then a else 0)))"
proof (rule bit_word_eqI)
  fix n assume "n < LENGTH(128)"
  moreover have "\<not> bit acc 128" "\<not> bit a 64"
    using bit_imp_le_length [of acc 128] bit_imp_le_length [of a 64] by auto
  ultimately show "bit (clmul_iter a b j acc) n =
      bit (drop_bit 1 (acc XOR push_bit 64 (ucast (if bit b j then a else 0)))) n"
    by (cases "n = 127") (auto simp: clmul_iter_def hi64_def lo64_def bit_simps Let_def)
qed

lemma clm_iter:
  assumes "k < 64" "bit c j = bit b k"
  shows "clmul_iter a c j (push_bit (64 - k) (clm_part a b k)) = push_bit (64 - Suc k) (clm_part a b (Suc k))"
proof (rule bit_word_eqI)
  fix n assume "n < LENGTH(128)"
  then have n: "n < 128" by simp
  have top: "\<not> bit (clm_part a b k) (n + k - 63)" if "n = 127"
    using that clm_part_high [of k "64 + k"] by simp
  have e: "Suc n - (64 - k) = n - (63 - k)" "64 - Suc k = 63 - k" "Suc n - 64 = n - 63"
    using assms(1) by auto
  have f: "n - (63 - k) - k = n - 63" if "63 - k \<le> n" using assms(1) by auto
  have top': "n = 127 \<Longrightarrow> \<not> bit (clm_part a b k) (n - (63 - k))"
    using clm_part_high [of k "n - (63 - k)"] assms(1) by simp
  have a127: "\<not> bit a (n - 63)" if "n = 127"
    using that bit_imp_le_length [of a 64] by auto
  show "bit (clmul_iter a c j (push_bit (64 - k) (clm_part a b k))) n =
      bit (push_bit (64 - Suc k) (clm_part a b (Suc k))) n"
    using n assms f top' a127
    by (cases "n = 127") (auto simp: clmul_iter_shift clm_part_Suc bit_simps e)
qed

text \<open>A carry-less request whose inputs are held; it is never a word operation.\<close>

definition clmul_request :: "mdu_in \<Rightarrow> bool" where
  "clmul_request x \<longleftrightarrow> \<not> mdu_clear x \<and> mdu_valid x \<and> any_clmul x \<and> \<not> any_div x \<and> \<not> any_mul x \<and> \<not> op_word x"

definition clmul_inv :: "mdu_in \<Rightarrow> nat \<Rightarrow> mdu \<Rightarrow> bool" where
  "clmul_inv x k s \<longleftrightarrow> clmul_run s \<and> mdu_run s \<and> \<not> clmul_done s \<and> \<not> div_run s \<and> \<not> div_start s \<and>
     \<not> mul_run s \<and> k \<le> 64 \<and> 8 dvd k \<and> mdu_ctr s = of_nat (64 - k) \<and>
     s_rs1 s = mdu_rs1 x \<and> s_rs2 s = drop_bit k (mdu_rs2 x) \<and>
     mdu_state s = push_bit (64 - k) (clm_part (mdu_rs1 x) (mdu_rs2 x) k)"

lemma clmul_state_val:
  assumes v: "clmul_inv x k s" and k: "k < 64"
  shows "n_clmul_state s = push_bit (64 - (k + 8)) (clm_part (mdu_rs1 x) (mdu_rs2 x) (k + 8))"
proof -
  have "8 dvd 64 - k" using v by (simp add: clmul_inv_def)
  then have le: "k + 8 \<le> 64" using k dvd_imp_le [of 8 "64 - k"] by simp
  have "fold (clmul_iter (s_rs1 s) (s_rs2 s)) [0..<n] (mdu_state s) =
      push_bit (64 - (k + n)) (clm_part (mdu_rs1 x) (mdu_rs2 x) (k + n))" if "n \<le> 8" for n
    using that
  proof (induction n)
    case 0
    show ?case using v by (simp add: clmul_inv_def)
  next
    case (Suc n)
    then show ?case
      using v le clm_iter [of "k + n" "s_rs2 s" n "mdu_rs2 x" "mdu_rs1 x"]
      by (simp add: clmul_inv_def bit_drop_bit_eq add.commute)
  qed
  then show ?thesis by (simp add: n_clmul_state_def CLMUL_UNROLL_def)
qed

lemma clmul_ctr:
  assumes "clmul_inv x k s" "k < 64"
  shows "mdu_ctr s \<noteq> 0" "mdu_ctr s - 8 = of_nat (64 - (k + 8))" "k + 8 \<le> 64"
proof -
  have "8 dvd 64 - k" using assms by (simp add: clmul_inv_def)
  then show le: "k + 8 \<le> 64" using assms dvd_imp_le [of 8 "64 - k"] by simp
  have ctr: "mdu_ctr s = of_nat (64 - k)" using assms(1) unfolding clmul_inv_def by blast
  have "unat (mdu_ctr s) = 64 - k" unfolding ctr by (rule unat_of_nat_id) simp
  then show "mdu_ctr s \<noteq> 0" using assms(2) by auto
  have "(of_nat (64 - (k + 8)) :: 7 word) = of_nat (64 - k) - of_nat 8"
    using le by (simp add: of_nat_diff flip: diff_diff_left)
  then show "mdu_ctr s - 8 = of_nat (64 - (k + 8))" unfolding ctr by simp
qed

lemma clmul_inv_step:
  assumes r: "clmul_request x" and v: "clmul_inv x k s" and k: "k < 64"
  shows "clmul_inv x (k + 8) (mdu_step x s)"
proof -
  note c = clmul_ctr [OF v k]
  have n: "\<not> n_div_start x s" "\<not> mul_start x s" "\<not> clmul_start x s" "\<not> n_clmul_done s"
    using v r c by (simp_all add: n_div_start_def mul_start_def clmul_start_def n_clmul_done_def
        clmul_inv_def CLMUL_END_def clmul_request_def)
  show ?thesis
    using v r c n clmul_state_val [OF v k] unfolding clmul_inv_def clmul_request_def
    by (simp add: step_args_def step_ctr_def step_mul_def step_div_def step_clmul_def mdu_start_def
        CLMUL_END_def CLMUL_UNROLL_def add.commute drop_bit_drop_bit)
qed

lemma clmul_inv_start:
  assumes "clmul_request x" "mdu_idle s"
  shows "clmul_inv x 0 (mdu_step x s)"
  using assms
  by (simp add: clmul_inv_def clmul_request_def mdu_idle_def step_args_def step_ctr_def step_mul_def
      step_div_def step_clmul_def clmul_start_def mdu_start_def mul_start_def n_div_start_def)

definition clmul_settled :: "mdu \<Rightarrow> bool" where
  "clmul_settled s \<longleftrightarrow> clmul_done s \<and> \<not> clmul_run s \<and> \<not> mdu_run s \<and> \<not> div_run s \<and> \<not> div_start s \<and> \<not> mul_run s"

lemma clmul_settled_step:
  assumes "clmul_request x" "clmul_settled s"
  shows "mdu_step x s = s"
  using assms
  by (cases s) (simp add: clmul_settled_def clmul_request_def mdu_step_def step_args_def step_ctr_def
      step_mul_def step_clmul_def step_div_def mdu_start_def mul_start_def clmul_start_def n_div_start_def)

lemma clmul_finish:
  assumes "clmul_request x" "clmul_inv x 64 s"
  shows "clmul_settled (mdu_step x s)" "mdu_state (mdu_step x s) = mdu_state s"
  using assms
  by (simp_all add: clmul_settled_def clmul_inv_def clmul_request_def step_args_def step_ctr_def
      step_mul_def step_clmul_def step_div_def mdu_start_def mul_start_def clmul_start_def
      n_div_start_def n_clmul_done_def CLMUL_END_def CLMUL_UNROLL_def)

lemma clmul_inv_cycles:
  assumes "clmul_request x" "mdu_idle s" "j \<le> 8"
  shows "clmul_inv x (8 * j) (mdu_cycles (Suc j) x s)"
  using assms(3)
proof (induction j)
  case 0
  show ?case using clmul_inv_start [OF assms(1,2)] by (simp add: mdu_cycles_Suc)
next
  case (Suc j)
  then have "clmul_inv x (8 * j + 8) (mdu_step x (mdu_cycles (Suc j) x s))"
    by (intro clmul_inv_step [OF assms(1)]) simp_all
  then show ?case by (simp add: mdu_cycles_def algebra_simps)
qed

lemma clmul_delivers_lemma:
  assumes "mdu_idle s" "opr \<in> {CLMUL, CLMULH}"
  shows "mdu_delivers (mdu_request opr False a b) s 10 (isa_mul opr False a b)"
proof -
  let ?x = "mdu_request opr False a b"
  let ?t = "mdu_cycles (Suc 8) ?x s"
  have req: "clmul_request ?x" using assms(2) by (auto simp: clmul_request_def)
  have t: "mdu_cycles (Suc (Suc 8)) ?x s = mdu_step ?x ?t" by (rule mdu_cycles_step)
  have last: "clmul_inv ?x 64 ?t" using clmul_inv_cycles [OF req assms(1), of 8] by simp
  note fin = clmul_finish [OF req last]
  have "mdu_delivers ?x s (Suc (Suc 8)) (isa_mul opr False a b)"
  proof (rule mdu_deliversI)
    fix j assume "j < Suc (Suc 8)"
    then show "\<not> mdu_ready ?x (mdu_cycles j ?x s)"
      using clmul_inv_cycles [OF req assms(1), of "j - 1"] assms
      by (cases j) (auto simp: mdu_ready_def clmul_inv_def mdu_idle_def)
  next
    show "mdu_step ?x (mdu_cycles (Suc (Suc 8)) ?x s) = mdu_cycles (Suc (Suc 8)) ?x s"
      unfolding t by (rule clmul_settled_step [OF req fin(1)])
    show "mdu_ready ?x (mdu_cycles (Suc (Suc 8)) ?x s)"
      unfolding t using fin(1) assms by (auto simp: mdu_ready_def clmul_settled_def)
    have "mdu_state (mdu_step ?x ?t) = isa_clmul a b"
      using last unfolding fin(2) by (simp add: clmul_inv_def isa_clmul_part)
    then show "mdu_rd ?x (mdu_cycles (Suc (Suc 8)) ?x s) = isa_mul opr False a b"
      unfolding t using assms(2) by (auto simp: mdu_rd_def result_clmul_def isa_mul_def simp del: mdu_step_fields)
  qed
  then show ?thesis by simp
qed

end
