(* ===== verification/Mdu_Div.thy ===== *)
theory Mdu_Div
  imports Mdu_Mul
begin

text \<open>
  Correctness of the restoring divider of the multiply/divide unit. The loop works on the
  magnitudes of the operands: with \<open>c\<close> quotient bits to go, dividend register plus quotient
  register times the divisor is the magnitude of \<open>rs1\<close>, and what is left in the dividend is
  less than the divisor shifted by \<open>c\<close>. A zero divisor sets every quotient bit.
\<close>

section \<open>Magnitudes\<close>

definition mag :: "bool \<Rightarrow> 'a::len word \<Rightarrow> int" where
  "mag sg w = (if sg \<and> sint w < 0 then - sint w else uint w)"

lemma uint_neg:
  fixes w :: "'a::len word"
  assumes "sint w < 0"
  shows "uint (- w) = - sint w"
proof -
  have "- sint w \<le> 2 ^ (LENGTH('a) - 1)" using sint_greater_eq [of w] by simp
  moreover have "(2 :: int) ^ (LENGTH('a) - 1) < 2 ^ LENGTH('a)" by (rule power_strict_increasing) simp_all
  ultimately have lt: "- sint w < 2 ^ LENGTH('a)" by linarith
  have "uint (- w) = uint (word_of_int (- sint w) :: 'a word)" by simp
  also have "\<dots> = (- sint w) mod 2 ^ LENGTH('a)" by (simp only: uint_word_of_int)
  also have "\<dots> = - sint w" using assms lt by simp
  finally show ?thesis .
qed

lemma mag_bounds: "0 \<le> mag sg w" "mag sg (w :: 'a::len word) < 2 ^ LENGTH('a)"
proof -
  show "0 \<le> mag sg w" by (simp add: mag_def)
  show "mag sg w < 2 ^ LENGTH('a)"
    by (metis mag_def uint_neg unsigned_less)
qed

lemma mag_zero: "mag sg w = 0 \<longleftrightarrow> w = 0"
  by (auto simp: mag_def uint_0_iff)

lemma sint_neg_uint: "sint (w :: 'a::len word) \<ge> 0 \<Longrightarrow> uint w = sint w"
proof -
  assume "sint w \<ge> 0"
  moreover have "sint w < 2 ^ (LENGTH('a) - 1)" using sint_less [of w] by simp
  moreover have "(2 :: int) ^ (LENGTH('a) - 1) < 2 ^ LENGTH('a)" by (rule power_strict_increasing) simp_all
  ultimately have "(sint w) mod 2 ^ LENGTH('a) = sint w" by (intro mod_pos_pos_trivial) linarith+
  then show ?thesis using uint_word_of_int [of "sint w", where 'a = 'a] by simp
qed

lemma mag_abs: "mag True w = \<bar>sint w\<bar>"
  by (simp add: mag_def sint_neg_uint)

lemma mag_uint: "mag False w = uint w"
  by (simp add: mag_def)

section \<open>From magnitudes to the instruction set\<close>

definition with_sign :: "bool \<Rightarrow> int \<Rightarrow> 'a::len word" where
  "with_sign neg m = word_of_int (if neg then - m else m)"

lemma with_sign_ones: "with_sign False (2 ^ LENGTH('a) - 1) = (- 1 :: 'a::len word)"
proof -
  have "(word_of_int (2 ^ LENGTH('a)) :: 'a word) = 0" by (simp add: word_of_int_2p_len)
  then show ?thesis by (simp add: with_sign_def)
qed

lemma quot_abs: "quot m n = (if (m < 0) \<noteq> (n < 0) then - (\<bar>m\<bar> div \<bar>n\<bar>) else \<bar>m\<bar> div \<bar>n\<bar>)"
  by (cases "m = 0"; cases "n = 0") (auto simp: quot_def sgn_if)

lemma rem_abs: "m - n * quot m n = (if m < 0 then - (\<bar>m\<bar> mod \<bar>n\<bar>) else \<bar>m\<bar> mod \<bar>n\<bar>)"
  unfolding quot_abs minus_mult_div_eq_mod [symmetric] by (auto simp: abs_if)

lemma isa_quot_mag:
  "isa_quot A B = (if B = 0 then - 1
     else with_sign ((sint A < 0) \<noteq> (sint B < 0)) (mag True A div mag True B))"
  by (simp add: isa_quot_def with_sign_def quot_abs mag_abs)

lemma isa_rem_mag:
  "isa_rem A B = (if B = 0 then A else with_sign (sint A < 0) (mag True A mod mag True B))"
  by (simp add: isa_rem_def with_sign_def rem_abs mag_abs)

lemma isa_quotu_mag:
  "isa_quotu A B = (if B = 0 then - 1 else with_sign False (mag False A div mag False B))"
  by (simp add: isa_quotu_def with_sign_def mag_uint word_div_def)

lemma isa_remu_mag:
  "isa_remu A B = (if B = 0 then A else with_sign False (mag False A mod mag False B))"
  by (simp add: isa_remu_def with_sign_def mag_uint word_mod_def)

lemma with_sign_mag: "with_sign (sg \<and> sint A < 0) (mag sg A) = A"
  by (simp add: with_sign_def mag_def)

text \<open>What the registers hold when the loop is over, on operands of width \<open>'a\<close>.\<close>

definition div_final :: "bool \<Rightarrow> 'a::len word \<Rightarrow> 'a word \<Rightarrow> int \<Rightarrow> int \<Rightarrow> bool" where
  "div_final sg A B q r \<longleftrightarrow>
     (if B = 0 then q = 2 ^ LENGTH('a) - 1 \<and> r = mag sg A
      else q = mag sg A div mag sg B \<and> r = mag sg A mod mag sg B)"

lemma div_final_isa:
  assumes "div_final (opr \<in> {DIV, REM}) A B q r" "opr \<in> {DIV, DIVU, REM, REMU}"
  shows "isa_div_at opr A B =
    (if opr \<in> {DIV, DIVU}
     then with_sign (opr = DIV \<and> (sint A < 0) \<noteq> (sint B < 0) \<and> B \<noteq> 0) q
     else with_sign (opr = REM \<and> sint A < 0) r)"
  using assms with_sign_mag [of True A] with_sign_mag [of False A]
  by (cases opr) (auto simp: div_final_def isa_div_at_def isa_quot_mag isa_quotu_mag isa_rem_mag
      isa_remu_mag with_sign_ones split: if_splits)

section \<open>One quotient bit\<close>

text \<open>The loop invariant on integers: \<open>c\<close> bits to go, \<open>n\<close> in all.\<close>

definition div_loop :: "nat \<Rightarrow> int \<Rightarrow> int \<Rightarrow> nat \<Rightarrow> int \<Rightarrow> int \<Rightarrow> bool" where
  "div_loop n a b c q r \<longleftrightarrow>
     0 \<le> q \<and> q < 2 ^ n \<and> 2 ^ c dvd q \<and> 0 \<le> r \<and> a = q * b + r \<and>
     (if b = 0 then q = 2 ^ n - 2 ^ c else r < b * 2 ^ c)"

lemma div_loop_start: "0 \<le> a \<Longrightarrow> a < 2 ^ n \<Longrightarrow> 0 \<le> b \<Longrightarrow> div_loop n a b n 0 a"
proof -
  assume a: "0 \<le> a" "a < 2 ^ n" and b: "0 \<le> b"
  have "a < b * 2 ^ n" if "b \<noteq> 0"
  proof -
    have "1 * 2 ^ n \<le> b * 2 ^ n" using that b by (intro mult_right_mono) simp_all
    with a show ?thesis by linarith
  qed
  with a show ?thesis by (auto simp: div_loop_def)
qed

lemma div_loop_step:
  assumes "div_loop n a b (Suc c) q r" "Suc c \<le> n"
  shows "if b * 2 ^ c \<le> r then div_loop n a b c (q + 2 ^ c) (r - b * 2 ^ c) else div_loop n a b c q r"
proof -
  obtain k where k: "q = 2 ^ Suc c * k" using assms(1) by (auto simp: div_loop_def)
  have "k < 2 ^ (n - Suc c)"
  proof -
    have "2 ^ Suc c * k < 2 ^ Suc c * 2 ^ (n - Suc c)"
      using assms k by (simp add: div_loop_def power_add [symmetric] del: power_Suc)
    then show ?thesis by simp
  qed
  then have "2 ^ Suc c * (k + 1) \<le> 2 ^ Suc c * 2 ^ (n - Suc c)" by (intro mult_left_mono) simp_all
  then have "q + 2 ^ Suc c \<le> 2 ^ n"
    using assms(2) k by (simp add: power_add [symmetric] algebra_simps del: power_Suc)
  then have q: "q + 2 ^ c < 2 ^ n" using zero_less_power [of "2 :: int" c] by (simp only: power_Suc) linarith
  have d: "2 ^ c dvd q" using k by simp
  show ?thesis
    using assms(1) q d by (auto simp: div_loop_def algebra_simps)
qed

lemma div_loop_end:
  assumes "div_loop n a b 0 q r" "0 \<le> b"
  shows "if b = 0 then q = 2 ^ n - 1 \<and> r = a else q = a div b \<and> r = a mod b"
proof (cases "b = 0")
  case True
  with assms show ?thesis by (simp add: div_loop_def)
next
  case False
  with assms have "a = b * q + r" "0 \<le> r" "r < b" by (auto simp: div_loop_def mult.commute)
  with False show ?thesis by (simp add: div_pos_pos_trivial mod_pos_pos_trivial)
qed

section \<open>The divider runs\<close>

definition div_request :: "mdu_in \<Rightarrow> bool" where
  "div_request x \<longleftrightarrow> \<not> mdu_clear x \<and> mdu_valid x \<and> any_div x \<and> \<not> any_mul x \<and> \<not> any_clmul x"

text \<open>The magnitudes the divider works on: of the whole registers or of their low halves.\<close>

definition div_mag :: "mdu_in \<Rightarrow> u64 \<Rightarrow> int" where
  "div_mag x w = (if op_word x then mag (div_signed x) (ucast w :: u32) else mag (div_signed x) w)"

definition quiet_units :: "mdu \<Rightarrow> bool" where
  "quiet_units s \<longleftrightarrow> \<not> mul_run s \<and> \<not> clmul_run s \<and> \<not> div_done s"

definition div_armed :: "mdu_in \<Rightarrow> mdu \<Rightarrow> bool" where
  "div_armed x s \<longleftrightarrow> div_start s \<and> quiet_units s \<and> \<not> div_run s \<and>
     s_rs1 s = mdu_rs1 x \<and> s_rs2 s = mdu_rs2 x"

definition div_inv :: "mdu_in \<Rightarrow> nat \<Rightarrow> mdu \<Rightarrow> bool" where
  "div_inv x c s \<longleftrightarrow> div_run s \<and> mdu_run s \<and> \<not> div_start s \<and> quiet_units s \<and> c \<le> mdu_width x \<and>
     mdu_ctr s = of_nat c \<and> 2 * uint (mdu_state s) \<le> div_mag x (mdu_rs2 x) * 2 ^ c \<and>
     (c > 0 \<longrightarrow> 2 * uint (mdu_state s) = div_mag x (mdu_rs2 x) * 2 ^ c) \<and>
     div_loop (mdu_width x) (div_mag x (mdu_rs1 x)) (div_mag x (mdu_rs2 x)) c
       (uint (s_rs2 s)) (uint (s_rs1 s))"

lemma div_request_no_start:
  assumes "div_request x"
  shows "\<not> mul_start x s" "\<not> clmul_start x s" "any_div x" "\<not> any_mul x" "\<not> any_clmul x"
    "mdu_clear x = False" "mdu_valid x"
  using assms by (simp_all add: div_request_def mul_start_def clmul_start_def)

lemma div_arm:
  assumes "div_request x" "mdu_idle s"
  shows "div_armed x (mdu_step x s)"
proof -
  have "n_div_start x s" using assms by (simp add: n_div_start_def mdu_idle_def div_request_def)
  with assms div_request_no_start [OF assms(1)] show ?thesis
    by (simp add: div_armed_def quiet_units_def mdu_idle_def step_args_def step_div_def step_mul_def
        step_clmul_def n_dividend_def n_quotient_def)
qed

subsection \<open>The first divisor and dividend\<close>

lemma bit_31_low: "bit w 31 \<longleftrightarrow> sint (ucast (w :: u64) :: u32) < 0"
  using bit_last_iff [of "ucast w :: u32"] by (simp add: bit_simps)

lemma bit_63_sint: "bit w 63 \<longleftrightarrow> sint (w :: u64) < 0"
  using bit_last_iff [of w] by simp

lemma sint_sext32: "sint (sext32 w) = sint (ucast w :: u32)"
  by (simp add: sext32_def signed_scast_eq signed_take_bit_int_eq_self_iff)
    (use sint_greater_eq [of "ucast w :: u32"] sint_less [of "ucast w :: u32"] in simp)

lemma uint_neg_sext32: "sint (ucast w :: u32) < 0 \<Longrightarrow> uint (- sext32 w) = - sint (ucast w :: u32)"
  using uint_neg [of "sext32 w"] by (simp add: sint_sext32)

lemma and_low32: "uint (w AND 0xFFFFFFFF :: u64) = uint (ucast w :: u32)"
proof -
  have "w AND 0xFFFFFFFF = take_bit 32 w" by (simp add: take_bit_eq_mask mask_numeral)
  then show ?thesis by (simp add: unsigned_take_bit_eq unsigned_ucast_eq)
qed

lemma div_sign_sint:
  "div_sign_lhs x \<longleftrightarrow> div_signed x \<and> (if op_word x then sint (ucast (mdu_rs1 x) :: u32) < 0 else sint (mdu_rs1 x) < 0)"
  "div_sign_rhs x \<longleftrightarrow> div_signed x \<and> (if op_word x then sint (ucast (mdu_rs2 x) :: u32) < 0 else sint (mdu_rs2 x) < 0)"
  by (simp_all add: div_sign_lhs_def div_sign_rhs_def bit_31_low bit_63_sint)

lemma first_dividend:
  assumes "div_armed x s"
  shows "uint (if div_sign_lhs x then neg_rs1 x s else s_rs1 s AND div_lhs_mask x) = div_mag x (mdu_rs1 x)"
  using assms
  by (auto simp: div_armed_def div_sign_sint neg_rs1_def div_mag_def mag_def uint_neg
      uint_neg_sext32 div_lhs_mask_def and_low32)

lemma uint_ucast_128: "uint (ucast (w :: u64) :: 128 word) = uint w" "uint (ucast (v :: u32) :: 128 word) = uint v"
  by (simp_all add: uint_ucast_up)

lemma uint_push_128:
  assumes "uint (w :: 128 word) < 2 ^ 64" "n \<le> 64"
  shows "uint (push_bit n w) = uint w * 2 ^ n"
proof -
  have "uint w * 2 ^ n < 2 ^ 64 * 2 ^ n" using assms(1) by simp
  also have "\<dots> \<le> 2 ^ 64 * (2 :: int) ^ 64" using assms(2) by (intro mult_left_mono power_increasing) simp_all
  finally have "take_bit 128 (uint w * 2 ^ n) = uint w * 2 ^ n"
    by (simp add: take_bit_int_eq_self_iff)
  then show ?thesis by (subst unsigned_push_bit_eq) (simp add: push_bit_eq_mult)
qed

lemma uint_rep_neg:
  assumes "sint w < 0"
  shows "uint (- rep64 True w) = - sint w"
proof -
  have "rep64 True w = scast w"
  proof (rule bit_word_eqI)
    fix n assume "n < LENGTH(128)"
    then show "bit (rep64 True w) n = bit (scast w :: 128 word) n"
      using assms bit_63_sint [of w]
      by (cases "n < 63"; cases "n = 63")
        (auto simp: rep64_def bit_simps not_less min_def dest: bit_imp_le_length)
  qed
  moreover have "sint (scast w :: 128 word) = sint w"
    by (simp add: signed_scast_eq signed_take_bit_int_eq_self_iff)
      (use sint_greater_eq [of w] sint_less [of w] in simp)
  ultimately show ?thesis using uint_neg [of "scast w :: 128 word"] assms by simp
qed

lemma rep96_small:
  assumes "uint w \<le> 2 ^ 31"
  shows "uint (rep96 (bit w 32) w) = uint w"
proof -
  have "uint w div 2 ^ 32 = 0" using assms by simp
  then have "\<not> bit (uint w) 32" by (simp add: bit_iff_odd)
  then have "\<not> bit w 32" by (simp add: bit_uint_iff)
  moreover have "uint (ucast w :: u32) = uint w"
    using assms by (simp add: unsigned_ucast_eq take_bit_int_eq_self_iff)
  ultimately show ?thesis by (simp add: rep96_def uint_ucast_128)
qed

lemma first_divisor_word:
  assumes "div_armed x s" "op_word x"
  shows "uint (if div_sign_rhs x then rep96 (bit (neg_rs2 x s) 32) (neg_rs2 x s) else rep96 False (s_rs2 s)) =
    div_mag x (mdu_rs2 x)"
proof (cases "div_sign_rhs x")
  case True
  then have neg: "sint (ucast (mdu_rs2 x) :: u32) < 0" "div_signed x" using assms by (simp_all add: div_sign_sint)
  have "uint (neg_rs2 x s) = - sint (ucast (mdu_rs2 x) :: u32)"
    using assms neg by (simp add: neg_rs2_def div_armed_def uint_neg_sext32)
  moreover have "- sint (ucast (mdu_rs2 x) :: u32) \<le> 2 ^ 31"
    using sint_greater_eq [of "ucast (mdu_rs2 x) :: u32"] by simp
  ultimately show ?thesis
    using True assms neg rep96_small [of "neg_rs2 x s"] by (simp add: div_mag_def mag_def)
next
  case False
  with assms show ?thesis
    by (auto simp: div_sign_sint div_mag_def mag_def rep96_def uint_ucast_128 div_armed_def)
qed

lemma first_divisor_long:
  assumes "div_armed x s" "\<not> op_word x"
  shows "uint (if div_sign_rhs x then - rep64 (div_sign_rhs x) (s_rs2 s) else rep64 False (s_rs2 s)) =
    div_mag x (mdu_rs2 x)"
proof (cases "div_sign_rhs x")
  case True
  with assms show ?thesis by (simp add: div_sign_sint div_mag_def mag_def div_armed_def uint_rep_neg)
next
  case False
  with assms show ?thesis
    by (auto simp: div_sign_sint div_mag_def mag_def div_armed_def rep64_def uint_ucast_128)
qed

lemma div_mag_bounds: "0 \<le> div_mag x w" "div_mag x w < 2 ^ mdu_width x" "div_mag x w < 2 ^ 64"
proof -
  show "0 \<le> div_mag x w" by (simp add: div_mag_def mag_bounds)
  show "div_mag x w < 2 ^ mdu_width x"
    using mag_bounds(2) [of "div_signed x" w] mag_bounds(2) [of "div_signed x" "ucast w :: u32"]
    by (simp add: div_mag_def mdu_width_def)
  moreover have "(2 :: int) ^ mdu_width x \<le> 2 ^ 64" by (simp add: mdu_width_def)
  ultimately show "div_mag x w < 2 ^ 64" by linarith
qed

lemma first_divisor:
  assumes "div_armed x s"
  shows "2 * uint (n_divisor x s) = div_mag x (mdu_rs2 x) * 2 ^ mdu_width x"
proof -
  have st: "div_start s" "\<not> n_div_start x s" using assms by (simp_all add: div_armed_def n_div_start_def)
  note bound = div_mag_bounds(3) [of x "mdu_rs2 x"]
  show ?thesis
  proof (cases "op_word x")
    case True
    note d = first_divisor_word [OF assms True]
    show ?thesis using st True bound
      by (simp only: n_divisor_def if_True if_False) (subst uint_push_128; simp add: d mdu_width_def)
  next
    case False
    note d = first_divisor_long [OF assms False]
    show ?thesis using st False bound
      by (simp only: n_divisor_def if_True if_False) (subst uint_push_128; simp add: d mdu_width_def)
  qed
qed

lemma div_inv_start:
  assumes r: "div_request x" and a: "div_armed x s"
  shows "div_inv x (mdu_width x) (mdu_step x s)"
proof -
  have st: "div_start s" "\<not> n_div_start x s" "quiet_units s" "\<not> div_run s"
    using a by (simp_all add: div_armed_def n_div_start_def)
  have dd: "uint (n_dividend x s) = div_mag x (mdu_rs1 x)"
    using first_dividend [OF a] st by (simp add: n_dividend_def)
  have "div_loop (mdu_width x) (div_mag x (mdu_rs1 x)) (div_mag x (mdu_rs2 x)) (mdu_width x) 0 (div_mag x (mdu_rs1 x))"
    by (intro div_loop_start div_mag_bounds)
  then show ?thesis
    using st div_request_no_start [OF r] first_divisor [OF a] dd
    by (simp add: div_inv_def quiet_units_def step_args_def step_ctr_def step_div_def step_mul_def
        step_clmul_def mdu_start_def n_quotient_def mdu_width_def)
qed

subsection \<open>The loop\<close>

lemma qmask_val:
  assumes "mdu_ctr s = of_nat (Suc c)" "c < 64"
  shows "qmask s = push_bit c 1"
proof -
  have "unat (mdu_ctr s) = Suc c" unfolding assms(1) by (rule unat_of_nat_id) (use assms(2) in simp)
  moreover have "ucast (mdu_ctr s) = (of_nat (unat (mdu_ctr s)) :: u32)" by simp
  ultimately have "ucast (mdu_ctr s) = (of_nat (Suc c) :: u32)" by (simp only:)
  then have "ucast (mdu_ctr s) - 1 = (of_nat c :: u32)" by simp
  then show ?thesis using assms(2) by (simp add: qmask_def unat_of_nat_id)
qed

lemma or_qmask:
  assumes "2 ^ Suc c dvd uint (w :: u64)" "c < 64"
  shows "uint (w OR push_bit c 1) = uint w + 2 ^ c"
proof -
  have b: "uint (push_bit c 1 :: u64) = 2 ^ c"
  proof -
    have "(2 :: int) ^ c < 2 ^ 64" using assms(2) by (intro power_strict_increasing) simp_all
    then show ?thesis by (subst unsigned_push_bit_eq) (simp add: push_bit_eq_mult take_bit_int_eq_self_iff assms(2))
  qed
  have "uint w mod 2 ^ Suc c = 0" using assms(1) by (simp add: dvd_eq_mod_eq_0)
  then show ?thesis using assms(2) by (subst uint_or_disjoint [of _ "Suc c"]) (simp_all add: b [simplified])
qed

lemma div_inv_step:
  assumes r: "div_request x" and v: "div_inv x (Suc c) s"
  shows "div_inv x c (mdu_step x s)"
proof -
  let ?b = "div_mag x (mdu_rs2 x)" and ?q = "uint (s_rs2 s)" and ?r = "uint (s_rs1 s)"
  have st: "div_run s" "mdu_run s" "\<not> div_start s" "quiet_units s" "Suc c \<le> mdu_width x"
    "mdu_ctr s = of_nat (Suc c)" "2 * uint (mdu_state s) = ?b * 2 ^ Suc c"
    and lp: "div_loop (mdu_width x) (div_mag x (mdu_rs1 x)) ?b (Suc c) ?q ?r"
    using v unfolding div_inv_def by simp_all
  have c: "c < 64" using st(5) by (simp add: mdu_width_def split: if_splits)
  have V: "uint (mdu_state s) = ?b * 2 ^ c" using st(7) by simp
  have ctr: "unat (mdu_ctr s) = Suc c" unfolding st(6) by (rule unat_of_nat_id) (use c in simp)
  then have ctr0: "mdu_ctr s \<noteq> 0" by auto
  have ctr1: "mdu_ctr s - 1 = of_nat c" unfolding st(6) by simp
  have n: "\<not> n_div_start x s" "\<not> n_div_done s"
    using st ctr0 by (simp_all add: n_div_start_def n_div_done_def)
  have less: "div_less s \<longleftrightarrow> ?b * 2 ^ c \<le> ?r"
    by (simp add: div_less_def word_le_def uint_ucast_128 V)
  have dvd: "2 ^ Suc c dvd ?q" using lp by (simp add: div_loop_def)
  have quo: "uint (n_quotient x s) = (if div_less s then ?q + 2 ^ c else ?q)"
    using st n by (simp add: n_quotient_def qmask_val [OF st(6) c] or_qmask [OF dvd c, simplified])
  have dvd': "uint (n_dividend x s) = (if div_less s then ?r - ?b * 2 ^ c else ?r)"
  proof (cases "div_less s")
    case True
    then have le: "uint (mdu_state s) \<le> ?r" by (simp add: less V)
    moreover have "?r < 2 ^ 64" using unsigned_less [of "s_rs1 s"] by simp
    ultimately have lo: "uint (lo64 (mdu_state s)) = uint (mdu_state s)"
      by (simp add: uint_lo64)
    then have "uint (s_rs1 s - lo64 (mdu_state s)) = ?r - uint (mdu_state s)"
      using le by (simp add: uint_sub_if' lo)
    with True st n show ?thesis by (simp add: n_dividend_def V)
  next
    case False
    with st n show ?thesis by (simp add: n_dividend_def)
  qed
  have acc: "uint (n_divisor x s) = ?b * 2 ^ c div 2"
    using st n by (simp add: n_divisor_def drop_bit_eq_div uint_div V)
  have acc2: "c > 0 \<Longrightarrow> 2 * (?b * 2 ^ c div 2) = ?b * 2 ^ c" by (cases c) simp_all
  have loop: "div_loop (mdu_width x) (div_mag x (mdu_rs1 x)) ?b c
      (uint (n_quotient x s)) (uint (n_dividend x s))"
    using div_loop_step [OF lp st(5)] unfolding quo dvd' less by (simp split: if_splits)
  have regs: "step_args x s = (n_dividend x s, n_quotient x s, n_divisor x s)"
    using st div_request_no_start [OF r] by (simp add: step_args_def)
  have cnt: "step_ctr x s = (True, mdu_done s, of_nat c)"
    using st ctr0 ctr1 div_request_no_start [OF r] by (simp add: step_ctr_def mdu_start_def)
  have flags: "step_div x s = (True, div_done s)" "step_mul x s = (False, mul_done s)"
    "step_clmul x s = (False, clmul_done s)"
    using st ctr0 div_request_no_start [OF r]
    by (simp_all add: step_div_def step_mul_def step_clmul_def quiet_units_def)
  show ?thesis
    using st n loop acc acc2 unfolding div_inv_def quiet_units_def
    by (simp add: regs cnt flags)
qed

definition div_settled :: "mdu \<Rightarrow> bool" where
  "div_settled s \<longleftrightarrow> div_done s \<and> \<not> div_run s \<and> \<not> mdu_run s \<and> \<not> div_start s \<and> \<not> mul_run s \<and> \<not> clmul_run s"

lemma div_settled_step:
  assumes "div_request x" "div_settled s"
  shows "mdu_step x s = s"
  using assms
  by (cases s) (simp add: div_settled_def div_request_def mdu_step_def step_args_def step_ctr_def
      step_mul_def step_clmul_def step_div_def mdu_start_def mul_start_def clmul_start_def n_div_start_def)

lemma div_finish:
  assumes "div_request x" "div_inv x 0 s"
  shows "div_settled (mdu_step x s)" "s_rs1 (mdu_step x s) = s_rs1 s" "s_rs2 (mdu_step x s) = s_rs2 s"
  using assms
  by (simp_all add: div_settled_def div_inv_def quiet_units_def div_request_def step_args_def
      step_ctr_def step_mul_def step_clmul_def step_div_def mdu_start_def mul_start_def
      clmul_start_def n_div_start_def n_div_done_def n_dividend_def n_quotient_def)

lemma div_inv_cycles:
  assumes "div_request x" "mdu_idle s" "c \<le> mdu_width x"
  shows "div_inv x (mdu_width x - c) (mdu_cycles (Suc (Suc c)) x s)"
  using assms(3)
proof (induction c)
  case 0
  show ?case
    using div_inv_start [OF assms(1) div_arm [OF assms(1,2)]] by (simp add: mdu_cycles_Suc)
next
  case (Suc c)
  then have "div_inv x (Suc (mdu_width x - Suc c)) (mdu_cycles (Suc (Suc c)) x s)"
    by (simp add: Suc_diff_Suc)
  from div_inv_step [OF assms(1) this] show ?case by (subst mdu_cycles_step) simp
qed

section \<open>Quotient and remainder\<close>

lemma div_request_req:
  "opr \<in> {DIV, DIVU, REM, REMU} \<Longrightarrow> div_request (mdu_request opr word a b)"
  by (auto simp: div_request_def)

lemma div_rs2_nz_iff:
  "div_rs2_nz x \<longleftrightarrow> (if op_word x then (ucast (mdu_rs2 x) :: u32) \<noteq> 0 else mdu_rs2 x \<noteq> 0)"
proof -
  have "w = 0" if "(ucast w :: u32) = 0" "(ucast (drop_bit 32 w) :: u32) = 0" for w :: u64
  proof (rule bit_word_eqI)
    fix n assume n: "n < LENGTH(64)"
    have "bit (ucast w :: u32) n = bit 0 n" "bit (ucast (drop_bit 32 w) :: u32) (n - 32) = bit 0 (n - 32)"
      using that by simp_all
    with n show "bit w n = bit 0 n" by (cases "n < 32") (simp_all add: bit_simps)
  qed
  then show ?thesis by (auto simp: div_rs2_nz_def Let_def)
qed

lemma ucast_signed_low:
  "(ucast (if neg then - w else w) :: u32) = with_sign neg (uint (w :: u64))"
proof -
  have w: "w = word_of_int (uint w)" by simp
  have "(ucast (word_of_int k :: u64) :: u32) = word_of_int k" for k
    by (rule bit_word_eqI) (simp add: bit_simps)
  then have "(ucast (word_of_int (if neg then - uint w else uint w) :: u64) :: u32) = with_sign neg (uint w)"
    by (simp only: with_sign_def)
  moreover have "(word_of_int (if neg then - uint w else uint w) :: u64) = (if neg then - w else w)" by simp
  ultimately show ?thesis by (simp only:)
qed

lemma div_final_cast:
  assumes "div_loop (mdu_width x) (div_mag x a) (div_mag x b) 0 q r"
  shows "if op_word x then div_final (div_signed x) (ucast a :: u32) (ucast b) q r
    else div_final (div_signed x) a b q r"
  using div_loop_end [OF assms div_mag_bounds(1)]
  by (simp add: div_final_def div_mag_def mdu_width_def mag_zero split: if_splits)

lemma div_result_lemma:
  assumes opr: "opr \<in> {DIV, DIVU, REM, REMU}"
    and lp: "div_loop (mdu_width (mdu_request opr word a b)) (div_mag (mdu_request opr word a b) a)
      (div_mag (mdu_request opr word a b) b) 0 (uint (s_rs2 s)) (uint (s_rs1 s))"
  shows "mdu_rd (mdu_request opr word a b) s = isa_div opr word a b"
proof -
  let ?x = "mdu_request opr word a b"
  have rd: "mdu_rd ?x s = result_div ?x s" using opr by (auto simp: mdu_rd_def)
  have "result_div ?x s = isa_div opr word a b"
  proof (cases word)
    case True
    then have "div_final (opr \<in> {DIV, REM}) (ucast a :: u32) (ucast b) (uint (s_rs2 s)) (uint (s_rs1 s))"
      using div_final_cast [OF lp] by simp
    from div_final_isa [OF this opr] True opr show ?thesis
      by (auto simp: result_div_def Let_def sext32_def ucast_signed_low isa_div_def div_outsign_def
          div_sign_sint div_rs2_nz_iff)
  next
    case False
    then have "div_final (opr \<in> {DIV, REM}) a b (uint (s_rs2 s)) (uint (s_rs1 s))"
      using div_final_cast [OF lp] by simp
    from div_final_isa [OF this opr] False opr show ?thesis
      by (auto simp: result_div_def Let_def isa_div_def div_outsign_def with_sign_def
          div_sign_sint div_rs2_nz_iff)
  qed
  then show ?thesis by (simp only: rd)
qed

lemma div_delivers_lemma:
  assumes "mdu_idle s" "opr \<in> {DIV, DIVU, REM, REMU}"
  shows "mdu_delivers (mdu_request opr word a b) s (if word then 35 else 67) (isa_div opr word a b)"
proof -
  let ?x = "mdu_request opr word a b"
  define n where "n = mdu_width ?x"
  note req = div_request_req [OF assms(2)]
  have inv: "div_inv ?x (n - c) (mdu_cycles (Suc (Suc c)) ?x s)" if "c \<le> n" for c
    using div_inv_cycles [OF req assms(1)] that unfolding n_def by blast
  let ?t = "mdu_cycles (Suc (Suc n)) ?x s"
  have t: "mdu_cycles (Suc (Suc (Suc n))) ?x s = mdu_step ?x ?t" by (rule mdu_cycles_step)
  have last: "div_inv ?x 0 ?t" using inv [of n] by simp
  note fin = div_finish [OF req last]
  have any: "mdu_ready ?x u = div_done u" for u using assms(2) by (auto simp: mdu_ready_def)
  have "mdu_delivers ?x s (Suc (Suc (Suc n))) (isa_div opr word a b)"
  proof (rule mdu_deliversI)
    fix j assume j: "j < Suc (Suc (Suc n))"
    consider "j = 0" | "j = 1" | c where "j = Suc (Suc c)" "c \<le> n"
      using j by (cases j; cases "j - 1") auto
    then show "\<not> mdu_ready ?x (mdu_cycles j ?x s)"
    proof cases
      case 1
      then show ?thesis using assms(1) by (simp add: any mdu_idle_def)
    next
      case 2
      then show ?thesis using div_arm [OF req assms(1)]
        by (simp add: any mdu_cycles_Suc div_armed_def quiet_units_def)
    next
      case 3
      then show ?thesis using inv [of c] by (simp add: any div_inv_def quiet_units_def)
    qed
  next
    show "mdu_step ?x (mdu_cycles (Suc (Suc (Suc n))) ?x s) = mdu_cycles (Suc (Suc (Suc n))) ?x s"
      unfolding t by (rule div_settled_step [OF req fin(1)])
    show "mdu_ready ?x (mdu_cycles (Suc (Suc (Suc n))) ?x s)"
      unfolding t any using fin(1) unfolding div_settled_def by blast
    have "div_loop (mdu_width ?x) (div_mag ?x a) (div_mag ?x b) 0 (uint (s_rs2 ?t)) (uint (s_rs1 ?t))"
      using last unfolding div_inv_def mdu_request_fields by blast
    then show "mdu_rd ?x (mdu_cycles (Suc (Suc (Suc n))) ?x s) = isa_div opr word a b"
      unfolding t by (intro div_result_lemma [OF assms(2)]) (simp only: fin(2,3))
  qed
  moreover have "Suc (Suc (Suc n)) = (if word then 35 else 67)" by (simp add: n_def mdu_width_def)
  ultimately show ?thesis by simp
qed

end
