(* ===== verification/Mdu_Unit.thy ===== *)
theory Mdu_Unit
  imports Mdu_Mul Mdu_Clmul Mdu_Div
begin

text \<open>
  What the multiply/divide unit promises the pipeline, operation by operation: the result of
  the instruction set, at a fixed latency, and readiness for the next operation after a flush.
  Each property is followed by a concrete instance.
\<close>

text \<open>A state of the unit with nothing in flight, for the concrete instances.\<close>

definition mdu_zero :: mdu where
  "mdu_zero =
     \<lparr>s_rs1 = 0, s_rs2 = 0, mdu_state = 0, mdu_ctr = 0, mdu_done = False, mdu_run = False,
      clmul_run = False, clmul_done = False, mul_run = False, mul_done = False,
      div_run = False, div_done = False, div_start = False\<rparr>"

lemma mdu_zero_idle [simp]: "mdu_idle mdu_zero"
  by (simp add: mdu_idle_def mdu_zero_def)

text \<open>C1: From any idle state, a held multiplication request (MUL, MULH, MULHU, MULHSU, or
  MULW when the word flag is set) is answered after exactly 18 cycles (10 for MULW), not
  earlier, with the product the instruction set defines, and the answer stays as long as the
  request is held. The accumulator loop of four bits per cycle is thus equal to the signed,
  unsigned and mixed 128-bit products, with the last partial product of a signed multiplier
  subtracted.\<close>

theorem mdu_mul_correct:
  assumes "mdu_idle s" "opr \<in> {MUL, MULH, MULHU, MULHSU}" "word \<longrightarrow> opr = MUL"
  shows "mdu_delivers (mdu_request opr word a b) s (if word then 10 else 18) (isa_mul opr word a b)"
  by (rule mul_delivers_lemma [OF assms])

theorem mdu_mul_correct_witness:
  "mdu_delivers (mdu_request MULH False (- 3) (- 5)) mdu_zero 18 0 \<and>
   mdu_delivers (mdu_request MULHU False (- 1) (- 1)) mdu_zero 18 (- 2) \<and>
   mdu_delivers (mdu_request MUL True 0x7fffffff 0x7fffffff) mdu_zero 10 1"
proof -
  have e: "isa_mul MULH False (- 3) (- 5) = 0" "isa_mul MULHU False (- 1) (- 1) = - 2"
    "isa_mul MUL True 0x7fffffff 0x7fffffff = 1"
    by code_simp+
  show ?thesis
    using mdu_mul_correct [of mdu_zero MULH False "- 3" "- 5"]
      mdu_mul_correct [of mdu_zero MULHU False "- 1" "- 1"]
      mdu_mul_correct [of mdu_zero MUL True "0x7fffffff" "0x7fffffff"]
    by (simp add: e)
qed

text \<open>C2: From any idle state, a held DIV, DIVU, REM or REMU request, on 64-bit operands or on
  the low words, is answered after exactly 67 (35) cycles with the result of the instruction
  set: truncated signed or unsigned quotient and remainder, all ones and the dividend for a
  zero divisor, and the wrapped quotient with remainder zero on signed overflow.\<close>

theorem mdu_div_correct:
  assumes "mdu_idle s" "opr \<in> {DIV, DIVU, REM, REMU}"
  shows "mdu_delivers (mdu_request opr word a b) s (if word then 35 else 67) (isa_div opr word a b)"
  by (rule div_delivers_lemma [OF assms])

theorem mdu_div_correct_witness:
  "mdu_delivers (mdu_request DIV False (- 7) 2) mdu_zero 67 (- 3) \<and>
   mdu_delivers (mdu_request REM False (- 7) 2) mdu_zero 67 (- 1) \<and>
   mdu_delivers (mdu_request DIVU True 5 0) mdu_zero 35 (- 1)"
proof -
  have e: "isa_div DIV False (- 7) 2 = - 3" "isa_div REM False (- 7) 2 = - 1"
    "isa_div DIVU True 5 0 = - 1"
    by code_simp+
  show ?thesis
    using mdu_div_correct [of mdu_zero DIV False "- 7" 2] mdu_div_correct [of mdu_zero REM False "- 7" 2]
      mdu_div_correct [of mdu_zero DIVU True 5 0]
    by (simp add: e)
qed

text \<open>From any idle state, a held CLMUL or CLMULH request is answered after exactly ten
  cycles with the low or high half of the 128-bit carry-less product of the operands: the
  right-shifting accumulator, eight bits per cycle, equals the sum over the bits of rs2 of
  the left-shifted rs1 without carries.\<close>

lemma mdu_clmul_correct:
  assumes "mdu_idle s" "opr \<in> {CLMUL, CLMULH}"
  shows "mdu_delivers (mdu_request opr False a b) s 10 (isa_mul opr False a b)"
  by (rule clmul_delivers_lemma [OF assms])

text \<open>A flush (or reset) cycle makes the unit accept a new request from whatever state it
  was in, also from the middle of a division or with a result pending: the next multiplication
  or division request is answered at its usual latency with its own result.\<close>

lemma mdu_flush_recovers:
  assumes "mdu_clear f" "opr \<in> {DIV, DIVU, REM, REMU, MUL}"
  shows "mdu_delivers (mdu_request opr word a b) (mdu_step f s)
    (if opr = MUL then (if word then 10 else 18) else (if word then 35 else 67))
    (if opr = MUL then isa_mul opr word a b else isa_div opr word a b)"
proof (cases "opr = MUL")
  case True
  then show ?thesis using mul_delivers_lemma [OF mdu_clear_idle [OF assms(1)], of MUL word a b] by simp
next
  case False
  then show ?thesis
    using assms(2) div_delivers_lemma [OF mdu_clear_idle [OF assms(1)], of opr word a b] by simp
qed

text \<open>The instance: a division that was started two cycles ago is flushed, then 6 * 7.\<close>

lemma mdu_flush_recovers_witness:
  "mdu_delivers (mdu_request MUL False 6 7)
     (mdu_step ((mdu_request DIV False 9 2)\<lparr>mdu_flush := True\<rparr>)
        (mdu_cycles 2 (mdu_request DIV False 9 2) mdu_zero)) 18 42"
proof -
  have c: "mdu_clear ((mdu_request DIV False 9 2)\<lparr>mdu_flush := True\<rparr>)" by (simp add: mdu_clear_def)
  show ?thesis
    using mdu_flush_recovers [OF c, of MUL False 6 7] by (simp add: isa_mul_def)
qed

text \<open>While an operation of the multiplier is in flight, the registers always hold the
  partial product: after \<open>j + 1\<close> cycles of a 64-bit request the accumulator is the product of
  rs1 with the low \<open>4 * j\<close> bits of rs2, scaled by the remaining bits, modulo \<open>2 ^ 128\<close>, rs2 is
  shifted by \<open>4 * j\<close>, and the counter shows the bits to go.\<close>

lemma mdu_mul_progress:
  assumes "mdu_idle s" "opr \<in> {MUL, MULHU}" "j < 16"
  shows "let t = mdu_cycles (Suc j) (mdu_request opr False a b) s in
    uint (mdu_state t) = (uint a * take_bit (4 * j) (uint b) * 2 ^ (64 - 4 * j)) mod 2 ^ 128 \<and>
    s_rs2 t = drop_bit (4 * j) b \<and> mdu_ctr t = of_nat (64 - 4 * j) \<and> mul_run t"
proof -
  have r: "mul_request (mdu_request opr False a b)" using assms(2) by (intro mul_request_req) auto
  have "4 * j \<le> mdu_width (mdu_request opr False a b)" using assms(3) by (simp add: mdu_width_def)
  from mul_inv_cycles [OF r assms(1) this] assms(2,3) show ?thesis
    unfolding mul_inv_def by (auto simp: Let_def mul_part_def mul_lhs_def mul_bits_def mdu_width_def)
qed

lemma mdu_mul_progress_witness:
  "let t = mdu_cycles 2 (mdu_request MUL False 3 0x25) mdu_zero in
     uint (mdu_state t) = 15 * 2 ^ 60 \<and> s_rs2 t = 2 \<and> mdu_ctr t = 60 \<and> mul_run t"
  using mdu_mul_progress [of mdu_zero MUL 1 3 "0x25"]
  by (simp add: Let_def take_bit_eq_mod drop_bit_eq_div numeral_2_eq_2 [symmetric])

end
