(* ===== verification/Unit_Mul_Div.thy ===== *)
theory Unit_Mul_Div
  imports Mdu_Unit
begin

text \<open>
  The self-checking programs \<open>verif/core/unit/mul/test_mul.c\<close> and
  \<open>verif/core/unit/div/test_div.c\<close>. Every \<open>CHECK_IS\<close> is a row: expected value and the two
  operands, at 64 bits. An instruction wrapper is a function argument; \<open>None\<close> is an instruction that
  never completes. \<open>test_fail\<close> never returns (\<open>verif/share/unit/boot.S\<close>): a program that reaches it is \<open>None\<close>, one that returns
  is \<open>Some\<close> of its return value, and zero is a pass: a program that returns has seen every instruction complete. The programs are run on the
  multiply/divide unit, clocked until it is ready.
\<close>

section \<open>The checks\<close>

fun run_checks :: "(u64 \<Rightarrow> u64 \<Rightarrow> u64 option) \<Rightarrow> (u64 \<times> u64 \<times> u64) list \<Rightarrow> nat option" where
  "run_checks fn [] = Some 0"
| "run_checks fn ((grm, rs1, rs2) # rows) = 
     (case fn rs1 rs2 of None \<Rightarrow> None | Some rd \<Rightarrow> if grm \<noteq> rd then None else run_checks fn rows)"

text \<open>\<open>test_main\<close> calls the groups one after the other and ignores what they return.\<close>

fun call_tests :: "nat option list \<Rightarrow> nat option" where
  "call_tests [] = Some 0"
| "call_tests (t # ts) = (case t of None \<Rightarrow> None | Some _ \<Rightarrow> call_tests ts)"

section \<open>Multiplication\<close>

definition test_mulw :: "(u64 \<Rightarrow> u64 \<Rightarrow> u64 option) \<Rightarrow> nat option" where
  "test_mulw fn = run_checks fn
     [(0, 0, 0),
      (0, 0, 1),
      (0, 0, - 1),
      (0, 0, 0x7fffffff),
      (0, 0, 0x80000000),
      (0, 1, 0),
      (1, 1, 1),
      (0xffffffffffffffff, 1, - 1),
      (0x7fffffff, 1, 0x7fffffff),
      (0xffffffff80000000, 1, 0x80000000),
      (0, - 1, 0),
      (0xffffffffffffffff, - 1, 1),
      (1, - 1, - 1),
      (0xffffffff80000001, - 1, 0x7fffffff),
      (0xffffffff80000000, - 1, 0x80000000),
      (0, 0x7fffffff, 0),
      (0x7fffffff, 0x7fffffff, 1),
      (0xffffffff80000001, 0x7fffffff, - 1),
      (1, 0x7fffffff, 0x7fffffff),
      (0xffffffff80000000, 0x7fffffff, 0x80000000),
      (0, 0x80000000, 0),
      (0xffffffff80000000, 0x80000000, 1),
      (0xffffffff80000000, 0x80000000, - 1),
      (0xffffffff80000000, 0x80000000, 0x7fffffff),
      (0, 0x80000000, 0x80000000)]"

definition test_mul :: "(u64 \<Rightarrow> u64 \<Rightarrow> u64 option) \<Rightarrow> nat option" where
  "test_mul fn = run_checks fn
     [(0, 0, 0),
      (0, 0, 1),
      (0, 0, - 1),
      (0, 0, 0x7fffffffffffffff),
      (0, 0, 0x8000000000000000),
      (0, 1, 0),
      (1, 1, 1),
      (0xffffffffffffffff, 1, - 1),
      (0x7fffffffffffffff, 1, 0x7fffffffffffffff),
      (0x8000000000000000, 1, 0x8000000000000000),
      (0, - 1, 0),
      (0xffffffffffffffff, - 1, 1),
      (1, - 1, - 1),
      (0x8000000000000001, - 1, 0x7fffffffffffffff),
      (0x8000000000000000, - 1, 0x8000000000000000),
      (0, 0x7fffffffffffffff, 0),
      (0x7fffffffffffffff, 0x7fffffffffffffff, 1),
      (0x8000000000000001, 0x7fffffffffffffff, - 1),
      (1, 0x7fffffffffffffff, 0x7fffffffffffffff),
      (0x8000000000000000, 0x7fffffffffffffff, 0x8000000000000000),
      (0, 0x8000000000000000, 0),
      (0x8000000000000000, 0x8000000000000000, 1),
      (0x8000000000000000, 0x8000000000000000, - 1),
      (0x8000000000000000, 0x8000000000000000, 0x7fffffffffffffff),
      (0, 0x8000000000000000, 0x8000000000000000)]"

definition test_mulh :: "(u64 \<Rightarrow> u64 \<Rightarrow> u64 option) \<Rightarrow> nat option" where
  "test_mulh fn = run_checks fn
     [(0, 0, 0),
      (0, 0, 1),
      (0, 0, - 1),
      (0, 0, 0x7fffffffffffffff),
      (0, 0, 0x8000000000000000),
      (0, 1, 0),
      (0, 1, 1),
      (0xffffffffffffffff, 1, - 1),
      (0, 1, 0x7fffffffffffffff),
      (0xffffffffffffffff, 1, 0x8000000000000000),
      (0, - 1, 0),
      (0xffffffffffffffff, - 1, 1),
      (0, - 1, - 1),
      (0xffffffffffffffff, - 1, 0x7fffffffffffffff),
      (0, - 1, 0x8000000000000000),
      (0, 0x7fffffffffffffff, 0),
      (0, 0x7fffffffffffffff, 1),
      (0xffffffffffffffff, 0x7fffffffffffffff, - 1),
      (0x3fffffffffffffff, 0x7fffffffffffffff, 0x7fffffffffffffff),
      (0xc000000000000000, 0x7fffffffffffffff, 0x8000000000000000),
      (0, 0x8000000000000000, 0),
      (0xffffffffffffffff, 0x8000000000000000, 1),
      (0, 0x8000000000000000, - 1),
      (0xc000000000000000, 0x8000000000000000, 0x7fffffffffffffff),
      (0x4000000000000000, 0x8000000000000000, 0x8000000000000000)]"

definition test_mulhsu :: "(u64 \<Rightarrow> u64 \<Rightarrow> u64 option) \<Rightarrow> nat option" where
  "test_mulhsu fn = run_checks fn
     [(0, 0, 0),
      (0, 0, 1),
      (0, 0, - 1),
      (0, 0, 0x7fffffffffffffff),
      (0, 0, 0x8000000000000000),
      (0, 1, 0),
      (0, 1, 1),
      (0, 1, - 1),
      (0, 1, 0x7fffffffffffffff),
      (0, 1, 0x8000000000000000),
      (0, - 1, 0),
      (0xffffffffffffffff, - 1, 1),
      (0xffffffffffffffff, - 1, - 1),
      (0xffffffffffffffff, - 1, 0x7fffffffffffffff),
      (0xffffffffffffffff, - 1, 0x8000000000000000),
      (0, 0x7fffffffffffffff, 0),
      (0, 0x7fffffffffffffff, 1),
      (0x7ffffffffffffffe, 0x7fffffffffffffff, - 1),
      (0x3fffffffffffffff, 0x7fffffffffffffff, 0x7fffffffffffffff),
      (0x3fffffffffffffff, 0x7fffffffffffffff, 0x8000000000000000),
      (0, 0x8000000000000000, 0),
      (0xffffffffffffffff, 0x8000000000000000, 1),
      (0x8000000000000000, 0x8000000000000000, - 1),
      (0xc000000000000000, 0x8000000000000000, 0x7fffffffffffffff),
      (0xc000000000000000, 0x8000000000000000, 0x8000000000000000)]"

definition test_mulhu :: "(u64 \<Rightarrow> u64 \<Rightarrow> u64 option) \<Rightarrow> nat option" where
  "test_mulhu fn = run_checks fn
     [(0, 0, 0),
      (0, 0, 1),
      (0, 0, - 1),
      (0, 0, 0x7fffffffffffffff),
      (0, 0, 0x8000000000000000),
      (0, 1, 0),
      (0, 1, 1),
      (0, 1, - 1),
      (0, 1, 0x7fffffffffffffff),
      (0, 1, 0x8000000000000000),
      (0, - 1, 0),
      (0, - 1, 1),
      (0xfffffffffffffffe, - 1, - 1),
      (0x7ffffffffffffffe, - 1, 0x7fffffffffffffff),
      (0x7fffffffffffffff, - 1, 0x8000000000000000),
      (0, 0x7fffffffffffffff, 0),
      (0, 0x7fffffffffffffff, 1),
      (0x7ffffffffffffffe, 0x7fffffffffffffff, - 1),
      (0x3fffffffffffffff, 0x7fffffffffffffff, 0x7fffffffffffffff),
      (0x3fffffffffffffff, 0x7fffffffffffffff, 0x8000000000000000),
      (0, 0x8000000000000000, 0),
      (0, 0x8000000000000000, 1),
      (0x7fffffffffffffff, 0x8000000000000000, - 1),
      (0x3fffffffffffffff, 0x8000000000000000, 0x7fffffffffffffff),
      (0x4000000000000000, 0x8000000000000000, 0x8000000000000000)]"

definition mul_test_main ::
  "(u64 \<Rightarrow> u64 \<Rightarrow> u64 option) \<Rightarrow> (u64 \<Rightarrow> u64 \<Rightarrow> u64 option) \<Rightarrow> (u64 \<Rightarrow> u64 \<Rightarrow> u64 option) \<Rightarrow> (u64 \<Rightarrow> u64 \<Rightarrow> u64 option) \<Rightarrow>
   (u64 \<Rightarrow> u64 \<Rightarrow> u64 option) \<Rightarrow> nat option" where
  "mul_test_main mulw mul mulh mulhsu mulhu =
     call_tests [test_mulw mulw, test_mul mul, test_mulh mulh, test_mulhsu mulhsu, test_mulhu mulhu]"

section \<open>Division\<close>

definition test_divw :: "(u64 \<Rightarrow> u64 \<Rightarrow> u64 option) \<Rightarrow> nat option" where
  "test_divw fn = run_checks fn
     [(0xffffffffffffffff, 0, 0),
      (0, 0, 1),
      (0, 0, - 1),
      (0, 0, 0x7fffffff),
      (0, 0, 0x80000000),
      (0xffffffffffffffff, 1, 0),
      (1, 1, 1),
      (0xffffffffffffffff, 1, - 1),
      (0, 1, 0x7fffffff),
      (0, 1, 0x80000000),
      (0xffffffffffffffff, - 1, 0),
      (0xffffffffffffffff, - 1, 1),
      (1, - 1, - 1),
      (0, - 1, 0x7fffffff),
      (0, - 1, 0x80000000),
      (0xffffffffffffffff, 0x7fffffff, 0),
      (0x7fffffff, 0x7fffffff, 1),
      (0xffffffff80000001, 0x7fffffff, - 1),
      (1, 0x7fffffff, 0x7fffffff),
      (0, 0x7fffffff, 0x80000000),
      (0xffffffffffffffff, 0x80000000, 0),
      (0xffffffff80000000, 0x80000000, 1),
      (0xffffffff80000000, 0x80000000, - 1),
      (0xffffffffffffffff, 0x80000000, 0x7fffffff),
      (1, 0x80000000, 0x80000000)]"

definition test_divuw :: "(u64 \<Rightarrow> u64 \<Rightarrow> u64 option) \<Rightarrow> nat option" where
  "test_divuw fn = run_checks fn
     [(0xffffffffffffffff, 0, 0),
      (0, 0, 1),
      (0, 0, - 1),
      (0, 0, 0x7fffffff),
      (0, 0, 0x80000000),
      (0xffffffffffffffff, 1, 0),
      (1, 1, 1),
      (0, 1, - 1),
      (0, 1, 0x7fffffff),
      (0, 1, 0x80000000),
      (0xffffffffffffffff, - 1, 0),
      (0xffffffffffffffff, - 1, 1),
      (1, - 1, - 1),
      (2, - 1, 0x7fffffff),
      (1, - 1, 0x80000000),
      (0xffffffffffffffff, 0x7fffffff, 0),
      (0x7fffffff, 0x7fffffff, 1),
      (0, 0x7fffffff, - 1),
      (1, 0x7fffffff, 0x7fffffff),
      (0, 0x7fffffff, 0x80000000),
      (0xffffffffffffffff, 0x80000000, 0),
      (0xffffffff80000000, 0x80000000, 1),
      (0, 0x80000000, - 1),
      (1, 0x80000000, 0x7fffffff),
      (1, 0x80000000, 0x80000000)]"

definition test_remw :: "(u64 \<Rightarrow> u64 \<Rightarrow> u64 option) \<Rightarrow> nat option" where
  "test_remw fn = run_checks fn
     [(0, 0, 0),
      (0, 0, 1),
      (0, 0, - 1),
      (0, 0, 0x7fffffff),
      (0, 0, 0x80000000),
      (1, 1, 0),
      (0, 1, 1),
      (0, 1, - 1),
      (1, 1, 0x7fffffff),
      (1, 1, 0x80000000),
      (0xffffffffffffffff, - 1, 0),
      (0, - 1, 1),
      (0, - 1, - 1),
      (0xffffffffffffffff, - 1, 0x7fffffff),
      (0xffffffffffffffff, - 1, 0x80000000),
      (0x7fffffff, 0x7fffffff, 0),
      (0, 0x7fffffff, 1),
      (0, 0x7fffffff, - 1),
      (0, 0x7fffffff, 0x7fffffff),
      (0x7fffffff, 0x7fffffff, 0x80000000),
      (0xffffffff80000000, 0x80000000, 0),
      (0, 0x80000000, 1),
      (0, 0x80000000, - 1),
      (0xffffffffffffffff, 0x80000000, 0x7fffffff),
      (0, 0x80000000, 0x80000000)]"

definition test_remuw :: "(u64 \<Rightarrow> u64 \<Rightarrow> u64 option) \<Rightarrow> nat option" where
  "test_remuw fn = run_checks fn
     [(0, 0, 0),
      (0, 0, 1),
      (0, 0, - 1),
      (0, 0, 0x7fffffff),
      (0, 0, 0x80000000),
      (1, 1, 0),
      (0, 1, 1),
      (1, 1, - 1),
      (1, 1, 0x7fffffff),
      (1, 1, 0x80000000),
      (0xffffffffffffffff, - 1, 0),
      (0, - 1, 1),
      (0, - 1, - 1),
      (1, - 1, 0x7fffffff),
      (0x7fffffff, - 1, 0x80000000),
      (0x7fffffff, 0x7fffffff, 0),
      (0, 0x7fffffff, 1),
      (0x7fffffff, 0x7fffffff, - 1),
      (0, 0x7fffffff, 0x7fffffff),
      (0x7fffffff, 0x7fffffff, 0x80000000),
      (0xffffffff80000000, 0x80000000, 0),
      (0, 0x80000000, 1),
      (0xffffffff80000000, 0x80000000, - 1),
      (1, 0x80000000, 0x7fffffff),
      (0, 0x80000000, 0x80000000)]"

definition test_div :: "(u64 \<Rightarrow> u64 \<Rightarrow> u64 option) \<Rightarrow> nat option" where
  "test_div fn = run_checks fn
     [(0xffffffffffffffff, 0, 0),
      (0, 0, 1),
      (0, 0, - 1),
      (0, 0, 0x7fffffffffffffff),
      (0, 0, 0x8000000000000000),
      (0xffffffffffffffff, 1, 0),
      (1, 1, 1),
      (0xffffffffffffffff, 1, - 1),
      (0, 1, 0x7fffffffffffffff),
      (0, 1, 0x8000000000000000),
      (0xffffffffffffffff, - 1, 0),
      (0xffffffffffffffff, - 1, 1),
      (1, - 1, - 1),
      (0, - 1, 0x7fffffffffffffff),
      (0, - 1, 0x8000000000000000),
      (0xffffffffffffffff, 0x7fffffffffffffff, 0),
      (0x7fffffffffffffff, 0x7fffffffffffffff, 1),
      (0x8000000000000001, 0x7fffffffffffffff, - 1),
      (1, 0x7fffffffffffffff, 0x7fffffffffffffff),
      (0, 0x7fffffffffffffff, 0x8000000000000000),
      (0xffffffffffffffff, 0x8000000000000000, 0),
      (0x8000000000000000, 0x8000000000000000, 1),
      (0x8000000000000000, 0x8000000000000000, - 1),
      (0xffffffffffffffff, 0x8000000000000000, 0x7fffffffffffffff),
      (1, 0x8000000000000000, 0x8000000000000000)]"

definition test_divu :: "(u64 \<Rightarrow> u64 \<Rightarrow> u64 option) \<Rightarrow> nat option" where
  "test_divu fn = run_checks fn
     [(0xffffffffffffffff, 0, 0),
      (0, 0, 1),
      (0, 0, - 1),
      (0, 0, 0x7fffffffffffffff),
      (0, 0, 0x8000000000000000),
      (0xffffffffffffffff, 1, 0),
      (1, 1, 1),
      (0, 1, - 1),
      (0, 1, 0x7fffffffffffffff),
      (0, 1, 0x8000000000000000),
      (0xffffffffffffffff, - 1, 0),
      (0xffffffffffffffff, - 1, 1),
      (1, - 1, - 1),
      (2, - 1, 0x7fffffffffffffff),
      (1, - 1, 0x8000000000000000),
      (0xffffffffffffffff, 0x7fffffffffffffff, 0),
      (0x7fffffffffffffff, 0x7fffffffffffffff, 1),
      (0, 0x7fffffffffffffff, - 1),
      (1, 0x7fffffffffffffff, 0x7fffffffffffffff),
      (0, 0x7fffffffffffffff, 0x8000000000000000),
      (0xffffffffffffffff, 0x8000000000000000, 0),
      (0x8000000000000000, 0x8000000000000000, 1),
      (0, 0x8000000000000000, - 1),
      (1, 0x8000000000000000, 0x7fffffffffffffff),
      (1, 0x8000000000000000, 0x8000000000000000)]"

definition test_rem :: "(u64 \<Rightarrow> u64 \<Rightarrow> u64 option) \<Rightarrow> nat option" where
  "test_rem fn = run_checks fn
     [(0, 0, 0),
      (0, 0, 1),
      (0, 0, - 1),
      (0, 0, 0x7fffffffffffffff),
      (0, 0, 0x8000000000000000),
      (1, 1, 0),
      (0, 1, 1),
      (0, 1, - 1),
      (1, 1, 0x7fffffffffffffff),
      (1, 1, 0x8000000000000000),
      (0xffffffffffffffff, - 1, 0),
      (0, - 1, 1),
      (0, - 1, - 1),
      (0xffffffffffffffff, - 1, 0x7fffffffffffffff),
      (0xffffffffffffffff, - 1, 0x8000000000000000),
      (0x7fffffffffffffff, 0x7fffffffffffffff, 0),
      (0, 0x7fffffffffffffff, 1),
      (0, 0x7fffffffffffffff, - 1),
      (0, 0x7fffffffffffffff, 0x7fffffffffffffff),
      (0x7fffffffffffffff, 0x7fffffffffffffff, 0x8000000000000000),
      (0x8000000000000000, 0x8000000000000000, 0),
      (0, 0x8000000000000000, 1),
      (0, 0x8000000000000000, - 1),
      (0xffffffffffffffff, 0x8000000000000000, 0x7fffffffffffffff),
      (0, 0x8000000000000000, 0x8000000000000000)]"

definition test_remu :: "(u64 \<Rightarrow> u64 \<Rightarrow> u64 option) \<Rightarrow> nat option" where
  "test_remu fn = run_checks fn
     [(0, 0, 0),
      (0, 0, 1),
      (0, 0, - 1),
      (0, 0, 0x7fffffffffffffff),
      (0, 0, 0x8000000000000000),
      (1, 1, 0),
      (0, 1, 1),
      (1, 1, - 1),
      (1, 1, 0x7fffffffffffffff),
      (1, 1, 0x8000000000000000),
      (0xffffffffffffffff, - 1, 0),
      (0, - 1, 1),
      (0, - 1, - 1),
      (1, - 1, 0x7fffffffffffffff),
      (0x7fffffffffffffff, - 1, 0x8000000000000000),
      (0x7fffffffffffffff, 0x7fffffffffffffff, 0),
      (0, 0x7fffffffffffffff, 1),
      (0x7fffffffffffffff, 0x7fffffffffffffff, - 1),
      (0, 0x7fffffffffffffff, 0x7fffffffffffffff),
      (0x7fffffffffffffff, 0x7fffffffffffffff, 0x8000000000000000),
      (0x8000000000000000, 0x8000000000000000, 0),
      (0, 0x8000000000000000, 1),
      (0x8000000000000000, 0x8000000000000000, - 1),
      (1, 0x8000000000000000, 0x7fffffffffffffff),
      (0, 0x8000000000000000, 0x8000000000000000)]"

text \<open>The instructions are arguments in the order of the calls.\<close>

definition div_test_main ::
  "(mdu_op \<Rightarrow> bool \<Rightarrow> u64 \<Rightarrow> u64 \<Rightarrow> u64 option) \<Rightarrow> nat option" where
  "div_test_main instr =
     call_tests
       [test_div (instr DIV False), test_divu (instr DIVU False),
        test_rem (instr REM False), test_remu (instr REMU False),
        test_divw (instr DIV True), test_divuw (instr DIVU True),
        test_remw (instr REM True), test_remuw (instr REMU True)]"

section \<open>Running on the unit\<close>

text \<open>The pipeline holds the request until \<open>ready\<close> and takes \<open>rd\<close> in that cycle.\<close>

fun mdu_wait :: "nat \<Rightarrow> mdu_in \<Rightarrow> mdu \<Rightarrow> u64 option" where
  "mdu_wait 0 x s = None"
| "mdu_wait (Suc fuel) x s =
     (if mdu_ready x s then Some (mdu_rd x s) else mdu_wait fuel x (mdu_step x s))"

text \<open>An instruction that takes 70 cycles or more does not complete here.\<close>

definition mdu_instr :: "mdu \<Rightarrow> mdu_op \<Rightarrow> bool \<Rightarrow> u64 \<Rightarrow> u64 \<Rightarrow> u64 option" where
  "mdu_instr s opr word a b = mdu_wait 70 (mdu_request opr word a b) s"

lemma mdu_wait_delivers:
  assumes "mdu_delivers x s n v" "n < fuel"
  shows "mdu_wait fuel x s = Some v"
  using assms
proof (induction n arbitrary: s fuel)
  case 0
  then show ?case by (cases fuel) (auto simp: mdu_delivers_def dest: spec [of _ 0])
next
  case (Suc n)
  obtain f where f: "fuel = Suc f" using Suc.prems(2) by (cases fuel) auto
  have "\<not> mdu_ready x (mdu_cycles j (x) (mdu_step x s))" if "j < n" for j
    using Suc.prems(1) that unfolding mdu_delivers_def mdu_cycles_Suc [symmetric] by auto
  moreover have "mdu_ready x (mdu_cycles j x (mdu_step x s)) \<and> mdu_rd x (mdu_cycles j x (mdu_step x s)) = v"
    if "j \<ge> n" for j
    using Suc.prems(1) that unfolding mdu_delivers_def mdu_cycles_Suc [symmetric] by auto
  ultimately have "mdu_delivers x (mdu_step x s) n v" by (simp add: mdu_delivers_def)
  moreover have "\<not> mdu_ready x s" using Suc.prems(1) by (auto simp: mdu_delivers_def dest: spec [of _ 0])
  ultimately show ?case using Suc.IH [of "mdu_step x s" f] Suc.prems(2) f by simp
qed

lemma mdu_instr_mul:
  "mdu_idle s \<Longrightarrow> opr \<in> {MUL, MULH, MULHU, MULHSU} \<Longrightarrow> word \<longrightarrow> opr = MUL \<Longrightarrow>
     mdu_instr s opr word a b = Some (isa_mul opr word a b)"
  using mdu_wait_delivers [OF mul_delivers_lemma [of s opr word a b], of 70] by (simp add: mdu_instr_def)

lemma mdu_instr_div:
  "mdu_idle s \<Longrightarrow> opr \<in> {DIV, DIVU, REM, REMU} \<Longrightarrow>
     mdu_instr s opr word a b = Some (isa_div opr word a b)"
  using mdu_wait_delivers [OF div_delivers_lemma [of s opr word a b], of 70] by (simp add: mdu_instr_def)

section \<open>The tables agree with the instruction set\<close>

lemma test_mulw_isa: "test_mulw (\<lambda>a b. Some (isa_mul MUL True a b)) = Some 0"
  by code_simp

lemma test_mul_isa: "test_mul (\<lambda>a b. Some (isa_mul MUL False a b)) = Some 0"
  by code_simp

lemma test_mulh_isa: "test_mulh (\<lambda>a b. Some (isa_mul MULH False a b)) = Some 0"
  by code_simp

lemma test_mulhsu_isa: "test_mulhsu (\<lambda>a b. Some (isa_mul MULHSU False a b)) = Some 0"
  by code_simp

lemma test_mulhu_isa: "test_mulhu (\<lambda>a b. Some (isa_mul MULHU False a b)) = Some 0"
  by code_simp

lemma test_divw_isa: "test_divw (\<lambda>a b. Some (isa_div DIV True a b)) = Some 0"
  by code_simp

lemma test_divuw_isa: "test_divuw (\<lambda>a b. Some (isa_div DIVU True a b)) = Some 0"
  by code_simp

lemma test_remw_isa: "test_remw (\<lambda>a b. Some (isa_div REM True a b)) = Some 0"
  by code_simp

lemma test_remuw_isa: "test_remuw (\<lambda>a b. Some (isa_div REMU True a b)) = Some 0"
  by code_simp

lemma test_div_isa: "test_div (\<lambda>a b. Some (isa_div DIV False a b)) = Some 0"
  by code_simp

lemma test_divu_isa: "test_divu (\<lambda>a b. Some (isa_div DIVU False a b)) = Some 0"
  by code_simp

lemma test_rem_isa: "test_rem (\<lambda>a b. Some (isa_div REM False a b)) = Some 0"
  by code_simp

lemma test_remu_isa: "test_remu (\<lambda>a b. Some (isa_div REMU False a b)) = Some 0"
  by code_simp

section \<open>The programs pass\<close>

text \<open>The multiplication test program: all 125 expected values of \<open>test_mul.c\<close>.\<close>

lemma mul_test_passes:
  assumes "mdu_idle s"
  shows "mul_test_main (mdu_instr s MUL True) (mdu_instr s MUL False) (mdu_instr s MULH False)
    (mdu_instr s MULHSU False) (mdu_instr s MULHU False) = Some 0"
proof -
  have e: "mdu_instr s opr word = (\<lambda>a b. Some (isa_mul opr word a b))" if "opr \<in> {MUL, MULH, MULHU, MULHSU}" "word \<longrightarrow> opr = MUL"
    for opr word
    using mdu_instr_mul [OF assms that] by (simp add: fun_eq_iff)
  show ?thesis
    by (simp add: mul_test_main_def e test_mulw_isa test_mul_isa test_mulh_isa test_mulhsu_isa test_mulhu_isa)
qed

text \<open>The division test program: all 200 expected values of \<open>test_div.c\<close>.\<close>

lemma div_test_passes:
  assumes "mdu_idle s"
  shows "div_test_main (mdu_instr s) = Some 0"
proof -
  have e: "mdu_instr s opr word = (\<lambda>a b. Some (isa_div opr word a b))" if "opr \<in> {DIV, DIVU, REM, REMU}" for opr word
    using mdu_instr_div [OF assms that] by (simp add: fun_eq_iff)
  show ?thesis
    by (simp add: div_test_main_def e test_div_isa test_divu_isa test_rem_isa test_remu_isa
        test_divw_isa test_divuw_isa test_remw_isa test_remuw_isa)
qed

text \<open>C39: The multiplication and the division test program pass on the multiply/divide unit: started
  from any idle state for every instruction, the unit completes each of the 325 instructions of \<open>test_mul.c\<close>
  and \<open>test_div.c\<close> in less than 70 cycles, and what it delivers is the expected value, division by zero and
  overflow included. An instruction that did not complete would be \<open>None\<close> and the program would not return.\<close>

theorem mul_div_tests_pass:
  assumes "mdu_idle s"
  shows "mul_test_main (mdu_instr s MUL True) (mdu_instr s MUL False) (mdu_instr s MULH False)
      (mdu_instr s MULHSU False) (mdu_instr s MULHU False) = Some 0 \<and>
    div_test_main (mdu_instr s) = Some 0"
  using mul_test_passes [OF assms] div_test_passes [OF assms] by blast

theorem mul_div_tests_pass_witness:
  "mul_test_main (mdu_instr mdu_zero MUL True) (mdu_instr mdu_zero MUL False) (mdu_instr mdu_zero MULH False)
      (mdu_instr mdu_zero MULHSU False) (mdu_instr mdu_zero MULHU False) = Some 0 \<and>
    div_test_main (mdu_instr mdu_zero) = Some 0"
  by (rule mul_div_tests_pass) simp

section \<open>An abandoned instruction\<close>

text \<open>A multiplication that is removed after its product is ready, because a trap or an interrupt takes its
  place before writeback could accept it, leaves the product in the unit: the next multiplication is ready at
  once with it, whatever its own operands are.\<close>

lemma abandoned_product_delivered:
  assumes "mdu_idle s" "18 \<le> j"
  shows "mdu_wait 70 (mdu_request MUL False a b) (mdu_cycles j (mdu_request MUL False c d) s) =
    Some (isa_mul MUL False c d)"
proof -
  have "mdu_delivers (mdu_request MUL False c d) s 18 (isa_mul MUL False c d)"
    using mul_delivers_lemma [OF assms(1), of MUL False c d] by simp
  then have "mdu_ready (mdu_request MUL False c d) (mdu_cycles j (mdu_request MUL False c d) s)"
    "mdu_rd (mdu_request MUL False c d) (mdu_cycles j (mdu_request MUL False c d) s) = isa_mul MUL False c d"
    using assms(2) unfolding mdu_delivers_def by blast+
  moreover have "mdu_ready (mdu_request MUL False a b) t = mdu_ready (mdu_request MUL False c d) t"
    "mdu_rd (mdu_request MUL False a b) t = mdu_rd (mdu_request MUL False c d) t" for t
    by (simp_all add: mdu_ready_def mdu_rd_def mdu_request_def any_mul_def result_mul_def mul_hi_def)
  ultimately show ?thesis by (simp add: numeral_eq_Suc)
qed

end
