(* ===== verification/Unit_Bits.thy ===== *)
theory Unit_Bits
  imports Alu_Isa Unit_Mul_Div
begin

text \<open>
  The self-checking programs for the bit manipulation instructions,
  \<open>verif/core/unit/b-rotate\<close>, \<open>b-bitwise\<close>, \<open>b-pack\<close>, \<open>b-grev\<close>, \<open>b-xperm\<close> and
  \<open>b-clmul\<close>. A \<open>TEST\<close> is the pair of what the instruction returned and what the reference
  macro expects; \<open>test_fail\<close> does not return, so a program that reaches it is \<open>None\<close>. The
  instruction wrappers are arguments, instantiated by the ALU and the multiply/divide unit.
\<close>

section \<open>Running a list of tests\<close>

definition TEST :: "(u64 \<Rightarrow> u64 \<Rightarrow> u64) \<Rightarrow> (u64 \<Rightarrow> u64 \<Rightarrow> u64) \<Rightarrow> u64 \<Rightarrow> u64 \<Rightarrow> u64 \<times> u64" where
  "TEST insn func rs1 rs2 = (insn rs1 rs2, func rs1 rs2)"

definition TEST_IS :: "(u64 \<Rightarrow> u64 \<Rightarrow> u64) \<Rightarrow> u64 \<Rightarrow> u64 \<Rightarrow> u64 \<Rightarrow> u64 \<times> u64" where
  "TEST_IS func ex rs1 rs2 = (func rs1 rs2, ex)"

fun run_tests :: "(u64 \<times> u64) list \<Rightarrow> nat option" where
  "run_tests [] = Some 0"
| "run_tests ((rd, ex) # rows) = (if rd \<noteq> ex then None else run_tests rows)"

section \<open>Shifts and rotations: the reference macros\<close>

text \<open>
  The macros at the types C gives them: \<open>uint32_t\<close> operands are zero-extended and \<open>int32_t\<close>
  ones sign-extended when they meet the \<open>int64_t\<close> sign term.
\<close>

definition sign_term :: "u64 \<Rightarrow> u64" where
  "sign_term v = signed_drop_bit 32 (push_bit 63 v)"

definition SRL :: "u64 \<Rightarrow> u64 \<Rightarrow> u64" where
  "SRL a b = drop_bit (unat (b AND 0x3f)) a"

definition SRLW :: "u64 \<Rightarrow> u64 \<Rightarrow> u64" where
  "SRLW a b = ucast (drop_bit (unat b) (ucast a :: u32))"

definition SRA :: "u64 \<Rightarrow> u64 \<Rightarrow> u64" where
  "SRA a b = signed_drop_bit (unat (b AND 0x3f)) a"

definition SRAW :: "u64 \<Rightarrow> u64 \<Rightarrow> u64" where
  "SRAW a b = scast (signed_drop_bit (unat b) (ucast a :: u32)) OR sign_term (signed_drop_bit 31 a)"

definition SLL :: "u64 \<Rightarrow> u64 \<Rightarrow> u64" where
  "SLL a b = push_bit (unat (b AND 0x3f)) a"

definition SLLW :: "u64 \<Rightarrow> u64 \<Rightarrow> u64" where
  "SLLW a b = ucast (push_bit (unat b) (ucast a :: u32)) OR sign_term (signed_drop_bit 31 a)"

definition ROR :: "u64 \<Rightarrow> u64 \<Rightarrow> u64" where
  "ROR a b = drop_bit (unat b) a OR push_bit (unat ((64 - (b AND 0x3f)) AND 0x3f)) a"

definition RORW :: "u64 \<Rightarrow> u64 \<Rightarrow> u64" where
  "RORW a b = ucast (drop_bit (unat b) (ucast a :: u32)) OR sign_term (signed_drop_bit 31 a) OR
     ucast (push_bit (unat ((32 - b) AND 0x1f)) (ucast a :: u32))"

definition ROL :: "u64 \<Rightarrow> u64 \<Rightarrow> u64" where
  "ROL a b = push_bit (unat b) a OR drop_bit (unat ((64 - (b AND 0x3f)) AND 0x3f)) a"

definition ROLW :: "u64 \<Rightarrow> u64 \<Rightarrow> u64" where
  "ROLW a b = ucast (push_bit (unat b) (ucast a :: u32)) OR
     ucast (drop_bit (unat ((32 - b) AND 0x1f)) (ucast a :: u32)) OR
     sign_term (signed_drop_bit 31 (push_bit (unat b) a))"

section \<open>The programs\<close>

definition rotate_test_main :: "(alu_op \<Rightarrow> bool \<Rightarrow> u64 \<Rightarrow> u64 \<Rightarrow> u64) \<Rightarrow> nat option" where
  "rotate_test_main instr = run_tests
       [TEST (instr Srl False) SRL 0 0,
        TEST (instr Srl False) SRL 0x0123456789abcdef 0x8,
        TEST (instr Srl False) SRL 0x0123456789abcdef 0x7,
        TEST (instr Srl False) SRL 0x0123456789abcdef 0xf,
        TEST (instr Srl False) SRL 0x0123456789abcdef 0x28,
        TEST (instr Srl True) SRLW 0 0,
        TEST (instr Srl True) SRLW 0x0123456789abcdef 0x8,
        TEST (instr Srl True) SRLW 0x0123456789abcdef 0x7,
        TEST (instr Srl True) SRLW 0x0123456789abcdef 0xf,
        TEST (instr Sra False) SRA 0 0,
        TEST (instr Sra False) SRA 0x0123456789abcdef 0x8,
        TEST (instr Sra False) SRA 0x0123456789abcdef 0x7,
        TEST (instr Sra False) SRA 0x0123456789abcdef 0xf,
        TEST (instr Sra False) SRA 0x0123456789abcdef 0x28,
        TEST (instr Sra True) SRAW 0 0,
        TEST (instr Sra True) SRAW 0x0123456789abcdef 0x8,
        TEST (instr Sra True) SRAW 0x0123456789abcdef 0x7,
        TEST (instr Sra True) SRAW 0x0123456789abcdef 0xf,
        TEST (instr Sra False) SRA (push_bit 1 0) 0,
        TEST (instr Sra False) SRA (push_bit 1 0x0123456789abcdef) 0x8,
        TEST (instr Sra False) SRA (push_bit 1 0x0123456789abcdef) 0x7,
        TEST (instr Sra False) SRA (push_bit 1 0x0123456789abcdef) 0xf,
        TEST (instr Sra False) SRA (push_bit 1 0x0123456789abcdef) 0x28,
        TEST (instr Sra True) SRAW (push_bit 1 0) 0,
        TEST (instr Sra True) SRAW (push_bit 1 0x0123456789abcdef) 0x8,
        TEST (instr Sra True) SRAW (push_bit 1 0x0123456789abcdef) 0x7,
        TEST (instr Sra True) SRAW (push_bit 1 0x0123456789abcdef) 0xf,
        TEST (instr Sll False) SLL 0 0,
        TEST (instr Sll False) SLL 0x0123456789abcdef 0x8,
        TEST (instr Sll False) SLL 0x0123456789abcdef 0x7,
        TEST (instr Sll False) SLL 0x0123456789abcdef 0xf,
        TEST (instr Sll False) SLL 0x0123456789abcdef 0x28,
        TEST (instr Sll True) SLLW 0 0,
        TEST (instr Sll True) SLLW 0x0123456789abcdef 0x8,
        TEST (instr Sll True) SLLW 0x0123456789abcdef 0x7,
        TEST (instr Sll True) SLLW 0x0123456789abcdef 0xf,
        TEST (instr Ror False) ROR 0 0,
        TEST (instr Ror False) ROR 0x0123456789abcdef 0x8,
        TEST (instr Ror False) ROR 0x0123456789abcdef 0x7,
        TEST (instr Ror False) ROR 0x0123456789abcdef 0xf,
        TEST (instr Ror False) ROR 0x0123456789abcdef 0x28,
        TEST (instr Ror True) RORW 0 0,
        TEST (instr Ror True) RORW 0x0123456789abcdef 0x8,
        TEST (instr Ror True) RORW 0x0123456789abcdef 0x7,
        TEST (instr Ror True) RORW 0x0123456789abcdef 0xf,
        TEST (instr Ror False) ROR 0 0,
        TEST (instr Ror False) ROR 0x0123456789abcdef 0x8,
        TEST (instr Ror False) ROR 0x0123456789abcdef 0x7,
        TEST (instr Ror False) ROR 0x0123456789abcdef 0xf,
        TEST (instr Ror False) ROR 0x0123456789abcdef 0x28,
        TEST (instr Ror True) RORW 0 0,
        TEST (instr Ror True) RORW 0x0123456789abcdef 0x8,
        TEST (instr Ror True) RORW 0x0123456789abcdef 0x7,
        TEST (instr Ror True) RORW 0x0123456789abcdef 0xf,
        TEST (instr Rol False) ROL 0 0,
        TEST (instr Rol False) ROL 0x0123456789abcdef 0x8,
        TEST (instr Rol False) ROL 0x0123456789abcdef 0x7,
        TEST (instr Rol False) ROL 0x0123456789abcdef 0xf,
        TEST (instr Rol False) ROL 0x0123456789abcdef 0x28,
        TEST (instr Rol True) ROLW 0 0,
        TEST (instr Rol True) ROLW 0x0123456789abcdef 0x8,
        TEST (instr Rol True) ROLW 0x0123456789abcdef 0x7,
        TEST (instr Rol True) ROLW 0x0123456789abcdef 0xf]"

definition bitwise_test_main :: "(alu_op \<Rightarrow> bool \<Rightarrow> u64 \<Rightarrow> u64 \<Rightarrow> u64) \<Rightarrow> nat option" where
  "bitwise_test_main instr = run_tests
       [TEST (instr Andn False) (\<lambda>a b. a AND NOT b) 0 0,
        TEST (instr Andn False) (\<lambda>a b. a AND NOT b) 0x0123456789abcdef 0xfedcba9876543210,
        TEST (instr Andn False) (\<lambda>a b. a AND NOT b) 0 0xfedcba9876543210,
        TEST (instr Andn False) (\<lambda>a b. a AND NOT b) 0x0123456789abcdef 0,
        TEST (instr Orn False) (\<lambda>a b. a OR NOT b) 0 0,
        TEST (instr Orn False) (\<lambda>a b. a OR NOT b) 0x0123456789abcdef 0xfedcba9876543210,
        TEST (instr Orn False) (\<lambda>a b. a OR NOT b) 0 0xfedcba9876543210,
        TEST (instr Orn False) (\<lambda>a b. a OR NOT b) 0x0123456789abcdef 0,
        TEST (instr Xnor False) (\<lambda>a b. a XOR NOT b) 0 0,
        TEST (instr Xnor False) (\<lambda>a b. a XOR NOT b) 0x0123456789abcdef 0xfedcba9876543210,
        TEST (instr Xnor False) (\<lambda>a b. a XOR NOT b) 0 0xfedcba9876543210,
        TEST (instr Xnor False) (\<lambda>a b. a XOR NOT b) 0x0123456789abcdef 0]"

definition pack_test_main :: "(alu_op \<Rightarrow> bool \<Rightarrow> u64 \<Rightarrow> u64 \<Rightarrow> u64) \<Rightarrow> nat option" where
  "pack_test_main instr = run_tests
       [TEST_IS (instr Pack False) 0 0 0,
        TEST_IS (instr Pack False) 0xddddddddbbbbbbbb 0xaaaaaaaabbbbbbbb 0xccccccccdddddddd,
        TEST_IS (instr Packh False) 0 0 0,
        TEST_IS (instr Packh False) 0x000000000000ddbb 0xaaaaaaaabbbbbbbb 0xccccccccdddddddd,
        TEST_IS (instr Packu False) 0 0 0,
        TEST_IS (instr Packu False) 0xccccccccaaaaaaaa 0xaaaaaaaabbbbbbbb 0xccccccccdddddddd]"

text \<open>\<open>rev.b\<close>, \<open>rev8\<close> and \<open>rev8.w\<close> are the reversals with immediates 7, 56 and 24.\<close>

definition grev_test_main :: "(alu_op \<Rightarrow> bool \<Rightarrow> u64 \<Rightarrow> u64 \<Rightarrow> u64) \<Rightarrow> nat option" where
  "grev_test_main instr = run_tests
       [TEST_IS (instr Grev False) 0x80c4a2e691d5b3f7 0x0123456789abcdef 7,
        TEST_IS (instr Grev False) 0xefcdab8967452301 0x0123456789abcdef 56,
        TEST_IS (instr Grev False) 0x67452301efcdab89 0x0123456789abcdef 24]"

definition xperm_test_main :: "(alu_op \<Rightarrow> bool \<Rightarrow> u64 \<Rightarrow> u64 \<Rightarrow> u64) \<Rightarrow> nat option" where
  "xperm_test_main instr = run_tests
       [TEST_IS (instr Xpermn False) 0xfedcba9876543210 0x0123456789abcdef 0x0123456789abcdef,
        TEST_IS (instr Xpermn False) 0x1032547698badcfe 0xefcdab8967452301 0x0123456789abcdef,
        TEST_IS (instr Xpermb False) 0x0123456789abcdef 0x0123456789abcdef 0x0706050403020100,
        TEST_IS (instr Xpermb False) 0xefcdab8967000000 0xefcdab8967452301 0x07060504030c0b0a]"

section \<open>Carry-less multiplication\<close>

definition rv64_clmul :: "u64 \<Rightarrow> u64 \<Rightarrow> u64" where
  "rv64_clmul rs1 rs2 =
     fold (\<lambda>i x. if drop_bit i rs2 AND 1 \<noteq> 0 then x XOR push_bit i rs1 else x) [0..<64] 0"

definition rv64_clmulh :: "u64 \<Rightarrow> u64 \<Rightarrow> u64" where
  "rv64_clmulh rs1 rs2 =
     fold (\<lambda>i x. if drop_bit i rs2 AND 1 \<noteq> 0 then x XOR drop_bit (64 - i) rs1 else x) [1..<64] 0"

text \<open>The program runs its last two tests for \<open>i = 0\<close> and \<open>i = 1\<close>.\<close>

definition clmul_test_main :: "(mdu_op \<Rightarrow> bool \<Rightarrow> u64 \<Rightarrow> u64 \<Rightarrow> u64) \<Rightarrow> nat option" where
  "clmul_test_main instr = run_tests
       ([TEST (instr CLMUL False) rv64_clmul 1 0x111,
         TEST (instr CLMUL False) rv64_clmul 0x0123456789abcdef 0x0123456789abcdef,
         TEST (instr CLMUL False) rv64_clmul 0xefcdab8967452301 0x0123456789abcdef,
         TEST (instr CLMULH False) rv64_clmulh 0x0123456789abcdef 0x0706050403020100,
         TEST (instr CLMULH False) rv64_clmulh 0xefcdab8967452301 0x07060504030c0b0a] @
        concat (map (\<lambda>i. [TEST (instr CLMULH False) rv64_clmulh 0x0123456789abcdef (of_nat i),
                          TEST (instr CLMULH False) rv64_clmulh 0xefcdab8967452301 (of_nat i)]) [0..<2]))"

section \<open>The reference loops\<close>

lemma low_bit: "drop_bit i (b :: 'a::len word) AND 1 \<noteq> 0 \<longleftrightarrow> bit b i"
  by (simp add: bit_iff_odd_drop_bit and_one_eq odd_iff_mod_2_eq_one)

lemma bit_clmul_fold:
  "bit (fold (\<lambda>i x. if bit b i then x XOR f i else x) is (x0 :: 'a::len word)) k \<longleftrightarrow>
    (bit x0 k \<noteq> odd (length (filter (\<lambda>i. bit b i \<and> bit (f i) k) is)))"
  for b :: "'b::len word"
  by (induction "is" arbitrary: x0) (auto simp: bit_simps)

lemma rv64_clmul_isa: "rv64_clmul a b = lo64 (isa_clmul a b)"
proof (rule bit_word_eqI)
  fix k assume "k < LENGTH(64)"
  then have "bit (push_bit i a) k \<longleftrightarrow> bit (push_bit i (ucast a) :: 128 word) k" for i
    by (auto simp: bit_simps)
  then show "bit (rv64_clmul a b) k = bit (lo64 (isa_clmul a b)) k"
    using \<open>k < LENGTH(64)\<close>
    by (simp add: rv64_clmul_def isa_clmul_def low_bit bit_clmul_fold bit_lo64)
qed

lemma rv64_clmulh_isa: "rv64_clmulh a b = hi64 (isa_clmul a b)"
proof (rule bit_word_eqI)
  fix k assume k: "k < LENGTH(64)"
  have z: "[0..<64] = 0 # [1..<64]" by (simp add: upt_rec)
  have "bit (drop_bit (64 - i) a) k \<longleftrightarrow> bit (push_bit i (ucast a) :: 128 word) (64 + k)"
    if "i \<in> set [1..<64]" for i
    using that k by (auto simp: bit_simps dest: bit_imp_le_length)
  then have "filter (\<lambda>i. bit b i \<and> bit (drop_bit (64 - i) a) k) [1..<64] =
      filter (\<lambda>i. bit b i \<and> bit (push_bit i (ucast a) :: 128 word) (64 + k)) [1..<64]"
    by (intro filter_cong) auto
  moreover have "\<not> bit (push_bit 0 (ucast a) :: 128 word) (64 + k)"
    by (auto simp: bit_simps dest: bit_imp_le_length)
  ultimately show "bit (rv64_clmulh a b) k = bit (hi64 (isa_clmul a b)) k"
    using k
    by (simp add: rv64_clmulh_def isa_clmul_def low_bit bit_clmul_fold hi64_def bit_simps z del: upt_Suc)
qed

section \<open>The macros against the instruction set\<close>

lemma and_63: "b AND 0x3f = take_bit 6 (b :: u64)"
  by (simp add: take_bit_eq_mask mask_numeral)

lemma rest_64: "n < 64 \<Longrightarrow> unat ((64 - of_nat n) AND 0x3f :: u64) = (if n = 0 then 0 else 64 - n)"
proof -
  assume n: "n < 64"
  have "\<forall>n\<in>set [0..<64]. unat ((64 - of_nat n) AND 0x3f :: u64) = (if n = 0 then 0 else 64 - n)"
    by code_simp
  with n show ?thesis by simp
qed

lemma ref_64_lemma:
  assumes "n < 64"
  shows "SRL a (of_nat n) = isa_shift Srl n a" "SRA a (of_nat n) = isa_shift Sra n a"
    "SLL a (of_nat n) = isa_shift Sll n a" "ROR a (of_nat n) = isa_shift Ror n a"
    "ROL a (of_nat n) = isa_shift Rol n a"
proof -
  have t: "take_bit 6 (of_nat n) = (of_nat n :: u64)" and u: "unat (of_nat n :: u64) = n"
    using assms by (simp_all add: take_bit_of_nat take_bit_nat_eq_self unat_of_nat_id)
  have L: "n < LENGTH(64)" using assms by simp
  show "SRL a (of_nat n) = isa_shift Srl n a" "SRA a (of_nat n) = isa_shift Sra n a"
    "SLL a (of_nat n) = isa_shift Sll n a"
    by (simp_all add: SRL_def SRA_def SLL_def isa_shift_def and_63 t u)
  have m: "(of_nat n AND 0x3f) = (of_nat n :: u64)" by (simp only: and_63 t)
  have r: "ROR a (of_nat n) = drop_bit n a OR push_bit (if n = 0 then 0 else 64 - n) a"
    and l: "ROL a (of_nat n) = push_bit n a OR drop_bit (if n = 0 then 0 else 64 - n) a"
    by (simp_all only: ROR_def ROL_def m u rest_64 [OF assms])
  show "ROR a (of_nat n) = isa_shift Ror n a"
    using assms unfolding r
    by (intro bit_word_eqI)
      (auto simp: bit_isa_shift [OF L] bit_simps dest: bit_imp_le_length, simp_all add: add.commute)
  show "ROL a (of_nat n) = isa_shift Rol n a"
    using assms unfolding l
    by (intro bit_word_eqI) (auto simp: bit_isa_shift [OF L] bit_simps dest: bit_imp_le_length)
qed

end
