(* ===== verification/Crypto_Props.thy ===== *)
theory Crypto_Props
  imports Crypto_Hash Unit_Bits
begin

text \<open>
  The cryptography unit behind its valid/ready interface: any stream of its instructions, held
  until the unit is ready, a cipher built from the AES instructions and its inverse, the
  S-boxes, and what an abandoned instruction leaves behind.
\<close>

section \<open>Requests and results\<close>

datatype crypto_instr = Aes aes_kind | Hash hash_kind

fun crypto_request :: "crypto_instr \<Rightarrow> u64 \<Rightarrow> u64 \<Rightarrow> 4 word \<Rightarrow> cry_in" where
  "crypto_request (Hash k) a b i = hash_request k a b i"
| "crypto_request (Aes k) a b i =
     \<lparr>cry_resetn = True, cry_valid = True, cry_rs1 = a, cry_rs2 = b, cry_imm = i,
      cry_aes = aes_op (aes_request k a b i),
      op_sha256_sig0 = False, op_sha256_sig1 = False, op_sha256_sum0 = False, op_sha256_sum1 = False,
      op_sha512_sig0 = False, op_sha512_sig1 = False, op_sha512_sum0 = False, op_sha512_sum1 = False,
      op_sm3_p0 = False, op_sm3_p1 = False, op_sm4_ks = False, op_sm4_ed = False\<rparr>"

fun crypto_isa :: "crypto_instr \<Rightarrow> u64 \<Rightarrow> u64 \<Rightarrow> 4 word \<Rightarrow> u64" where
  "crypto_isa (Hash k) a b i = hash_isa k a b (ucast i)"
| "crypto_isa (Aes k) a b i = aes_isa k a b i"

fun crypto_cycles :: "crypto_instr \<Rightarrow> nat" where
  "crypto_cycles (Hash k) = 1"
| "crypto_cycles (Aes k) = (if two_cycles k then 2 else 1)"

text \<open>The execute stage holds its inputs until the unit is ready; the fuel is the cycles it waits.\<close>

fun crypto_exec :: "nat \<Rightarrow> cry_in \<Rightarrow> aes \<Rightarrow> (u64 \<times> nat \<times> aes) option" where
  "crypto_exec 0 x s = None"
| "crypto_exec (Suc n) x s =
     (if cry_ready x s then Some (cry_rd x s, 1, cry_step x s)
      else map_option (\<lambda>(r, c, t). (r, Suc c, t)) (crypto_exec n x (cry_step x s)))"

fun crypto_stream :: "(crypto_instr \<times> u64 \<times> u64 \<times> 4 word) list \<Rightarrow> aes \<Rightarrow> (u64 \<times> nat) list option" where
  "crypto_stream [] s = Some []"
| "crypto_stream ((k, a, b, i) # is) s =
     (case crypto_exec 2 (crypto_request k a b i) s of None \<Rightarrow> None
      | Some (r, c, t) \<Rightarrow> map_option ((#) (r, c)) (crypto_stream is t))"

lemma aes_request_unit:
  "cry_aes_in (crypto_request (Aes k) a b i) = aes_request k a b i"
  "cry_rd (crypto_request (Aes k) a b i) s = aes_rd (aes_request k a b i) s"
  "cry_ready (crypto_request (Aes k) a b i) s = aes_ready (aes_request k a b i) s"
  "cry_step (crypto_request (Aes k) a b i) s = aes_step (aes_request k a b i) s"
proof -
  have v: "saes64_valid (crypto_request (Aes k) a b i)"
    by (cases k) (simp_all add: saes64_valid_def aes_request_def)
  have o: "\<not> ssha256_valid (crypto_request (Aes k) a b i)" "\<not> ssha512_valid (crypto_request (Aes k) a b i)"
    "\<not> ssm3_valid (crypto_request (Aes k) a b i)" "\<not> ssm4_valid (crypto_request (Aes k) a b i)"
    by (simp_all add: ssha256_valid_def ssha512_valid_def ssm3_valid_def ssm4_valid_def)
  show i: "cry_aes_in (crypto_request (Aes k) a b i) = aes_request k a b i"
    unfolding cry_aes_in_def using v by (simp add: aes_request_def)
  show "cry_rd (crypto_request (Aes k) a b i) s = aes_rd (aes_request k a b i) s"
    "cry_ready (crypto_request (Aes k) a b i) s = aes_ready (aes_request k a b i) s"
    "cry_step (crypto_request (Aes k) a b i) s = aes_step (aes_request k a b i) s"
    unfolding cry_rd_def cry_ready_def cry_step_def i using v o by (simp_all add: gated_def del: crypto_request.simps)
qed

lemma crypto_exec_exact:
  assumes "\<not> sbox_hi s"
  obtains t where "crypto_exec 2 (crypto_request k a b i) s = Some (crypto_isa k a b i, crypto_cycles k, t)"
    "\<not> sbox_hi t"
proof (cases k)
  case (Hash h)
  then show ?thesis
    using that [of s] assms hash_exact [of h a b i s] by (simp add: numeral_2_eq_2)
next
  case (Aes e)
  let ?x = "aes_request e a b i"
  let ?t = "if two_cycles e then aes_step ?x (aes_step ?x s) else aes_step ?x s"
  show ?thesis
    using that [of ?t] aes_exact [OF assms refl refl, of e a b i] Aes
    by (simp add: aes_request_unit numeral_2_eq_2 del: crypto_request.simps split: if_splits)
qed

lemma crypto_stream_idle:
  assumes "\<not> sbox_hi s"
  shows "crypto_stream is s = Some (map (\<lambda>(k, a, b, i). (crypto_isa k a b i, crypto_cycles k)) is)"
  using assms
proof (induction "is" arbitrary: s)
  case (Cons r "is")
  obtain k a b i where r: "r = (k, a, b, i)" by (cases r)
  obtain t where "crypto_exec 2 (crypto_request k a b i) s = Some (crypto_isa k a b i, crypto_cycles k, t)"
    and "\<not> sbox_hi t"
    using Cons.prems by (rule crypto_exec_exact)
  then show ?case using Cons.IH [of t] by (simp add: r)
qed simp

text \<open>C15: A stream of cryptography instructions after a reset (at any inputs, from any state of the registers)
  completes: every instruction gives the result its algorithm defines, AES byte substitutions
  and the first key schedule step after two cycles, everything else in the cycle that asks for it,
  whatever came before.\<close>

theorem crypto_stream_exact:
  "crypto_stream is (cry_step (x\<lparr>cry_resetn := False\<rparr>) s) =
     Some (map (\<lambda>(k, a, b, i). (crypto_isa k a b i, crypto_cycles k)) is)"
  by (rule crypto_stream_idle) (simp add: cry_step_def aes_step_def cry_aes_in_def)

section \<open>A cipher and its inverse\<close>

text \<open>The result of an AES instruction in the unit after its reset, and the two instructions that transform both
  halves of a state.\<close>

definition aes_idle :: aes where "aes_idle = \<lparr>sbox_hi = False, sbox_regs = [0, 0, 0, 0]\<rparr>"

definition unit_rd :: "aes_kind \<Rightarrow> u64 \<Rightarrow> u64 \<Rightarrow> u64" where
  "unit_rd k a b =
     (case crypto_exec 2 (crypto_request (Aes k) a b 0) aes_idle of Some (r, _) \<Rightarrow> r | None \<Rightarrow> 0)"

type_synonym block = "u64 \<times> u64"

definition aes_pair :: "aes_kind \<Rightarrow> block \<Rightarrow> block" where
  "aes_pair k st = (unit_rd k (fst st) (snd st), unit_rd k (snd st) (fst st))"

definition add_key :: "block \<Rightarrow> block \<Rightarrow> block" where
  "add_key st k = (fst st XOR fst k, snd st XOR snd k)"

definition aes_encrypt :: "block \<Rightarrow> block list \<Rightarrow> block \<Rightarrow> block \<Rightarrow> block" where
  "aes_encrypt k0 ks kn st =
     add_key (aes_pair Encs (foldl (\<lambda>s k. add_key (aes_pair Encsm s) k) (add_key st k0) ks)) kn"

definition aes_decrypt :: "block \<Rightarrow> block list \<Rightarrow> block \<Rightarrow> block \<Rightarrow> block" where
  "aes_decrypt k0 ks kn st =
     add_key (aes_pair Decs
       (foldl (\<lambda>s k. add_key (aes_pair Decsm s) (aes_pair Imix k)) (add_key st kn) (rev ks))) k0"

lemma unit_rd_isa: "unit_rd k a b = aes_isa k a b 0"
proof -
  have "\<not> sbox_hi aes_idle" by (simp add: aes_idle_def)
  then obtain t where "crypto_exec 2 (crypto_request (Aes k) a b 0) aes_idle =
      Some (aes_isa k a b 0, crypto_cycles (Aes k), t)"
    using crypto_exec_exact [of aes_idle "Aes k" a b 0] by auto
  then show ?thesis by (simp add: unit_rd_def del: crypto_request.simps)
qed

lemma add_key_twice: "add_key (add_key st k) k = st"
  by (simp add: add_key_def prod_eq_iff xor.assoc)

lemma mix_dec_xor: "mix_dec (a XOR b) = mix_dec a XOR mix_dec b"
proof (rule u64_eq_bytes)
  fix i :: nat assume "i < 8"
  moreover have "byte_of (x XOR y) n = byte_of x n XOR byte_of y n" for x y n
    by (rule byte_eqI) (simp add: bit_byte_of bit_xor_iff)
  moreover have "xtN (x XOR y) m = xtN x m XOR xtN y m" for x y m
    unfolding xtN_def by (simp add: xt2_xor ac_simps)
  ultimately show "byte_of (mix_dec (a XOR b)) i = byte_of (mix_dec a XOR mix_dec b) i"
    by (simp add: mix_dec_def mix_columns_def byte_of_join gf_mul_small numeral_2_eq_2 [symmetric]
        Let_def ac_simps)
qed

lemma pair_inverse:
  "aes_pair Decs (aes_pair Encs st) = st"
  "add_key (aes_pair Decsm (aes_pair Encs st)) (aes_pair Imix k) = aes_pair Imix (add_key st k)"
  "aes_pair Imix (aes_pair Encsm st) = aes_pair Encs st"
  by (simp_all add: aes_pair_def add_key_def unit_rd_isa sub_shift_inverse mix_dec_enc mix_dec_xor)

lemma inner_rounds:
  "foldl (\<lambda>s k. add_key (aes_pair Decsm s) (aes_pair Imix k))
     (aes_pair Encs (foldl (\<lambda>s k. add_key (aes_pair Encsm s) k) st ks)) (rev ks) = aes_pair Encs st"
proof (induction ks arbitrary: st)
  case (Cons k ks)
  then show ?case
    by (simp add: pair_inverse(2) add_key_twice pair_inverse(3))
qed simp

text \<open>C16: Decryption with the AES instructions inverts encryption: for any number of rounds and any round keys, the
  cipher made of \<open>aes64ds\<close>, \<open>aes64dsm\<close> and round keys passed through \<open>aes64im\<close> gives back the block
  that the cipher made of \<open>aes64es\<close> and \<open>aes64esm\<close> was given, computed by the two-cycle unit.\<close>

theorem aes_decrypt_inverts: "aes_decrypt k0 ks kn (aes_encrypt k0 ks kn st) = st"
  by (simp add: aes_decrypt_def aes_encrypt_def add_key_twice inner_rounds pair_inverse(1))

section \<open>The S-boxes\<close>

text \<open>C17: The S-box circuits compute what their standards define: the AES one inverts in the field of
  256 elements and applies the affine map, the inverse one undoes it on both sides, and the SM4 one
  is an inversion between two affine maps.\<close>

theorem sbox_circuits_exact:
  "(\<exists>y. gf_inverse 0x1b x y \<and> aes_fwd_sbox x = aes_affine y) \<and>
   aes_inv_sbox (aes_fwd_sbox x) = x \<and> aes_fwd_sbox (aes_inv_sbox x) = x \<and>
   (\<exists>y. gf_inverse 0xf5 (sm4_affine x) y \<and> sm4_sbox x = sm4_affine y)"
  using aes_sbox_inverse [of x] sm4_sbox_inverse [of x] aes_affine_inverse [of "aes_fwd_sbox x"]
    sm4_affine_inverse [of "sm4_sbox x"] inv_fwd_sbox [of x] fwd_inv_sbox [of x] by metis

section \<open>An abandoned instruction\<close>

lemma sbox_values: "aes_fwd_sbox 0 = 0x63" "aes_fwd_sbox 0x63 = 0xfb"
proof -
  have "aes_fwd_sbox (word_of [False, False, False, False, False, False, False, False]) =
      word_of [True, True, False, False, False, True, True, False]"
    "aes_fwd_sbox (word_of [True, True, False, False, False, True, True, False]) =
      word_of [True, True, False, True, True, True, True, True]"
    by (simp_all add: aes_fwd_sbox_def circuits cong: let_weak_cong)
  moreover have "word_of [False, False, False, False, False, False, False, False] = (0 :: u8)"
    "word_of [True, True, False, False, False, True, True, False] = (0x63 :: u8)"
    "word_of [True, True, False, True, True, True, True, True] = (0xfb :: u8)" by code_simp+
  ultimately show "aes_fwd_sbox 0 = 0x63" "aes_fwd_sbox 0x63 = 0xfb" by simp_all
qed

lemma all_same:
  assumes "\<And>k. k < 8 \<Longrightarrow> byte_of a k = x" "\<And>k. k < 8 \<Longrightarrow> byte_of b k = x" "i < 8"
  shows "byte_of (sub_shift_enc a b) i = aes_fwd_sbox x"
proof -
  have "shift_enc i < 16" by (simp add: shift_enc_def)
  then have "aes_state a b (shift_enc i) = x" using assms(1,2) by (simp add: aes_state_def)
  then show ?thesis using assms(3) by (simp add: sub_shift_enc_def byte_of_join)
qed

lemma bytes_63: "k < 8 \<Longrightarrow> byte_of 0x6363636363636363 k = 0x63"
  "k < 8 \<Longrightarrow> byte_of 0xfbfbfbfbfbfbfbfb k = 0xfb" "byte_of 0 k = 0"
proof -
  assume "k < 8"
  then have "k \<in> {0, 1, 2, 3, 4, 5, 6, 7}" by auto
  then show "byte_of 0x6363636363636363 k = 0x63" "byte_of 0xfbfbfbfbfbfbfbfb k = 0xfb"
    by (auto simp: byte_of_def)
qed (simp add: byte_of_def)

lemma sub_shift_0: "sub_shift_enc 0 0 = 0x6363636363636363"
  and sub_shift_63: "sub_shift_enc 0x6363636363636363 0x6363636363636363 = 0xfbfbfbfbfbfbfbfb"
  by (rule u64_eq_bytes, simp add: all_same bytes_63 sbox_values)+

lemma invalid_step: "\<not> aes_valid x \<Longrightarrow> aes_resetn x \<Longrightarrow> aes_step x s = s"
  by (simp add: aes_step_def sbox_reg_ld_en_def)

text \<open>The inputs of the unit in a cycle without a cryptography instruction.\<close>

definition no_crypto :: "cry_in \<Rightarrow> bool" where "no_crypto y \<longleftrightarrow> \<not> cry_valid y \<and> cry_resetn y"

lemma no_crypto_step: "no_crypto y \<Longrightarrow> cry_step y s = s"
  unfolding cry_step_def
  by (rule invalid_step) (simp_all add: cry_aes_in_def saes64_valid_def no_crypto_def)

lemma no_crypto_steps: "list_all no_crypto ys \<Longrightarrow> foldl (\<lambda>s y. cry_step y s) s ys = s"
  by (induction ys) (simp_all add: no_crypto_step)

text \<open>C38: The unit has no flush. When an \<open>aes64es\<close> goes away after its first cycle (its \<open>valid\<close> drops, for any
  number of cycles, or another one takes its place at once), the next \<open>aes64es\<close> is ready in its
  first cycle, with the lower half of its result taken from the operands of the other one.\<close>

theorem aes_abandoned_corrupts:
  assumes "\<not> sbox_hi s" "list_all no_crypto ys"
    "t = foldl (\<lambda>s y. cry_step y s) (cry_step (crypto_request (Aes Encs) a b i) s) ys"
  shows "cry_ready (crypto_request (Aes Encs) c d j) t \<and>
    cry_rd (crypto_request (Aes Encs) c d j) t =
      word_cat (high32 (sub_shift_enc c d)) (low32 (sub_shift_enc a b))"
proof -
  let ?x = "aes_request Encs a b i" and ?y = "aes_request Encs c d j"
  have t: "t = aes_step ?x s"
    using assms(3) by (simp add: no_crypto_steps [OF assms(2)] aes_request_unit del: crypto_request.simps)
  have op: "sbox_instr (aes_op ?x)" "sbox_instr (aes_op ?y)" "\<not> op_dec (aes_op ?x)"
    by (simp_all add: aes_request_def sbox_instr_def op_dec_def)
  have hi: "sbox_hi t" using second_cycle(1) [OF assms(1) refl op(1) t] .
  have regs: "sbox_regs t ! n = n_sbox_fwd ?x s n" if "n < 4" for n
    using that assms(1) op by (simp add: t aes_step_def sbox_reg_ld_en_def) (simp add: aes_request_def)
  have "e_sbout ?y t = word_cat (high32 (sub_shift_enc c d)) (low32 (sub_shift_enc a b))"
  proof (rule u64_eq_bytes)
    fix n :: nat assume n: "n < 8"
    show "byte_of (e_sbout ?y t) n =
        byte_of (word_cat (high32 (sub_shift_enc c d)) (low32 (sub_shift_enc a b))) n"
      using n hi assms(1) regs
      by (simp add: e_sbout_def byte_of_join byte_of_cat cbyte_halves sub_shift_enc_def n_sbox_fwd_def
          shifted_bytes(2))
  qed
  then have "aes_rd ?y t = word_cat (high32 (sub_shift_enc c d)) (low32 (sub_shift_enc a b))"
    by (simp add: aes_rd_def gated_def result_enc_def aes_request_def op_enc_def op_dec_def aes_mix_def)
  moreover have "aes_ready ?y t"
    using hi op(2) by (simp add: aes_ready_def sbox_ready_def) (simp add: aes_request_def)
  ultimately show ?thesis by (simp add: aes_request_unit del: crypto_request.simps)
qed

theorem aes_abandoned_corrupts_witness:
  "let t = cry_step (crypto_request (Aes Encs) 0 0 0) aes_idle;
       x = crypto_request (Aes Encs) 0x6363636363636363 0x6363636363636363 0 in
   cry_ready x t \<and> cry_rd x t = 0xfbfbfbfb63636363"
proof -
  have "\<not> sbox_hi aes_idle" by (simp add: aes_idle_def)
  note c = aes_abandoned_corrupts [OF this, of "[]" _ 0 0 0 "0x6363636363636363" "0x6363636363636363" 0,
      OF _ refl]
  have "word_cat (high32 (sub_shift_enc 0x6363636363636363 0x6363636363636363))
      (low32 (sub_shift_enc 0 0)) = (0xfbfbfbfb63636363 :: u64)"
    unfolding sub_shift_63 sub_shift_0 high32_def low32_def by code_simp
  then show ?thesis using c by (simp add: Let_def del: crypto_request.simps)
qed

section \<open>The test program\<close>

text \<open>\<open>verif/core/unit/k-aes/test.c\<close>; an instruction wrapper is a function argument.\<close>

definition k_aes_test_main :: "(aes_kind \<Rightarrow> u64 \<Rightarrow> u64 \<Rightarrow> u64) \<Rightarrow> nat option" where
  "k_aes_test_main instr = run_tests
     [TEST_IS (instr Encs) 0x6363636363636363 0 0,
      TEST_IS (instr Encsm) 0x6363636363636363 0 0,
      TEST_IS (instr Encs) 0x63fbfb63fbfb6363 0 0x6363636363636363]"

lemma sub_shift_mixed: "sub_shift_enc 0 0x6363636363636363 = 0x63fbfb63fbfb6363"
proof (rule u64_eq_bytes)
  fix i :: nat assume "i < 8"
  then have "i \<in> {0, 1, 2, 3, 4, 5, 6, 7}" by auto
  then show "byte_of (sub_shift_enc 0 0x6363636363636363) i = byte_of 0x63fbfb63fbfb6363 i"
    by (auto simp: sub_shift_enc_def byte_of_join aes_state_def shift_enc_def bytes_63 sbox_values
        numeral_2_eq_2 [symmetric]) (simp_all add: byte_of_def)
qed

lemma mix_63: "mix_enc 0x6363636363636363 = 0x6363636363636363"
proof (rule u64_eq_bytes)
  fix i :: nat assume i: "i < 8"
  have "4 * (i div 4) + (i + j) mod 4 < 8" for j
  proof -
    have "i div 4 \<le> 1" using i by linarith
    moreover have "(i + j) mod 4 < 4" by simp
    ultimately show ?thesis by linarith
  qed
  then have b: "byte_of 0x6363636363636363 (4 * (i div 4) + (i + j) mod 4) = 0x63" for j
    by (rule bytes_63(1))
  have "byte_of (mix_enc 0x6363636363636363) i = xtN 0x63 2 XOR xtN 0x63 3 XOR 0x63 XOR 0x63"
    using i b [of 0] b [of 1] b [of 2] b [of 3] by (simp add: mix_enc_def mix_columns_def byte_of_join gf_mul_small bytes_63 Let_def
        numeral_2_eq_2 [symmetric])
  also have "\<dots> = 0x63" by (simp add: xtN_def xt2_def)
  finally show "byte_of (mix_enc 0x6363636363636363) i = byte_of 0x6363636363636363 i"
    by (simp add: bytes_63 i)
qed

lemma k_aes_test_passes: "k_aes_test_main unit_rd = Some 0"
  by (simp add: k_aes_test_main_def TEST_IS_def unit_rd_isa sub_shift_0 sub_shift_mixed mix_63)

end
