(* ===== verification/Isa_Units.thy ===== *)
theory Isa_Units
  imports Isa_Dec Crypto_Props
begin

text \<open>
  What the decoder makes of branches and jumps, multiplications and divisions, loads and stores and the
  cryptography instructions: which unit is asked, for what, and that nothing else happens.
\<close>

section \<open>Control flow\<close>

fun branch_holds :: "branch \<Rightarrow> u64 \<Rightarrow> u64 \<Rightarrow> bool" where
  "branch_holds BEQ a b \<longleftrightarrow> a = b"
| "branch_holds BNE a b \<longleftrightarrow> a \<noteq> b"
| "branch_holds BLT a b \<longleftrightarrow> sint a < sint b"
| "branch_holds BGE a b \<longleftrightarrow> \<not> sint a < sint b"
| "branch_holds BLTU a b \<longleftrightarrow> a < b"
| "branch_holds BGEU a b \<longleftrightarrow> \<not> a < b"

text \<open>A word that only drives the control flow unit, and the link it writes, if any.\<close>

definition cfu_only :: "dec_in \<Rightarrow> bool \<Rightarrow> bool" where
  "cfu_only y link \<longleftrightarrow>
     (let i = d_instr y in
      cfu_op_any i \<and> \<not> ex_mdu_valid i \<and> \<not> ex_cry_valid i \<and> \<not> wdata_csr i \<and> \<not> s2_lsu_load y \<and> \<not> s2_lsu_store y \<and>
      \<not> dec_invalid_opcode i \<and> \<not> rs1_as_rd i \<and> s2_wb_npc y = (\<not> s2_trap y \<and> link) \<and> (\<not> link \<longrightarrow> cfu_op_conditonal i))"

definition cfu_asks :: "exec_in \<Rightarrow> branch option \<Rightarrow> bool \<Rightarrow> bool \<Rightarrow> u64 \<Rightarrow> u64 \<Rightarrow> u64 \<Rightarrow> bool" where
  "cfu_asks x c jal jalr a b off \<longleftrightarrow>
     (\<exists>eq lt ltu.
      ex_cfu_in x =
        \<lparr>c_eq = eq, c_lt = lt, c_ltu = ltu, cfu_valid = (\<not> x_wfi_sleep x \<and> s2_valid x),
         cfu_pc = d_pc (x_dec x), cfu_npc = dec_npc (x_dec x), cfu_rs1 = a, cfu_offset = off,
         cfu_beq = (c = Some BEQ), cfu_bge = (c = Some BGE), cfu_bgeu = (c = Some BGEU), cfu_blt = (c = Some BLT),
         cfu_bltu = (c = Some BLTU), cfu_bne = (c = Some BNE), cfu_ebrk = False, cfu_ecall = False, cfu_j = False,
         cfu_jal = jal, cfu_jalr = jalr, i_mret = False, i_wfi = False\<rparr> \<and>
      (c \<noteq> None \<longrightarrow> (eq \<longleftrightarrow> a = b) \<and> (lt \<longleftrightarrow> sint a < sint b) \<and> (ltu \<longleftrightarrow> a < b)))"

lemmas cfu_unit_defs = opcode_simps cfu_only_def dec_invalid_opcode_def s2_wb_npc_def ex_cfu_in_def cmp_eq_def
  cmp_lt_def cmp_ltu_def s2_imm_def Let_def

lemma op_63:
  assumes "major_opc i = 0x63" "known i 0x707f (push_bit 12 (ucast (br_funct c)) OR 0x63)" "d_instr (x_dec x) = i"
  shows "cfu_only (x_dec x) False \<and>
    cfu_asks x (Some c) False False (d_rs1_data (x_dec x)) (d_rs2_data (x_dec x)) (sext_imm (imm32_b i))"
  using opc_quad [OF assms(1)] assms ik_known [OF assms(2)]
  by (simp add: cfu_unit_defs cfu_asks_def; cases c; simp add: ik_wires)

lemma op_67:
  assumes "major_opc i = 0x67" "known i 0x707f 0x67" "d_instr (x_dec x) = i"
  shows "cfu_only (x_dec x) True \<and>
    cfu_asks x None False True (d_rs1_data (x_dec x)) 0 (sext_imm (imm32_i i))"
  using opc_quad [OF assms(1)] assms ik_known [OF assms(2)]
  by (simp add: cfu_unit_defs cfu_asks_def; simp add: ik_wires)

lemma op_6f:
  assumes "major_opc i = 0x6f" "d_instr (x_dec x) = i"
  shows "cfu_only (x_dec x) True \<and>
    cfu_asks x None True False (d_rs1_data (x_dec x)) 0 (sext_imm (imm32_j i))"
  using opc_quad [OF assms(1)] assms
  by (simp add: cfu_unit_defs cfu_asks_def dec_jal_def flip: major_opc_def)

section \<open>Multiplication and division\<close>

definition unit_word :: "dec_in \<Rightarrow> bool" where
  "unit_word y \<longleftrightarrow>
     (let i = d_instr y in
      \<not> cfu_op_any i \<and> \<not> wdata_csr i \<and> \<not> s2_lsu_load y \<and> \<not> s2_lsu_store y \<and> \<not> zero_rd i \<and>
      \<not> cfu_op_conditonal i \<and> \<not> dec_invalid_opcode i \<and> \<not> s2_wb_alu y \<and>
      s2_alu_lhs y = d_rs1_data y \<and> s2_alu_rhs y = d_rs2_data y)"

lemmas unit_word_defs = opcode_simps unit_word_def dec_invalid_opcode_def s2_wb_alu_def Let_def

lemma mdu_33:
  assumes "major_opc i = 0x33" "known i 0xfe00707f (r_const (fst (mdu_funct opr)) (snd (mdu_funct opr)) 0x33)"
      "d_instr y = i"
  shows "unit_word y \<and> \<not> ex_cry_valid i \<and> ex_mdu_valid i \<and> \<not> rs1_as_rd i \<and>
    ex_mdu_in True fl y = (mdu_request opr False (d_rs1_data y) (d_rs2_data y))\<lparr>mdu_flush := fl\<rparr>"
  using opc_quad [OF assms(1)] assms rk_known [OF assms(2)]
  by (simp add: unit_word_defs ex_mdu_in_def mdu_request_def;
      cases opr; simp add: rk_wires dec_sm4ed_def dec_sm4ks_def known_conflict r_const_def)

lemma mdu_3b:
  assumes "major_opc i = 0x3b" "known i 0xfe00707f (r_const (fst (mdu_funct opr)) (snd (mdu_funct opr)) 0x3b)"
      "d_instr y = i"
    "opr \<in> {MUL, DIV, DIVU, REM, REMU}"
  shows "unit_word y \<and> \<not> ex_cry_valid i \<and> ex_mdu_valid i \<and> \<not> rs1_as_rd i \<and>
    ex_mdu_in True fl y = (mdu_request opr True (d_rs1_data y) (d_rs2_data y))\<lparr>mdu_flush := fl\<rparr>"
  using opc_quad [OF assms(1)] assms rk_known [OF assms(2)]
  by (simp add: unit_word_defs ex_mdu_in_def mdu_request_def;
      elim disjE; simp add: rk_wires r_const_def)

section \<open>Loads and stores\<close>

definition mem_word :: "dec_in \<Rightarrow> bool \<Rightarrow> nat \<Rightarrow> bool \<Rightarrow> u64 \<Rightarrow> bool" where
  "mem_word y st n sx off \<longleftrightarrow>
     (let i = d_instr y in
      \<not> cfu_op_any i \<and> \<not> wdata_csr i \<and> \<not> ex_mdu_valid i \<and> \<not> ex_cry_valid i \<and> \<not> dec_invalid_opcode i \<and>
      \<not> s2_wb_alu y \<and> \<not> rs1_as_rd i \<and> \<not> cfu_op_conditonal i \<and> zero_rd i = st \<and>
      s2_lsu_load y = (\<not> s2_iaccess_trap y \<and> \<not> st) \<and> s2_lsu_store y = (\<not> s2_iaccess_trap y \<and> st) \<and>
      s2_lsu_byte i = (n = 1) \<and> s2_lsu_half i = (n = 2) \<and> s2_lsu_word i = (n = 4) \<and> s2_lsu_dbl i = (n = 8) \<and>
      (s2_lsu_sext i \<longleftrightarrow> \<not> st \<and> sx \<and> n \<noteq> 8) \<and> alu_add_out y = d_rs1_data y + off)"

lemmas mem_word_defs = opcode_simps mem_word_def dec_invalid_opcode_def s2_wb_alu_def Let_def alu_add_out_def
  addsub_output_def opr_b_n_def neg_opr_b_def s2_imm_def

lemma op_03:
  assumes "major_opc i = 0x03" "known i 0x707f (push_bit 12 (ucast (width_funct n OR (if sx then 0 else 4))) OR 3)"
    "d_instr y = i" "n \<in> {1, 2, 4} \<or> n = 8 \<and> sx"
  shows "mem_word y False n sx (sext_imm (imm32_i i))"
  using opc_quad [OF assms(1)] assms ik_known [OF assms(2)]
  by (simp add: mem_word_defs; cases sx; simp; elim disjE; simp add: ik_wires width_funct_def)

lemma op_23:
  assumes "major_opc i = 0x23" "known i 0x707f (push_bit 12 (ucast (width_funct n)) OR 0x23)"
    "d_instr y = i" "n \<in> {1, 2, 4, 8}"
  shows "mem_word y True n sx (sext_imm (imm32_s i))"
  using opc_quad [OF assms(1)] assms ik_known [OF assms(2)]
  by (simp add: mem_word_defs; elim disjE; simp add: ik_wires width_funct_def)

section \<open>Cryptography\<close>

text \<open>Words of the I format with the twelve bits fixed, of the R format with the seven, and the two with a byte
  number in the highest two bits, which write their first operand's register.\<close>

fun hash_imm :: "hash_kind \<Rightarrow> 12 word" where
  "hash_imm Sha256_sum0 = 0x100" | "hash_imm Sha256_sum1 = 0x101" | "hash_imm Sha256_sig0 = 0x102"
| "hash_imm Sha256_sig1 = 0x103" | "hash_imm Sha512_sum0 = 0x104" | "hash_imm Sha512_sum1 = 0x105"
| "hash_imm Sha512_sig0 = 0x106" | "hash_imm Sha512_sig1 = 0x107" | "hash_imm Sm3_p0 = 0x108"
| "hash_imm Sm3_p1 = 0x109" | "hash_imm _ = 0"

fun aes_funct7 :: "aes_kind \<Rightarrow> 7 word" where
  "aes_funct7 Ks2 = 0x3f" | "aes_funct7 Encsm = 0x1b" | "aes_funct7 Encs = 0x19" | "aes_funct7 Decsm = 0x1f"
| "aes_funct7 Decs = 0x1d" | "aes_funct7 _ = 0"

fun encode_cry :: "crypto_instr \<Rightarrow> 5 word \<Rightarrow> 5 word \<Rightarrow> 5 word \<Rightarrow> 4 word \<Rightarrow> u32" where
  "encode_cry (Hash Sm4_ks) rd rs1 rs2 n = r_type (push_bit 5 (ucast n) OR 0x1a) rs2 rs1 0 0 0x33"
| "encode_cry (Hash Sm4_ed) rd rs1 rs2 n = r_type (push_bit 5 (ucast n) OR 0x18) rs2 rs1 0 0 0x33"
| "encode_cry (Hash k) rd rs1 rs2 n = i_type (hash_imm k) rs1 1 rd 0x13"
| "encode_cry (Aes Ks1) rd rs1 rs2 n = i_type (0x310 OR ucast n) rs1 1 rd 0x13"
| "encode_cry (Aes Imix) rd rs1 rs2 n = i_type 0x300 rs1 1 rd 0x13"
| "encode_cry (Aes k) rd rs1 rs2 n = r_type (aes_funct7 k) rs2 rs1 0 rd 0x33"

fun cry_dest :: "crypto_instr \<Rightarrow> 5 word \<Rightarrow> 5 word \<Rightarrow> 5 word" where
  "cry_dest (Hash Sm4_ks) rd rs1 = rs1"
| "cry_dest (Hash Sm4_ed) rd rs1 = rs1"
| "cry_dest k rd rs1 = rd"

definition byte_select :: "crypto_instr \<Rightarrow> bool" where
  "byte_select k \<longleftrightarrow> k = Hash Sm4_ks \<or> k = Hash Sm4_ed"

definition cry_word :: "dec_in \<Rightarrow> crypto_instr \<Rightarrow> 4 word \<Rightarrow> bool" where
  "cry_word y k n \<longleftrightarrow>
     unit_word y \<and> \<not> ex_mdu_valid (d_instr y) \<and> ex_cry_valid (d_instr y) \<and>
     rs1_as_rd (d_instr y) = byte_select k \<and>
     ex_cry_in True y = crypto_request k (d_rs1_data y) (d_rs2_data y) n"

lemmas cry_word_defs = unit_word_defs cry_word_def ex_cry_in_def hash_request_def aes_request_def no_aes_def
    byte_select_def

lemma ik_12: "known i 0xfff0707f v \<Longrightarrow> ik i = unat (v AND 0x707f)" "known i 0xff00707f v \<Longrightarrow> ik i = unat (v AND 0x707f)"
  by (auto simp: known_def ik_def and.assoc)

lemma sk_12: "known i 0xfff0707f v \<Longrightarrow> sk i = unat (v AND 0xfc00707f)" "known i 0xff00707f v \<Longrightarrow> sk i = unat (v AND
    0xfc00707f)"
  by (auto simp: known_def sk_def and.assoc)

lemma hash_13:
  assumes "major_opc i = 0x13" "known i 0xfff0707f (push_bit 20 (ucast (hash_imm k)) OR 0x1013)" "d_instr y = i"
    "k \<noteq> Sm4_ks" "k \<noteq> Sm4_ed"
  shows "cry_word y (Hash k) (s2_cry_imm i)"
  using opc_quad [OF assms(1)] assms ik_12(1) [OF assms(2)] sk_12(1) [OF assms(2)] hk_known [OF assms(2)]
  by (simp add: cry_word_defs;
      cases k; simp add: ik_wires sk_wires hk_wires not_sk)

lemma imix_13:
  assumes "major_opc i = 0x13" "known i 0xfff0707f 0x30001013" "d_instr y = i"
  shows "cry_word y (Aes Imix) (s2_cry_imm i)"
  using opc_quad [OF assms(1)] assms ik_12(1) [OF assms(2)] sk_12(1) [OF assms(2)] hk_known [OF assms(2)]
  by (simp add: cry_word_defs;
      simp add: ik_wires sk_wires hk_wires not_sk dec_aes64ks1i_def known_conflict)

lemma ks1_13:
  assumes "major_opc i = 0x13" "known i 0xff00707f 0x31001013" "d_instr y = i"
  shows "cry_word y (Aes Ks1) (field 23 20 i)"
  using opc_quad [OF assms(1)] assms ik_12(2) [OF assms(2)] sk_12(2) [OF assms(2)]
  by (simp add: cry_word_defs s2_cry_imm_def;
      simp add: ik_wires sk_wires not_sk dec_aes64im_def dec_aes64ks1i_def known_conflict known_covers)

lemma aes_33:
  assumes "major_opc i = 0x33" "known i 0xfe00707f (r_const (aes_funct7 k) 0 0x33)" "d_instr y = i" "k \<notin> {Ks1, Imix}"
  shows "cry_word y (Aes k) (s2_cry_imm i)"
  using opc_quad [OF assms(1)] assms rk_known [OF assms(2)]
  by (simp add: cry_word_defs;
      cases k; simp add: rk_wires dec_sm4ed_def dec_sm4ks_def known_conflict r_const_def)

lemma sm4_33:
  assumes "major_opc i = 0x33" "known i 0x3e007fff (if k = Sm4_ks then 0x34000033 else 0x30000033)" "d_instr y =
      i" "k \<in> {Sm4_ks, Sm4_ed}"
  shows "cry_word y (Hash k) (s2_cry_imm i)"
  using opc_quad [OF assms(1)] assms
  by (simp add: cry_word_defs;
      elim disjE; simp add: dec_defs known_conflict known_covers)

end
