(* ===== verification/Alu_Unit.thy ===== *)
theory Alu_Unit
  imports Unit_Bits
begin

text \<open>
  The properties of the ALU and of the bit manipulation test programs. The tool that truncates
  select indices is the instance \<open>wrap_sel\<close>.
\<close>

definition wrap_sel :: "128 word \<Rightarrow> int \<Rightarrow> bool" where
  "wrap_sel w k = bit w (nat (k + 128))"

lemma wrap_sel_wraps: "sel_wraps wrap_sel"
  by (simp add: sel_wraps_def wrap_sel_def)

lemma mdu_instr_clmul:
  "mdu_idle s \<Longrightarrow> opr \<in> {CLMUL, CLMULH} \<Longrightarrow> mdu_instr s opr False a b = Some (isa_mul opr False a b)"
  using mdu_wait_delivers [OF clmul_delivers_lemma [of s opr a b], of 70]
  by (simp add: mdu_instr_def)

section \<open>The unit\<close>

text \<open>C8: The ALU computes the instruction set: for every operation it supports (additions, shifts
  and rotations at both widths, comparisons, bitwise and negated operations, packing, the three
  byte and bit reversals, both crossbar permutations) and all operands, the result is the
  instruction's, provided left shifts are built by a tool that truncates select indices.\<close>

theorem alu_correct:
  assumes "alu_supported opr word b" "reads_outside opr word \<Longrightarrow> sel_wraps sel"
  shows "alu_result sel (alu_request opr word a b) = isa_alu opr word a b"
  using alu_isa_lemma [OF assms] by (simp add: alu_instr_def)

theorem alu_correct_witness:
  "alu_result wrap_sel (alu_request Rol False 0x8000000000000001 4) = 0x18"
proof -
  have "isa_alu Rol False 0x8000000000000001 4 = 0x18" by code_simp
  then show ?thesis
    using alu_correct [of Rol False 4 wrap_sel "0x8000000000000001"] wrap_sel_wraps
    by (simp add: alu_supported_def)
qed

text \<open>A 64-bit left shift depends on selects outside a vector: below the shift amount its result
  is exactly what the tool reads for the bits at negative indices of the shifter's input, which
  the language leaves unknown; a tool that reads ones there shifts ones in.\<close>

theorem alu_left_shift_reads_outside:
  "alu_result sel (alu_request Sll False a b) =
     push_bit (unat (take_bit 6 b)) a OR
     of_bits (\<lambda>i. i < unat (take_bit 6 b) \<and> sel (cat64 0 a) (int i - int (unat (take_bit 6 b))))"
  (is "?res = ?spec")
proof -
  define x n where "x = alu_request Sll False a b" and "n = unat (take_bit 6 b)"
  have amnt: "shift_amnt x = n" by (simp add: x_def n_def shift_amnt_request)
  have n: "n < 64" using shift_amnt_less [of Sll False a b] amnt by (simp add: x_def)
  have x: "sh_left x" "shift_in_r x = cat64 0 a"
    by (simp_all add: x_def shift_in_r_request rep_def)
  have "?res = lo64 (shift_out_l sel x)"
    using alu_instr_cases [of sel Sll False a b]
    by (simp add: alu_instr_def x_def shift_result_def Let_def)
  moreover have "bit (shift_out_l sel x) i \<longleftrightarrow>
      (if n \<le> i then bit a (i - n) else sel (cat64 0 a) (int i - int n))" if "i < 64" for i
    using bit_shift_out_l [OF x(1) that, of sel] n that
    by (cases "n \<le> i") (simp_all add: amnt x bit_cat64 less_imp_diff_less)
  ultimately show ?thesis
    unfolding n_def [symmetric] by (intro bit_word_eqI) (auto simp: bit_lo64 bit_of_bits bit_simps)
qed

section \<open>The test programs\<close>

text \<open>The shift and rotation test program passes on the ALU: all sixty-three comparisons with the
  reference macros hold, and the program returns zero.\<close>

lemma rotate_test_passes:
  assumes "sel_wraps sel"
  shows "rotate_test_main (alu_instr sel) = Some 0"
proof -
  have "rotate_test_main (alu_instr sel) = rotate_test_main isa_alu"
    unfolding rotate_test_main_def TEST_def
    using assms by (simp only: alu_isa_lemma alu_supported_def insert_iff simp_thms alu_op.simps if_True if_False)
  also have "\<dots> = Some 0" by code_simp
  finally show ?thesis .
qed

lemma rotate_test_passes_witness: "rotate_test_main (alu_instr wrap_sel) = Some 0"
  by (rule rotate_test_passes [OF wrap_sel_wraps])

text \<open>The test programs for the negated bitwise operations, packing, reversals and crossbar
  permutations all return zero on the ALU, whatever out-of-range selects read.\<close>

lemma bit_tests_pass:
  "bitwise_test_main (alu_instr sel) = Some 0 \<and> pack_test_main (alu_instr sel) = Some 0 \<and>
   grev_test_main (alu_instr sel) = Some 0 \<and> xperm_test_main (alu_instr sel) = Some 0"
proof -
  have "alu_instr sel opr False a b = isa_alu opr False a b"
    if "opr \<in> {Andn, Orn, Xnor, Pack, Packh, Packu, Xpermn, Xpermb} \<or> opr = Grev \<and> b \<in> {7, 24, 56}"
    for opr a b
    using that by (intro alu_isa_lemma) (auto simp: alu_supported_def reads_outside_def)
  note isa = this [simplified]
  have "bitwise_test_main (alu_instr sel) = bitwise_test_main isa_alu"
    "pack_test_main (alu_instr sel) = pack_test_main isa_alu"
    "grev_test_main (alu_instr sel) = grev_test_main isa_alu"
    "xperm_test_main (alu_instr sel) = xperm_test_main isa_alu"
    by (simp_all only: bitwise_test_main_def pack_test_main_def grev_test_main_def
        xperm_test_main_def TEST_def TEST_IS_def isa simp_thms)
  moreover have "bitwise_test_main isa_alu = Some 0" by code_simp
  moreover have "pack_test_main isa_alu = Some 0" by code_simp
  moreover have "grev_test_main isa_alu = Some 0" by code_simp
  moreover have "xperm_test_main isa_alu = Some 0" by code_simp
  ultimately show ?thesis by simp
qed

text \<open>The carry-less multiplier completes and agrees with the reference loops of the test program for all
  operands, from any idle state of the unit, so the program returns zero.\<close>

lemma clmul_matches_reference:
  assumes "mdu_idle s"
  shows "mdu_instr s CLMUL False a b = Some (rv64_clmul a b) \<and>
    mdu_instr s CLMULH False a b = Some (rv64_clmulh a b) \<and>
    clmul_test_main (\<lambda>opr word x y. the (mdu_instr s opr word x y)) = Some 0"
proof -
  have eq: "mdu_instr s CLMUL False x y = Some (rv64_clmul x y)"
    "mdu_instr s CLMULH False x y = Some (rv64_clmulh x y)" for x y
    using mdu_instr_clmul [OF assms] by (simp_all add: isa_mul_def rv64_clmul_isa rv64_clmulh_isa)
  then show ?thesis by (simp add: clmul_test_main_def TEST_def upt_rec)
qed

text \<open>The 64-bit reference macros of the shift and rotation program are the instructions, for
  every operand and every shift amount below 64.\<close>

theorem rotate_references_exact:
  assumes "n < 64"
  shows "SRL a (of_nat n) = isa_alu Srl False a (of_nat n) \<and>
    SRA a (of_nat n) = isa_alu Sra False a (of_nat n) \<and>
    SLL a (of_nat n) = isa_alu Sll False a (of_nat n) \<and>
    ROR a (of_nat n) = isa_alu Ror False a (of_nat n) \<and>
    ROL a (of_nat n) = isa_alu Rol False a (of_nat n)"
proof -
  have "unat (take_bit 6 (of_nat n :: u64)) = n"
    using assms by (simp add: take_bit_of_nat take_bit_nat_eq_self unat_of_nat_id)
  then show ?thesis by (simp add: isa_alu_def ref_64_lemma [OF assms])
qed

theorem rotate_references_exact_witness:
  "ROR 3 (of_nat 1) = isa_alu Ror False 3 (of_nat 1) \<and> (1::nat) < 64"
  using rotate_references_exact [of 1 3] by simp

text \<open>The 32-bit reference macros are not the instructions: the sign extension is taken from
  bit 31 of the operand (or left out), so the left shift of 0x80000000 by one, the rotation of
  0x80000000 by one and the right shift of 0x80000000 by zero have wrong expected values.\<close>

theorem word_references_misplace_sign:
  "SLLW 0x80000000 1 = 0xffffffff80000000 \<and> isa_alu Sll True 0x80000000 1 = 0 \<and>
   RORW 0x80000000 1 = 0xffffffffc0000000 \<and> isa_alu Ror True 0x80000000 1 = 0x40000000 \<and>
   SRLW 0x80000000 0 = 0x80000000 \<and> isa_alu Srl True 0x80000000 0 = 0xffffffff80000000"
  by code_simp

end
