(* ===== verification/Exec_Props.thy ===== *)
theory Exec_Props
  imports Isa_Units Alu_Unit Mdu_Unit Lsu_Props
begin

text \<open>
  Instructions in the execute stage: from the encoding, through the decoder and the units, to what
  writeback receives.
\<close>

section \<open>ALU instructions\<close>

fun computes :: "instr \<Rightarrow> bool" where
  "computes (IOp opr w rd rs1 rs2) \<longleftrightarrow> True"
| "computes (IOpImm opr w rd rs1 imm) \<longleftrightarrow> True"
| "computes (IShift opr w rd rs1 sh) \<longleftrightarrow> True"
| "computes (ILui rd imm) \<longleftrightarrow> True"
| "computes (IAuipc rd imm) \<longleftrightarrow> True"
| "computes _ \<longleftrightarrow> False"

fun dest :: "instr \<Rightarrow> 5 word" where
  "dest (IOp opr w rd rs1 rs2) = rd"
| "dest (IOpImm opr w rd rs1 imm) = rd"
| "dest (IShift opr w rd rs1 sh) = rd"
| "dest (ILui rd imm) = rd"
| "dest (IAuipc rd imm) = rd"
| "dest (IJal rd off) = rd"
| "dest (IJalr rd rs1 imm) = rd"
| "dest (IBranch c rs1 rs2 off) = 0"
| "dest (ILoad n sx rd rs1 imm) = rd"
| "dest (IStore n rs1 rs2 imm) = 0"
| "dest (IMdu opr w rd rs1 rs2) = rd"

text \<open>What the instruction set says the destination receives, from the registers and its address.\<close>

fun isa_value :: "instr \<Rightarrow> (5 word \<Rightarrow> u64) \<Rightarrow> u64 \<Rightarrow> u64" where
  "isa_value (IOp opr w rd rs1 rs2) R pc = isa_alu opr w (R rs1) (R rs2)"
| "isa_value (IOpImm opr w rd rs1 imm) R pc = isa_alu opr w (R rs1) (scast imm)"
| "isa_value (IShift opr w rd rs1 sh) R pc = isa_alu opr w (R rs1) (ucast sh)"
| "isa_value (ILui rd imm) R pc = push_bit 12 (scast imm)"
| "isa_value (IAuipc rd imm) R pc = pc + push_bit 12 (scast imm)"
| "isa_value _ R pc = pc + 4"

text \<open>Operands the ALU does not look at.\<close>

lemma alu_shamt_unused:
  assumes "opr \<in> {Add, Sub, Xor, Or, And, Slt, Sltu}"
  shows "alu_result sel ((alu_request opr w a b)\<lparr>alu_shamt := k\<rparr>) = alu_result sel (alu_request opr w a b)"
  using assms
  by (auto simp: alu_result_def bitwise_result_def addsub_result_def addsub_output_def slt_result_def opr_b_n_def
      neg_opr_b_def cmp_lt_def cmp_ltu_def)

lemma alu_b_unused:
  assumes "opr \<in> {Srl, Sll, Sra, Ror, Grev}"
  shows "alu_result sel ((alu_request opr w a b)\<lparr>alu_b := c\<rparr>) = alu_result sel (alu_request opr w a b)"
  using assms
  by (auto simp: alu_result_def bitwise_result_def shift_result_def shift_out_l_def shift_out_r_def shift_in_def
      shift_in_l_def shift_in_r_def shift_amnt_def sbit_def sh_rotate_def sh_left_def sh_right_def grev_result_def)

lemma alu_only_route:
  assumes "alu_only y" "x_dec x = y" "d_ferr y = 0"
    "ex_alu_in y = (alu_request opr w a b)\<lparr>alu_shamt := k, alu_b := c\<rparr>"
  shows "units_ready x s" "n_s3_wb_op y = WB_WDATA" "\<not> n_s3_trap x" "new_op (ex_cfu_in x) = CFU_NOP"
    "n_s3_wdata sel x s = alu_result sel (ex_alu_in y)" "n_s3_rd_field x = s2_rd y"
    "\<not> cfu_cf_valid (ex_cfu_in x) d" "\<not> dmem_req (ex_lsu_in new x) u"
proof -
  define i where "i = d_instr y"
  have o: "\<not> ex_mdu_valid i" "\<not> ex_cry_valid i" "\<not> cfu_op_any i" "\<not> wdata_csr i" "\<not> s2_lsu_load y"
    "\<not> s2_lsu_store y" "\<not> cfu_op_conditonal i" "\<not> dec_invalid_opcode i"
    using assms(1) by (simp_all add: alu_only_def Let_def i_def)
  have l: "\<not> lsu_valid x" using o by (simp add: lsu_valid_def assms(2))
  have c: "\<not> trap_raise (ex_cfu_in x)" "new_op (ex_cfu_in x) = CFU_NOP" "\<not> branch_taken (ex_cfu_in x)"
    using o(3) unfolding cfu_op_any_def
    by (simp_all add: ex_cfu_in_def new_op_def trap_raise_def branch_conditional_def branch_always_def
        branch_taken_def branch_ignore_def i_def [symmetric] assms(2) Let_def)
  have t: "\<not> s2_trap y"
    using o(8) by (simp add: s2_trap_def s2_iaccess_trap_16_def s2_iaccess_trap_32_def assms(3) i_def)
  have ta: "\<not> trap_addr (ex_lsu_in n x)" for n using l by (simp add: trap_addr_def ex_lsu_in_def Let_def)
  have n: "\<not> s2_wb_npc y" using o(3) by (auto simp: s2_wb_npc_def cfu_op_any_def i_def)
  have f: "s2_alu_add i \<or> s2_alu_sub i \<or> s2_alu_xor i \<or> s2_alu_or i \<or> s2_alu_and i \<or> s2_alu_slt i \<or>
      s2_alu_sltu i \<or> s2_alu_srl i \<or> s2_alu_sll i \<or> s2_alu_sra i \<or> s2_alu_xorn i \<or> s2_alu_andn i \<or>
      s2_alu_orn i \<or> s2_alu_ror i \<or> s2_alu_rol i \<or> s2_alu_pack i \<or> s2_alu_packh i \<or> s2_alu_packu i \<or>
      s2_alu_grev i \<or> s2_alu_gorc i \<or> s2_alu_xpermn i \<or> s2_alu_xpermb i"
    using assms(4) by (cases opr) (simp_all add: ex_alu_in_def Let_def i_def alu_request_def)
  have w: "s2_wb_alu y" "\<not> s2_wb_mdu y" "\<not> s2_wb_cry y" "\<not> s2_wb_lsu y" "\<not> s2_wb_csr y"
    using o t n f
    by (auto simp: s2_wb_alu_def s2_wb_mdu_def s2_wb_cry_def s2_wb_lsu_def s2_wb_csr_def wdata_csr_def
        ex_mdu_valid_def ex_cry_valid_def i_def)
  show "units_ready x s" using o l by (simp add: units_ready_def assms(2) i_def Let_def)
  show "n_s3_wb_op y = WB_WDATA" using w n by (simp add: n_s3_wb_op_def wb_code_def)
  show "\<not> n_s3_trap x" using t ta c by (simp add: n_s3_trap_def assms(2))
  show "new_op (ex_cfu_in x) = CFU_NOP" by (rule c)
  show "n_s3_wdata sel x s = alu_result sel (ex_alu_in y)"
    using w n o(4) by (simp add: n_s3_wdata_def Let_def assms(2) i_def)
  show "n_s3_rd_field x = s2_rd y" using t ta c by (simp add: n_s3_rd_field_def assms(2) n_s3_rd_def)
  show "\<not> cfu_cf_valid (ex_cfu_in x) d" using c by (simp add: cfu_cf_valid_def)
  show "\<not> dmem_req (ex_lsu_in new x) u" using l by (simp add: dmem_req_def ex_lsu_in_def Let_def)
qed

text \<open>The request an instruction makes of the ALU; fields it does not look at are left over.\<close>

fun alu_form :: "instr \<Rightarrow> (5 word \<Rightarrow> u64) \<Rightarrow> u64 \<Rightarrow> alu_op \<times> bool \<times> u64 \<times> u64" where
  "alu_form (IOp opr w rd rs1 rs2) R pc = (opr, w, R rs1, R rs2)"
| "alu_form (IOpImm opr w rd rs1 imm) R pc = (opr, w, R rs1, scast imm)"
| "alu_form (IShift opr w rd rs1 sh) R pc = (opr, w, R rs1, ucast sh)"
| "alu_form (ILui rd imm) R pc = (Or, False, 0, push_bit 12 (scast imm))"
| "alu_form (IAuipc rd imm) R pc = (Add, False, pc, push_bit 12 (scast imm))"
| "alu_form _ R pc = (Add, False, 0, 0)"

definition alu_asks :: "alu_in \<Rightarrow> alu_op \<Rightarrow> bool \<Rightarrow> u64 \<Rightarrow> u64 \<Rightarrow> bool" where
  "alu_asks x opr w a b \<longleftrightarrow>
     (\<exists>k c. x = (alu_request opr w a b)\<lparr>alu_shamt := k, alu_b := c\<rparr>) \<and>
     (\<forall>sel. alu_result sel x = alu_result sel (alu_request opr w a b))"

lemma request_self: "(alu_request opr w a b)\<lparr>alu_shamt := ucast b, alu_b := b\<rparr> = alu_request opr w a b"
  by (simp add: alu_request_def)

lemma asks_self: "alu_asks (alu_request opr w a b) opr w a b"
  unfolding alu_asks_def by (intro conjI exI allI) (rule request_self [symmetric], rule refl)

lemma asks_imm:
  "opr \<in> {Add, Sub, Xor, Or, And, Slt, Sltu} \<Longrightarrow> alu_asks ((alu_request opr w a b)\<lparr>alu_shamt := k\<rparr>) opr w a b"
  unfolding alu_asks_def
  by (intro conjI exI [of _ k] exI [of _ b] allI alu_shamt_unused) (simp_all add: alu_request_def)

lemma asks_shamt: "opr \<in> {Srl, Sll, Sra, Ror, Grev} \<Longrightarrow> alu_asks ((alu_request opr w a b)\<lparr>alu_b := c\<rparr>) opr w a b"
  unfolding alu_asks_def
  by (intro conjI exI [of _ "ucast b"] exI [of _ c] allI alu_b_unused) (simp_all add: alu_request_def)

text \<open>The destination field, given that it is used.\<close>

lemma s2_rd_word: "fetched y i \<Longrightarrow> alu_only y \<Longrightarrow> s2_rd y = dec_rd i"
  by (simp add: s2_rd_def fetched_def alu_only_def Let_def)

lemma alu_decode:
  assumes f: "fetched y (encode i)" and k: "instr_ok i" "computes i"
    and r: "d_rs1_data y = R (s1_rs1_addr y)" "d_rs2_data y = R (s1_rs2_addr y)"
    and g: "alu_form i R (d_pc y) = (opr, w, a, b)"
  shows "alu_only y \<and> dec_rd (encode i) = dest i \<and> alu_asks (ex_alu_in y) opr w a b \<and> alu_supported opr w b"
proof -
  have d: "d_instr y = encode i" "\<not> d_i16 y" by (rule fetched_instr [OF f])+
  have v: "d_rs1_data y = R (dec_rs1 (encode i))" "d_rs2_data y = R (dec_rs2 (encode i))"
    using r d by (simp_all add: s1_rs1_addr_def s1_rs2_addr_def)
  show ?thesis
  proof (cases i)
    case (IOp opr' w' rd rs1 rs2)
    have "ex_alu_in y = alu_request opr w a b \<and> alu_only y"
      using op_3b [OF _ _ _ d(1), of opr'] op_33 [OF _ _ _ d(1), of opr'] k g v
      by (cases w') (simp_all add: IOp r_fields r_opc r_known)
    then show ?thesis
      using k g asks_self by (auto simp: IOp r_fields alu_supported_def)
  next
    case (IOpImm opr' w' rd rs1 imm)
    have "ex_alu_in y = (alu_request opr w a b)\<lparr>alu_shamt := ucast (d_rs2_data y)\<rparr> \<and> alu_only y"
      using imm_1b [OF _ _ d(1)] imm_13 [OF _ _ _ d(1), of opr'] k g v i_known [of imm rs1 0 rd "0x1b"]
        i_known [of imm rs1 "snd (op_funct opr')" rd "0x13"]
      by (cases w') (auto simp: IOpImm i_fields i_opc i_known imm_i)
    then show ?thesis
      using k g by (auto simp: IOpImm i_fields alu_supported_def intro!: asks_imm)
  next
    case (IShift opr' w' rd rs1 sh)
    have "ex_alu_in y = (alu_request opr w a b)\<lparr>alu_b := d_rs2_data y\<rparr> \<and> alu_only y"
      using sh_1b [OF _ _ _ d, of opr'] sh_13 [OF _ _ _ d, of opr'] k g v
        sh_known(1) [of "ucast (drop_bit 1 (fst (op_funct opr')))" sh rs1 "snd (op_funct opr')" rd "0x13"]
        sh_known(2) [of sh "ucast (drop_bit 1 (fst (op_funct opr')))" rs1 "snd (op_funct opr')" rd "0x1b"]
      by (cases w') (auto simp: IShift sh_fields sh_opc)
    then show ?thesis
      using k g by (auto simp: IShift sh_fields alu_supported_def intro!: asks_shamt)
  next
    case (ILui rd imm)
    have "ex_alu_in y = (alu_request opr w a b)\<lparr>alu_shamt := ucast (d_rs2_data y)\<rparr> \<and> alu_only y"
      using op_lui [OF _ d(1)] g by (simp add: ILui u_opc imm_u)
    then show ?thesis
      using g by (auto simp: ILui u_fields_rd alu_supported_def intro!: asks_imm)
  next
    case (IAuipc rd imm)
    have "ex_alu_in y = (alu_request opr w a b)\<lparr>alu_shamt := ucast (d_rs2_data y)\<rparr> \<and> alu_only y"
      using op_auipc [OF _ d(1)] g by (simp add: IAuipc u_opc imm_u)
    then show ?thesis
      using g by (auto simp: IAuipc u_fields_rd alu_supported_def intro!: asks_imm)
  qed (use k in simp_all)
qed

lemma alu_executes:
  assumes x: "x_dec x = y" and f: "fetched y (encode i)" and ok: "instr_ok i" "computes i"
    and r: "d_rs1_data y = R (s1_rs1_addr y)" "d_rs2_data y = R (s1_rs2_addr y)" and sel: "sel_wraps sel"
    and n: "n = n_s3 sel x s"
  shows "units_ready x s" "\<not> cfu_cf_valid (ex_cfu_in x) d" "\<not> dmem_req (ex_lsu_in new x) u"
    and "s3_wb_op n = WB_WDATA" "s3_cfu_op n = CFU_NOP" "\<not> s3_trap (s3_ls n)" "s3_rd (s3_ls n) = dest i"
    "s3_wdata (s3_ls n) = isa_value i R (d_pc y)"
    and "\<not> s3_load (s3_ls n)" "\<not> s3_store (s3_ls n)" "\<not> s3_csr_rd n" "\<not> s3_csr_wr n" "\<not> s3_csr_set n"
    "\<not> s3_csr_clr n"
proof -
  obtain opr w a b where g: "alu_form i R (d_pc y) = (opr, w, a, b)" by (metis surj_pair)
  from alu_decode [OF f ok r g]
  have d: "alu_only y" "dec_rd (encode i) = dest i" "alu_asks (ex_alu_in y) opr w a b" "alu_supported opr w b"
    by simp_all
  from d(3) obtain k c where e: "ex_alu_in y = (alu_request opr w a b)\<lparr>alu_shamt := k, alu_b := c\<rparr>"
    and res: "alu_result sel (ex_alu_in y) = alu_result sel (alu_request opr w a b)"
    unfolding alu_asks_def by auto
  have fe: "d_ferr y = 0" using f by (simp add: fetched_def)
  note route = alu_only_route [OF d(1) x fe e]
  have "alu_result sel (ex_alu_in y) = isa_alu opr w a b"
    unfolding res using alu_isa_lemma [OF d(4), of sel a] sel by (simp add: alu_instr_def)
  also have "\<dots> = isa_value i R (d_pc y)" using g ok(2) by (cases i) (auto simp: isa_alu_def)
  finally have val: "alu_result sel (ex_alu_in y) = isa_value i R (d_pc y)" .
  have rd: "s2_rd y = dest i" using s2_rd_word [OF f d(1)] d(2) by simp
  show "units_ready x s" "\<not> cfu_cf_valid (ex_cfu_in x) d" "\<not> dmem_req (ex_lsu_in new x) u"
    by (rule route)+
  show "s3_wb_op n = WB_WDATA" "s3_cfu_op n = CFU_NOP" "\<not> s3_trap (s3_ls n)" "s3_rd (s3_ls n) = dest i"
    "s3_wdata (s3_ls n) = isa_value i R (d_pc y)"
    using route val rd by (simp_all add: n n_s3_def n_s3_ls_def Let_def x)
  show "\<not> s3_load (s3_ls n)" "\<not> s3_store (s3_ls n)" "\<not> s3_csr_rd n" "\<not> s3_csr_wr n" "\<not> s3_csr_set n"
    "\<not> s3_csr_clr n"
    using d(1) by (simp_all add: n n_s3_def n_s3_ls_def Let_def x alu_only_def wdata_csr_def n_csr_wr_def)
qed

text \<open>The same as writeback sees it in the next cycle.\<close>

lemma alu_instruction_exact:
  assumes "x_dec x = y" "fetched y (encode i)" "instr_ok i" "computes i"
    and "d_rs1_data y = R (s1_rs1_addr y)" "d_rs2_data y = R (s1_rs2_addr y)" and "sel_wraps sel"
    and "h_s3 h = n_s3 sel x s"
  shows "units_ready x s \<and> \<not> s3_trap (s3_ls (h_s3 h)) \<and> s3_cfu_op (h_s3 h) = CFU_NOP \<and>
    s3_rd (s3_ls (h_s3 h)) = dest i \<and> s3_rd_wdata hx h = isa_value i R (d_pc y) \<and>
    (s3_fwd_rd_wen h \<longleftrightarrow> rd_wen_enable (h_wb h) \<and> s3_full (h_s3 h)) \<and>
    \<not> cfu_cf_valid (ex_cfu_in x) (cf_change_done s) \<and> \<not> dmem_req (ex_lsu_in new x) (ex_lsu s)"
  using alu_executes [OF assms(1-8)] by (simp add: s3_rd_wdata_def s3_fwd_rd_wen_def)

section \<open>Concrete inputs\<close>

text \<open>Register \<open>n\<close> holds \<open>n\<close> times \<open>0x1000\<close>, the word is at address \<open>0x100\<close>.\<close>

definition demo_regs :: "5 word \<Rightarrow> u64" where "demo_regs a = 0x1000 * ucast a"

definition demo_dec :: "u32 \<Rightarrow> dec_in" where
  "demo_dec w =
     \<lparr>d_instr = w, d_i16 = False, d_i32 = True, d_ferr = 0, d_pc = 0x100, d_rs1_data = demo_regs (dec_rs1 w),
      d_rs2_data = demo_regs (dec_rs2 w)\<rparr>"

definition demo_exec_in :: "u32 \<Rightarrow> exec_in" where
  "demo_exec_in w =
     \<lparr>x_gate_en = True, x_test_en = False, x_resetn = True, x_flush = False, x_cancel = False,
      x_wfi_sleep = False, x_dec = demo_dec w, x_cf_ack = True,
      x_gnt = True, x_mprv_m = True, x_mprv_u = False, x_s3_ready = True, x_s3_trap = False\<rparr>"

lemma demo_facts [simp]:
  "fetched (demo_dec w) w" "x_dec (demo_exec_in w) = demo_dec w" "d_pc (demo_dec w) = 0x100"
  "d_rs1_data (demo_dec w) = demo_regs (s1_rs1_addr (demo_dec w))"
  "d_rs2_data (demo_dec w) = demo_regs (s1_rs2_addr (demo_dec w))"
  "x_resetn (demo_exec_in w)" "x_s3_ready (demo_exec_in w)" "\<not> x_wfi_sleep (demo_exec_in w)"
  "\<not> x_s3_trap (demo_exec_in w)" "\<not> x_cancel (demo_exec_in w)" "x_gnt (demo_exec_in w)" "x_cf_ack (demo_exec_in w)"
  by (simp_all add: fetched_def demo_dec_def demo_exec_in_def s1_rs1_addr_def s1_rs2_addr_def)

definition exec_zero :: exec where
  "exec_zero = \<lparr>cf_change_done = False, ex_lsu = lsu_idle, ex_mdu = mdu_zero, ex_aes = aes_idle\<rparr>"

section \<open>Branches and jumps\<close>

text \<open>The target, whether it exists, and what the unit and writeback make of it.\<close>

definition exists_at :: "u64 \<Rightarrow> bool" where "exists_at t \<longleftrightarrow> drop_bit 39 t = 0"

lemma b_fields: "dec_rs1 (b_type off rs2 rs1 f3 opc) = rs1" "dec_rs2 (b_type off rs2 rs1 f3 opc) = rs2"
  by (simp_all add: b_type_def r_fields)

lemma b_known: "known (b_type off rs2 rs1 f3 opc) 0x707f (push_bit 12 (ucast f3) OR ucast opc)"
  and b_opc: "major_opc (b_type off rs2 rs1 f3 opc) = ucast opc"
  by (simp_all add: b_type_def r_type_def i_known i_opc)

lemma j_opc: "major_opc (j_type off rd opc) = ucast opc" and j_rd: "dec_rd (j_type off rd opc) = rd"
  by (simp_all add: j_type_def u_opc u_fields_rd)

lemma even_offset: "\<not> bit (push_bit 1 w :: u64) 0"
  by (simp only: bit_push_bit_iff) simp

lemma even_sum: "\<not> bit (a :: u64) 0 \<Longrightarrow> \<not> bit b 0 \<Longrightarrow> \<not> bit (a + b) 0"
  by (simp add: bit_0)

lemma no_trap_fetched: "fetched y i \<Longrightarrow> s2_trap y \<longleftrightarrow> dec_invalid_opcode i" "fetched y i \<Longrightarrow> s2_valid x \<longleftrightarrow> True" if
    "x_dec x = y"
  using that by (simp_all add: s2_trap_def s2_iaccess_trap_16_def s2_iaccess_trap_32_def fetched_def s2_valid_def)

lemma cfu_route:
  assumes o: "cfu_only y link" and x: "x_dec x = y" and f: "fetched y i"
  shows "units_ready x s = cfu_finished (ex_cfu_in x) (x_cf_ack x) (cf_change_done s)"
    "n_s3_wb_op y = (if link then WB_WDATA else WB_NONE)" "n_s3_trap x = trap_raise (ex_cfu_in x)"
    "link \<Longrightarrow> n_s3_wdata sel x s = dec_npc y"
    "n_s3_rd_field x = (if trap_raise (ex_cfu_in x) then ucast (cfu_trap_cause (ex_cfu_in x)) else s2_rd y)"
proof -
  have i: "d_instr y = i" using f by (simp add: fetched_def)
  have l: "\<not> lsu_valid x" using o by (simp add: lsu_valid_def x cfu_only_def Let_def)
  have t: "\<not> s2_trap y" using no_trap_fetched(1) [OF x f] o by (simp add: cfu_only_def Let_def i)
  have ta: "\<not> trap_addr (ex_lsu_in n x)" for n using l by (simp add: trap_addr_def ex_lsu_in_def Let_def)
  have w: "s2_wb_npc y = link" "\<not> s2_wb_alu y" "\<not> s2_wb_mdu y" "\<not> s2_wb_cry y" "\<not> s2_wb_lsu y" "\<not> s2_wb_csr y"
    "\<not> wdata_csr i"
    using o t by (auto simp: s2_wb_alu_def s2_wb_mdu_def s2_wb_cry_def s2_wb_lsu_def s2_wb_csr_def wdata_csr_def
        ex_mdu_valid_def ex_cry_valid_def cfu_only_def Let_def i)
  show "units_ready x s = cfu_finished (ex_cfu_in x) (x_cf_ack x) (cf_change_done s)"
    using o l by (simp add: units_ready_def x Let_def cfu_only_def)
  show "n_s3_wb_op y = (if link then WB_WDATA else WB_NONE)" using w by (simp add: n_s3_wb_op_def wb_code_def)
  show "n_s3_trap x = trap_raise (ex_cfu_in x)" using t ta by (simp add: n_s3_trap_def x)
  show "n_s3_wdata sel x s = dec_npc y" if link using w that by (simp add: n_s3_wdata_def Let_def x i)
  show "n_s3_rd_field x = (if trap_raise (ex_cfu_in x) then ucast (cfu_trap_cause (ex_cfu_in x)) else s2_rd y)"
    using t ta by (simp add: n_s3_rd_field_def x n_s3_rd_def)
qed

text \<open>C5: A conditional branch at an even address, from its encoding to what leaves the execute stage. The
    target is the
  address of the branch plus twice the sign-extended offset. Fetch is asked to go there in exactly the
  cycles in which the condition holds of the two registers, the redirection was not acknowledged
  before and the hart is awake. The instruction traps, with cause 1, exactly when the target lies
  outside the address space, also when the condition does not hold; otherwise it leaves the stage at
  once when it is not taken, and with the acknowledgement of its redirection when it is. It writes no
  register.\<close>

theorem branch_instruction_exact:
  assumes x: "x_dec x = y" and f: "fetched y (encode (IBranch c rs1 rs2 off))" and even: "\<not> bit (d_pc y) 0"
    and r: "d_rs1_data y = R (s1_rs1_addr y)" "d_rs2_data y = R (s1_rs2_addr y)"
  defines "t \<equiv> d_pc y + push_bit 1 (scast off)" and "h \<equiv> branch_holds c (R rs1) (R rs2)"
  shows "target_addr (ex_cfu_in x) = t \<and>
    (\<forall>d. cfu_cf_valid (ex_cfu_in x) d \<longleftrightarrow> h \<and> \<not> d \<and> \<not> x_wfi_sleep x) \<and>
    (n_s3_trap x \<longleftrightarrow> \<not> exists_at t) \<and> (\<not> exists_at t \<longrightarrow> n_s3_rd_field x = 1) \<and> n_s3_wb_op y = WB_NONE \<and>
    new_op (ex_cfu_in x) = (if \<not> exists_at t then CFU_TRAP else if h then CFU_TAKEN else CFU_IGNORE) \<and>
    (units_ready x s \<longleftrightarrow> (exists_at t \<and> h \<longrightarrow> cf_change_done s \<or> x_cf_ack x \<and> \<not> x_wfi_sleep x))"
proof -
  let ?i = "encode (IBranch c rs1 rs2 off)"
  have d: "d_instr y = ?i" "\<not> d_i16 y" by (rule fetched_instr [OF f])+
  have v: "d_rs1_data y = R rs1" "d_rs2_data y = R rs2"
    using r d by (simp_all add: s1_rs1_addr_def s1_rs2_addr_def b_fields)
  have o: "cfu_only y False" "cfu_asks x (Some c) False False (R rs1) (R rs2) (push_bit 1 (scast off))"
    using op_63 [of ?i c x] d b_opc b_known [of off rs2 rs1 "br_funct c" "0x63"] v by (simp_all add: x imm_b)
  have sv: "s2_valid x" using no_trap_fetched(2) [OF x f] by simp
  obtain eq lt ltu where q: "ex_cfu_in x =
        \<lparr>c_eq = eq, c_lt = lt, c_ltu = ltu, cfu_valid = (\<not> x_wfi_sleep x),
         cfu_pc = d_pc y, cfu_npc = dec_npc y, cfu_rs1 = R rs1, cfu_offset = push_bit 1 (scast off),
         cfu_beq = (c = BEQ), cfu_bge = (c = BGE), cfu_bgeu = (c = BGEU), cfu_blt = (c = BLT),
         cfu_bltu = (c = BLTU), cfu_bne = (c = BNE), cfu_ebrk = False, cfu_ecall = False, cfu_j = False,
         cfu_jal = False, cfu_jalr = False, i_mret = False, i_wfi = False\<rparr>"
    and cmp: "eq \<longleftrightarrow> R rs1 = R rs2" "lt \<longleftrightarrow> sint (R rs1) < sint (R rs2)" "ltu \<longleftrightarrow> R rs1 < R rs2"
    using o(2) by (auto simp: cfu_asks_def x sv)
  have t: "target_addr (ex_cfu_in x) = t" by (simp add: q target_addr_def t_def)
  have e: "\<not> bit t 0" unfolding t_def by (rule even_sum [OF even even_offset])
  have tr: "trap_raise (ex_cfu_in x) \<longleftrightarrow> \<not> exists_at t"
  proof -
    have "branch_conditional (ex_cfu_in x)" by (cases c) (simp_all add: q branch_conditional_def)
    moreover have "\<not> cfu_ebrk (ex_cfu_in x)" "\<not> cfu_ecall (ex_cfu_in x)" by (simp_all add: q)
    ultimately show ?thesis
      using e unfolding trap_raise_def target_misaligned_def target_non_existant_def t exists_at_def by simp
  qed
  have tk: "branch_taken (ex_cfu_in x) \<longleftrightarrow> h"
    by (cases c) (auto simp: q branch_taken_def branch_always_def h_def cmp)
  have ig: "branch_ignore (ex_cfu_in x) \<longleftrightarrow> \<not> h"
    unfolding branch_ignore_def tk by (cases c) (simp_all add: q branch_conditional_def)
  have cf: "cfu_cf_valid (ex_cfu_in x) d \<longleftrightarrow> h \<and> \<not> d \<and> \<not> x_wfi_sleep x" for d
    unfolding cfu_cf_valid_def tk by (auto simp: q)
  note route = cfu_route [OF o(1) x f]
  have no: "new_op (ex_cfu_in x) = (if \<not> exists_at t then CFU_TRAP else if h then CFU_TAKEN else CFU_IGNORE)"
    unfolding new_op_def tr tk ig by (simp add: q)
  have rdy: "units_ready x s \<longleftrightarrow> (exists_at t \<and> h \<longrightarrow> cf_change_done s \<or> x_cf_ack x \<and> \<not> x_wfi_sleep x)"
    unfolding route cfu_finished_def n_cf_change_done_def cf tr ig by (auto simp: q)
  have cause: "\<not> exists_at t \<longrightarrow> cfu_trap_cause (ex_cfu_in x) = 1"
    unfolding cfu_trap_cause_def target_non_existant_def t by (simp add: exists_at_def TRAP_IACCESS_def)
  show ?thesis
    using t cf no rdy route(2,3,5) cause by (simp add: tr)
qed

theorem branch_instruction_exact_witness:
  "cfu_cf_valid (ex_cfu_in (demo_exec_in (encode (IBranch BLT 1 2 0xffe)))) False \<and>
   target_addr (ex_cfu_in (demo_exec_in (encode (IBranch BLT 1 2 0xffe)))) = 0xfc"
  using branch_instruction_exact [where x = "demo_exec_in (encode (IBranch BLT 1 2 0xffe))" and c = BLT and
      ?rs1.0 = "1"
      and ?rs2.0 = "2" and off = "0xffe" and R = demo_regs, OF demo_facts(2,1) _ demo_facts(4,5)]
  by (simp add: demo_regs_def exists_at_def del: encode.simps)

text \<open>C21: The jumps JAL and JALR at an even address, from their encoding to what leaves the execute stage. The
    target is the
  address of the jump plus twice the offset, or the register plus the offset with every bit of the sum
  kept; the value for the destination register is the address of the next instruction. If the target
  lies outside the address space the instruction traps at once, with cause 1, and fetch is not
  redirected; otherwise fetch is redirected until it acknowledges, and the instruction leaves the
  stage with the acknowledgement.\<close>

theorem jump_instruction_exact:
  assumes x: "x_dec x = y" and f: "fetched y (encode i)" and even: "\<not> bit (d_pc y) 0"
    and r: "d_rs1_data y = R (s1_rs1_addr y)"
    and i: "i = IJal rd off \<and> t = d_pc y + push_bit 1 (scast off) \<or>
      i = IJalr rd rs1 imm \<and> t = R rs1 + scast imm"
  shows "target_addr (ex_cfu_in x) = t \<and>
    (\<forall>d. cfu_cf_valid (ex_cfu_in x) d \<longleftrightarrow> exists_at t \<and> \<not> d \<and> \<not> x_wfi_sleep x) \<and>
    (n_s3_trap x \<longleftrightarrow> \<not> exists_at t) \<and> n_s3_rd_field x = (if exists_at t then rd else 1) \<and>
    n_s3_wb_op y = WB_WDATA \<and> n_s3_wdata sel x s = d_pc y + 4 \<and>
    new_op (ex_cfu_in x) = (if exists_at t then CFU_TAKEN else CFU_TRAP) \<and>
    (units_ready x s \<longleftrightarrow> (exists_at t \<longrightarrow> cf_change_done s \<or> x_cf_ack x \<and> \<not> x_wfi_sleep x))"
proof -
  have d: "d_instr y = encode i" "\<not> d_i16 y" by (rule fetched_instr [OF f])+
  have sv: "s2_valid x" using no_trap_fetched(2) [OF x f] by simp
  obtain jal jalr off' where jj: "jal \<longleftrightarrow> \<not> jalr" "cfu_only y True" "cfu_asks x None jal jalr (d_rs1_data y) 0 off'"
    and tt: "t = (if jalr then d_rs1_data y else d_pc y) + off'" and jt: "\<not> jalr \<Longrightarrow> \<not> bit t 0"
    and rd: "dec_rd (encode i) = rd" "\<not> zero_rd (encode i)"
    using i
  proof (elim disjE conjE)
    assume a: "i = IJal rd off" "t = d_pc y + push_bit 1 (scast off)"
    have "\<not> bit t 0" unfolding a by (rule even_sum [OF even even_offset])
    then show ?thesis
      using op_6f [of "encode i" x] d j_opc x that [of True False "push_bit 1 (scast off)"]
      by (simp add: a imm_j j_rd zero_rd_def major_op_store_def major_op_branch_def field_opc)
  next
    assume a: "i = IJalr rd rs1 imm" "t = R rs1 + scast imm"
    have "d_rs1_data y = R rs1" using r d by (simp add: s1_rs1_addr_def a i_type_fields)
    then show ?thesis
      using op_67 [of "encode i" x] d i_opc x that [of False True "scast imm"] i_known [of imm rs1 0 rd "0x67"]
      by (simp add: a imm_i i_type_fields zero_rd_def major_op_store_def major_op_branch_def field_opc)
  qed
  have q: "\<exists>eq lt ltu. ex_cfu_in x =
        \<lparr>c_eq = eq, c_lt = lt, c_ltu = ltu, cfu_valid = (\<not> x_wfi_sleep x),
         cfu_pc = d_pc y, cfu_npc = dec_npc y, cfu_rs1 = d_rs1_data y, cfu_offset = off',
         cfu_beq = False, cfu_bge = False, cfu_bgeu = False, cfu_blt = False,
         cfu_bltu = False, cfu_bne = False, cfu_ebrk = False, cfu_ecall = False, cfu_j = False,
         cfu_jal = jal, cfu_jalr = jalr, i_mret = False, i_wfi = False\<rparr>"
    using jj(3) by (simp add: cfu_asks_def x sv)
  have t: "target_addr (ex_cfu_in x) = t" using q by (auto simp: target_addr_def tt)
  have tr: "trap_raise (ex_cfu_in x) \<longleftrightarrow> \<not> exists_at t"
    using q jt jj(1) unfolding trap_raise_def target_misaligned_def target_non_existant_def t exists_at_def
    by (auto simp: branch_conditional_def branch_always_def)
  have tk: "branch_taken (ex_cfu_in x) \<longleftrightarrow> exists_at t"
    using q jj(1) unfolding branch_taken_def tr by (auto simp: branch_always_def)
  have ig: "\<not> branch_ignore (ex_cfu_in x)"
    using q by (auto simp: branch_ignore_def branch_conditional_def)
  have cf: "cfu_cf_valid (ex_cfu_in x) d \<longleftrightarrow> exists_at t \<and> \<not> d \<and> \<not> x_wfi_sleep x" for d
    using q unfolding cfu_cf_valid_def tk by auto
  note route = cfu_route [OF jj(2) x f]
  have no: "new_op (ex_cfu_in x) = (if exists_at t then CFU_TAKEN else CFU_TRAP)"
    using q ig unfolding new_op_def tr tk by auto
  have rdy: "units_ready x s \<longleftrightarrow> (exists_at t \<longrightarrow> cf_change_done s \<or> x_cf_ack x \<and> \<not> x_wfi_sleep x)"
    using q ig unfolding route cfu_finished_def n_cf_change_done_def cf tr by auto
  have cause: "\<not> exists_at t \<longrightarrow> cfu_trap_cause (ex_cfu_in x) = 1"
    unfolding cfu_trap_cause_def target_non_existant_def t by (simp add: exists_at_def TRAP_IACCESS_def)
  have srd: "s2_rd y = rd"
    using rd d jj(2) by (simp add: s2_rd_def cfu_only_def Let_def)
  have npc: "dec_npc y = d_pc y + 4" using f by (simp add: dec_npc_def fetched_def)
  show ?thesis
    using t cf no rdy route(2-5) cause srd npc by (simp add: tr)
qed

theorem jump_instruction_exact_witness:
  "n_s3_wdata wrap_sel (demo_exec_in (encode (IJal 1 0x10))) exec_zero = 0x104 \<and>
   target_addr (ex_cfu_in (demo_exec_in (encode (IJal 1 0x10)))) = 0x120"
  using jump_instruction_exact [where x = "demo_exec_in (encode (IJal 1 0x10))" and i = "IJal 1 0x10" and rd = "1"
      and off = "0x10" and t = "0x120" and R = demo_regs, OF demo_facts(2,1) _ demo_facts(4)]
  by (simp add: exists_at_def del: encode.simps)

section \<open>CSR instructions and words that are none\<close>

definition csr_codes :: "u32 list" where "csr_codes = [0x1073, 0x2073, 0x3073, 0x5073, 0x6073, 0x7073]"

lemma csr_word:
  assumes f: "fetched y i" and k: "i AND 0x707f = v" "v \<in> set csr_codes" and x: "x_dec x = y"
  shows "\<not> s2_trap y \<and> wdata_csr i \<and> \<not> cfu_op_any i \<and> \<not> ex_mdu_valid i \<and> \<not> ex_cry_valid i \<and> \<not> lsu_valid x \<and>
    \<not> s2_wb_alu y \<and> n_csr_wr i \<and> \<not> rs1_as_rd i \<and> \<not> zero_rd i \<and> \<not> s2_lsu_load y \<and> \<not> s2_lsu_store y \<and>
    s2_csr_rd i = (v AND 0x3000 \<noteq> 0x3000) \<and> s2_csr_set i = (v AND 0x3000 = 0x2000) \<and> s2_csr_clr i = (v AND
        0x3000 = 0x3000)"
proof -
  have kn: "known i 0x707f v" using k by (simp add: known_def)
  have "v AND 0x7f = 0x73" using k(2) by (auto simp: csr_codes_def)
  moreover have "major_opc i = v AND 0x7f" using k(1) by (auto simp: major_opc_def and.assoc)
  ultimately have o: "major_opc i = 0x73" by simp
  have d: "d_instr y = i" using f by (simp add: fetched_def)
  show ?thesis
    using opc_quad [OF o] o kn ik_known [OF kn] k(2) d
    unfolding no_trap_fetched(1) [OF x f] csr_codes_def
    by (simp add: unit_defs opcode_simps dec_invalid_opcode_def lsu_valid_def x s2_wb_alu_def Let_def;
        elim disjE; simp add: ik_wires dec_ecall_def dec_ebreak_def dec_mret_def dec_wfi_def known_conflict)
qed

text \<open>C23: The six CSR instructions all leave the execute stage in one cycle with the contents of the
  register that bits 19 to 15 name as their operand: CSRRWI, CSRRSI and CSRRCI, whose operand is the
  five bits themselves, are executed as CSRRW, CSRRS and CSRRC. The three clear instructions read no
  CSR and write no register.\<close>

theorem csr_operand_is_register:
  assumes x: "x_dec x = y" and f: "fetched y i" and k: "i AND 0x707f = v" "v \<in> set csr_codes"
    and r: "d_rs1_data y = R (s1_rs1_addr y)"
    and n: "n = n_s3 sel x s"
  shows "units_ready x s \<and> \<not> s3_trap (s3_ls n) \<and> s3_csr_addr n = field 31 20 i \<and>
    s3_wdata (s3_ls n) = R (field 19 15 i) \<and> s3_rd (s3_ls n) = field 11 7 i \<and> s3_csr_wr n \<and>
    s3_csr_rd n = (v AND 0x3000 \<noteq> 0x3000) \<and> s3_wb_op n = (if v AND 0x3000 = 0x3000 then WB_NONE else WB_CSR) \<and>
    s3_csr_set n = (v AND 0x3000 = 0x2000) \<and> s3_csr_clr n = (v AND 0x3000 = 0x3000)"
proof -
  note w = csr_word [OF f k x]
  have d: "d_instr y = i" "\<not> d_i16 y" by (rule fetched_instr [OF f])+
  have c: "\<not> trap_raise (ex_cfu_in x)" "\<not> s2_wb_npc y"
    using w by (auto simp: ex_cfu_in_def trap_raise_def branch_conditional_def branch_always_def s2_wb_npc_def
        x Let_def cfu_op_any_def d)
  have ta: "\<not> trap_addr (ex_lsu_in m x)" for m using w by (simp add: trap_addr_def ex_lsu_in_def Let_def)
  have wb: "\<not> s2_wb_mdu y" "\<not> s2_wb_cry y" "\<not> s2_wb_lsu y" "s2_wb_csr y = s2_csr_rd i"
    using w by (auto simp: s2_wb_mdu_def s2_wb_cry_def s2_wb_lsu_def s2_wb_csr_def ex_mdu_valid_def
        ex_cry_valid_def d)
  have tr: "\<not> n_s3_trap x" using w c ta by (simp add: n_s3_trap_def x)
  have rdy: "units_ready x s" using w by (simp add: units_ready_def x d Let_def)
  have wd: "n_s3_wdata sel x s = d_rs1_data y" using w wb c by (simp add: n_s3_wdata_def Let_def x d)
  have rd: "n_s3_rd_field x = field 11 7 i"
    using w c ta d by (simp add: n_s3_rd_field_def x n_s3_rd_def s2_rd_def dec_rd_def)
  have op: "n_s3_wb_op y = (if v AND 0x3000 = 0x3000 then WB_NONE else WB_CSR)"
    using w wb c by (simp add: n_s3_wb_op_def wb_code_def)
  have ad: "s1_rs1_addr y = field 19 15 i" using d by (simp add: s1_rs1_addr_def dec_rs1_def)
  show ?thesis
    using w tr rdy wd rd op r by (simp add: n n_s3_def n_s3_ls_def Let_def x d ad s2_csr_addr_def)
qed

theorem csr_operand_is_register_witness:
  "s3_wdata (s3_ls (n_s3 wrap_sel (demo_exec_in 0x30046073) exec_zero)) = 0x8000"
proof -
  have f: "field 19 15 0x30046073 = (8 :: 5 word)" by code_simp
  show ?thesis
    using csr_operand_is_register [where x = "demo_exec_in 0x30046073" and i = "0x30046073" and v = "0x6073"
        and R = demo_regs and sel = wrap_sel and s = exec_zero, OF demo_facts(2,1) _ _ demo_facts(4) refl]
    by (simp add: csr_codes_def f demo_regs_def)
qed

text \<open>The word of zeros.\<close>

lemma zero_word_is_legal:
  assumes "d_instr y = 0" "d_i16 y" "\<not> d_i32 y" "d_ferr y = 0"
  shows "\<not> s2_trap y"
  using assms by (simp add: s2_trap_def s2_iaccess_trap_16_def s2_iaccess_trap_32_def dec_invalid_opcode_def
      dec_c_addi4spn_def)

end
