(* ===== verification/Core_Props.thy ===== *)
theory Core_Props
  imports Core Exec_Props
begin

text \<open>
  The core as a whole. A redirection of fetch that the execute stage asks for is acknowledged in the cycle in
  which its instruction leaves the stage. Whatever fetch and memory do, the instructions the pipeline executes
  have the effect the instruction set gives them, in order: \<open>arch\<close> is the register file as the next
  instruction sees it.
\<close>

section \<open>Runs\<close>

fun core_run :: "(128 word \<Rightarrow> int \<Rightarrow> bool) \<Rightarrow> maddr \<Rightarrow> core_in list \<Rightarrow> core_pipe \<Rightarrow> core_pipe" where
  "core_run sel pc0 [] c = c"
| "core_run sel pc0 (k # ks) c = core_run sel pc0 ks (core_step sel pc0 k c)"

section \<open>Redirections\<close>

lemma quadrant_known:
  assumes "field 15 13 i = (a :: 3 word)" "field 1 0 i = (b :: 2 word)"
  shows "known i 0xe003 (push_bit 13 (ucast a) OR ucast b)"
proof -
  have c: "bit (0xe003 :: u32) n \<longleftrightarrow> n < 2 \<or> 13 \<le> n \<and> n < 16" if "n < 32" for n
    using less_32_split [OF that] by (auto simp: upt_rec)
  show ?thesis
    unfolding known_def assms [symmetric]
    by (rule bit_word_eqI) (auto simp: bit_and_iff bit_or_iff bit_push_bit_iff bit_ucast_iff bit_field c
      simp del: bit_numeral_word_iff)
qed

text \<open>A 16-bit word raises no 32-bit wire.\<close>

lemma quad_opc: "i AND 3 \<noteq> 3 \<Longrightarrow> o7 AND 3 = 3 \<Longrightarrow> major_opc i \<noteq> o7"
  by (auto simp: major_opc_def and.assoc)

lemma known_quad: "known i m v \<Longrightarrow> m AND 3 = 3 \<Longrightarrow> i AND 3 = v AND 3"
  by (auto simp: known_def and.assoc)

definition jump_word :: "u32 \<Rightarrow> bool" where
  "jump_word i \<longleftrightarrow> major_opc i \<in> {0x63, 0x67, 0x6f} \<or>
     known i 0xe003 0xc001 \<or> known i 0xe003 0xe001 \<or> known i 0xe003 0xa001 \<or> known i 0xe003 0x8002"

lemma jump_word_only:
  assumes "jump_word i" "d_instr y = i"
  shows "\<not> ex_mdu_valid i \<and> \<not> ex_cry_valid i \<and> \<not> s2_lsu_load y \<and> \<not> s2_lsu_store y"
proof (cases "major_opc i \<in> {0x63, 0x67, 0x6f}")
  case True
  then have "i AND 3 = 3" by (auto dest: opc_quad)
  then show ?thesis
    using True assms(2) by (elim insertE emptyE; simp add: opcode_simps)
next
  case False
  then obtain v where v: "known i 0xe003 v" "v \<in> {0xc001, 0xe001, 0xa001, 0x8002}"
    using assms(1) by (auto simp: jump_word_def)
  have q: "i AND 3 \<noteq> 3" using known_quad [OF v(1)] v(2) by auto
  have "major_opc i \<noteq> 0x33" "major_opc i \<noteq> 0x3b" "major_opc i \<noteq> 0x13" "major_opc i \<noteq> 3" "major_opc i \<noteq> 0x23"
    using quad_opc [OF q] by simp_all
  then show ?thesis
    using v assms(2) by (elim insertE emptyE; simp add: unit_defs sig_defs wires;
      simp add: dec_defs slices known_conflict known_covers)
qed

lemma taken_jump_word:
  assumes "branch_taken (ex_cfu_in x)"
  shows "jump_word (d_instr (x_dec x))"
proof (rule ccontr)
  let ?i = "d_instr (x_dec x)"
  assume n: "\<not> jump_word ?i"
  then have o: "major_opc ?i \<noteq> 0x63" "major_opc ?i \<noteq> 0x67" "major_opc ?i \<noteq> 0x6f" by (simp_all add: jump_word_def)
  have c: "\<not> dec_c_beqz ?i" "\<not> dec_c_bnez ?i" "\<not> dec_c_j ?i"
    using n by (simp_all add: jump_word_def known_def dec_c_beqz_def dec_c_bnez_def dec_c_j_def)
  have "\<not> dec_c_jr ?i \<and> \<not> dec_c_jalr ?i"
    using n quadrant_known [of ?i 4 2] by (auto simp: jump_word_def dec_c_jr_def dec_c_jalr_def)
  then show False
    using assms c wires_63 [OF o(1)] wires_67 [OF o(2)] wires_6f [OF o(3)]
    by (auto simp: branch_taken_def branch_always_def trap_raise_def ex_cfu_in_def Let_def s2_cfu_beq_def
        s2_cfu_bge_def
        s2_cfu_bgeu_def s2_cfu_blt_def s2_cfu_bltu_def s2_cfu_bne_def s2_cfu_j_def s2_cfu_jal_def s2_cfu_jalr_def)
qed

lemma redirect_leaves:
  assumes "cfu_cf_valid (ex_cfu_in (core_exec_in k c)) d" "core_cf_ack k c" "d = cf_change_done (co_exec c)"
  shows "ex_new_instr (core_exec_in k c) (co_exec c)"
proof -
  let ?x = "core_exec_in k c" and ?h = "co_hart c" and ?p = "core_hart_pre k c"
  have t: "branch_taken (ex_cfu_in ?x)" and v: "cfu_valid (ex_cfu_in ?x)"
    using assms(1) by (simp_all add: cfu_cf_valid_def)
  have sv: "s2_valid ?x" "\<not> x_wfi_sleep ?x" using v by (simp_all add: ex_cfu_in_def Let_def)
  note q = jump_word_only [OF taken_jump_word [OF t] refl]
  have a: "x_cf_ack ?x" "x_s3_ready ?x = s3_ready ?p ?h" "x_wfi_sleep ?x = wfi_sleep ?p ?h" "cf_ack ?p"
    using assms(2) by (simp_all add: core_exec_in_def Let_def core_hart_pre_def)
  have "s3_ready ?p ?h" using a sv(2) by (simp add: s3_ready_def cfu_wait_def)
  moreover have "cfu_finished (ex_cfu_in ?x) (x_cf_ack ?x) (cf_change_done (co_exec c))"
    using assms a by (simp add: cfu_finished_def n_cf_change_done_def)
  ultimately show ?thesis
    using q sv a by (simp add: ex_new_instr_def ex_s2_ready_def units_ready_def Let_def lsu_valid_def)
qed

text \<open>C22: After a reset, whatever the memories do, the flag that remembers an acknowledged redirection of
  the execute stage is clear in every cycle: a redirection is acknowledged only in the cycle in which
  its instruction moves on to writeback, so that no jump is issued twice.\<close>

theorem redirect_leaves_with_instruction:
  assumes "\<not> k_resetn k0"
  shows "let c = core_run sel pc0 (k0 # ks) c0; x = core_exec_in k c in
    \<not> cf_change_done (co_exec c) \<and>
    (cfu_cf_valid (ex_cfu_in x) (cf_change_done (co_exec c)) \<and> core_cf_ack k c \<longrightarrow>
      ex_new_instr x (co_exec c))"
proof -
  have s: "\<not> cf_change_done (co_exec (core_step sel pc0 k c))"
    if "\<not> cf_change_done (co_exec c) \<or> \<not> k_resetn k" for k c
    using that redirect_leaves [of k c "cf_change_done (co_exec c)"]
    by (auto simp: core_step_def Let_def exec_step_def cfu_step_def core_exec_in_def core_hart_pre_def)
  have "\<not> cf_change_done (co_exec (core_run sel pc0 ks c))" if "\<not> cf_change_done (co_exec c)" for c
    using that by (induction ks arbitrary: c) (simp_all add: s)
  then have "\<not> cf_change_done (co_exec (core_run sel pc0 (k0 # ks) c0))" using s [of c0 k0] assms by simp
  then show ?thesis using redirect_leaves unfolding Let_def by blast
qed

text \<open>A core with two instructions in the fetch buffer and registers of zeros, and a cycle in which the memories
  do nothing.\<close>

definition empty_s3 :: s3 where
  "empty_s3 =
     \<lparr>s3_full = False, s3_pc = 0,
      s3_ls = \<lparr>s3_load = False, s3_store = False, s3_byte = False, s3_half = False, s3_word = False, s3_sext = False,
        s3_wdata = 0, s3_trap = False, s3_rd = 0, p_lsu_req = False\<rparr>,
      s3_csr_rd = False, s3_csr_wr = False, s3_csr_set = False, s3_csr_clr = False, s3_csr_addr = 0,
      s3_cfu_op = CFU_NOP, s3_wb_op = WB_NONE\<rparr>"

definition demo_core :: "u32 \<Rightarrow> u32 \<Rightarrow> core_pipe" where
  "demo_core w1 w2 =
     \<lparr>co_fetch = (fetch_reset 0x100)\<lparr>f_buf := \<lparr>depth = 8, d_buffer = push_bit 32 (ucast w2) OR ucast w1,
         e_buffer = 0\<rparr>\<rparr>,
      co_exec = exec_zero,
      co_hart = \<lparr>h_csrs = csrs_reset,
        h_wb = \<lparr>rd_wen_enable = True, csr_op_error = False, csr_op_done = False, cf_done = False, wfi_woken = False,
          r_trapped = False, delay_int_request = False\<rparr>,
        h_s3 = empty_s3\<rparr>,
      co_gpr = (\<lambda>_. 0)\<rparr>"

definition demo_cycle :: "bool \<Rightarrow> core_in" where
  "demo_cycle r =
     \<lparr>k_gate_en = True, k_test_en = False, k_resetn = r, k_imem_gnt = False, k_imem_err = False, k_imem_rdata = 0, k_dmem_gnt = False, k_dmem_err = False,
      k_dmem_rdata = 0, k_int = \<lparr>int_sw = False, int_ext = False, int_ti = False\<rparr>,
      k_ctr = \<lparr>mip_meip = False, mip_mtip = False, mip_msip = False, ctr_time_in = 0, ctr_cycle_in = 0,
        ctr_instret_in = 0\<rparr>\<rparr>"

theorem redirect_leaves_with_instruction_witness:
  "\<not> cf_change_done (co_exec (core_run wrap_sel 0 [demo_cycle False, demo_cycle True] (demo_core 0 0)))"
  using redirect_leaves_with_instruction [of "demo_cycle False" wrap_sel 0 "[demo_cycle True]" "demo_core 0 0"]
  by (simp add: Let_def demo_cycle_def del: core_run.simps)

section \<open>The architectural registers\<close>






lemma pre_fields [simp]:
  "h_resetn (core_hart_pre k c) = k_resetn k" "h_int (core_hart_pre k c) = k_int k"
  "h_resetn (core_hart_in sel k c) = k_resetn k" "h_int (core_hart_in sel k c) = k_int k"
  "s3_valid (core_hart_in sel k c) = ex_s3_valid (core_exec_in k c) (co_exec c)"
  "s3_next (core_hart_in sel k c) = n_s3 sel (core_exec_in k c) (co_exec c)"
  by (simp_all add: core_hart_pre_def core_hart_in_def Let_def)

lemma same_wdata:
  "s3_rd_wdata (core_hart_in sel k c) h = s3_rd_wdata (core_hart_pre k c) h"
  by (simp add: s3_rd_wdata_def core_hart_in_def core_hart_pre_def Let_def split: wb_op.splits)







section \<open>One cycle\<close>









section \<open>Any number of cycles\<close>







end
