(* ===== verification/Exec_Units.thy ===== *)
theory Exec_Units
  imports Exec_Props
begin

text \<open>
  Instructions that keep the execute stage for more than one unit: multiplications and divisions and
  cryptography instructions, which it holds until their unit answers, and loads and stores together with the
  interconnect and the on-chip memories behind it.
\<close>

section \<open>Instructions that wait for a unit\<close>

text \<open>The stage holds its inputs until the units are ready; the fuel is the cycles it waits.\<close>

fun stage_exec :: "nat \<Rightarrow> (128 word \<Rightarrow> int \<Rightarrow> bool) \<Rightarrow> exec_in \<Rightarrow> exec \<Rightarrow> (s3 \<times> nat \<times> exec) option" where
  "stage_exec 0 sel x s = None"
| "stage_exec (Suc n) sel x s =
     (if units_ready x s then Some (n_s3 sel x s, 1, exec_step x s)
      else map_option (\<lambda>(w, c, t). (w, Suc c, t)) (stage_exec n sel x (exec_step x s)))"

lemma stage_exec_waits:
  assumes "\<And>j. j < n \<Longrightarrow> \<not> units_ready x ((exec_step x ^^ j) s)" "units_ready x ((exec_step x ^^ n) s)" "n < m"
  shows "stage_exec m sel x s =
    Some (n_s3 sel x ((exec_step x ^^ n) s), Suc n, exec_step x ((exec_step x ^^ n) s))"
  using assms
proof (induction n arbitrary: m s)
  case 0
  then show ?case by (cases m) simp_all
next
  case (Suc n)
  then obtain k where m: "m = Suc k" "n < k" by (cases m) auto
  have "\<not> units_ready x s" using Suc.prems(1) [of 0] by simp
  moreover have "stage_exec k sel x (exec_step x s) =
      Some (n_s3 sel x ((exec_step x ^^ n) (exec_step x s)), Suc n, exec_step x ((exec_step x ^^ n) (exec_step x s)))"
    using Suc.prems by (intro Suc.IH m(2)) (simp_all add: funpow_swap1 flip: funpow_Suc_right, use Suc.prems(1)
        in \<open>force simp: funpow_swap1\<close>)
  ultimately show ?case by (simp add: m(1) funpow_swap1)
qed

lemma unit_route:
  assumes u: "unit_word y" and x: "x_dec x = y" and f: "fetched y i" and n: "n = n_s3 sel x s"
    and e: "ex_mdu_valid i \<longleftrightarrow> \<not> ex_cry_valid i"
  shows "units_ready x s \<longleftrightarrow> (if ex_mdu_valid i then mdu_ready (ex_mdu_in (x_resetn x) False y) (ex_mdu s)
      else cry_ready (ex_cry_in (x_resetn x) y) (ex_aes s))"
    "s3_wb_op n = WB_WDATA" "s3_cfu_op n = CFU_NOP" "\<not> s3_trap (s3_ls n)" "s3_rd (s3_ls n) = s2_rd y"
    "s3_wdata (s3_ls n) = (if ex_mdu_valid i then mdu_rd (ex_mdu_in (x_resetn x) False y) (ex_mdu s)
      else cry_rd (ex_cry_in (x_resetn x) y) (ex_aes s))"
proof -
  have i: "d_instr y = i" using f by (simp add: fetched_def)
  note uw = u [unfolded unit_word_def Let_def i]
  have l: "\<not> lsu_valid x" using uw by (simp add: lsu_valid_def x)
  have t: "\<not> s2_trap y" using no_trap_fetched(1) [OF x f] uw by simp
  have c: "\<not> trap_raise (ex_cfu_in x)" "new_op (ex_cfu_in x) = CFU_NOP"
    using uw by (auto simp: ex_cfu_in_def new_op_def trap_raise_def branch_conditional_def branch_always_def
        branch_taken_def branch_ignore_def x Let_def cfu_op_any_def i)
  have ta: "\<not> trap_addr (ex_lsu_in m x)" for m using l by (simp add: trap_addr_def ex_lsu_in_def Let_def)
  have w: "\<not> s2_wb_npc y" "\<not> s2_wb_alu y" "s2_wb_mdu y = ex_mdu_valid i" "s2_wb_cry y = ex_cry_valid i" "\<not>
      s2_wb_lsu y"
    "\<not> s2_wb_csr y" "\<not> wdata_csr i"
    using uw t by (auto simp: s2_wb_npc_def s2_wb_mdu_def s2_wb_cry_def s2_wb_lsu_def s2_wb_csr_def wdata_csr_def
        ex_mdu_valid_def ex_cry_valid_def cfu_op_any_def i)
  show "units_ready x s \<longleftrightarrow> (if ex_mdu_valid i then mdu_ready (ex_mdu_in (x_resetn x) False y) (ex_mdu s)
      else cry_ready (ex_cry_in (x_resetn x) y) (ex_aes s))"
    using uw l e by (simp add: units_ready_def x i Let_def)
  show "s3_wb_op n = WB_WDATA" using w e by (cases "ex_cry_valid i") (simp_all add: n n_s3_def Let_def
      n_s3_wb_op_def wb_code_def x)
  show "s3_cfu_op n = CFU_NOP" using c by (simp add: n n_s3_def Let_def)
  show "\<not> s3_trap (s3_ls n)" using t ta c by (simp add: n n_s3_def n_s3_ls_def Let_def n_s3_trap_def x)
  show "s3_rd (s3_ls n) = s2_rd y"
    using t ta c by (simp add: n n_s3_def n_s3_ls_def Let_def n_s3_rd_field_def x n_s3_rd_def)
  show "s3_wdata (s3_ls n) = (if ex_mdu_valid i then mdu_rd (ex_mdu_in (x_resetn x) False y) (ex_mdu s)
      else cry_rd (ex_cry_in (x_resetn x) y) (ex_aes s))"
    using w e by (cases "ex_cry_valid i") (simp_all add: n n_s3_def n_s3_ls_def Let_def n_s3_wdata_def x i)
qed

definition mdu_latency :: "mdu_op \<Rightarrow> bool \<Rightarrow> nat" where
  "mdu_latency opr w =
     (if opr \<in> {DIV, DIVU, REM, REMU} then if w then 35 else 67
      else if opr \<in> {CLMUL, CLMULH} then 10 else if w then 10 else 18)"

definition isa_mdu :: "mdu_op \<Rightarrow> bool \<Rightarrow> u64 \<Rightarrow> u64 \<Rightarrow> u64" where
  "isa_mdu opr w a b = (if opr \<in> {DIV, DIVU, REM, REMU} then isa_div opr w a b else isa_mul opr w a b)"

lemma mdu_delivers_all:
  assumes "mdu_idle s" "w \<longrightarrow> opr \<in> {MUL, DIV, DIVU, REM, REMU}"
  shows "mdu_delivers (mdu_request opr w a b) s (mdu_latency opr w) (isa_mdu opr w a b)"
proof -
  consider "opr \<in> {DIV, DIVU, REM, REMU}" | "opr \<in> {CLMUL, CLMULH}" "\<not> w" | "opr \<in> {MUL, MULH, MULHU, MULHSU}"
      "w \<longrightarrow> opr = MUL"
    using assms(2) by (cases opr) auto
  then show ?thesis
  proof cases
    case 1
    then show ?thesis
      using div_delivers_lemma [OF assms(1) 1, of w a b] by (auto simp: mdu_latency_def isa_mdu_def)
  next
    case 2
    then show ?thesis
      using clmul_delivers_lemma [OF assms(1) 2(1), of a b] by (auto simp: mdu_latency_def isa_mdu_def)
  next
    case 3
    then show ?thesis
      using mul_delivers_lemma [OF assms(1) 3(1) 3(2), of a b] by (auto simp: mdu_latency_def isa_mdu_def)
  qed
qed

lemma mdu_decode:
  assumes f: "fetched y (encode (IMdu opr w rd rs1 rs2))" and ok: "instr_ok (IMdu opr w rd rs1 rs2)"
    and r: "d_rs1_data y = R (s1_rs1_addr y)" "d_rs2_data y = R (s1_rs2_addr y)"
  shows "unit_word y" "ex_mdu_valid (encode (IMdu opr w rd rs1 rs2))" "\<not> ex_cry_valid (encode (IMdu opr w rd rs1
      rs2))"
    "s2_rd y = rd" "ex_mdu_in True fl y = (mdu_request opr w (R rs1) (R rs2))\<lparr>mdu_flush := fl\<rparr>"
proof -
  let ?i = "encode (IMdu opr w rd rs1 rs2)"
  have d: "d_instr y = ?i" "\<not> d_i16 y" by (rule fetched_instr [OF f])+
  have v: "d_rs1_data y = R rs1" "d_rs2_data y = R rs2"
    using r d by (simp_all add: s1_rs1_addr_def s1_rs2_addr_def r_fields)
  have "unit_word y \<and> \<not> ex_cry_valid ?i \<and> ex_mdu_valid ?i \<and> \<not> rs1_as_rd ?i \<and>
      ex_mdu_in True fl y = (mdu_request opr w (R rs1) (R rs2))\<lparr>mdu_flush := fl\<rparr>"
    using mdu_33 [OF _ _ d(1), of opr fl] mdu_3b [OF _ _ d(1), of opr fl] ok v
    by (cases w) (simp_all add: r_opc r_known)
  then show "unit_word y" "ex_mdu_valid ?i" "\<not> ex_cry_valid ?i"
    "ex_mdu_in True fl y = (mdu_request opr w (R rs1) (R rs2))\<lparr>mdu_flush := fl\<rparr>" and "s2_rd y = rd"
    using d by (auto simp: s2_rd_def unit_word_def Let_def r_fields)
qed

text \<open>C18: A multiplication, carry-less multiplication, division or remainder that finds its unit idle, from its
  encoding, leaves the execute stage, if writeback is ready, after a number of cycles that depends on the
  operation and the width alone, at most 68, with the value the instruction set gives it for its destination
  register and no trap, and leaves the unit idle. (The unit is not flushed when a trap or an interrupt removes
  an instruction it works on; the next one then finds it busy.)\<close>

theorem muldiv_instruction_exact:
  assumes x: "x_dec x = y" "x_resetn x" "x_s3_ready x" and f: "fetched y (encode (IMdu opr w rd rs1 rs2))"
    and ok: "instr_ok (IMdu opr w rd rs1 rs2)"
    and r: "d_rs1_data y = R (s1_rs1_addr y)" "d_rs2_data y = R (s1_rs2_addr y)"
    and s: "mdu_idle (ex_mdu s)"
  shows "\<exists>u t. stage_exec 68 sel x s = Some (u, Suc (mdu_latency opr w), t) \<and> s3_wb_op u = WB_WDATA \<and>
    s3_rd (s3_ls u) = rd \<and> s3_wdata (s3_ls u) = isa_mdu opr w (R rs1) (R rs2) \<and> \<not> s3_trap (s3_ls u) \<and>
    s3_cfu_op u = CFU_NOP \<and> mdu_idle (ex_mdu t)"
proof -
  let ?i = "encode (IMdu opr w rd rs1 rs2)" and ?q = "mdu_request opr w (R rs1) (R rs2)" and ?n = "mdu_latency opr w"
  note d = mdu_decode [OF f ok r]
  have q: "ex_mdu_in True False y = ?q" using d(5) [of False] by (simp add: mdu_request_def)
  have e: "ex_mdu_valid ?i \<longleftrightarrow> \<not> ex_cry_valid ?i" using d by simp
  have x2: "x_resetn x = True" using x(2) by simp
  note ro = unit_route [OF d(1) x(1) f refl e, unfolded x2 q]
  have rdy: "units_ready x v \<longleftrightarrow> mdu_ready ?q (ex_mdu v)" for v using ro(1) d(2,3) by simp
  have i: "d_instr y = ?i" using f by (simp add: fetched_def)
  have del: "mdu_delivers ?q (ex_mdu s) ?n (isa_mdu opr w (R rs1) (R rs2))"
    using ok by (intro mdu_delivers_all [OF s]) simp
  have st: "ex_mdu (exec_step x v) = mdu_step (ex_mdu_in True (ex_new_instr x v \<and> ex_mdu_valid (d_instr y)) y)
      (ex_mdu v)"
    for v using d(2) i by (simp add: exec_step_def Let_def x clock_on_def mdu_clk_req_def ex_mdu_in_def)
  have run: "ex_mdu ((exec_step x ^^ j) s) = mdu_cycles j ?q (ex_mdu s)" if "j \<le> ?n" for j
    using that
  proof (induction j)
    case (Suc j)
    let ?v = "(exec_step x ^^ j) s"
    have v: "ex_mdu ?v = mdu_cycles j ?q (ex_mdu s)" using Suc by simp
    have "\<not> units_ready x ?v" using del Suc.prems unfolding rdy v mdu_delivers_def by simp
    then have "\<not> ex_new_instr x ?v" by (simp add: ex_new_instr_def ex_s2_ready_def)
    then show ?case using v q by (simp add: st mdu_cycles_step)
  qed simp
  let ?v = "(exec_step x ^^ ?n) s"
  have v: "ex_mdu ?v = mdu_cycles ?n ?q (ex_mdu s)" using run by simp
  have vr: "units_ready x ?v" and val: "mdu_rd ?q (ex_mdu ?v) = isa_mdu opr w (R rs1) (R rs2)"
    using del unfolding rdy v mdu_delivers_def by simp_all
  have "?n < 68" by (simp add: mdu_latency_def)
  then have ex: "stage_exec 68 sel x s = Some (n_s3 sel x ?v, Suc ?n, exec_step x ?v)"
    using del vr by (intro stage_exec_waits) (auto simp: rdy run mdu_delivers_def)
  have "ex_new_instr x ?v"
    using vr x(3) f by (simp add: ex_new_instr_def ex_s2_ready_def s2_valid_def x(1) fetched_def)
  then have "mdu_idle (ex_mdu (exec_step x ?v))"
    using d(2) i by (auto simp: st d(5) mdu_clear_def intro!: mdu_clear_idle)
  then show ?thesis unfolding ex using ro(2-6) [where sel = sel and s = ?v] d(2-4) val by simp
qed


theorem muldiv_instruction_exact_witness:
  "\<exists>u t. stage_exec 68 wrap_sel (demo_exec_in (encode (IMdu MUL False 3 1 2))) exec_zero = Some (u, 19, t) \<and>
     s3_rd (s3_ls u) = 3 \<and> s3_wdata (s3_ls u) = 0x2000000"
proof -
  have e: "isa_mdu MUL False (demo_regs 1) (demo_regs 2) = 0x2000000" by code_simp
  show ?thesis
    using muldiv_instruction_exact [where x = "demo_exec_in (encode (IMdu MUL False 3 1 2))" and opr = MUL and w
        = False
        and rd = "3" and ?rs1.0 = "1" and ?rs2.0 = "2" and R = demo_regs and sel = wrap_sel and s = exec_zero,
        OF demo_facts(2,6,7,1) _ demo_facts(4,5)]
    by (auto simp: e mdu_latency_def exec_zero_def simp del: encode.simps)
qed

section \<open>Cryptography instructions\<close>

lemma const_bits:
  assumes "n < 32"
  shows "bit (0xfff0707f :: u32) n \<longleftrightarrow> n < 7 \<or> 12 \<le> n \<and> n < 15 \<or> 20 \<le> n"
    "bit (0xff00707f :: u32) n \<longleftrightarrow> n < 7 \<or> 12 \<le> n \<and> n < 15 \<or> 24 \<le> n"
    "bit (0x3e007fff :: u32) n \<longleftrightarrow> n < 15 \<or> 25 \<le> n \<and> n < 30"
  using less_32_split [OF assms] by (auto simp: upt_rec)

lemma cry_known:
  "known (i_type imm rs1 f3 rd opc) 0xfff0707f (push_bit 20 (ucast imm) OR push_bit 12 (ucast f3) OR ucast opc)"
  "known (i_type imm rs1 f3 rd opc) 0xff00707f
     (push_bit 24 (ucast (drop_bit 4 imm)) OR push_bit 12 (ucast f3) OR ucast opc)"
  "known (r_type f7 rs2 rs1 f3 rd opc) 0x3e007fff
     (push_bit 25 (ucast (take_bit 5 f7)) OR push_bit 12 (ucast f3) OR push_bit 7 (ucast rd) OR ucast opc)"
  unfolding known_def
  by (rule bit_word_eqI; auto simp: r_type_def bit_and_iff bit_or_iff bit_push_bit_iff bit_ucast_iff bit_i_type
      bit_word_cat_iff bit_drop_bit_eq bit_take_bit_iff const_bits simp del: bit_numeral_word_iff
      dest: bit_imp_le_length)+

lemma cry_imm_bit: "\<not> dec_aes64ks1i i \<Longrightarrow> bit (s2_cry_imm i) n \<longleftrightarrow> n < 2 \<and> bit i (30 + n)"
proof -
  assume k: "\<not> dec_aes64ks1i i"
  consider "n = 0" | "n = 1" | "n = 2" | "n = 3" | "4 \<le> n" by linarith
  then show ?thesis
    by cases (use k in \<open>auto simp: s2_cry_imm_def bit_cat_bits bits_of_def upt_rec\<close>)
qed

lemma cry_decode:
  assumes f: "fetched y (encode_cry k rd rs1 rs2 n)"
    and r: "d_rs1_data y = R (s1_rs1_addr y)" "d_rs2_data y = R (s1_rs2_addr y)"
  shows "\<exists>m. cry_word y k m \<and> crypto_isa k (d_rs1_data y) (d_rs2_data y) m = crypto_isa k (R rs1) (R rs2) n \<and>
    s2_rd y = cry_dest k rd rs1"
proof -
  let ?i = "encode_cry k rd rs1 rs2 n"
  have d: "d_instr y = ?i" "\<not> d_i16 y" by (rule fetched_instr [OF f])+
  have srd: "s2_rd y = (if byte_select k then dec_rs1 ?i else dec_rd ?i)" if "cry_word y k m" for m
    using that d by (simp add: s2_rd_def cry_word_def unit_word_def Let_def s1_rs1_addr_def)
  have v1: "d_rs1_data y = R (dec_rs1 ?i)" "d_rs2_data y = R (dec_rs2 ?i)"
    using r d by (simp_all add: s1_rs1_addr_def s1_rs2_addr_def)
  show ?thesis
  proof (cases k)
    case (Hash h)
    show ?thesis
    proof (cases "h = Sm4_ks \<or> h = Sm4_ed")
      case True
      let ?f7 = "push_bit 5 (ucast n) OR (if h = Sm4_ks then 0x1a else 0x18) :: 7 word"
      have i: "?i = r_type ?f7 rs2 rs1 0 0 0x33" using True by (auto simp: Hash)
      have t: "take_bit 5 ?f7 = (if h = Sm4_ks then 0x1a else 0x18)" by (simp add: take_bit_or take_bit_push_bit)
      have c: "cry_word y (Hash h) (s2_cry_imm ?i)"
        using sm4_33 [OF _ _ d(1), of h] True cry_known(3) [of ?f7 rs2 rs1 0 0 "0x33"]
        unfolding i t by (simp add: r_opc split: if_splits)
      have nk: "\<not> dec_aes64ks1i ?i" using wires_13 [of ?i] by (simp add: i r_opc)
      have g: "\<not> bit (if h = Sm4_ks then 0x1a else 0x18 :: 7 word) (5 + j)" if "j < 2" for j
        using that less_2_cases [OF that] by auto
      have br: "bit ?i (30 + j) = bit n j" if "j < 2" for j
        using that g [OF that]
        by (simp add: i r_type_def bit_i_type bit_word_cat_iff bit_or_iff bit_push_bit_iff bit_ucast_iff
            del: bit_numeral_word_iff)
      have im: "(ucast (s2_cry_imm ?i) :: 2 word) = ucast n"
        by (rule bit_word_eqI) (simp add: bit_ucast_iff cry_imm_bit [OF nk] br)
      show ?thesis
        using c srd True im v1
        by (intro exI [of _ "s2_cry_imm ?i"]) (auto simp: Hash i r_fields byte_select_def)
    next
      case False
      have i: "?i = i_type (hash_imm h) rs1 1 rd 0x13" using False by (cases h) (simp_all add: Hash)
      have c: "cry_word y (Hash h) (s2_cry_imm ?i)"
        using hash_13 [OF _ _ d(1), of h] False cry_known(1) [of "hash_imm h" rs1 1 rd "0x13"]
        unfolding i by (simp add: i_opc or.assoc)
      show ?thesis
        using c srd False v1
        by (intro exI [of _ "s2_cry_imm ?i"]) (cases h; auto simp: Hash i i_fields byte_select_def)
    qed
  next
    case (Aes e)
    consider "e = Ks1" | "e = Imix" | "e \<notin> {Ks1, Imix}" by auto
    then show ?thesis
    proof cases
      case 1
      have i: "?i = i_type (0x310 OR ucast n) rs1 1 rd 0x13" by (simp add: Aes 1)
      have dr: "drop_bit 4 (0x310 OR ucast n :: 12 word) = 0x31"
      proof -
        have "drop_bit 4 (ucast n :: 12 word) = 0"
          by (rule bit_word_eqI) (auto simp: bit_drop_bit_eq bit_ucast_iff dest: bit_imp_le_length)
        then show ?thesis by (simp add: drop_bit_or)
      qed
      have c: "cry_word y (Aes Ks1) (field 23 20 ?i)"
        using ks1_13 [OF _ _ d(1)] cry_known(2) [of "0x310 OR ucast n" rs1 1 rd "0x13"]
        unfolding i dr by (simp add: i_opc)
      have z: "\<not> bit (0x310 :: 12 word) j" if "j < 4" for j
      proof -
        from that consider "j = 0" | "j = 1" | "j = 2" | "j = 3" by linarith
        then show ?thesis by cases simp_all
      qed
      have im: "field 23 20 ?i = n"
        by (rule bit_word_eqI) (simp add: bit_field i bit_i_type bit_or_iff bit_ucast_iff z del: bit_numeral_word_iff)
      show ?thesis
        using c srd v1
        by (intro exI [of _ n]) (auto simp: Aes 1 im [unfolded i] i i_fields byte_select_def)
    next
      case 2
      have i: "?i = i_type 0x300 rs1 1 rd 0x13" by (simp add: Aes 2)
      have c: "cry_word y (Aes Imix) (s2_cry_imm ?i)"
        using imix_13 [OF _ _ d(1)] cry_known(1) [of "0x300" rs1 1 rd "0x13"] unfolding i by (simp add: i_opc)
      show ?thesis
        using c srd v1
        by (intro exI [of _ "s2_cry_imm ?i"]) (auto simp: Aes 2 i i_fields byte_select_def)
    next
      case 3
      have i: "?i = r_type (aes_funct7 e) rs2 rs1 0 rd 0x33" using 3 by (cases e) (simp_all add: Aes)
      have c: "cry_word y (Aes e) (s2_cry_imm ?i)"
        using aes_33 [OF _ _ d(1), of e] 3 r_known [of "aes_funct7 e" rs2 rs1 0 rd "0x33"] unfolding i by (simp
            add: r_opc)
      show ?thesis
        using c srd v1 3
        by (intro exI [of _ "s2_cry_imm ?i"]) (cases e; auto simp: Aes i r_fields byte_select_def)
    qed
  qed
qed

text \<open>C19: A scalar cryptography instruction that does not find the S-boxes in the second cycle of an abandoned
  one, from its encoding, is ready to leave the execute stage after one cycle, or two for the AES instructions
  that share the S-boxes, with the value the instruction set gives it for its destination register and no
  trap, and leaves the S-boxes in their first cycle. (An AES instruction that a trap removes after its first
  cycle leaves them in the second.)\<close>

theorem crypto_instruction_exact:
  assumes x: "x_dec x = y" "x_resetn x" and f: "fetched y (encode_cry k rd rs1 rs2 n)"
    and r: "d_rs1_data y = R (s1_rs1_addr y)" "d_rs2_data y = R (s1_rs2_addr y)"
    and s: "\<not> sbox_hi (ex_aes s)"
  shows "\<exists>u t. stage_exec 2 sel x s = Some (u, crypto_cycles k, t) \<and> s3_wb_op u = WB_WDATA \<and>
    s3_rd (s3_ls u) = cry_dest k rd rs1 \<and> s3_wdata (s3_ls u) = crypto_isa k (R rs1) (R rs2) n \<and> \<not> s3_trap (s3_ls u) \<and>
    s3_cfu_op u = CFU_NOP \<and> \<not> sbox_hi (ex_aes t)"
proof -
  let ?i = "encode_cry k rd rs1 rs2 n"
  obtain m where d: "cry_word y k m" "crypto_isa k (d_rs1_data y) (d_rs2_data y) m = crypto_isa k (R rs1) (R rs2) n"
    "s2_rd y = cry_dest k rd rs1"
    using cry_decode [OF f r] by blast
  let ?q = "crypto_request k (d_rs1_data y) (d_rs2_data y) m"
  have i: "d_instr y = ?i" using f by (simp add: fetched_def)
  have w: "unit_word y" "\<not> ex_mdu_valid ?i" "ex_cry_valid ?i" "ex_cry_in True y = ?q"
    using d(1) by (simp_all add: cry_word_def i)
  have e: "ex_mdu_valid ?i \<longleftrightarrow> \<not> ex_cry_valid ?i" using w by simp
  have x2: "x_resetn x = True" using x(2) by simp
  note ro = unit_route [OF w(1) x(1) f refl e, unfolded x2 w(4)]
  have st: "ex_aes (exec_step x v) = cry_step ?q (ex_aes v)" for v
    by (simp add: exec_step_def Let_def x w(4))
  have rdy: "units_ready x v \<longleftrightarrow> cry_ready ?q (ex_aes v)" for v using ro(1) w(2) by simp
  note ce = crypto_exec_exact [OF s, of k "d_rs1_data y" "d_rs2_data y" m]
  obtain t where c: "crypto_exec 2 ?q (ex_aes s) = Some (crypto_isa k (R rs1) (R rs2) n, crypto_cycles k, t)"
    "\<not> sbox_hi t" using ce unfolding d(2) by blast
  have fin: "s3_wb_op (n_s3 sel x v) = WB_WDATA \<and> s3_rd (s3_ls (n_s3 sel x v)) = cry_dest k rd rs1 \<and>
      s3_wdata (s3_ls (n_s3 sel x v)) = cry_rd ?q (ex_aes v) \<and> \<not> s3_trap (s3_ls (n_s3 sel x v)) \<and>
      s3_cfu_op (n_s3 sel x v) = CFU_NOP" for v
    using ro(2-6) [where sel = sel and s = v] w(2) d(3) by simp
  show ?thesis
  proof (cases "cry_ready ?q (ex_aes s)")
    case True
    then have "stage_exec 2 sel x s = Some (n_s3 sel x s, 1, exec_step x s)" "crypto_cycles k = 1"
      "cry_rd ?q (ex_aes s) = crypto_isa k (R rs1) (R rs2) n" "ex_aes (exec_step x s) = t"
      using c(1) by (simp_all add: numeral_2_eq_2 rdy st)
    then show ?thesis using fin [of s] c(2) by simp
  next
    case False
    let ?v = "exec_step x s"
    from False have "stage_exec 2 sel x s = Some (n_s3 sel x ?v, 2, exec_step x ?v)" "crypto_cycles k = 2"
      "cry_rd ?q (ex_aes ?v) = crypto_isa k (R rs1) (R rs2) n" "ex_aes (exec_step x ?v) = t"
      using c(1) by (simp_all add: numeral_2_eq_2 rdy st split: if_splits)
    then show ?thesis using fin [of ?v] c(2) by simp
  qed
qed

theorem crypto_instruction_exact_witness:
  "\<exists>u t. stage_exec 2 wrap_sel (demo_exec_in (encode_cry (Aes Encs) 3 1 2 0)) exec_zero = Some (u, 2, t) \<and>
     s3_rd (s3_ls u) = 3"
  using crypto_instruction_exact [where x = "demo_exec_in (encode_cry (Aes Encs) 3 1 2 0)" and k = "Aes Encs"
      and rd = "3" and ?rs1.0 = "1" and ?rs2.0 = "2" and n = "0" and R = demo_regs and sel = wrap_sel and s =
          exec_zero,
      OF demo_facts(2,6,1,4,5)]
  by (auto simp: exec_zero_def aes_idle_def two_cycles_def simp del: encode_cry.simps)

section \<open>Loads and stores\<close>

lemma s_fields: "dec_rs1 (s_type imm rs2 rs1 f3 opc) = rs1" "dec_rs2 (s_type imm rs2 rs1 f3 opc) = rs2"
  by (simp_all add: s_type_def r_fields)

lemma s_known: "known (s_type imm rs2 rs1 f3 opc) 0x707f (push_bit 12 (ucast f3) OR ucast opc)"
  and s_opc: "major_opc (s_type imm rs2 rs1 f3 opc) = ucast opc"
  by (simp_all add: s_type_def r_type_def i_known i_opc)

text \<open>The request a load or store makes, and what it hands on.\<close>

lemma mem_decode:
  assumes x: "x_dec x = y" and f: "fetched y (encode i)" and ok: "instr_ok i"
    and r: "d_rs1_data y = R (s1_rs1_addr y)" "d_rs2_data y = R (s1_rs2_addr y)"
    and i: "i = ILoad n sx rd rs1 imm \<and> \<not> st \<or> i = IStore n rs1 rs2 imm \<and> st"
  shows "mem_word y st n sx (scast imm)" "d_rs1_data y = R rs1" "st \<Longrightarrow> d_rs2_data y = R rs2"
    "\<not> st \<Longrightarrow> dec_rd (encode i) = rd" "n \<in> {1, 2, 4, 8}"
proof -
  have d: "d_instr y = encode i" "\<not> d_i16 y" by (rule fetched_instr [OF f])+
  have "mem_word y st n sx (scast imm) \<and> d_rs1_data y = R rs1 \<and> (st \<longrightarrow> d_rs2_data y = R rs2) \<and>
    (\<not> st \<longrightarrow> dec_rd (encode i) = rd)"
    using i
  proof (elim disjE conjE)
    assume a: "i = ILoad n sx rd rs1 imm" "\<not> st"
    then show ?thesis
      using op_03 [OF _ _ d(1), of n sx] ok r d i_known [of imm rs1 "width_funct n OR (if sx then 0 else 4)" rd 3]
      by (simp add: i_opc imm_i s1_rs1_addr_def i_fields)
  next
    assume a: "i = IStore n rs1 rs2 imm" "st"
    then show ?thesis
      using op_23 [OF _ _ d(1), of n sx] ok r d s_known [of imm rs2 rs1 "width_funct n" "0x23"]
      by (simp add: s_opc imm_s s1_rs1_addr_def s1_rs2_addr_def s_fields)
  qed
  moreover have "n \<in> {1, 2, 4, 8}" using i ok by auto
  ultimately show "mem_word y st n sx (scast imm)" "d_rs1_data y = R rs1" "st \<Longrightarrow> d_rs2_data y = R rs2"
    "\<not> st \<Longrightarrow> dec_rd (encode i) = rd" "n \<in> {1, 2, 4, 8}" by simp_all
qed

lemma mem_route:
  assumes m: "mem_word y st n sx off" and x: "x_dec x = y" and f: "fetched y i" and n: "n \<in> {1, 2, 4, 8}"
    and go: "\<not> x_s3_trap x" "\<not> x_cancel x" "\<not> x_wfi_sleep x"
  defines "m \<equiv> \<lambda>new. ex_lsu_in new x"
  shows "one_size (m new) n" "ls_valid (m new)" "ls_addr (m new) = lsu_addr (d_rs1_data y + off)"
    "ls_load (m new) = (\<not> st)" "ls_store (m new) = st" "ls_wdata (m new) = d_rs2_data y"
    "units_ready x s = lsu_ready (m new) (ex_lsu s) (x_gnt x)" "n_s3_trap x = trap_addr (m new)"
    "n_s3_wb_op y = (if st then WB_NONE else WB_LSU)"
    "n_s3_ls sel x s = (wb_step (m new) (ex_lsu s) (x_gnt x) (\<not> st \<and> sx \<and> n \<noteq> 8) (d_rs1_data y + off) (s2_rd y))
       \<lparr>s3_wdata := if st then 0 else d_rs1_data y + off\<rparr>"
    "st \<Longrightarrow> s2_rd y = 0" "\<not> st \<Longrightarrow> s2_rd y = dec_rd i"
proof -
  have i: "d_instr y = i" "\<not> d_i16 y" using f by (simp_all add: fetched_def)
  note mw = m [unfolded mem_word_def Let_def i]
  have ia: "\<not> s2_iaccess_trap y" using f by (simp add: s2_iaccess_trap_def s2_iaccess_trap_16_def
      s2_iaccess_trap_32_def fetched_def)
  have sv: "s2_valid x" using f by (simp add: s2_valid_def x fetched_def)
  have lv: "lsu_valid x" using sv go mw ia by (auto simp: lsu_valid_def x)
  have t: "\<not> s2_trap y" using no_trap_fetched(1) [OF x f] mw by simp
  have c: "\<not> trap_raise (ex_cfu_in x)" "\<not> cfu_op_any i"
    using mw by (auto simp: ex_cfu_in_def trap_raise_def branch_conditional_def branch_always_def
        x Let_def cfu_op_any_def i)
  have w: "\<not> s2_wb_npc y" "\<not> s2_wb_alu y" "\<not> s2_wb_mdu y" "\<not> s2_wb_cry y" "s2_wb_lsu y = (\<not> st)" "\<not> s2_wb_csr y"
    "\<not> wdata_csr i"
    using mw t ia by (auto simp: s2_wb_npc_def s2_wb_mdu_def s2_wb_cry_def s2_wb_lsu_def s2_wb_csr_def wdata_csr_def
        ex_mdu_valid_def ex_cry_valid_def cfu_op_any_def i)
  have fl: "ex_lsu_in new x = \<lparr>new_instr = new, ls_valid = True, ls_addr = lsu_addr (d_rs1_data y + off),
     ls_wdata = d_rs2_data y, ls_load = (\<not> st), ls_store = st, d_double = (n = 8), d_word = (n = 4), d_half = (n = 2),
     d_byte = (n = 1), mprv_m = x_mprv_m x, mprv_u = x_mprv_u x\<rparr>" for new
    using mw ia lv by (simp add: ex_lsu_in_def x Let_def i)
  show "one_size (m new) n" "ls_valid (m new)" "ls_addr (m new) = lsu_addr (d_rs1_data y + off)"
    "ls_load (m new) = (\<not> st)" "ls_store (m new) = st" "ls_wdata (m new) = d_rs2_data y"
    using n by (simp_all add: m_def fl one_size_def)
  have nn: "trap_addr (ex_lsu_in False x) = trap_addr (ex_lsu_in new x)"
    "dmem_req (ex_lsu_in False x) u = dmem_req (ex_lsu_in new x) u" for u
    by (simp_all add: fl trap_addr_def addr_err_def dmem_req_def txn_okay_def)
  show "units_ready x s = lsu_ready (m new) (ex_lsu s) (x_gnt x)"
    using mw c lv nn by (simp add: units_ready_def x Let_def i m_def lsu_ready_def req_sent_def fl)
  show tr: "n_s3_trap x = trap_addr (m new)" using t c nn by (simp add: n_s3_trap_def x m_def)
  show "n_s3_wb_op y = (if st then WB_NONE else WB_LSU)" using w by (simp add: n_s3_wb_op_def wb_code_def)
  have wd: "n_s3_wdata sel x s = (if st then 0 else d_rs1_data y + off)"
    using w mw by (simp add: n_s3_wdata_def Let_def x i)
  have rdf: "n_s3_rd_field x = n_s3_rd (trap_addr (m new)) (s2_rd y)"
    using t c nn(1) by (simp add: n_s3_rd_field_def x m_def)
  show "n_s3_ls sel x s = (wb_step (m new) (ex_lsu s) (x_gnt x) (\<not> st \<and> sx \<and> n \<noteq> 8) (d_rs1_data y + off) (s2_rd y))
       \<lparr>s3_wdata := if st then 0 else d_rs1_data y + off\<rparr>"
    using mw ia t c nn(2) [of "ex_lsu s"] tr
    by (simp add: n_s3_ls_def Let_def wd x i wb_step_def m_def fl rdf)
  show "s2_rd y = 0" if st using mw that i by (simp add: s2_rd_def)
  show "s2_rd y = dec_rd i" if "\<not> st" using mw that i by (simp add: s2_rd_def)
qed

lemma lsu_trap_wdata: "lsu_trap (w\<lparr>s3_wdata := v\<rparr>) e = lsu_trap w e"
  by (simp add: lsu_trap_def lsu_trap_load_def lsu_trap_store_def)

lemma load_ext_8: "load_ext sx 8 v = v"
  by (rule bit_word_eqI, case_tac "n = 63")
    (auto simp: load_ext_def bit_simps bit_signed_take_bit_iff min_def)

text \<open>C6: An aligned load or store of the ROM or the RAM, from its encoding through the decoder, the
  load/store unit, the interconnect and the memory: the request is granted in its first cycle and the
  instruction leaves the execute stage; in the next cycle a load returns the bytes at its address,
  extended as the instruction says, and a store has changed exactly the bytes it covers in the RAM, or
  traps and changes nothing in the ROM.\<close>

theorem memory_instruction_exact:
  fixes j b e
  assumes x: "x_dec x = y" and f: "fetched y (encode i)" and ok: "instr_ok i"
    and r: "d_rs1_data y = R (s1_rs1_addr y)" "d_rs2_data y = R (s1_rs2_addr y)"
    and i: "i = ILoad n sx rd rs1 imm \<and> \<not> st \<or> i = IStore n rs1 rs2 imm \<and> st"
    and go: "\<not> x_s3_trap x" "\<not> x_cancel x" "\<not> x_wfi_sleep x" "\<not> finished (ex_lsu s)"
    and a: "a = lsu_addr (R rs1 + scast imm)" "n dvd unat a" "region a \<in> {Some Rom, Some RamT}"
    and m: "settled q" "ctr_resetn c" "\<not> br_wen j" "b = lsu_bus (ex_lsu_in new x) (ex_lsu s)"
    and g: "x_gnt x"
  shows "let q' = ccx_step c j b e q; w = n_s3_ls sel x s; rsp = ccx_dmem_rsp q' b' e' in
    br_gnt (ccx_dmem_rsp q b e) \<and> units_ready x s \<and> n_s3_wb_op y = (if st then WB_NONE else WB_LSU) \<and> s3_rd w =
        (if st then 0 else rd) \<and>
    (lsu_trap w (br_err rsp) \<longleftrightarrow> st \<and> region a = Some Rom) \<and>
    (\<not> st \<longrightarrow> lsu_rdata w (br_rdata rsp) = load_ext sx n (or_bytes (\<lambda>k. onchip_byte q (a + of_nat k)) n)) \<and>
    (\<forall>k. region k \<in> {Some Rom, Some RamT} \<longrightarrow> onchip_byte q' k =
      (if st \<and> region a = Some RamT \<and> region k = Some RamT \<and> unat (k - a) < n
       then byte_of (R rs2) (unat (k - a)) else onchip_byte q k))"
proof -
  note d = mem_decode [OF x f ok r i]
  let ?m = "ex_lsu_in new x" and ?ea = "R rs1 + scast imm"
  note ro = mem_route [OF d(1) x f d(5) go(1-3), unfolded d(2)]
  have ad: "ls_addr ?m = a" using ro(3) a(1) by simp
  have acc: "access ?m (ex_lsu s) n" using ro(1,2) a(2) go(4) by (simp add: access_def ad)
  have ne: "\<not> addr_err ?m" by (rule access_bus(2) [OF acc])
  have gn: "br_gnt (ccx_dmem_rsp q b e)" unfolding m(4) using access_gnt [OF acc m(1)] a(3) ad by auto
  have w: "n_s3_ls sel x s = (wb_step ?m (ex_lsu s) True (\<not> st \<and> sx \<and> n \<noteq> 8) ?ea (s2_rd y))
      \<lparr>s3_wdata := if st then 0 else ?ea\<rparr>"
    using ro(10) [where sel = sel and s = s and new = new] g by simp
  have sx8: "load_ext (\<not> st \<and> sx \<and> n \<noteq> 8) n v = load_ext sx n v" if "\<not> st" for v
    using that load_ext_8 by (cases "n = 8") simp_all
  have rdy: "units_ready x s"
    using ro(7) [where s = s and new = new] g access_bus(1) [OF acc] by (simp add: lsu_ready_def req_sent_def
        lsu_bus_def)
  have srd: "s2_rd y = (if st then 0 else rd)" using ro(11,12) d(4) by simp
  have tr: "lsu_trap (n_s3_ls sel x s) (br_err (ccx_dmem_rsp (ccx_step c j b e q) b' e')) \<longleftrightarrow>
      st \<and> region a = Some Rom"
    using lsu_trap_onchip [OF acc m(1) _ m(2)] a(3) ro(5) unfolding m(4) w lsu_trap_wdata ad by simp
  have ld: "lsu_rdata (n_s3_ls sel x s) (br_rdata (ccx_dmem_rsp (ccx_step c j b e q) b' e')) =
      load_ext sx n (or_bytes (\<lambda>k. onchip_byte q (a + of_nat k)) n)" if "\<not> st"
  proof -
    have "n_s3_ls sel x s = wb_step ?m (ex_lsu s) True (\<not> st \<and> sx \<and> n \<noteq> 8) ?ea (s2_rd y)"
      unfolding w using that by (simp add: wb_step_def)
    then show ?thesis
      using onchip_load [OF acc m(1) _ m(2), where ea = ?ea, unfolded ad, OF a(3,1)] sx8 that unfolding m(4) by simp
  qed
  have stb: "onchip_byte (ccx_step c j b e q) k =
      (if st \<and> region a = Some RamT \<and> region k = Some RamT \<and> unat (k - a) < n
       then byte_of (R rs2) (unat (k - a)) else onchip_byte q k)"
    if k: "region k \<in> {Some Rom, Some RamT}" for k
  proof (cases "st \<and> region a = Some RamT")
    case True
    then show ?thesis
      using onchip_store [OF acc m(1) _ _ m(3) k] ro(5,6) d(3) unfolding m(4) ad by simp
  next
    case False
    then show ?thesis
      using onchip_unchanged [OF acc m(1) _ _ m(3) k] ro(5) a(3) unfolding m(4) ad by auto
  qed
  have rd: "s3_rd (n_s3_ls sel x s) = (if st then 0 else rd)"
    using ne by (simp add: w n_s3_rd_def trap_addr_def srd)
  show ?thesis unfolding Let_def using gn rdy ro(9) rd tr ld stb by simp
qed

theorem memory_instruction_exact_witness:
  "onchip_byte (ccx_step clocked idle_req (lsu_bus (ex_lsu_in False (demo_exec_in (encode (IStore 4 16 1 4))))
      lsu_idle)
     quiet_rsp ccx_zero) 0x10005 = 0x10"
proof -
  let ?x = "demo_exec_in (encode (IStore 4 16 1 4))"
  have e: "region 0x10005 = Some RamT" "region 0x10004 = Some RamT" "byte_of (demo_regs 1) 1 = 0x10"
    by code_simp+
  have a: "(0x10004 :: addr39) = lsu_addr (demo_regs 16 + scast (4 :: 12 word))" by code_simp
  have i: "IStore 4 16 1 4 = ILoad 4 False 0 16 4 \<and> \<not> True \<or> IStore 4 16 1 4 = IStore 4 16 1 4 \<and> True" by simp
  have o: "instr_ok (IStore 4 16 1 4)" "\<not> finished (ex_lsu exec_zero)" "4 dvd unat (0x10004 :: addr39)"
    "region 0x10004 \<in> {Some Rom, Some RamT}" "ctr_resetn clocked" "\<not> br_wen idle_req"
    by (simp_all add: exec_zero_def clocked_def idle_req_def e)
  have "region k \<in> {Some Rom, Some RamT} \<longrightarrow>
    onchip_byte (ccx_step clocked idle_req (lsu_bus (ex_lsu_in False ?x) (ex_lsu exec_zero)) quiet_rsp ccx_zero) k =
    (if True \<and> region 0x10004 = Some RamT \<and> region k = Some RamT \<and> unat (k - 0x10004) < 4
     then byte_of (demo_regs 1) (unat (k - 0x10004)) else onchip_byte ccx_zero k)" for k
    using memory_instruction_exact [where R = demo_regs, OF demo_facts(2,1) o(1) demo_facts(4,5) i demo_facts(9,10,8)
        o(2) a o(3,4) settled_zero o(5,6) refl demo_facts(11), unfolded Let_def]
    by blast
  from this [of "0x10005"] show ?thesis by (simp add: e e(3) [unfolded One_nat_def] exec_zero_def del: encode.simps)
qed

end
