(* ===== verification/Spec2Isabelle.thy ===== *)
theory Spec2Isabelle
  imports Sim_Props Trap_Props Soc_Props Timer_Tests Hart_Props Fetch_Props Core_Props Exec_Units
begin

text \<open>
  Croyde RISC-V: verification development.

  Croyde is a 64-bit RISC-V core with a small core complex around it (boot ROM, RAM, memory
  mapped timers, an interconnect and a port to external memory), a C++ test bench that simulates
  either one, and C programs that run on it. The development translates the core and the core complex, the test bench and most of the programs, and proves what each part
  promises and what they do together. Paths below are relative to \<open>src/\<close>.

  \<^bold>\<open>How the program is put together.\<close> A simulator (\<open>verif/core/verilator\<close> for the core,
  \<open>verif/ccx/verilator\<close> for the core complex) parses its command line, reads an S-record image
  into a memory bus of devices (\<open>verif/share/verilator\<close>), and clocks the design. On every memory
  port an agent answers the request/grant protocol of the design from the bus, after a random
  delay. The test bench pops the trace of retired instructions until it meets the address that
  means pass or the one that means fail, or until the cycle limit, and \<open>main\<close> turns the verdict
  and an optional signature comparison into the exit code. In the design, the fetch stage buffers instructions, the decoder turns the one at the program counter into
  operands and one wire per operation, and the execute stage hands these to the ALU, the multiply/divide, cryptography,
  control flow or load/store unit and the result to the writeback stage, which writes the register
  file, accesses the CSRs and takes traps; the load/store unit drives the data port of the core, which the
  interconnect routes to ROM, RAM, timers or the external port, where the agent of the test bench
  sits. The test programs check the results of instructions and the access faults.

  \<^bold>\<open>The test bench\<close> (\<open>verif/share/verilator\<close>, \<open>verif/core/verilator\<close>, \<open>verif/ccx/verilator\<close>).
  \<^item> \<open>Prelude\<close>: word types (\<open>addr\<close>, \<open>byte\<close>, ...), little-endian splitting and joining of words,
    the collection \<open>bytes\<close> and generic list and word lemmas.
  \<^item> \<open>Txns\<close> (\<open>memory_txns.hpp\<close>): requests and responses, the transaction counter.
  \<^item> \<open>Devices\<close> (\<open>memory_device\<close>, \<open>memory_device_ram\<close>, \<open>memory_device_uart\<close>): a device is a
    record of its range and its kind (a virtual call is a case distinction); a RAM is a partial map.
    The locales \<open>byte_device\<close> and \<open>byte_store\<close> state what the bus relies on.
  \<^item> \<open>Bus\<close> (\<open>memory_bus\<close>): \<open>add_device\<close>, the address decoder, \<open>request\<close>, byte accesses. \<open>bus_wf\<close>
    (the devices are in order and disjoint) is its invariant; the abstract memory is a
    partial map from addresses to bytes, and \<open>request\<close> is shown to refine it.
  \<^item> \<open>Agent\<close> (\<open>core_mem_agent\<close>): the queues and outputs of the agent, one \<open>posedge_clk\<close> per
    cycle. \<open>rand()\<close> is an argument, a sequence of words.
  \<^item> \<open>Srec\<close> (\<open>srec.hpp\<close>, \<open>srec.cpp\<close>): the S-record parser and the \<open>$readmemh\<close> writer, over the
    characters of the file.
  \<^item> \<open>Testbench\<close>, \<open>Args\<close>, \<open>Signature\<close>, \<open>Simulator\<close> (the two \<open>dut_wrapper\<close>, \<open>testbench\<close>
    and \<open>main.cpp\<close>): the wrapper over a design (an argument, what Verilator generates), the
    simulation loop, the command line, the signature dump and check, and the exit code.
  \<^item> \<open>Bench_Props\<close>, \<open>Run_Props\<close>, \<open>Sim_Props\<close>: their properties.

  \<^bold>\<open>The core\<close> (\<open>rtl/core\<close>). A unit is a record of its registers, a definition per wire, and
  a step function per rising clock edge; wires that depend on the registers and the inputs take both.
  \<^item> \<open>Mdu\<close> (\<open>core_pipe_exec_mdu.sv\<close>): the sequential multiplier, divider and carry-less
    multiplier. \<open>Mdu_Mul\<close>, \<open>Mdu_Div\<close>, \<open>Mdu_Clmul\<close> carry the loop invariants, \<open>Mdu_Unit\<close> the
    result of every operation at its exact latency. \<open>Unit_Mul_Div\<close> runs the test programs
    \<open>mul\<close> and \<open>div\<close> on the unit.
  \<^item> \<open>Alu\<close> (\<open>core_pipe_exec_alu.sv\<close>): every wire of the ALU. \<open>Alu_Isa\<close> and \<open>Alu_Unit\<close> compare it
    with the instruction set, and \<open>Unit_Bits\<close> models the bit manipulation test programs.
    The left shifter reads its input outside its range; what such a select returns
    is an argument, and \<open>wrap_sel\<close> is the tool that truncates the index.
  \<^item> \<open>Lsu\<close> (\<open>core_pipe_exec_lsu.sv\<close>, and the memory part of \<open>core_pipe_exec.sv\<close>,
    \<open>core_pipe_wb.sv\<close>): byte lanes, strobes, the request and response state of an access, load
    data alignment and the access faults. Proofs in \<open>Lsu_Props\<close>.
  \<^item> \<open>Fetch\<close> (\<open>core_pipe_fetch_buffer.sv\<close>, \<open>core_pipe_fetch.sv\<close>, the program counter of
    \<open>core_pipe_decode.sv\<close>): the fetch stage and a memory that answers in the next cycle.
    \<open>Fetch_Buf\<close> shows the buffer to be a queue of halfwords (locale \<open>halfword_queue\<close>),
    \<open>Fetch_Props\<close> carries the invariant of the stage over every phase of a fetch.
  \<^item> \<open>Csrs\<close> (\<open>core_csrs.sv\<close>, \<open>core_interrupts.sv\<close>) and \<open>Hart\<close> (\<open>core_pipe_wb.sv\<close>, joined with them as
    in \<open>core_top.sv\<close>): control and status registers, traps, interrupts, return, wait-for-interrupt and
    retirement. \<open>Hart_Regs\<close> has their invariant and one lemma per kind of update, \<open>Hart_Props\<close>
    the properties.
  \<^item> \<open>Sboxes\<close> (\<open>core_pipe_exec_crypto_sboxes.sv\<close>), \<open>Crypto\<close> (\<open>core_pipe_exec_crypto.sv\<close> and its AES,
    SHA-2, SM3 and SM4 modules): the S-box circuits gate by gate and the unit with its two-cycle AES
    registers. \<open>Sboxes\<close> proves the circuits against inversion in the field of 256 elements,
    \<open>Crypto_Aes\<close> and \<open>Crypto_Hash\<close> each instruction against its standard, \<open>Crypto_Props\<close> streams of
    instructions and the AES round trip, and runs \<open>verif/core/unit/k-aes/test.c\<close>.
  \<^item> \<open>Decode\<close> (\<open>core_pipe_decode.svh\<close>, \<open>core_pipe_decode.sv\<close>, \<open>core_pipe_decode_immediates.sv\<close>): every wire
    of the decoder over the instruction word, compressed words included. \<open>Isa\<close> has the instruction formats and what
    the immediates of the decoder are on them, \<open>Isa_Dec\<close> the datatype \<open>instr\<close> of instructions, their encoding
    \<open>encode\<close> and the wires each class of them raises, \<open>Isa_Units\<close> the same for the instructions of the other units.
  \<^item> \<open>Execute\<close> (\<open>core_pipe_exec.sv\<close>, \<open>core_pipe_exec_cfu.sv\<close>): the control flow unit, the requests to
    the units, when the stage is ready and what it hands to writeback. \<open>Exec_Props\<close> follows an instruction from its
    encoding to writeback for the ALU, branches, jumps and CSR accesses, \<open>Exec_Units\<close> for the units that
    take several cycles and for the memory behind the interconnect.
  \<^item> \<open>Core\<close> (\<open>core_top.sv\<close>, \<open>core_regfile.sv\<close>): the register file, the forwarding and all stages joined into
    \<open>core_step\<close>. \<open>Core_Props\<close> has the refinement of the instruction set: \<open>arch\<close> abstracts the pipeline to the
    registers as the next instruction sees them, \<open>isa_step\<close> is one instruction.

  \<^bold>\<open>The core complex\<close> (\<open>rtl/ccx\<close>, \<open>rtl/mem\<close>).
  \<^item> \<open>Ccx\<close> (\<open>ccx_ic_router.sv\<close>, \<open>ccx_ic_arbiter.sv\<close>, \<open>ccx_ic_top.sv\<close>, \<open>ccx_top.sv\<close>,
    \<open>mem_sram_wxd.v\<close>, \<open>core_counters.sv\<close>): routers, arbiters, memories and timers and their
    joint step \<open>ccx_step\<close>. \<open>Ccx_Props\<close> states the memory map (\<open>region\<close>), the invariant \<open>settled\<close>
    and the cycle-level facts from which \<open>Lsu_Props\<close> proves whole accesses.

  \<^bold>\<open>The programs\<close> (\<open>src\<close>, \<open>verif/ccx/unit\<close>, \<open>verif/share/unit\<close>).
  \<^item> \<open>Access_Traps\<close> (\<open>access-traps.c\<close>): the access fault test over an abstract machine, with
    the locale \<open>checked_platform\<close> as the interface; \<open>Trap_Platform\<close> builds that machine from load/store
    unit, core complex, agent and bus clocked together and interprets the locale on it;
    \<open>Trap_Props\<close> concludes.
  \<^item> \<open>Timer_Tests\<close> (\<open>test_mtime_read.c\<close>, \<open>test_mtime_write.c\<close>): over the locale \<open>timers\<close>,
    interpreted on the timers of the core complex.
  \<^item> \<open>Unit_Lib\<close> (\<open>unit_test.c\<close>) and \<open>Soc\<close> (board and chip support, boot loader, hello world),
    with their properties in \<open>Soc_Props\<close>.

  \<^bold>\<open>What is shown.\<close> Functional: multiplication and division of every instruction at a fixed latency (carry-less multiplication in lemmas of \<open>Mdu_Unit\<close>); any stream of cryptography instructions against AES, SHA-2, SM3 and SM4; the
  ALU against the instruction set; a load or store of on-chip
  memory or timers does exactly what its width and address say; the fetch stage offers exactly the
  instruction at the program counter; CSR instructions, exceptions, interrupts and returns leave
  exactly the registers they should; each class of 32-bit instruction, from its encoding through decoder and execute stage, hands
  writeback what the instruction set says; the verdict of a simulation and its exit code. Refinement: a bus request
  against the abstract byte memory; the pipeline against the instruction set.
  Round trips: AES decryption after encryption, S-records, readmemh files, signatures, hexadecimal printing,
  store then load.
  Termination: the simulation loop and both \<open>main\<close> functions. Errors: unmapped accesses fault,
  bus errors leave the memory alone. Composition: the access fault test passes on the modelled
  hardware whatever the (fair) random source does, and the timer tests pass on the modelled timers (a lemma of \<open>Timer_Tests\<close>).
  Several properties state defects of the code: the external port can deadlock, a misaligned
  store reports a load, a narrow store overwrites a whole timer register, an interrupt is taken
  for a fault by the test, an abandoned AES instruction corrupts the next one, user mode cannot be entered, CSR instructions with an immediate
  use a register instead; lemmas state more of them: an interrupt drops the exception it meets, an exception
  that waits for fetch loses the interrupt enable, a return that faults jumps to itself, a multiplication that is
  abandoned delivers its product to the next one, fetch errors are attached to the wrong halfwords, two control flow
  changes in a row can fetch the wrong instruction, the word of zeros is executed.

  \<^bold>\<open>Bounds.\<close> The simulation loop, the signature loops, an access of the modelled hardware and the
  loops of the polled UART are \<open>partial_function (option)\<close>, so that not returning is \<open>None\<close>; no fuel is
  used. That they return is proved: the simulation loop from the cycle limit of the test bench, an
  access from the fairness of the random source (grants come again and again), the UART from a
  device that becomes ready after some number of polls. The latencies of the multiply/divide unit and of a redirected fetch are exact numbers of cycles; \<open>stage_exec\<close>, which
  holds an instruction in the execute stage, has fuel, 68 cycles for a division and 2 for a cryptography instruction,
  and is proved to deliver with it.

  \<^bold>\<open>Not modelled.\<close> Compressed instructions are decoded (\<open>Decode\<close>, with their immediates) but not compared with their
  expansions, and the refinement of the instruction set covers instructions of the ALU; branches, jumps, memory, CSR
  and multi-cycle instructions are covered in the execute stage. The interrupt, sleep and trap test programs
  (\<open>test_interrupts.c\<close>, \<open>test_wfi.c\<close> and their neighbours). The AXI bridge. The privilege outputs of the memory
  ports. The latch of the clock gates (\<open>clock_on\<close> is when a gated clock ticks). Assertions and harnesses for other tools. Waveform dumping, help text and
  diagnostic messages of the test bench, and freeing of memory. Verilator's generated classes, the C library's \<open>rand\<close>, the tool dependent value of an out of range select, the
  order in which the compiler evaluates the two reads of a signature byte and the value the linker gives the timer
  pointers of \<open>croyde_csp.h\<close> are arguments.
\<close>

end
